(* ===== verification/Prelude.thy ===== *)
theory Prelude
  imports Main
begin

text \<open>
  Shared vocabulary of the development: identifiers, instants, the exceptions the program
  raises, results of fallible code, Python string helpers, and the generic operations on
  database tables (lists of rows selected by a key) with the lemmas every component uses.
\<close>

section \<open>Collections of facts\<close>

named_theorems result_simps \<open>inversion of the result combinators\<close>
named_theorems table_simps \<open>rewriting of table operations\<close>

section \<open>Identifiers, instants, bytes\<close>

text \<open>
  A UUID is its 128-bit integer value. An instant is a timezone-aware datetime, in
  microseconds since the epoch. A byte string is a list of 8-bit characters.
\<close>

type_synonym uuid = nat
type_synonym instant = int
type_synonym bytes = string

text \<open>\<open>(get_byte(uuid_send(id), 6) >> 4) = 7\<close>, the CHECK that every primary key carries.\<close>

definition uuid7_check :: "uuid \<Rightarrow> bool" where
  "uuid7_check u \<longleftrightarrow> (u div 2 ^ 72 mod 256) div 2 ^ 4 = 7"

lemma uuid7_check_alt: "uuid7_check u \<longleftrightarrow> u div 2 ^ 76 mod 16 = 7"
proof -
  have "u div 2 ^ 72 mod 256 div 2 ^ 4 = u div 2 ^ 72 div 16 mod 16"
    using mod_mult2_eq [of "u div 2 ^ 72" 16 16] by simp
  also have "\<dots> = u div 2 ^ 76 mod 16"
    by (simp add: div_mult2_eq [symmetric])
  finally show ?thesis by (simp add: uuid7_check_def)
qed

text \<open>Small version-7 identifiers, used by the concrete runs.\<close>

definition sample_id :: "nat \<Rightarrow> uuid" where
  "sample_id k = 7 * 2 ^ 76 + k"

lemma uuid7_check_sample_id [simp]: "k < 2 ^ 76 \<Longrightarrow> uuid7_check (sample_id k)"
  by (simp add: uuid7_check_alt sample_id_def)

lemma sample_id_inject [simp]: "sample_id a = sample_id b \<longleftrightarrow> a = b"
  by (simp add: sample_id_def)

lemma sample_id_less [simp]: "sample_id a < sample_id b \<longleftrightarrow> a < b"
  by (simp add: sample_id_def)

text \<open>\<open>UUID.hex\<close> and \<open>str(UUID)\<close>.\<close>

definition hex_digit :: "nat \<Rightarrow> char" where
  "hex_digit n = (if n < 10 then char_of (48 + n) else char_of (87 + n))"

fun hex_of :: "nat \<Rightarrow> nat \<Rightarrow> string" where
  "hex_of 0 u = []"
| "hex_of (Suc n) u = hex_of n (u div 16) @ [hex_digit (u mod 16)]"

definition uuid_hex :: "uuid \<Rightarrow> string" where
  "uuid_hex u = hex_of 32 u"

definition uuid_str :: "uuid \<Rightarrow> string" where
  "uuid_str u =
     (let h = uuid_hex u
      in take 8 h @ ''-'' @ take 4 (drop 8 h) @ ''-'' @ take 4 (drop 12 h) @ ''-''
         @ take 4 (drop 16 h) @ ''-'' @ drop 20 h)"

lemma hex_digit_inject: "a < 16 \<Longrightarrow> b < 16 \<Longrightarrow> hex_digit a = hex_digit b \<longleftrightarrow> a = b"
  by (auto simp: hex_digit_def)

lemma hex_digit_not_dash: "n < 16 \<Longrightarrow> hex_digit n \<noteq> CHR ''-''"
proof
  assume "n < 16" and "hex_digit n = CHR ''-''"
  then have "of_char (hex_digit n) = (45 :: nat)" by simp
  with \<open>n < 16\<close> show False by (auto simp: hex_digit_def split: if_splits)
qed

lemma length_hex_of [simp]: "length (hex_of n u) = n"
  by (induction n arbitrary: u) auto

lemma unique_quot:
  assumes "16 * a + b = 16 * c + d" and "b < 16" and "d < (16 :: nat)"
  shows "a = c \<and> b = d"
proof -
  have "(16 * a + b) div 16 = a" "(16 * c + d) div 16 = c" using assms(2,3) by simp_all
  with assms(1) show ?thesis by simp
qed

lemma hex_of_inject: "hex_of n u = hex_of n w \<longleftrightarrow> u mod 16 ^ n = w mod 16 ^ n"
proof (induction n arbitrary: u w)
  case 0
  then show ?case by simp
next
  case (Suc n)
  have split: "x mod 16 ^ Suc n = 16 * (x div 16 mod 16 ^ n) + x mod 16" for x :: nat
    by (simp add: mod_mult2_eq)
  have "hex_of (Suc n) u = hex_of (Suc n) w \<longleftrightarrow>
      u div 16 mod 16 ^ n = w div 16 mod 16 ^ n \<and> u mod 16 = w mod 16"
    by (simp add: Suc.IH hex_digit_inject)
  also have "\<dots> \<longleftrightarrow> u mod 16 ^ Suc n = w mod 16 ^ Suc n"
    unfolding split
    using unique_quot [of "u div 16 mod 16 ^ n" "u mod 16" "w div 16 mod 16 ^ n" "w mod 16"]
    by auto
  finally show ?case .
qed

lemma length_uuid_hex [simp]: "length (uuid_hex u) = 32"
  by (simp add: uuid_hex_def)

lemma length_uuid_str [simp]: "length (uuid_str u) = 36"
  by (simp add: uuid_str_def Let_def)

lemma uuid_hex_of_str: "uuid_hex u = filter (\<lambda>c. c \<noteq> CHR ''-'') (uuid_str u)"
proof -
  have "CHR ''-'' \<notin> set (hex_of n w)" for n w
    by (induction n arbitrary: w) (auto simp: hex_digit_not_dash [symmetric])
  then have nd: "CHR ''-'' \<notin> set (uuid_hex u)" by (simp add: uuid_hex_def)
  have flt: "filter (\<lambda>c. c \<noteq> CHR ''-'') xs = xs" if "set xs \<subseteq> set (uuid_hex u)" for xs
    using that nd by (auto intro: filter_True)
  let ?h = "uuid_hex u"
  have sub: "set (take n (drop m ?h)) \<subseteq> set ?h" "set (take n ?h) \<subseteq> set ?h"
    "set (drop m ?h) \<subseteq> set ?h" for n m
    by (auto dest!: in_set_takeD in_set_dropD)
  have "filter (\<lambda>c. c \<noteq> CHR ''-'') (uuid_str u) =
      take 8 ?h @ take 4 (drop 8 ?h) @ take 4 (drop 12 ?h) @ take 4 (drop 16 ?h) @ drop 20 ?h"
    by (simp add: uuid_str_def Let_def flt [OF sub(1)] flt [OF sub(2)] flt [OF sub(3)])
  also have "take 4 (drop 16 ?h) @ drop 20 ?h = drop 16 ?h"
    using append_take_drop_id [of 4 "drop 16 ?h"] by (simp add: drop_drop)
  also have "take 4 (drop 12 ?h) @ drop 16 ?h = drop 12 ?h"
    using append_take_drop_id [of 4 "drop 12 ?h"] by (simp add: drop_drop)
  also have "take 4 (drop 8 ?h) @ drop 12 ?h = drop 8 ?h"
    using append_take_drop_id [of 4 "drop 8 ?h"] by (simp add: drop_drop)
  finally show ?thesis by simp
qed

lemma uuid_str_inject:
  "u < 2 ^ 128 \<Longrightarrow> w < 2 ^ 128 \<Longrightarrow> uuid_str u = uuid_str w \<longleftrightarrow> u = w"
  using hex_of_inject [of 32 u w] uuid_hex_of_str [of u] uuid_hex_of_str [of w]
  by (auto simp: uuid_hex_def)

section \<open>Errors and results\<close>

text \<open>
  One constructor per exception class the modelled code raises: domain errors, application
  errors, infrastructure errors, and the two Python errors that can escape. Public message
  texts are not modelled; data carried by an exception is.
\<close>

datatype error =
    InvalidEntryName | InvalidMove | InvalidChecksum | InvalidStateTransition
  | ResourceNotFound | StorageEntryNotFound | UploadSessionNotFound
  | ConflictErr | StorageNameConflict | UploadOffsetMismatch int | UploadStateConflict
  | ApplicationValidation | UploadValidation
  | DependencyUnavailable | OutboxProcessing
  | AuthenticationFailed | SessionRevoked | AuthenticationRequired
  | CsrfValidation | AccountDisabled
  | RateLimitExceeded int | AccountTemporarilyLocked int
  | PersistenceFailure | UnitOfWorkState | FileStorageFailure
  | PyTypeError | PyValueError | PyOverflowError | PyOSError

type_synonym 'a result = "error + 'a"

definition rbind :: "'a result \<Rightarrow> ('a \<Rightarrow> 'b result) \<Rightarrow> 'b result" where
  "rbind m f = (case m of Inl e \<Rightarrow> Inl e | Inr x \<Rightarrow> f x)"

definition require :: "bool \<Rightarrow> error \<Rightarrow> unit result" where
  "require b e = (if b then Inr () else Inl e)"

definition some_or :: "error \<Rightarrow> 'a option \<Rightarrow> 'a result" where
  "some_or e x = (case x of None \<Rightarrow> Inl e | Some y \<Rightarrow> Inr y)"

lemma rbind_Inl [simp]: "rbind (Inl e) f = Inl e"
  and rbind_Inr [simp]: "rbind (Inr x) f = f x"
  by (simp_all add: rbind_def)

lemma rbind_eq_Inr [result_simps]:
  "rbind m f = Inr y \<longleftrightarrow> (\<exists>x. m = Inr x \<and> f x = Inr y)"
  by (cases m) simp_all

lemma rbind_eq_Inl [result_simps]:
  "rbind m f = Inl e \<longleftrightarrow> m = Inl e \<or> (\<exists>x. m = Inr x \<and> f x = Inl e)"
  by (cases m) simp_all

lemma require_True [simp]: "require True e = Inr ()"
  and require_False [simp]: "require False e = Inl e"
  by (simp_all add: require_def)

lemma require_eq_Inr [result_simps]: "require b e = Inr u \<longleftrightarrow> b"
  by (cases b) simp_all

lemma require_eq_Inl [result_simps]: "require b e = Inl e' \<longleftrightarrow> \<not> b \<and> e' = e"
  by (cases b) auto

lemma some_or_Some [simp]: "some_or e (Some x) = Inr x"
  and some_or_None [simp]: "some_or e None = Inl e"
  by (simp_all add: some_or_def)

lemma some_or_eq_Inr [result_simps]: "some_or e x = Inr y \<longleftrightarrow> x = Some y"
  by (cases x) simp_all

lemma some_or_eq_Inl [result_simps]: "some_or e x = Inl e' \<longleftrightarrow> x = None \<and> e' = e"
  by (cases x) auto

text \<open>A loop whose body may raise: left to right, stopping at the first error.\<close>

fun rfold :: "('a \<Rightarrow> 's \<Rightarrow> 's result) \<Rightarrow> 'a list \<Rightarrow> 's \<Rightarrow> 's result" where
  "rfold f [] s = Inr s"
| "rfold f (x # xs) s = rbind (f x s) (rfold f xs)"

lemma rfold_invariant:
  assumes "rfold f xs s = Inr s'" and "I s"
    and "\<And>x s s'. x \<in> set xs \<Longrightarrow> I s \<Longrightarrow> f x s = Inr s' \<Longrightarrow> I s'"
  shows "I s'"
  using assms
proof (induction xs arbitrary: s)
  case Nil
  then show ?case by simp
next
  case (Cons x xs)
  from Cons.prems(1) obtain t where t: "f x s = Inr t" "rfold f xs t = Inr s'"
    by (auto simp: result_simps)
  have "I t" using Cons.prems(3) [of x s t] Cons.prems(2) t(1) by simp
  with t(2) show ?case using Cons.prems(3) by (intro Cons.IH) auto
qed

section \<open>Python string helpers\<close>

definition py_strip :: "(char \<Rightarrow> bool) \<Rightarrow> string \<Rightarrow> string" where
  "py_strip sp s = rev (dropWhile sp (rev (dropWhile sp s)))"

definition py_rfind :: "char \<Rightarrow> string \<Rightarrow> nat option" where
  "py_rfind c s =
     (if c \<in> set s then Some (length s - 1 - length (takeWhile (\<lambda>x. x \<noteq> c) (rev s)))
      else None)"

definition py_startswith :: "string \<Rightarrow> string \<Rightarrow> bool" where
  "py_startswith s p \<longleftrightarrow> take (length p) s = p"

definition py_removeprefix :: "string \<Rightarrow> string \<Rightarrow> string" where
  "py_removeprefix s p = (if py_startswith s p then drop (length p) s else s)"

text \<open>\<open>s.partition(c)\<close>: the text before the separator, whether it was found, the rest.\<close>

definition py_partition :: "char \<Rightarrow> string \<Rightarrow> string \<times> bool \<times> string" where
  "py_partition c s =
     (if c \<in> set s
      then (takeWhile (\<lambda>x. x \<noteq> c) s, True, tl (dropWhile (\<lambda>x. x \<noteq> c) s))
      else (s, False, []))"

fun py_split :: "char \<Rightarrow> string \<Rightarrow> string list" where
  "py_split c [] = [[]]"
| "py_split c (x # xs) =
     (if x = c then [] # py_split c xs
      else (case py_split c xs of [] \<Rightarrow> [[x]] | w # ws \<Rightarrow> (x # w) # ws))"

lemma py_split_not_Nil [simp]: "py_split c s \<noteq> []"
  by (induction s) (auto split: list.splits)

lemma py_split_single: "c \<notin> set s \<Longrightarrow> py_split c s = [s]"
  by (induction s) auto

lemma length_py_strip_le: "length (py_strip sp s) \<le> length s"
proof -
  have "length (dropWhile sp (rev (dropWhile sp s))) \<le> length (rev (dropWhile sp s))"
    by (rule length_dropWhile_le)
  also have "\<dots> \<le> length s" by (simp add: length_dropWhile_le)
  finally show ?thesis by (simp add: py_strip_def)
qed

lemma set_py_strip_subset: "set (py_strip sp s) \<subseteq> set s"
  by (auto simp: py_strip_def dest!: set_dropWhileD)

lemma py_strip_fixed:
  assumes "s = [] \<or> \<not> sp (hd s) \<and> \<not> sp (last s)"
  shows "py_strip sp s = s"
proof -
  have "dropWhile sp s = s" using assms by (auto simp: dropWhile_eq_self_iff)
  moreover have "dropWhile sp (rev s) = rev s"
    using assms by (auto simp: dropWhile_eq_self_iff hd_rev)
  ultimately show ?thesis by (simp add: py_strip_def)
qed

lemma last_dropWhile_eq: "dropWhile sp xs \<noteq> [] \<Longrightarrow> last (dropWhile sp xs) = last xs"
  by (induction xs) (auto split: if_splits)

lemma py_strip_ends:
  assumes "py_strip sp s \<noteq> []"
  shows "\<not> sp (hd (py_strip sp s))" and "\<not> sp (last (py_strip sp s))"
proof -
  let ?d = "dropWhile sp s" and ?e = "dropWhile sp (rev (dropWhile sp s))"
  from assms have ne: "?e \<noteq> []" by (simp add: py_strip_def)
  then have dne: "?d \<noteq> []" by (metis dropWhile.simps(1) rev.simps(1))
  show "\<not> sp (last (py_strip sp s))"
    using hd_dropWhile [OF ne] ne by (simp add: py_strip_def last_rev)
  show "\<not> sp (hd (py_strip sp s))"
    using hd_dropWhile [OF dne] last_dropWhile_eq [OF ne] ne dne
    by (simp add: py_strip_def hd_rev last_rev)
qed

lemma py_strip_idem [simp]: "py_strip sp (py_strip sp s) = py_strip sp s"
  by (cases "py_strip sp s = []") (auto intro: py_strip_fixed simp: py_strip_ends)

section \<open>Tables\<close>

text \<open>
  A table is the list of its rows; \<open>key\<close> selects the primary key. \<open>SELECT ... WHERE
  key = k\<close> is \<open>tbl_find\<close>, \<open>UPDATE ... WHERE P\<close> is \<open>tbl_update\<close> (with its row count),
  \<open>DELETE ... WHERE P\<close> is \<open>tbl_delete\<close>.
\<close>

definition tbl_find :: "('r \<Rightarrow> 'k) \<Rightarrow> 'k \<Rightarrow> 'r list \<Rightarrow> 'r option" where
  "tbl_find key k tbl = find (\<lambda>r. key r = k) tbl"

definition tbl_update :: "('r \<Rightarrow> bool) \<Rightarrow> ('r \<Rightarrow> 'r) \<Rightarrow> 'r list \<Rightarrow> 'r list" where
  "tbl_update P f tbl = map (\<lambda>r. if P r then f r else r) tbl"

definition tbl_count :: "('r \<Rightarrow> bool) \<Rightarrow> 'r list \<Rightarrow> nat" where
  "tbl_count P tbl = length (filter P tbl)"

definition tbl_delete :: "('r \<Rightarrow> bool) \<Rightarrow> 'r list \<Rightarrow> 'r list" where
  "tbl_delete P tbl = filter (\<lambda>r. \<not> P r) tbl"

definition tbl_keys :: "('r \<Rightarrow> 'k) \<Rightarrow> 'r list \<Rightarrow> 'k set" where
  "tbl_keys key tbl = key ` set tbl"

lemma tbl_find_Nil [simp]: "tbl_find key k [] = None"
  and tbl_find_Cons [simp]:
    "tbl_find key k (r # tbl) = (if key r = k then Some r else tbl_find key k tbl)"
  by (simp_all add: tbl_find_def)

lemma tbl_find_Some_D: "tbl_find key k tbl = Some r \<Longrightarrow> r \<in> set tbl \<and> key r = k"
  by (induction tbl) (auto split: if_splits)

lemma tbl_find_in: "tbl_find key k tbl = Some r \<Longrightarrow> r \<in> set tbl"
  and tbl_find_key: "tbl_find key k tbl = Some r \<Longrightarrow> key r = k"
  by (auto dest: tbl_find_Some_D)

lemma tbl_find_None_iff [table_simps]:
  "tbl_find key k tbl = None \<longleftrightarrow> k \<notin> tbl_keys key tbl"
  by (induction tbl) (auto simp: tbl_keys_def)

lemma tbl_find_distinct:
  "distinct (map key tbl) \<Longrightarrow> r \<in> set tbl \<Longrightarrow> tbl_find key (key r) tbl = Some r"
  by (induction tbl) (auto simp: rev_image_eqI)

lemma tbl_find_eq_iff:
  "distinct (map key tbl) \<Longrightarrow> tbl_find key k tbl = Some r \<longleftrightarrow> r \<in> set tbl \<and> key r = k"
  by (auto dest: tbl_find_Some_D tbl_find_distinct)

lemma distinct_key_inject:
  "distinct (map key tbl) \<Longrightarrow> r \<in> set tbl \<Longrightarrow> s \<in> set tbl \<Longrightarrow> key r = key s \<Longrightarrow> r = s"
  by (meson distinct_map inj_onD)

lemma tbl_find_append [table_simps]:
  "tbl_find key k (xs @ ys) =
     (case tbl_find key k xs of None \<Rightarrow> tbl_find key k ys | Some r \<Rightarrow> Some r)"
  by (induction xs) auto

lemma tbl_keys_append [table_simps]:
  "tbl_keys key (xs @ ys) = tbl_keys key xs \<union> tbl_keys key ys"
  by (auto simp: tbl_keys_def)

lemma tbl_keys_single [table_simps]: "tbl_keys key [r] = {key r}"
  by (simp add: tbl_keys_def)

lemma tbl_keys_I [intro]: "r \<in> set tbl \<Longrightarrow> key r \<in> tbl_keys key tbl"
  by (simp add: tbl_keys_def)

lemma tbl_update_Nil [simp]: "tbl_update P f [] = []"
  and tbl_update_Cons [simp]:
    "tbl_update P f (r # tbl) = (if P r then f r else r) # tbl_update P f tbl"
  by (simp_all add: tbl_update_def)

lemma length_tbl_update [simp]: "length (tbl_update P f tbl) = length tbl"
  by (simp add: tbl_update_def)

lemma set_tbl_update [table_simps]:
  "set (tbl_update P f tbl) = (\<lambda>r. if P r then f r else r) ` set tbl"
  by (simp add: tbl_update_def)

lemma tbl_update_keep: "r \<in> set tbl \<Longrightarrow> \<not> P r \<Longrightarrow> r \<in> set (tbl_update P f tbl)"
  and tbl_update_hit: "r \<in> set tbl \<Longrightarrow> P r \<Longrightarrow> f r \<in> set (tbl_update P f tbl)"
  by (force simp: set_tbl_update)+

lemma map_key_tbl_update [table_simps]:
  "(\<And>r. key (f r) = key r) \<Longrightarrow> map key (tbl_update P f tbl) = map key tbl"
  by (induction tbl) auto

lemma tbl_keys_update [table_simps]:
  "(\<And>r. key (f r) = key r) \<Longrightarrow> tbl_keys key (tbl_update P f tbl) = tbl_keys key tbl"
  unfolding tbl_keys_def set_tbl_update image_image by (rule image_cong) auto

lemma tbl_find_update [table_simps]:
  assumes "\<And>r. key (f r) = key r"
  shows "tbl_find key k (tbl_update P f tbl) =
    map_option (\<lambda>r. if P r then f r else r) (tbl_find key k tbl)"
  using assms by (induction tbl) auto

lemma tbl_delete_Nil [simp]: "tbl_delete P [] = []"
  and tbl_delete_Cons [simp]:
    "tbl_delete P (r # tbl) = (if P r then tbl_delete P tbl else r # tbl_delete P tbl)"
  by (simp_all add: tbl_delete_def)

lemma set_tbl_delete [table_simps]: "set (tbl_delete P tbl) = {r \<in> set tbl. \<not> P r}"
  by (auto simp: tbl_delete_def)

lemma tbl_keys_delete_subset: "tbl_keys key (tbl_delete P tbl) \<subseteq> tbl_keys key tbl"
  by (auto simp: tbl_keys_def set_tbl_delete)

lemma distinct_map_tbl_delete:
  "distinct (map key tbl) \<Longrightarrow> distinct (map key (tbl_delete P tbl))"
  by (simp add: tbl_delete_def distinct_map_filter)

lemma tbl_find_delete:
  "(\<And>r. key r = k \<Longrightarrow> \<not> P r) \<Longrightarrow> tbl_find key k (tbl_delete P tbl) = tbl_find key k tbl"
  by (induction tbl) auto

lemma tbl_count_pos_iff: "0 < tbl_count P tbl \<longleftrightarrow> (\<exists>r \<in> set tbl. P r)"
  by (simp add: tbl_count_def filter_empty_conv)

lemma tbl_count_key_1_iff:
  assumes "distinct (map key tbl)"
  shows "tbl_count (\<lambda>r. key r = k) tbl = 1 \<longleftrightarrow> k \<in> tbl_keys key tbl"
  using assms
proof (induction tbl)
  case Nil
  then show ?case by (simp add: tbl_count_def tbl_keys_def)
next
  case (Cons r tbl)
  show ?case
  proof (cases "key r = k")
    case True
    with Cons.prems have "filter (\<lambda>r. key r = k) tbl = []"
      by (auto simp: filter_empty_conv image_iff)
    with True show ?thesis by (simp add: tbl_count_def tbl_keys_def)
  next
    case False
    with Cons show ?thesis by (auto simp: tbl_count_def tbl_keys_def)
  qed
qed

end
