(* ===== verification/Storage_Domain.thy ===== *)
theory Storage_Domain
  imports Prelude
begin

text \<open>
  The storage domain (\<open>app/domain/storage\<close>): the value objects \<open>EntryName\<close> and
  \<open>Sha256Checksum\<close>, the enumerations, the entities and the state changes each of them
  allows. The Unicode tables of Python's \<open>unicodedata\<close> and \<open>str\<close> methods are the
  parameter \<open>unicode\<close>; the laws the code relies on are the locale \<open>unicode_laws\<close>.
\<close>

section \<open>Unicode operations\<close>

record unicode =
  u_nfc :: "string \<Rightarrow> string"
  u_nfkc :: "string \<Rightarrow> string"
  u_casefold :: "string \<Rightarrow> string"
  u_is_space :: "char \<Rightarrow> bool"
  u_is_control :: "char \<Rightarrow> bool"

text \<open>\<open>u_is_control\<close> is \<open>unicodedata.category(c).startswith("C")\<close>. The instance for ASCII text:\<close>

definition ascii_lower :: "char \<Rightarrow> char" where
  "ascii_lower c =
     (let n = of_char c :: nat in if 65 \<le> n \<and> n \<le> 90 then char_of (n + 32) else c)"

definition ascii_unicode :: unicode where
  "ascii_unicode =
     \<lparr>u_nfc = (\<lambda>s. s), u_nfkc = (\<lambda>s. s), u_casefold = map ascii_lower,
      u_is_space = (\<lambda>c. (of_char c :: nat) \<in> {9, 10, 11, 12, 13, 28, 29, 30, 31, 32}),
      u_is_control = (\<lambda>c. (of_char c :: nat) < 32 \<or> (of_char c :: nat) = 127)\<rparr>"

definition hex_digits :: string where
  "hex_digits = ''0123456789abcdef''"

definition valid_sha256 :: "string \<Rightarrow> bool" where
  "valid_sha256 s \<longleftrightarrow> length s = 64 \<and> set s \<subseteq> set hex_digits"

text \<open>
  What the code takes for granted of the Unicode tables: composing is idempotent and does
  not undo stripping, and casefolding leaves lower-case hexadecimal text alone.
\<close>

locale unicode_laws =
  fixes U :: unicode
  assumes nfc_idem: "u_nfc U (u_nfc U s) = u_nfc U s"
    and nfc_strip: "u_nfc U (py_strip (u_is_space U) (u_nfc U s)) =
          py_strip (u_is_space U) (u_nfc U s)"
    and casefold_hex: "set s \<subseteq> set hex_digits \<Longrightarrow> u_casefold U s = s"

lemma ascii_lower_hex: "c \<in> set hex_digits \<Longrightarrow> ascii_lower c = c"
  by (auto simp: hex_digits_def ascii_lower_def)

lemma ascii_casefold_hex:
  assumes "set s \<subseteq> set hex_digits"
  shows "u_casefold ascii_unicode s = s"
proof -
  have "map ascii_lower s = map (\<lambda>c. c) s"
    using assms by (intro map_cong refl ascii_lower_hex) auto
  then show ?thesis by (simp add: ascii_unicode_def)
qed

interpretation ascii_text: unicode_laws ascii_unicode
  by unfold_locales (simp_all add: ascii_casefold_hex, simp_all add: ascii_unicode_def)

section \<open>Value objects\<close>

record entry_name =
  en_value :: string
  en_normalized :: string

definition entry_name_create :: "unicode \<Rightarrow> string \<Rightarrow> entry_name result" where
  "entry_name_create U v =
     (let visible = py_strip (u_is_space U) (u_nfc U v);
          normalized = u_casefold U (u_nfkc U visible)
      in if visible = [] \<or> 255 < length visible \<or> visible \<in> {''.'', ''..''}
            \<or> CHR ''/'' \<in> set visible \<or> CHR 0x5C \<in> set visible \<or> CHR 0x00 \<in> set visible
            \<or> list_ex (u_is_control U) visible
         then Inl InvalidEntryName
         else Inr \<lparr>en_value = visible, en_normalized = normalized\<rparr>)"

text \<open>\<open>PurePath(name).suffix\<close> of a name without separators (Python 3.13).\<close>

definition purepath_suffix :: "string \<Rightarrow> string" where
  "purepath_suffix name =
     (case py_rfind CHR ''.'' name of
        None \<Rightarrow> []
      | Some i \<Rightarrow> if 0 < i \<and> i + 1 < length name then drop i name else [])"

definition entry_name_extension :: "unicode \<Rightarrow> entry_name \<Rightarrow> string" where
  "entry_name_extension U n =
     (let suffix = purepath_suffix (en_value n)
      in if suffix \<noteq> [] then u_casefold U (tl suffix) else [])"

definition sha256_create :: "unicode \<Rightarrow> string \<Rightarrow> string result" where
  "sha256_create U v =
     (let normalized = u_casefold U v
      in if valid_sha256 normalized then Inr normalized else Inl InvalidChecksum)"

text \<open>A created name is non-empty, bounded, free of separators and controls.\<close>

lemma entry_name_create_value:
  assumes "entry_name_create U v = Inr n"
  shows "en_value n \<noteq> []" and "length (en_value n) \<le> 255"
    and "en_value n \<notin> {''.'', ''..''}" and "CHR ''/'' \<notin> set (en_value n)"
    and "CHR 0x5C \<notin> set (en_value n)" and "CHR 0x00 \<notin> set (en_value n)"
    and "\<forall>c \<in> set (en_value n). \<not> u_is_control U c"
    and "en_value n = py_strip (u_is_space U) (u_nfc U v)"
    and "en_normalized n = u_casefold U (u_nfkc U (en_value n))"
  using assms
  by (auto simp: entry_name_create_def Let_def list_ex_iff split: if_splits)

lemma entry_name_create_error:
  "entry_name_create U v = Inl e \<Longrightarrow> e = InvalidEntryName"
  by (auto simp: entry_name_create_def Let_def split: if_splits)

context unicode_laws
begin

text \<open>Re-creating a name from its stored value returns the same name and key.\<close>

lemma entry_name_create_idem:
  assumes "entry_name_create U v = Inr n"
  shows "entry_name_create U (en_value n) = Inr n"
proof -
  let ?t = "py_strip (u_is_space U) (u_nfc U v)"
  have fixp: "py_strip (u_is_space U) (u_nfc U ?t) = ?t"
    by (simp add: nfc_strip py_strip_idem)
  from assms have "en_value n = ?t" by (rule entry_name_create_value)
  with assms fixp show ?thesis
    by (auto simp: entry_name_create_def Let_def split: if_splits)
qed

lemma sha256_create_valid: "valid_sha256 s \<Longrightarrow> sha256_create U s = Inr s"
  by (auto simp: sha256_create_def valid_sha256_def casefold_hex)

end

lemma sha256_create_result: "sha256_create U v = Inr s \<Longrightarrow> valid_sha256 s"
  by (auto simp: sha256_create_def Let_def split: if_splits)

section \<open>Enumerations and entities\<close>

datatype entry_type = FolderType | FileType
datatype storage_object_status = ObjStaging | ObjReady | ObjDeleting | ObjQuarantined
datatype derived_asset_status = DerivedPending | DerivedReady | DerivedFailed
datatype upload_status = Created | Uploading | Completed | Cancelled | Expired

record file_metadata =
  fm_original_name :: string
  fm_internal_name :: string
  fm_size :: int
  fm_mime_type :: string
  fm_extension :: string
  fm_checksum :: string
  fm_version_number :: int

text \<open>\<open>Folder\<close> and \<open>File\<close> are the two subclasses of \<open>StorageEntry\<close>.\<close>

datatype entry_kind = Folder | File file_metadata

record storage_entry =
  e_id :: uuid
  e_owner :: uuid
  e_parent :: "uuid option"
  e_name :: string
  e_normalized :: string
  e_created :: instant
  e_updated :: instant
  e_deleted :: "instant option"
  e_kind :: entry_kind

fun is_folder :: "storage_entry \<Rightarrow> bool" where
  "is_folder e = (case e_kind e of Folder \<Rightarrow> True | File _ \<Rightarrow> False)"

definition entry_rename :: "storage_entry \<Rightarrow> entry_name \<Rightarrow> instant \<Rightarrow> storage_entry result" where
  "entry_rename e name now =
     (if e_deleted e \<noteq> None then Inl InvalidStateTransition
      else Inr (e\<lparr>e_name := en_value name, e_normalized := en_normalized name,
                 e_updated := now\<rparr>))"

definition entry_move :: "storage_entry \<Rightarrow> uuid \<Rightarrow> instant \<Rightarrow> storage_entry result" where
  "entry_move e parent_id now =
     (if e_deleted e \<noteq> None then Inl InvalidStateTransition
      else Inr (e\<lparr>e_parent := Some parent_id, e_updated := now\<rparr>))"

definition entry_move_to_trash :: "storage_entry \<Rightarrow> instant \<Rightarrow> storage_entry result" where
  "entry_move_to_trash e now =
     (if e_parent e = None then Inl InvalidStateTransition
      else if e_deleted e = None then Inr (e\<lparr>e_deleted := Some now, e_updated := now\<rparr>)
      else Inr e)"

definition entry_restore :: "storage_entry \<Rightarrow> uuid \<Rightarrow> instant \<Rightarrow> storage_entry result" where
  "entry_restore e parent_id now =
     (if e_deleted e = None then Inl InvalidStateTransition
      else Inr (e\<lparr>e_parent := Some parent_id, e_deleted := None, e_updated := now\<rparr>))"

text \<open>\<open>File.__post_init__\<close>: run whenever a \<open>File\<close> is built, also when it is loaded.\<close>

definition file_post_init :: "unicode \<Rightarrow> file_metadata \<Rightarrow> unit result" where
  "file_post_init U fm =
     rbind (sha256_create U (fm_checksum fm)) (\<lambda>_.
     require (\<not> (fm_size fm < 0 \<or> fm_version_number fm < 1)) InvalidStateTransition)"

record storage_object =
  o_id :: uuid
  o_storage_key :: string
  o_size :: int
  o_mime_type :: string
  o_checksum :: string
  o_status :: storage_object_status
  o_created :: instant
  o_updated :: instant
  o_deleted :: "instant option"

definition storage_object_post_init :: "unicode \<Rightarrow> storage_object \<Rightarrow> unit result" where
  "storage_object_post_init U ob =
     rbind (sha256_create U (o_checksum ob)) (\<lambda>_.
     require (\<not> (o_size ob < 0 \<or> o_storage_key ob = [])) InvalidStateTransition)"

record file_version =
  v_id :: uuid
  v_file :: uuid
  v_object :: uuid
  v_number :: int
  v_original_name :: string
  v_size :: int
  v_mime_type :: string
  v_extension :: string
  v_checksum :: string
  v_created_by :: uuid
  v_created :: instant

definition file_version_post_init :: "unicode \<Rightarrow> file_version \<Rightarrow> unit result" where
  "file_version_post_init U v =
     rbind (sha256_create U (v_checksum v)) (\<lambda>_.
     require (\<not> (v_number v < 1 \<or> v_size v < 0)) InvalidStateTransition)"

record thumbnail =
  th_id :: uuid
  th_version :: uuid
  th_object :: "uuid option"
  th_variant :: string
  th_width :: "int option"
  th_height :: "int option"
  th_status :: derived_asset_status
  th_created :: instant
  th_updated :: instant

record preview =
  pv_id :: uuid
  pv_version :: uuid
  pv_object :: "uuid option"
  pv_variant :: string
  pv_mime_type :: "string option"
  pv_status :: derived_asset_status
  pv_created :: instant
  pv_updated :: instant

record upload_session =
  us_id :: uuid
  us_owner :: uuid
  us_parent :: uuid
  us_original_name :: string
  us_internal_name :: string
  us_expected_size :: int
  us_uploaded_bytes :: int
  us_mime_type :: "string option"
  us_extension :: string
  us_checksum :: "string option"
  us_staging_key :: string
  us_status :: upload_status
  us_expires :: instant
  us_created :: instant
  us_updated :: instant

definition record_progress :: "upload_session \<Rightarrow> int \<Rightarrow> instant \<Rightarrow> upload_session result" where
  "record_progress u persisted_offset now =
     (if us_status u \<notin> {Created, Uploading} then Inl InvalidStateTransition
      else if \<not> (us_uploaded_bytes u \<le> persisted_offset \<and> persisted_offset \<le> us_expected_size u)
      then Inl InvalidStateTransition
      else Inr (u\<lparr>us_uploaded_bytes := persisted_offset, us_status := Uploading,
                 us_updated := now\<rparr>))"

definition upload_complete :: "upload_session \<Rightarrow> string \<Rightarrow> instant \<Rightarrow> upload_session result" where
  "upload_complete u checksum now =
     (if us_uploaded_bytes u \<noteq> us_expected_size u then Inl InvalidStateTransition
      else Inr (u\<lparr>us_checksum := Some checksum, us_status := Completed, us_updated := now\<rparr>))"

definition upload_cancel :: "upload_session \<Rightarrow> instant \<Rightarrow> upload_session result" where
  "upload_cancel u now =
     (if us_status u = Completed then Inl InvalidStateTransition
      else if us_status u = Cancelled then Inr u
      else Inr (u\<lparr>us_status := Cancelled, us_updated := now\<rparr>))"

definition upload_expire :: "upload_session \<Rightarrow> instant \<Rightarrow> upload_session result" where
  "upload_expire u now =
     (if us_status u \<notin> {Created, Uploading} then Inl InvalidStateTransition
      else if us_expires u > now then Inl InvalidStateTransition
      else Inr (u\<lparr>us_status := Expired, us_updated := now\<rparr>))"

record trash_item =
  ti_id :: uuid
  ti_entry :: uuid
  ti_original_parent :: uuid
  ti_deleted_by :: uuid
  ti_trashed_at :: instant

section \<open>Upload sessions as a state machine\<close>

text \<open>
  Any caller of the entity can only move an upload along these transitions. The bytes
  counted never decrease and never exceed the declared size, and the three final states
  are left by no transition except that the entity's \<open>complete\<close> does not look at the
  status.
\<close>

datatype upload_event =
    EvProgress int instant | EvComplete string instant | EvCancel instant | EvExpire instant

fun upload_step :: "upload_session \<Rightarrow> upload_event \<Rightarrow> upload_session result" where
  "upload_step u (EvProgress n now) = record_progress u n now"
| "upload_step u (EvComplete c now) = upload_complete u c now"
| "upload_step u (EvCancel now) = upload_cancel u now"
| "upload_step u (EvExpire now) = upload_expire u now"

definition upload_ok :: "upload_session \<Rightarrow> bool" where
  "upload_ok u \<longleftrightarrow> 0 \<le> us_uploaded_bytes u \<and> us_uploaded_bytes u \<le> us_expected_size u
     \<and> (us_status u = Completed \<longrightarrow> us_uploaded_bytes u = us_expected_size u
          \<and> us_checksum u \<noteq> None)"

lemmas upload_step_defs =
  record_progress_def upload_complete_def upload_cancel_def upload_expire_def

lemma upload_step_ok: "upload_step u ev = Inr u' \<Longrightarrow> upload_ok u \<Longrightarrow> upload_ok u'"
  by (cases ev) (auto simp: upload_step_defs upload_ok_def split: if_splits)

lemma upload_step_frame:
  assumes "upload_step u ev = Inr u'"
  shows "us_id u' = us_id u" and "us_expected_size u' = us_expected_size u"
    and "us_uploaded_bytes u \<le> us_uploaded_bytes u'"
  using assms by (cases ev; auto simp: upload_step_defs split: if_splits)+

fun upload_run :: "upload_session \<Rightarrow> upload_event list \<Rightarrow> upload_session" where
  "upload_run u [] = u"
| "upload_run u (ev # evs) =
     (case upload_step u ev of Inl _ \<Rightarrow> upload_run u evs | Inr u' \<Rightarrow> upload_run u' evs)"

text \<open>
  Whatever sequence of progress, completion, cancellation and expiry calls hits an
  upload session, the confirmed offset only grows, stays within the declared size, and a
  completed session has received exactly its declared size and carries a checksum.
\<close>

theorem upload_run_safe:
  assumes "upload_ok u"
  shows "upload_ok (upload_run u evs)
    \<and> us_expected_size (upload_run u evs) = us_expected_size u
    \<and> us_uploaded_bytes u \<le> us_uploaded_bytes (upload_run u evs)"
  using assms
proof (induction evs arbitrary: u)
  case Nil
  then show ?case by simp
next
  case (Cons ev evs)
  show ?case
  proof (cases "upload_step u ev")
    case (Inl e)
    with Cons show ?thesis by simp
  next
    case (Inr u')
    with Cons.prems have "upload_ok u'" by (blast intro: upload_step_ok)
    from Cons.IH [OF this] show ?thesis
      using Inr upload_step_frame [OF Inr] by auto
  qed
qed

definition sample_upload :: upload_session where
  "sample_upload = \<lparr>us_id = 1, us_owner = 2, us_parent = 3, us_original_name = ''a'',
      us_internal_name = ''a'', us_expected_size = 9, us_uploaded_bytes = 4, us_mime_type = None,
      us_extension = [], us_checksum = None, us_staging_key = ''s'', us_status = Uploading,
      us_expires = 10, us_created = 0, us_updated = 0\<rparr>"

theorem upload_run_safe_witness:
  "upload_ok (upload_run sample_upload [EvProgress 9 1, EvComplete ''c'' 2, EvCancel 3])
    \<and> us_status (upload_run sample_upload [EvProgress 9 1, EvComplete ''c'' 2, EvCancel 3]) = Completed"
proof -
  have "upload_ok sample_upload" by (simp add: upload_ok_def sample_upload_def)
  from upload_run_safe [OF this] show ?thesis
    by (intro conjI) (blast, simp add: sample_upload_def upload_step_defs)
qed

end
