(* ===== verification/Auth_Domain.thy ===== *)
theory Auth_Domain
  imports Prelude
begin

text \<open>
  The authentication domain (\<open>app/domain/auth\<close>): the administrator account with its
  lockout counter, the refresh-token session, the audit event, and their state changes.
\<close>

section \<open>Enumerations\<close>

datatype security_event_type =
    AdminCreated | AdminPasswordChanged | LoginSucceeded | LoginFailed | LoggedOut
  | RefreshRotated | RefreshReuseDetected | SessionRevokedEvent | AllSessionsRevoked

datatype revocation_reason = RevLogout | RevRefreshReuse | RevAdminAction | RevPasswordChanged

section \<open>The administrator account\<close>

record admin_account =
  aa_id :: uuid
  aa_username :: string
  aa_normalized :: string
  aa_password_hash :: string
  aa_enabled :: bool
  aa_failed_attempts :: int
  aa_locked_until :: "instant option"
  aa_password_changed :: instant
  aa_last_login :: "instant option"
  aa_created :: instant
  aa_updated :: instant
  aa_deleted :: "instant option"

definition account_is_locked :: "admin_account \<Rightarrow> instant \<Rightarrow> bool" where
  "account_is_locked a now \<longleftrightarrow>
     (case aa_locked_until a of None \<Rightarrow> False | Some t \<Rightarrow> t > now)"

definition register_failed_login ::
  "admin_account \<Rightarrow> instant \<Rightarrow> int \<Rightarrow> int \<Rightarrow> admin_account" where
  "register_failed_login a now maximum_attempts lock_duration =
     (let n = aa_failed_attempts a + 1;
          a1 = a\<lparr>aa_failed_attempts := n\<rparr>;
          a2 = (if n \<ge> maximum_attempts
                then a1\<lparr>aa_locked_until := Some (now + lock_duration)\<rparr> else a1)
      in a2\<lparr>aa_updated := now\<rparr>)"

definition register_successful_login :: "admin_account \<Rightarrow> instant \<Rightarrow> admin_account" where
  "register_successful_login a now =
     a\<lparr>aa_failed_attempts := 0, aa_locked_until := None, aa_last_login := Some now,
       aa_updated := now\<rparr>"

definition account_change_password ::
  "admin_account \<Rightarrow> string \<Rightarrow> instant \<Rightarrow> admin_account" where
  "account_change_password a password_hash now =
     a\<lparr>aa_password_hash := password_hash, aa_password_changed := now,
       aa_failed_attempts := 0, aa_locked_until := None, aa_updated := now\<rparr>"

section \<open>Sessions\<close>

record auth_session =
  as_id :: uuid
  as_admin :: uuid
  as_family :: uuid
  as_refresh_jti :: uuid
  as_refresh_hash :: string
  as_csrf_hash :: string
  as_expires :: instant
  as_last_rotated :: instant
  as_revoked_at :: "instant option"
  as_revoke_reason :: "revocation_reason option"
  as_ip_hash :: string
  as_user_agent_hash :: string
  as_created :: instant
  as_updated :: instant
  as_deleted :: "instant option"

definition session_is_active :: "auth_session \<Rightarrow> instant \<Rightarrow> bool" where
  "session_is_active s now \<longleftrightarrow>
     as_revoked_at s = None \<and> as_deleted s = None \<and> as_expires s > now"

definition session_rotate ::
  "auth_session \<Rightarrow> uuid \<Rightarrow> string \<Rightarrow> string \<Rightarrow> instant \<Rightarrow> auth_session" where
  "session_rotate s refresh_jti refresh_token_hash csrf_token_hash now =
     s\<lparr>as_refresh_jti := refresh_jti, as_refresh_hash := refresh_token_hash,
       as_csrf_hash := csrf_token_hash, as_last_rotated := now, as_updated := now\<rparr>"

definition session_revoke ::
  "auth_session \<Rightarrow> instant \<Rightarrow> revocation_reason \<Rightarrow> auth_session" where
  "session_revoke s now reason =
     (if as_revoked_at s = None
      then s\<lparr>as_revoked_at := Some now, as_revoke_reason := Some reason, as_updated := now\<rparr>
      else s)"

section \<open>Audit events\<close>

text \<open>The JSON details the code attaches: a reason, attempt and revocation counts.\<close>

record event_details =
  ed_reason :: "string option"
  ed_failed_attempts :: "int option"
  ed_revoked_sessions :: "int option"

definition no_details :: event_details where
  "no_details = \<lparr>ed_reason = None, ed_failed_attempts = None, ed_revoked_sessions = None\<rparr>"

record security_event =
  se_id :: uuid
  se_type :: security_event_type
  se_occurred :: instant
  se_admin :: "uuid option"
  se_session :: "uuid option"
  se_ip_hash :: string
  se_user_agent_hash :: string
  se_details :: event_details

section \<open>Lemmas\<close>

lemma session_revoke_inactive: "\<not> session_is_active (session_revoke s t r) now"
  by (simp add: session_is_active_def session_revoke_def)

lemma session_revoke_idem: "session_revoke (session_revoke s t r) t' r' = session_revoke s t r"
  by (simp add: session_revoke_def)

lemma session_revoke_frame [simp]:
  "as_id (session_revoke s t r) = as_id s"
  "as_refresh_jti (session_revoke s t r) = as_refresh_jti s"
  "as_refresh_hash (session_revoke s t r) = as_refresh_hash s"
  "as_csrf_hash (session_revoke s t r) = as_csrf_hash s"
  "as_family (session_revoke s t r) = as_family s"
  "as_admin (session_revoke s t r) = as_admin s"
  "as_expires (session_revoke s t r) = as_expires s"
  "as_deleted (session_revoke s t r) = as_deleted s"
  by (simp_all add: session_revoke_def)

lemma session_rotate_frame [simp]:
  "as_id (session_rotate s j h c t) = as_id s"
  "as_admin (session_rotate s j h c t) = as_admin s"
  "as_family (session_rotate s j h c t) = as_family s"
  "as_expires (session_rotate s j h c t) = as_expires s"
  "as_revoked_at (session_rotate s j h c t) = as_revoked_at s"
  "as_deleted (session_rotate s j h c t) = as_deleted s"
  "session_is_active (session_rotate s j h c t) now = session_is_active s now"
  by (simp_all add: session_rotate_def session_is_active_def)

text \<open>The lockout: how many consecutive failures lock the account, and for how long.\<close>

fun fail_times :: "nat \<Rightarrow> admin_account \<Rightarrow> instant \<Rightarrow> int \<Rightarrow> int \<Rightarrow> admin_account" where
  "fail_times 0 a now m d = a"
| "fail_times (Suc n) a now m d = fail_times n (register_failed_login a now m d) now m d"

lemma register_failed_login_simps [simp]:
  "aa_failed_attempts (register_failed_login a now m d) = aa_failed_attempts a + 1"
  "aa_id (register_failed_login a now m d) = aa_id a"
  "aa_enabled (register_failed_login a now m d) = aa_enabled a"
  "aa_deleted (register_failed_login a now m d) = aa_deleted a"
  "aa_normalized (register_failed_login a now m d) = aa_normalized a"
  "aa_password_hash (register_failed_login a now m d) = aa_password_hash a"
  by (simp_all add: register_failed_login_def Let_def)

lemma register_failed_login_locked_until:
  "aa_locked_until (register_failed_login a now m d) =
     (if aa_failed_attempts a + 1 \<ge> m then Some (now + d) else aa_locked_until a)"
  by (simp add: register_failed_login_def Let_def)

lemma fail_times_attempts:
  "aa_failed_attempts (fail_times n a now m d) = aa_failed_attempts a + int n"
  by (induction n arbitrary: a) auto

lemma fail_times_locked_until:
  "aa_locked_until (fail_times n a now m d) =
     (if 0 < n \<and> aa_failed_attempts a + int n \<ge> m then Some (now + d)
      else aa_locked_until a)"
proof (induction n arbitrary: a)
  case 0
  then show ?case by simp
next
  case (Suc n)
  show ?case
    by (auto simp: Suc.IH register_failed_login_locked_until)
qed

text \<open>
  Starting from a clean counter, exactly the first \<open>maximum_attempts - 1\<close> failures
  leave the account open; from the \<open>maximum_attempts\<close>-th on it is locked for the configured
  duration; and after that lock has run out one single further failure locks it again,
  because only a success or a password change resets the counter.
\<close>

theorem lockout_after_maximum_attempts:
  assumes "aa_failed_attempts a = 0" and "aa_locked_until a = None"
    and "0 < m" and "0 < d" and "now + d \<le> later"
  shows "(account_is_locked (fail_times n a now m d) now \<longleftrightarrow> m \<le> int n)
    \<and> \<not> account_is_locked (fail_times n a now m d) later
    \<and> (account_is_locked
          (register_failed_login (fail_times n a now m d) later m d) later
        \<longleftrightarrow> m \<le> int n + 1)"
  using assms
  by (auto simp: account_is_locked_def fail_times_locked_until fail_times_attempts
      register_failed_login_locked_until)

definition sample_account :: admin_account where
  "sample_account = \<lparr>aa_id = sample_id 1, aa_username = ''Admin'', aa_normalized = ''admin'',
     aa_password_hash = ''h'', aa_enabled = True, aa_failed_attempts = 0,
     aa_locked_until = None, aa_password_changed = 0, aa_last_login = None, aa_created = 0,
     aa_updated = 0, aa_deleted = None\<rparr>"

theorem lockout_after_maximum_attempts_witness:
  "account_is_locked (fail_times 5 sample_account 10 5 900) 10
    \<and> \<not> account_is_locked (fail_times 4 sample_account 10 5 900) 10"
  using lockout_after_maximum_attempts [of sample_account 5 900 10 910 5]
    lockout_after_maximum_attempts [of sample_account 5 900 10 910 4]
  by (simp add: sample_account_def)

end
