(* ===== verification/Database.thy ===== *)
theory Database
  imports Storage_Domain Auth_Domain "HOL-Library.Product_Lexorder"
begin

text \<open>
  The PostgreSQL database: one row record per ORM model
  (\<open>app/infrastructure/persistence/models\<close>), the tables together in the record \<open>db\<close>, and
  the constraints the models declare. A write whose resulting table violates a constraint
  raises; the repositories turn that into \<open>PersistenceFailure\<close>. Widths of
  columns are checked where the code does not check them first.
\<close>

section \<open>Rows\<close>

record entry_row =
  r_id :: uuid
  r_owner :: uuid
  r_parent :: "uuid option"
  r_type :: entry_type
  r_name :: string
  r_normalized :: string
  r_created :: instant
  r_updated :: instant
  r_deleted :: "instant option"

record meta_row =
  m_entry :: uuid
  m_data :: file_metadata

datatype json_value = JNull | JBool bool | JInt int | JStr string

type_synonym json_object = "(string \<times> json_value) list"

record outbox_row =
  ob_id :: uuid
  ob_aggregate_id :: uuid
  ob_aggregate_type :: string
  ob_event_type :: string
  ob_occurred :: instant
  ob_payload :: json_object
  ob_processed :: "instant option"
  ob_attempts :: int
  ob_last_error :: "string option"
  ob_created :: instant
  ob_updated :: instant
  ob_deleted :: "instant option"

record favorite_row =
  fav_owner :: uuid
  fav_entry :: uuid
  fav_created :: instant

record recent_row =
  rec_owner :: uuid
  rec_entry :: uuid
  rec_opened :: instant
  rec_count :: int

record rate_limit_row =
  rl_id :: uuid
  rl_scope :: string
  rl_subject :: string
  rl_window_started :: instant
  rl_count :: int
  rl_blocked_until :: "instant option"
  rl_updated :: instant

section \<open>The database\<close>

record db =
  db_accounts :: "admin_account list"
  db_sessions :: "auth_session list"
  db_events :: "security_event list"
  db_rate_limits :: "rate_limit_row list"
  db_entries :: "entry_row list"
  db_meta :: "meta_row list"
  db_objects :: "storage_object list"
  db_versions :: "file_version list"
  db_thumbnails :: "thumbnail list"
  db_previews :: "preview list"
  db_uploads :: "upload_session list"
  db_trash :: "trash_item list"
  db_outbox :: "outbox_row list"
  db_favorites :: "favorite_row list"
  db_recents :: "recent_row list"

definition empty_db :: db where
  "empty_db = \<lparr>db_accounts = [], db_sessions = [], db_events = [], db_rate_limits = [],
     db_entries = [], db_meta = [], db_objects = [], db_versions = [], db_thumbnails = [],
     db_previews = [], db_uploads = [], db_trash = [], db_outbox = [], db_favorites = [],
     db_recents = []\<rparr>"

abbreviation account_ids :: "db \<Rightarrow> uuid set" where
  "account_ids d \<equiv> tbl_keys aa_id (db_accounts d)"

abbreviation entry_ids :: "db \<Rightarrow> uuid set" where
  "entry_ids d \<equiv> tbl_keys r_id (db_entries d)"

section \<open>Constraints\<close>

definition bigint :: "int \<Rightarrow> bool" where
  "bigint n \<longleftrightarrow> - (2 ^ 63) \<le> n \<and> n < 2 ^ 63"

text \<open>\<open>storage_entries\<close>: primary key, CHECKs, foreign keys, the two partial unique indexes.\<close>

definition entry_row_check :: "uuid set \<Rightarrow> uuid set \<Rightarrow> entry_row \<Rightarrow> bool" where
  "entry_row_check accounts ids r \<longleftrightarrow>
     uuid7_check (r_id r) \<and> r_owner r \<in> accounts
     \<and> (case r_parent r of None \<Rightarrow> r_type r = FolderType | Some p \<Rightarrow> p \<in> ids)
     \<and> length (r_name r) \<le> 255 \<and> length (r_normalized r) \<le> 255"

definition sibling_keys :: "entry_row list \<Rightarrow> (uuid option \<times> string) list" where
  "sibling_keys tbl =
     map (\<lambda>r. (r_parent r, r_normalized r))
       (filter (\<lambda>r. r_deleted r = None \<and> r_parent r \<noteq> None) tbl)"

definition root_owners :: "entry_row list \<Rightarrow> uuid list" where
  "root_owners tbl =
     map r_owner (filter (\<lambda>r. r_parent r = None \<and> r_deleted r = None) tbl)"

definition entries_ok :: "uuid set \<Rightarrow> entry_row list \<Rightarrow> bool" where
  "entries_ok accounts tbl \<longleftrightarrow>
     distinct (map r_id tbl)
     \<and> (\<forall>r \<in> set tbl. entry_row_check accounts (tbl_keys r_id tbl) r)
     \<and> distinct (sibling_keys tbl) \<and> distinct (root_owners tbl)"

definition meta_row_check :: "meta_row \<Rightarrow> bool" where
  "meta_row_check m \<longleftrightarrow>
     (let fm = m_data m in 0 \<le> fm_size fm \<and> bigint (fm_size fm) \<and> 1 \<le> fm_version_number fm
       \<and> valid_sha256 (fm_checksum fm) \<and> length (fm_original_name fm) \<le> 255
       \<and> length (fm_internal_name fm) \<le> 300 \<and> length (fm_mime_type fm) \<le> 255
       \<and> length (fm_extension fm) \<le> 50)"

definition object_check :: "storage_object \<Rightarrow> bool" where
  "object_check ob \<longleftrightarrow>
     uuid7_check (o_id ob) \<and> 0 \<le> o_size ob \<and> bigint (o_size ob) \<and> valid_sha256 (o_checksum ob)
     \<and> length (o_storage_key ob) \<le> 500 \<and> length (o_mime_type ob) \<le> 255"

definition version_check :: "db \<Rightarrow> file_version \<Rightarrow> bool" where
  "version_check d v \<longleftrightarrow>
     uuid7_check (v_id v) \<and> 1 \<le> v_number v \<and> 0 \<le> v_size v \<and> bigint (v_size v)
     \<and> valid_sha256 (v_checksum v) \<and> v_file v \<in> tbl_keys m_entry (db_meta d)
     \<and> v_object v \<in> tbl_keys o_id (db_objects d) \<and> v_created_by v \<in> account_ids d
     \<and> length (v_original_name v) \<le> 255 \<and> length (v_mime_type v) \<le> 255
     \<and> length (v_extension v) \<le> 50"

definition upload_check :: "db \<Rightarrow> upload_session \<Rightarrow> bool" where
  "upload_check d u \<longleftrightarrow>
     uuid7_check (us_id u) \<and> us_owner u \<in> account_ids d \<and> us_parent u \<in> entry_ids d
     \<and> 0 \<le> us_expected_size u \<and> bigint (us_expected_size u)
     \<and> 0 \<le> us_uploaded_bytes u \<and> us_uploaded_bytes u \<le> us_expected_size u
     \<and> (case us_checksum u of None \<Rightarrow> True | Some c \<Rightarrow> valid_sha256 c)
     \<and> length (us_original_name u) \<le> 255 \<and> length (us_internal_name u) \<le> 300
     \<and> (case us_mime_type u of None \<Rightarrow> True | Some m \<Rightarrow> length m \<le> 255)
     \<and> length (us_extension u) \<le> 50 \<and> length (us_staging_key u) \<le> 500"

definition trash_check :: "db \<Rightarrow> trash_item \<Rightarrow> bool" where
  "trash_check d t \<longleftrightarrow>
     uuid7_check (ti_id t) \<and> ti_entry t \<in> entry_ids d \<and> ti_deleted_by t \<in> account_ids d"

definition outbox_check :: "outbox_row \<Rightarrow> bool" where
  "outbox_check r \<longleftrightarrow>
     uuid7_check (ob_id r) \<and> 0 \<le> ob_attempts r \<and> length (ob_aggregate_type r) \<le> 100
     \<and> length (ob_event_type r) \<le> 200"

section \<open>Checked writes\<close>

definition write_entries :: "entry_row list \<Rightarrow> db \<Rightarrow> db result" where
  "write_entries tbl d =
     (if entries_ok (account_ids d) tbl then Inr (d\<lparr>db_entries := tbl\<rparr>)
      else Inl PersistenceFailure)"

definition insert_meta :: "meta_row \<Rightarrow> db \<Rightarrow> db result" where
  "insert_meta m d =
     (if meta_row_check m \<and> m_entry m \<in> entry_ids d
         \<and> m_entry m \<notin> tbl_keys m_entry (db_meta d)
         \<and> fm_internal_name (m_data m)
             \<notin> tbl_keys (\<lambda>m. fm_internal_name (m_data m)) (db_meta d)
      then Inr (d\<lparr>db_meta := db_meta d @ [m]\<rparr>) else Inl PersistenceFailure)"

definition insert_version :: "file_version \<Rightarrow> db \<Rightarrow> db result" where
  "insert_version v d =
     (if version_check d v \<and> v_id v \<notin> tbl_keys v_id (db_versions d)
         \<and> (v_file v, v_number v) \<notin> tbl_keys (\<lambda>v. (v_file v, v_number v)) (db_versions d)
      then Inr (d\<lparr>db_versions := db_versions d @ [v]\<rparr>) else Inl PersistenceFailure)"

definition insert_object :: "storage_object \<Rightarrow> db \<Rightarrow> db result" where
  "insert_object ob d =
     (if object_check ob \<and> o_id ob \<notin> tbl_keys o_id (db_objects d)
         \<and> o_storage_key ob \<notin> tbl_keys o_storage_key (db_objects d)
      then Inr (d\<lparr>db_objects := db_objects d @ [ob]\<rparr>) else Inl PersistenceFailure)"

definition insert_upload :: "upload_session \<Rightarrow> db \<Rightarrow> db result" where
  "insert_upload u d =
     (if upload_check d u \<and> us_id u \<notin> tbl_keys us_id (db_uploads d)
         \<and> us_staging_key u \<notin> tbl_keys us_staging_key (db_uploads d)
      then Inr (d\<lparr>db_uploads := db_uploads d @ [u]\<rparr>) else Inl PersistenceFailure)"

definition insert_trash :: "trash_item \<Rightarrow> db \<Rightarrow> db result" where
  "insert_trash t d =
     (if trash_check d t \<and> ti_id t \<notin> tbl_keys ti_id (db_trash d)
         \<and> ti_entry t \<notin> tbl_keys ti_entry (db_trash d)
      then Inr (d\<lparr>db_trash := db_trash d @ [t]\<rparr>) else Inl PersistenceFailure)"

definition insert_outbox :: "outbox_row \<Rightarrow> db \<Rightarrow> db result" where
  "insert_outbox r d =
     (if outbox_check r \<and> ob_id r \<notin> tbl_keys ob_id (db_outbox d)
      then Inr (d\<lparr>db_outbox := db_outbox d @ [r]\<rparr>) else Inl PersistenceFailure)"

text \<open>
  The foreign keys with \<open>ON DELETE CASCADE\<close> that hang off \<open>storage_entries\<close>: metadata,
  versions, derived assets, uploads, tombstones, favourites, recent opens.
\<close>

definition cascade_entries :: "uuid set \<Rightarrow> db \<Rightarrow> db" where
  "cascade_entries gone d =
     (let meta = tbl_delete (\<lambda>m. m_entry m \<in> gone) (db_meta d);
          versions = tbl_delete (\<lambda>v. v_file v \<in> gone) (db_versions d);
          dead = tbl_keys v_id (filter (\<lambda>v. v_file v \<in> gone) (db_versions d))
      in d\<lparr>db_entries := tbl_delete (\<lambda>r. r_id r \<in> gone) (db_entries d),
           db_meta := meta, db_versions := versions,
           db_thumbnails := tbl_delete (\<lambda>t. th_version t \<in> dead) (db_thumbnails d),
           db_previews := tbl_delete (\<lambda>p. pv_version p \<in> dead) (db_previews d),
           db_uploads := tbl_delete (\<lambda>u. us_parent u \<in> gone) (db_uploads d),
           db_trash := tbl_delete (\<lambda>t. ti_entry t \<in> gone) (db_trash d),
           db_favorites := tbl_delete (\<lambda>f. fav_entry f \<in> gone) (db_favorites d),
           db_recents := tbl_delete (\<lambda>f. rec_entry f \<in> gone) (db_recents d)\<rparr>)"

lemmas insert_defs =
  insert_meta_def insert_version_def insert_object_def insert_upload_def insert_trash_def
  insert_outbox_def

lemma write_entries_eq_Inr [result_simps]:
  "write_entries tbl d = Inr d' \<longleftrightarrow>
     entries_ok (account_ids d) tbl \<and> d' = d\<lparr>db_entries := tbl\<rparr>"
  by (auto simp: write_entries_def)

lemma write_entries_error: "write_entries tbl d = Inl e \<Longrightarrow> e = PersistenceFailure"
  by (auto simp: write_entries_def split: if_splits)

section \<open>Running a use case in a unit of work\<close>

text \<open>
  \<open>async with unit_of_work_factory() as uow: ...; commit()\<close>: the body works on the open
  transaction; an exception leaves the database as it was, a normal end commits.
\<close>

definition run_tx :: "(db \<Rightarrow> ('a \<times> db) result) \<Rightarrow> db \<Rightarrow> 'a result \<times> db" where
  "run_tx t d = (case t d of Inl e \<Rightarrow> (Inl e, d) | Inr (x, d') \<Rightarrow> (Inr x, d'))"

lemma run_tx_error: "fst (run_tx t d) = Inl e \<Longrightarrow> snd (run_tx t d) = d"
  by (auto simp: run_tx_def split: sum.splits prod.splits)

lemma run_tx_invariant:
  assumes "I d" and "\<And>x d'. t d = Inr (x, d') \<Longrightarrow> I d'"
  shows "I (snd (run_tx t d))"
  using assms by (auto simp: run_tx_def split: sum.splits prod.splits)

lemma run_tx_eq_Inr: "run_tx t d = (Inr x, d') \<longleftrightarrow> t d = Inr (x, d')"
  by (auto simp: run_tx_def split: sum.splits prod.splits)

end
