(* ===== verification/Entry_Tree.thy ===== *)
theory Entry_Tree
  imports Database
begin

text \<open>
  The logical tree stored as an adjacency list in \<open>storage_entries\<close>: the recursive common
  table expressions of the storage repository, their termination and meaning, and the
  well-formedness of the tree with the lemmas that each kind of table update preserves it.
\<close>

section \<open>The parent relation and the recursive queries\<close>

definition parent_rel :: "entry_row list \<Rightarrow> (uuid \<times> uuid) set" where
  "parent_rel tbl = {(c, p). \<exists>r \<in> set tbl. r_id r = c \<and> r_parent r = Some p}"

text \<open>One round of \<open>SELECT id FROM storage_entries JOIN tree ON parent_id = tree.id\<close>.\<close>

definition child_ids :: "entry_row list \<Rightarrow> uuid list \<Rightarrow> uuid list" where
  "child_ids tbl ws =
     concat (map (\<lambda>w. map r_id (filter (\<lambda>r. r_parent r = Some w) tbl)) ws)"

text \<open>
  \<open>WITH RECURSIVE ... UNION ALL\<close>: rounds until the working table is empty, each row with
  its depth. The fuel bounds the rounds; running out of it stands for a query that never
  ends (the statement timeout then raises).
\<close>

fun cte_rounds :: "nat \<Rightarrow> entry_row list \<Rightarrow> nat \<Rightarrow> uuid list \<Rightarrow> (uuid \<times> nat) list option" where
  "cte_rounds n tbl d [] = Some []"
| "cte_rounds 0 tbl d (w # ws) = None"
| "cte_rounds (Suc n) tbl d (w # ws) =
     map_option (\<lambda>rest. map (\<lambda>x. (x, d)) (w # ws) @ rest)
       (cte_rounds n tbl (Suc d) (child_ids tbl (w # ws)))"

definition subtree_cte :: "entry_row list \<Rightarrow> uuid \<Rightarrow> (uuid \<times> nat) list option" where
  "subtree_cte tbl root =
     cte_rounds (Suc (length tbl)) tbl 0 (if root \<in> tbl_keys r_id tbl then [root] else [])"

text \<open>The upward query: the row, its parent's row, and so on to the root.\<close>

fun ancestor_rows :: "nat \<Rightarrow> entry_row list \<Rightarrow> uuid \<Rightarrow> entry_row list option" where
  "ancestor_rows 0 tbl x = None"
| "ancestor_rows (Suc n) tbl x =
     (case tbl_find r_id x tbl of
        None \<Rightarrow> Some []
      | Some r \<Rightarrow>
         (case r_parent r of
            None \<Rightarrow> Some [r]
          | Some p \<Rightarrow> map_option ((#) r) (ancestor_rows n tbl p)))"

definition ancestor_cte :: "entry_row list \<Rightarrow> uuid \<Rightarrow> entry_row list option" where
  "ancestor_cte tbl x = ancestor_rows (Suc (length tbl)) tbl x"

subsection \<open>Meaning and termination of the queries\<close>

lemma child_ids_iff: "x \<in> set (child_ids tbl ws) \<longleftrightarrow> (\<exists>w \<in> set ws. (x, w) \<in> parent_rel tbl)"
  by (auto simp: child_ids_def parent_rel_def)

lemma finite_parent_rel [simp]: "finite (parent_rel tbl)"
proof -
  have "parent_rel tbl \<subseteq> (\<lambda>r. (r_id r, the (r_parent r))) ` set tbl"
    by (force simp: parent_rel_def)
  then show ?thesis by (rule finite_subset) simp
qed

lemma cte_rounds_sound:
  "cte_rounds n tbl d ws = Some l \<Longrightarrow> (x, k) \<in> set l \<Longrightarrow>
     d \<le> k \<and> (\<exists>w \<in> set ws. (x, w) \<in> parent_rel tbl ^^ (k - d))"
proof (induction n tbl d ws arbitrary: l rule: cte_rounds.induct)
  case (3 n tbl d w ws)
  from "3.prems"(1) obtain rest where
    rest: "cte_rounds n tbl (Suc d) (child_ids tbl (w # ws)) = Some rest"
    and l: "l = map (\<lambda>x. (x, d)) (w # ws) @ rest"
    by auto
  show ?case
  proof (cases "(x, k) \<in> set rest")
    case True
    from "3.IH" [OF rest True] obtain c where
      k: "Suc d \<le> k" and c: "c \<in> set (child_ids tbl (w # ws))"
      and xc: "(x, c) \<in> parent_rel tbl ^^ (k - Suc d)" by auto
    from c obtain v where v: "v \<in> set (w # ws)" "(c, v) \<in> parent_rel tbl"
      unfolding child_ids_iff by blast
    from relpow_Suc_I [OF xc v(2)] have "(x, v) \<in> parent_rel tbl ^^ (k - d)"
      using k by (simp add: Suc_diff_le [symmetric] del: relpow.simps)
    with v(1) k show ?thesis by auto
  next
    case False
    with l "3.prems"(2) show ?thesis by auto
  qed
qed auto

lemma cte_rounds_complete:
  "cte_rounds n tbl d ws = Some l \<Longrightarrow> w \<in> set ws \<Longrightarrow> (x, w) \<in> (parent_rel tbl)\<^sup>* \<Longrightarrow>
     x \<in> fst ` set l"
proof (induction n tbl d ws arbitrary: l w rule: cte_rounds.induct)
  case (3 n tbl d v ws)
  from "3.prems"(1) obtain rest where
    rest: "cte_rounds n tbl (Suc d) (child_ids tbl (v # ws)) = Some rest"
    and l: "l = map (\<lambda>x. (x, d)) (v # ws) @ rest"
    by auto
  from "3.prems"(3) show ?case
  proof (cases rule: rtranclE)
    case base
    with "3.prems"(2) l show ?thesis by force
  next
    case (step c)
    then have "c \<in> set (child_ids tbl (v # ws))"
      using "3.prems"(2) by (auto simp: child_ids_iff)
    from "3.IH" [OF rest this step(1)] l show ?thesis by auto
  qed
qed auto

text \<open>The number of proper ancestors bounds the rounds still to come.\<close>

definition ancestor_count :: "entry_row list \<Rightarrow> uuid \<Rightarrow> nat" where
  "ancestor_count tbl x = card {a. (x, a) \<in> (parent_rel tbl)\<^sup>+}"

lemma ancestors_subset: "{a. (x, a) \<in> (parent_rel tbl)\<^sup>+} \<subseteq> (the \<circ> r_parent) ` set tbl"
proof
  fix a assume "a \<in> {a. (x, a) \<in> (parent_rel tbl)\<^sup>+}"
  then obtain c where "(c, a) \<in> parent_rel tbl" by (auto dest: tranclD2)
  then show "a \<in> (the \<circ> r_parent) ` set tbl" by (force simp: parent_rel_def)
qed

lemma ancestor_count_le: "ancestor_count tbl x \<le> length tbl"
proof -
  have "ancestor_count tbl x \<le> card ((the \<circ> r_parent) ` set tbl)"
    unfolding ancestor_count_def by (rule card_mono [OF _ ancestors_subset]) simp
  also have "\<dots> \<le> card (set tbl)" by (rule card_image_le) simp
  also have "\<dots> \<le> length tbl" by (rule card_length)
  finally show ?thesis .
qed

lemma ancestor_count_less:
  assumes "acyclic (parent_rel tbl)" and "(x, p) \<in> parent_rel tbl"
  shows "ancestor_count tbl p < ancestor_count tbl x"
  unfolding ancestor_count_def
proof (rule psubset_card_mono)
  show "finite {a. (x, a) \<in> (parent_rel tbl)\<^sup>+}"
    by (rule finite_subset [OF ancestors_subset]) simp
  have "{a. (p, a) \<in> (parent_rel tbl)\<^sup>+} \<subseteq> {a. (x, a) \<in> (parent_rel tbl)\<^sup>+}"
    using assms(2) by (auto intro: trancl_into_trancl2)
  moreover have "p \<in> {a. (x, a) \<in> (parent_rel tbl)\<^sup>+}" using assms(2) by blast
  moreover have "p \<notin> {a. (p, a) \<in> (parent_rel tbl)\<^sup>+}"
    using assms(1) by (auto simp: acyclic_def)
  ultimately show "{a. (p, a) \<in> (parent_rel tbl)\<^sup>+} \<subset> {a. (x, a) \<in> (parent_rel tbl)\<^sup>+}"
    by blast
qed

lemma cte_rounds_terminates:
  assumes "acyclic (parent_rel tbl)"
    and "\<forall>w \<in> set ws. length tbl < ancestor_count tbl w + n"
  shows "\<exists>l. cte_rounds n tbl d ws = Some l"
  using assms
proof (induction n tbl d ws rule: cte_rounds.induct)
  case (2 tbl d w ws)
  then show ?case using ancestor_count_le [of tbl w] by simp
next
  case (3 n tbl d w ws)
  have "\<forall>c \<in> set (child_ids tbl (w # ws)). length tbl < ancestor_count tbl c + n"
  proof
    fix c assume "c \<in> set (child_ids tbl (w # ws))"
    then obtain v where "v \<in> set (w # ws)" "(c, v) \<in> parent_rel tbl"
      unfolding child_ids_iff by blast
    with "3.prems"(2) ancestor_count_less [OF "3.prems"(1)] show
      "length tbl < ancestor_count tbl c + n" by fastforce
  qed
  from "3.IH" [OF "3.prems"(1) this] show ?case by auto
qed simp

lemma ancestor_rows_terminates:
  "acyclic (parent_rel tbl) \<Longrightarrow> ancestor_count tbl x < n \<Longrightarrow> \<exists>l. ancestor_rows n tbl x = Some l"
proof (induction n tbl x rule: ancestor_rows.induct)
  case (2 n tbl x)
  show ?case
  proof (cases "tbl_find r_id x tbl")
    case (Some r)
    show ?thesis
    proof (cases "r_parent r")
      case (Some p)
      with \<open>tbl_find r_id x tbl = Some r\<close> have "(x, p) \<in> parent_rel tbl"
        by (auto simp: parent_rel_def dest: tbl_find_Some_D)
      from ancestor_count_less [OF "2.prems"(1) this] "2.prems"(2)
      have "ancestor_count tbl p < n" by simp
      from "2.IH" [OF \<open>tbl_find r_id x tbl = Some r\<close> Some "2.prems"(1) this]
      show ?thesis using \<open>tbl_find r_id x tbl = Some r\<close> Some by auto
    qed (simp add: \<open>tbl_find r_id x tbl = Some r\<close>)
  qed simp
qed simp

definition descendants :: "entry_row list \<Rightarrow> uuid \<Rightarrow> uuid set" where
  "descendants tbl root = {x \<in> tbl_keys r_id tbl. root \<in> tbl_keys r_id tbl
     \<and> (x, root) \<in> (parent_rel tbl)\<^sup>*}"

text \<open>The subtree query ends on an acyclic table and returns the subtree.\<close>

lemma subtree_cte_terminates:
  assumes "acyclic (parent_rel tbl)"
  shows "\<exists>l. subtree_cte tbl root = Some l"
  unfolding subtree_cte_def
  by (rule cte_rounds_terminates [OF assms]) (simp add: ancestor_count_le less_Suc_eq_le)

lemma relpow_parent_rel_id:
  assumes "(x, w) \<in> (parent_rel tbl)\<^sup>*" and "w \<in> tbl_keys r_id tbl"
  shows "x \<in> tbl_keys r_id tbl"
  using assms by (cases rule: converse_rtranclE) (auto simp: parent_rel_def)

lemma subtree_cte_set:
  assumes "subtree_cte tbl root = Some l"
  shows "fst ` set l = descendants tbl root"
proof (cases "root \<in> tbl_keys r_id tbl")
  case True
  with assms have c: "cte_rounds (Suc (length tbl)) tbl 0 [root] = Some l"
    by (simp add: subtree_cte_def del: cte_rounds.simps)
  show ?thesis
  proof (intro set_eqI iffI)
    fix x assume "x \<in> fst ` set l"
    then obtain k where "(x, k) \<in> set l" by auto
    from cte_rounds_sound [OF c this] have "(x, root) \<in> (parent_rel tbl)\<^sup>*"
      by (auto intro: relpow_imp_rtrancl)
    with True show "x \<in> descendants tbl root"
      by (auto simp: descendants_def dest: relpow_parent_rel_id)
  next
    fix x assume "x \<in> descendants tbl root"
    then show "x \<in> fst ` set l"
      using cte_rounds_complete [OF c, of root x] by (simp add: descendants_def)
  qed
next
  case False
  with assms show ?thesis by (auto simp: subtree_cte_def descendants_def)
qed

lemma subtree_cte_depth:
  "subtree_cte tbl root = Some l \<Longrightarrow> (x, k) \<in> set l \<Longrightarrow> (x, root) \<in> parent_rel tbl ^^ k"
  unfolding subtree_cte_def
  by (drule (1) cte_rounds_sound) (auto split: if_splits)

section \<open>Well-formed trees\<close>

definition tree_wf :: "entry_row list \<Rightarrow> bool" where
  "tree_wf tbl \<longleftrightarrow>
     distinct (map r_id tbl) \<and> acyclic (parent_rel tbl)
     \<and> (\<forall>r \<in> set tbl. \<forall>p. r_parent r = Some p \<longrightarrow>
          (\<exists>q \<in> set tbl. r_id q = p \<and> r_type q = FolderType \<and> r_owner q = r_owner r
             \<and> (r_deleted r = None \<longrightarrow> r_deleted q = None)))"

text \<open>What a row's new parent has to be.\<close>

definition good_parent :: "entry_row list \<Rightarrow> entry_row \<Rightarrow> uuid \<Rightarrow> bool" where
  "good_parent tbl r p \<longleftrightarrow>
     (\<exists>q \<in> set tbl. r_id q = p \<and> r_type q = FolderType \<and> r_owner q = r_owner r
        \<and> (r_deleted r = None \<longrightarrow> r_deleted q = None))"

lemma tree_wf_alt:
  "tree_wf tbl \<longleftrightarrow> distinct (map r_id tbl) \<and> acyclic (parent_rel tbl)
     \<and> (\<forall>r \<in> set tbl. \<forall>p. r_parent r = Some p \<longrightarrow> good_parent tbl r p)"
  by (simp add: tree_wf_def good_parent_def)

lemma tree_wfD:
  assumes "tree_wf tbl"
  shows "distinct (map r_id tbl)" and "acyclic (parent_rel tbl)"
    and "r \<in> set tbl \<Longrightarrow> r_parent r = Some p \<Longrightarrow> good_parent tbl r p"
  using assms by (auto simp: tree_wf_alt)

lemma tree_wf_empty [simp]: "tree_wf []"
  by (simp add: tree_wf_def parent_rel_def acyclic_def)

lemma parent_rel_id: "tree_wf tbl \<Longrightarrow> (c, p) \<in> parent_rel tbl \<Longrightarrow> p \<in> tbl_keys r_id tbl"
  by (fastforce simp: tree_wf_alt parent_rel_def good_parent_def tbl_keys_def)

lemma parent_rel_rtrancl_id:
  assumes "tree_wf tbl" and "(c, a) \<in> (parent_rel tbl)\<^sup>*" and "c \<in> tbl_keys r_id tbl"
  shows "a \<in> tbl_keys r_id tbl"
  using assms(2,3) by (induction rule: rtrancl_induct) (auto dest: parent_rel_id [OF assms(1)])

text \<open>Activity and ownership spread upwards.\<close>

lemma ancestor_row:
  assumes wf: "tree_wf tbl" and "(x, a) \<in> (parent_rel tbl)\<^sup>*"
    and "r \<in> set tbl" "r_id r = x"
  shows "\<exists>s \<in> set tbl. r_id s = a \<and> r_owner s = r_owner r
    \<and> (r_deleted r = None \<longrightarrow> r_deleted s = None) \<and> (a \<noteq> x \<longrightarrow> r_type s = FolderType)"
  using assms(2-)
proof (induction rule: rtrancl_induct)
  case base
  then show ?case by auto
next
  case (step b c)
  then obtain s where s: "s \<in> set tbl" "r_id s = b" "r_owner s = r_owner r"
    "r_deleted r = None \<longrightarrow> r_deleted s = None" by auto
  from step.hyps(2) obtain s' where "s' \<in> set tbl" "r_id s' = b" "r_parent s' = Some c"
    by (auto simp: parent_rel_def)
  with s wf have "r_parent s = Some c"
    using distinct_key_inject [OF tree_wfD(1) [OF wf], of s' s] by simp
  from tree_wfD(3) [OF wf s(1) this] s show ?case
    by (auto simp: good_parent_def)
qed

lemma file_has_no_children:
  assumes "tree_wf tbl" and "r \<in> set tbl" and "r_type r = FileType"
  shows "(x, r_id r) \<in> (parent_rel tbl)\<^sup>* \<longleftrightarrow> x = r_id r"
proof
  assume "(x, r_id r) \<in> (parent_rel tbl)\<^sup>*"
  then show "x = r_id r"
  proof (cases rule: rtranclE)
    case (step c)
    then obtain s where s: "s \<in> set tbl" "r_parent s = Some (r_id r)"
      by (auto simp: parent_rel_def)
    from tree_wfD(3) [OF assms(1) s] obtain q where
      "q \<in> set tbl" "r_id q = r_id r" "r_type q = FolderType" by (auto simp: good_parent_def)
    with assms show ?thesis
      using distinct_key_inject [OF tree_wfD(1) [OF assms(1)], of q r] by simp
  qed simp
qed simp

section \<open>Updates that keep the tree well formed\<close>

lemma parent_rel_append_single:
  "parent_rel (tbl @ [r]) =
     parent_rel tbl \<union> {(c, p). r_id r = c \<and> r_parent r = Some p}"
  by (auto simp: parent_rel_def)

text \<open>Inserting a leaf.\<close>

lemma tree_wf_insert:
  assumes wf: "tree_wf tbl" and new: "r_id r \<notin> tbl_keys r_id tbl"
    and par: "\<And>p. r_parent r = Some p \<Longrightarrow> good_parent tbl r p"
  shows "tree_wf (tbl @ [r])"
proof -
  have "acyclic (parent_rel (tbl @ [r]))"
  proof (cases "r_parent r")
    case None
    with tree_wfD(2) [OF wf] show ?thesis by (simp add: parent_rel_append_single)
  next
    case (Some p)
    have "p \<in> tbl_keys r_id tbl" using par [OF Some] by (auto simp: good_parent_def)
    then have "(p, r_id r) \<notin> (parent_rel tbl)\<^sup>*"
      using parent_rel_rtrancl_id [OF wf] new by blast
    moreover have "parent_rel (tbl @ [r]) = insert (r_id r, p) (parent_rel tbl)"
      using Some by (auto simp: parent_rel_append_single)
    ultimately show ?thesis using tree_wfD(2) [OF wf] by simp
  qed
  moreover have "good_parent (tbl @ [r]) s p"
    if "s \<in> set (tbl @ [r])" "r_parent s = Some p" for s p
    using that par tree_wfD(3) [OF wf] by (fastforce simp: good_parent_def)
  moreover have "distinct (map r_id (tbl @ [r]))"
    using tree_wfD(1) [OF wf] new by (auto simp: tbl_keys_def)
  ultimately show ?thesis by (simp add: tree_wf_alt)
qed

text \<open>Updates in place: identity, kind and owner stay, parents and deletion marks may change.\<close>

lemma tree_wf_map:
  assumes wf: "tree_wf tbl"
    and keep: "\<And>r. r_id (g r) = r_id r" "\<And>r. r_type (g r) = r_type r"
      "\<And>r. r_owner (g r) = r_owner r"
    and acyc: "acyclic (parent_rel (map g tbl))"
    and par: "\<And>r p. r \<in> set tbl \<Longrightarrow> r_parent (g r) = Some p \<Longrightarrow>
      \<exists>q \<in> set tbl. r_id q = p \<and> r_type q = FolderType \<and> r_owner q = r_owner r
        \<and> (r_deleted (g r) = None \<longrightarrow> r_deleted (g q) = None)"
  shows "tree_wf (map g tbl)"
proof -
  have "good_parent (map g tbl) (g r) p"
    if "r \<in> set tbl" "r_parent (g r) = Some p" for r p
    using par [OF that] by (auto simp: good_parent_def keep)
  moreover have "map r_id (map g tbl) = map r_id tbl" by (simp add: keep)
  ultimately show ?thesis
    using tree_wfD(1) [OF wf] acyc by (auto simp: tree_wf_alt simp del: map_map)
qed

lemma parent_rel_map_same:
  "(\<And>r. r \<in> set tbl \<Longrightarrow> r_id (g r) = r_id r \<and> r_parent (g r) = r_parent r) \<Longrightarrow>
     parent_rel (map g tbl) = parent_rel tbl"
  by (auto simp: parent_rel_def)

text \<open>A change of names or dates only.\<close>

lemma tree_wf_update_plain:
  assumes wf: "tree_wf tbl"
    and "\<And>r. r_id (f r) = r_id r" "\<And>r. r_type (f r) = r_type r"
      "\<And>r. r_owner (f r) = r_owner r" "\<And>r. P r \<Longrightarrow> r_parent (f r) = r_parent r"
      "\<And>r. P r \<Longrightarrow> r_deleted (f r) = r_deleted r"
  shows "tree_wf (tbl_update P f tbl)"
  unfolding tbl_update_def
proof (rule tree_wf_map [OF wf])
  let ?g = "\<lambda>r. if P r then f r else r"
  show "acyclic (parent_rel (map ?g tbl))"
    using assms by (subst parent_rel_map_same) (auto simp: tree_wfD)
  fix r p assume "r \<in> set tbl" "r_parent (?g r) = Some p"
  with assms tree_wfD(3) [OF wf, of r p] show
    "\<exists>q \<in> set tbl. r_id q = p \<and> r_type q = FolderType \<and> r_owner q = r_owner r
        \<and> (r_deleted (?g r) = None \<longrightarrow> r_deleted (?g q) = None)"
    by (fastforce simp: good_parent_def)
qed (use assms in auto)

text \<open>Giving one row a new parent that is not below it; the row becomes active.\<close>

lemma tree_wf_reparent:
  assumes wf: "tree_wf tbl" and q: "q \<in> set tbl" "r_type q = FolderType" "r_deleted q = None"
    and x: "x \<in> set tbl" "r_owner x = r_owner q" "(r_id q, r_id x) \<notin> (parent_rel tbl)\<^sup>*"
    and f: "\<And>r. r_id (f r) = r_id r" "\<And>r. r_type (f r) = r_type r"
      "\<And>r. r_owner (f r) = r_owner r" "\<And>r. r_id r = r_id x \<Longrightarrow> r_parent (f r) = Some (r_id q)"
      "\<And>r. r_id r = r_id x \<Longrightarrow> r_deleted (f r) = None"
  shows "tree_wf (tbl_update (\<lambda>r. r_id r = r_id x) f tbl)"
  unfolding tbl_update_def
proof (rule tree_wf_map [OF wf])
  let ?g = "\<lambda>r. if r_id r = r_id x then f r else r"
  have "parent_rel (map ?g tbl) \<subseteq> insert (r_id x, r_id q) (parent_rel tbl)"
    using f by (auto simp: parent_rel_def)
  moreover have "acyclic (insert (r_id x, r_id q) (parent_rel tbl))"
    using x(3) tree_wfD(2) [OF wf] by simp
  ultimately show "acyclic (parent_rel (map ?g tbl))" by (rule acyclic_subset [rotated])
  fix r p assume r: "r \<in> set tbl" "r_parent (?g r) = Some p"
  have qx: "r_id q \<noteq> r_id x" using x(3) by auto
  show "\<exists>q \<in> set tbl. r_id q = p \<and> r_type q = FolderType \<and> r_owner q = r_owner r
        \<and> (r_deleted (?g r) = None \<longrightarrow> r_deleted (?g q) = None)"
  proof (cases "r_id r = r_id x")
    case True
    then have "r = x" using distinct_key_inject [OF tree_wfD(1) [OF wf] r(1) x(1)] by simp
    with r(2) f q qx x(2) show ?thesis by (intro bexI [of _ q]) auto
  next
    case False
    with r have "r_parent r = Some p" by simp
    from tree_wfD(3) [OF wf r(1) this] obtain q' where "q' \<in> set tbl" "r_id q' = p"
      "r_type q' = FolderType" "r_owner q' = r_owner r"
      "r_deleted r = None \<longrightarrow> r_deleted q' = None" by (auto simp: good_parent_def)
    with False f(5) show ?thesis by (intro bexI [of _ q']) auto
  qed
qed (use f in auto)

text \<open>Marking a whole subtree deleted, or active below an active parent.\<close>

lemma subtree_down_closed:
  assumes "(c, p) \<in> parent_rel tbl" and "p \<in> descendants tbl root"
  shows "c \<in> descendants tbl root"
proof -
  from assms have "(c, root) \<in> (parent_rel tbl)\<^sup>*" "root \<in> tbl_keys r_id tbl"
    unfolding descendants_def by (blast intro: converse_rtrancl_into_rtrancl)+
  then show ?thesis
    unfolding descendants_def by (blast dest: relpow_parent_rel_id)
qed

lemma parent_rel_unique:
  assumes "tree_wf tbl" and "(c, p) \<in> parent_rel tbl" and "(c, q) \<in> parent_rel tbl"
  shows "p = q"
proof -
  from assms(2,3) obtain r s where "r \<in> set tbl" "s \<in> set tbl" "r_id r = r_id s"
    and rs: "r_parent r = Some p" "r_parent s = Some q"
    by (auto simp: parent_rel_def)
  then have "r = s" using distinct_key_inject [OF tree_wfD(1) [OF assms(1)]] by blast
  with rs show ?thesis by simp
qed

lemma subtree_up_closed:
  assumes "tree_wf tbl" and "c \<in> descendants tbl root" "c \<noteq> root" "(c, p) \<in> parent_rel tbl"
  shows "p \<in> descendants tbl root"
proof -
  from assms(2) have c: "(c, root) \<in> (parent_rel tbl)\<^sup>*" "root \<in> tbl_keys r_id tbl"
    by (auto simp: descendants_def)
  from c(1) assms(3) obtain b where b: "(c, b) \<in> parent_rel tbl" "(b, root) \<in> (parent_rel tbl)\<^sup>*"
    by (auto elim: converse_rtranclE)
  have "b = p" using b(1) assms(4) by (rule parent_rel_unique [OF assms(1)])
  with b(2) c(2) show ?thesis
    unfolding descendants_def by (blast dest: relpow_parent_rel_id)
qed

lemma tree_wf_mark_deleted:
  assumes wf: "tree_wf tbl" and "S = descendants tbl root" "t \<noteq> None"
    and f: "\<And>r. r_id (f r) = r_id r" "\<And>r. r_type (f r) = r_type r"
      "\<And>r. r_owner (f r) = r_owner r" "\<And>r. r_parent (f r) = r_parent r"
      "\<And>r. r_deleted (f r) = t"
  shows "tree_wf (tbl_update (\<lambda>r. r_id r \<in> S) f tbl)"
  unfolding tbl_update_def
proof (rule tree_wf_map [OF wf])
  let ?g = "\<lambda>r. if r_id r \<in> S then f r else r"
  show "acyclic (parent_rel (map ?g tbl))"
    using f by (subst parent_rel_map_same) (auto simp: tree_wfD [OF wf])
  fix r p assume r: "r \<in> set tbl" "r_parent (?g r) = Some p"
  then have rp: "r_parent r = Some p" using f by (simp split: if_splits)
  from tree_wfD(3) [OF wf r(1) rp] obtain q where q: "q \<in> set tbl" "r_id q = p"
    "r_type q = FolderType" "r_owner q = r_owner r" "r_deleted r = None \<longrightarrow> r_deleted q = None"
    by (auto simp: good_parent_def)
  have "(r_id r, p) \<in> parent_rel tbl" using r(1) rp by (auto simp: parent_rel_def)
  then have "r_id r \<in> S" if "p \<in> S" using that assms(2) by (auto dest: subtree_down_closed)
  with q assms(3) f show "\<exists>q \<in> set tbl. r_id q = p \<and> r_type q = FolderType
      \<and> r_owner q = r_owner r \<and> (r_deleted (?g r) = None \<longrightarrow> r_deleted (?g q) = None)"
    by (intro bexI [of _ q]) auto
qed (use f in auto)

lemma tree_wf_mark_active:
  assumes wf: "tree_wf tbl" and S: "S = descendants tbl root"
    and root: "\<And>r. r \<in> set tbl \<Longrightarrow> r_id r = root \<Longrightarrow> r_deleted r = None"
    and f: "\<And>r. r_id (f r) = r_id r" "\<And>r. r_type (f r) = r_type r"
      "\<And>r. r_owner (f r) = r_owner r" "\<And>r. r_parent (f r) = r_parent r"
      "\<And>r. r_deleted (f r) = None"
  shows "tree_wf (tbl_update (\<lambda>r. r_id r \<in> S) f tbl)"
  unfolding tbl_update_def
proof (rule tree_wf_map [OF wf])
  let ?g = "\<lambda>r. if r_id r \<in> S then f r else r"
  show "acyclic (parent_rel (map ?g tbl))"
    using f by (subst parent_rel_map_same) (auto simp: tree_wfD [OF wf])
  fix r p assume r: "r \<in> set tbl" "r_parent (?g r) = Some p"
  then have rp: "r_parent r = Some p" using f by (simp split: if_splits)
  from tree_wfD(3) [OF wf r(1) rp] obtain q where q: "q \<in> set tbl" "r_id q = p"
    "r_type q = FolderType" "r_owner q = r_owner r" "r_deleted r = None \<longrightarrow> r_deleted q = None"
    by (auto simp: good_parent_def)
  have "(r_id r, p) \<in> parent_rel tbl" using r(1) rp by (auto simp: parent_rel_def)
  then have up: "p \<in> S" if "r_id r \<in> S" "r_id r \<noteq> root"
    using that S subtree_up_closed [OF wf] by blast
  have "r_deleted (?g q) = None" if a: "r_deleted (?g r) = None"
  proof (cases "p \<in> S")
    case False
    with up root [OF r(1)] a have "r_deleted r = None" by (cases "r_id r \<in> S") auto
    with q False show ?thesis by simp
  qed (simp add: f q)
  with q show "\<exists>q \<in> set tbl. r_id q = p \<and> r_type q = FolderType
      \<and> r_owner q = r_owner r \<and> (r_deleted (?g r) = None \<longrightarrow> r_deleted (?g q) = None)"
    by (intro bexI [of _ q]) auto
qed (use f in auto)

text \<open>Deleting a subtree.\<close>

lemma tree_wf_delete:
  assumes wf: "tree_wf tbl" and S: "S = descendants tbl root"
  shows "tree_wf (tbl_delete (\<lambda>r. r_id r \<in> S) tbl)"
proof -
  let ?t = "tbl_delete (\<lambda>r. r_id r \<in> S) tbl"
  have "acyclic (parent_rel ?t)"
    by (rule acyclic_subset [OF tree_wfD(2) [OF wf]])
      (auto simp: parent_rel_def set_tbl_delete)
  moreover have "good_parent ?t r p" if "r \<in> set ?t" "r_parent r = Some p" for r p
  proof -
    from that have r: "r \<in> set tbl" "r_id r \<notin> S" by (auto simp: set_tbl_delete)
    then have "(r_id r, p) \<in> parent_rel tbl" using that by (auto simp: parent_rel_def)
    with r(2) S have "p \<notin> S" by (auto dest: subtree_down_closed)
    with tree_wfD(3) [OF wf r(1) that(2)] show ?thesis
      by (auto simp: good_parent_def set_tbl_delete)
  qed
  ultimately show ?thesis
    using distinct_map_tbl_delete [OF tree_wfD(1) [OF wf]] by (simp add: tree_wf_alt)
qed

text \<open>Concrete trees: a table whose parents have smaller identifiers is acyclic.\<close>

lemma acyclic_by_id:
  assumes "\<forall>r \<in> set tbl. case r_parent r of None \<Rightarrow> True | Some p \<Rightarrow> p < r_id r"
  shows "acyclic (parent_rel tbl)"
proof -
  have "b < a" if "(a, b) \<in> (parent_rel tbl)\<^sup>+" for a b
    using that
  proof (induction rule: trancl_induct)
    case (base y)
    then show ?case using assms by (auto simp: parent_rel_def)
  next
    case (step y z)
    from step.hyps(2) assms have "z < y" by (auto simp: parent_rel_def)
    with step.IH show ?case by simp
  qed
  then show ?thesis by (auto simp: acyclic_def)
qed

end
