(* ===== verification/Storage_Repository.thy ===== *)
theory Storage_Repository
  imports Entry_Tree
begin

text \<open>
  \<open>SQLAlchemyStorageRepository\<close>: one definition per method, reading or transforming the
  database of the open transaction. A query that raises yields \<open>Inl PersistenceFailure\<close>.
  Locking clauses have no effect inside one transaction and are not represented.
\<close>

section \<open>Mapping rows to entities\<close>

definition storage_entry_from_models ::
  "unicode \<Rightarrow> entry_row \<Rightarrow> meta_row option \<Rightarrow> storage_entry result" where
  "storage_entry_from_models U r fm =
     (case r_type r of
        FolderType \<Rightarrow> Inr
          \<lparr>e_id = r_id r, e_owner = r_owner r, e_parent = r_parent r, e_name = r_name r,
           e_normalized = r_normalized r, e_created = r_created r, e_updated = r_updated r,
           e_deleted = r_deleted r, e_kind = Folder\<rparr>
      | FileType \<Rightarrow>
          (case fm of
             None \<Rightarrow> Inl PersistenceFailure
           | Some m \<Rightarrow> rbind (file_post_init U (m_data m)) (\<lambda>_. Inr
              \<lparr>e_id = r_id r, e_owner = r_owner r, e_parent = r_parent r, e_name = r_name r,
               e_normalized = r_normalized r, e_created = r_created r,
               e_updated = r_updated r, e_deleted = r_deleted r,
               e_kind = File (m_data m)\<rparr>)))"

definition to_entry :: "unicode \<Rightarrow> db \<Rightarrow> entry_row \<Rightarrow> storage_entry result" where
  "to_entry U d r = storage_entry_from_models U r (tbl_find m_entry (r_id r) (db_meta d))"

fun to_entries :: "unicode \<Rightarrow> db \<Rightarrow> entry_row list \<Rightarrow> storage_entry list result" where
  "to_entries U d [] = Inr []"
| "to_entries U d (r # rs) =
     rbind (to_entry U d r) (\<lambda>e. rbind (to_entries U d rs) (\<lambda>es. Inr (e # es)))"

definition entry_model :: "storage_entry \<Rightarrow> entry_row" where
  "entry_model e =
     \<lparr>r_id = e_id e, r_owner = e_owner e, r_parent = e_parent e,
      r_type = (case e_kind e of Folder \<Rightarrow> FolderType | File _ \<Rightarrow> FileType),
      r_name = e_name e, r_normalized = e_normalized e, r_created = e_created e,
      r_updated = e_updated e, r_deleted = e_deleted e\<rparr>"

definition to_storage_object :: "unicode \<Rightarrow> storage_object \<Rightarrow> storage_object result" where
  "to_storage_object U ob = rbind (storage_object_post_init U ob) (\<lambda>_. Inr ob)"

definition to_version :: "unicode \<Rightarrow> file_version \<Rightarrow> file_version result" where
  "to_version U v = rbind (file_version_post_init U v) (\<lambda>_. Inr v)"

section \<open>Entries\<close>

definition get_entry :: "unicode \<Rightarrow> db \<Rightarrow> uuid \<Rightarrow> bool \<Rightarrow> storage_entry option result" where
  "get_entry U d entry_id include_deleted =
     (case find (\<lambda>r. r_id r = entry_id \<and> (include_deleted \<or> r_deleted r = None)) (db_entries d) of
        None \<Rightarrow> Inr None
      | Some r \<Rightarrow> rbind (to_entry U d r) (\<lambda>e. Inr (Some e)))"

definition get_folder :: "unicode \<Rightarrow> db \<Rightarrow> uuid \<Rightarrow> bool \<Rightarrow> storage_entry option result" where
  "get_folder U d folder_id include_deleted =
     rbind (get_entry U d folder_id include_deleted) (\<lambda>oe.
     Inr (case oe of None \<Rightarrow> None | Some e \<Rightarrow> if is_folder e then Some e else None))"

definition active_folder_of :: "uuid \<Rightarrow> entry_row \<Rightarrow> bool" where
  "active_folder_of owner r \<longleftrightarrow>
     r_owner r = owner \<and> r_type r = FolderType \<and> r_deleted r = None"

definition get_folder_path ::
  "unicode \<Rightarrow> db \<Rightarrow> uuid \<Rightarrow> uuid option \<Rightarrow> storage_entry list result" where
  "get_folder_path U d owner folder_id =
     (let tbl = db_entries d;
          anchors = filter (\<lambda>r. active_folder_of owner r
            \<and> (case folder_id of None \<Rightarrow> r_parent r = None | Some f \<Rightarrow> r_id r = f)) tbl;
          chains = map (\<lambda>r. ancestor_cte tbl (r_id r)) anchors
      in if None \<in> set chains then Inl PersistenceFailure
         else
           (let rows = concat (map (\<lambda>ch. zip (the ch) [0..<length (the ch)]) chains);
                shown = filter (\<lambda>(r, _). active_folder_of owner r) rows
            in to_entries U d (map fst (sort_key (\<lambda>(_, depth). - int depth) shown))))"

definition logical_path_length :: "db \<Rightarrow> uuid \<Rightarrow> int result" where
  "logical_path_length d folder_id =
     (case ancestor_cte (db_entries d) folder_id of
        None \<Rightarrow> Inl PersistenceFailure
      | Some rows \<Rightarrow> Inr (sum_list (map (\<lambda>r. int (length (r_name r)) + 1) rows)))"

definition name_exists :: "db \<Rightarrow> uuid \<Rightarrow> string \<Rightarrow> uuid option \<Rightarrow> bool" where
  "name_exists d parent_id normalized exclude =
     list_ex (\<lambda>r. r_parent r = Some parent_id \<and> r_normalized r = normalized
       \<and> r_deleted r = None
       \<and> (case exclude of None \<Rightarrow> True | Some x \<Rightarrow> r_id r \<noteq> x)) (db_entries d)"

definition is_descendant :: "db \<Rightarrow> uuid \<Rightarrow> uuid \<Rightarrow> bool result" where
  "is_descendant d ancestor candidate =
     (case subtree_cte (db_entries d) ancestor of
        None \<Rightarrow> Inl PersistenceFailure
      | Some l \<Rightarrow> Inr (list_ex (\<lambda>(x, _). x = candidate \<and> x \<noteq> ancestor) l))"

definition add_entry_row :: "entry_row \<Rightarrow> db \<Rightarrow> db result" where
  "add_entry_row r d = write_entries (db_entries d @ [r]) d"

definition add_folder :: "storage_entry \<Rightarrow> db \<Rightarrow> db result" where
  "add_folder e d = add_entry_row (entry_model e) d"

definition add_file :: "storage_entry \<Rightarrow> file_metadata \<Rightarrow> file_version \<Rightarrow> db \<Rightarrow> db result" where
  "add_file e fm v d =
     rbind (add_entry_row (entry_model e) d) (\<lambda>d1.
     rbind (insert_meta \<lparr>m_entry = e_id e, m_data = fm\<rparr> d1) (\<lambda>d2.
     insert_version v d2))"

definition save_entry :: "storage_entry \<Rightarrow> db \<Rightarrow> db result" where
  "save_entry e d =
     (if tbl_count (\<lambda>r. r_id r = e_id e) (db_entries d) \<noteq> 1 then Inl PersistenceFailure
      else write_entries
        (tbl_update (\<lambda>r. r_id r = e_id e)
          (\<lambda>r. r\<lparr>r_parent := e_parent e, r_name := e_name e, r_normalized := e_normalized e,
                  r_updated := e_updated e, r_deleted := e_deleted e\<rparr>)
          (db_entries d)) d)"

definition update_subtree_deletion ::
  "uuid \<Rightarrow> instant option \<Rightarrow> instant option \<Rightarrow> db \<Rightarrow> (nat \<times> db) result" where
  "update_subtree_deletion root_id deleted_at updated_at d =
     (case subtree_cte (db_entries d) root_id of
        None \<Rightarrow> Inl PersistenceFailure
      | Some l \<Rightarrow>
          (let P = (\<lambda>r. r_id r \<in> set (map fst l))
           in rbind (write_entries
                (tbl_update P
                  (\<lambda>r. (case updated_at of
                          None \<Rightarrow> r\<lparr>r_deleted := deleted_at\<rparr>
                        | Some t \<Rightarrow> r\<lparr>r_deleted := deleted_at, r_updated := t\<rparr>))
                  (db_entries d)) d)
              (\<lambda>d'. Inr (tbl_count P (db_entries d), d'))))"

definition soft_delete_subtree :: "uuid \<Rightarrow> instant \<Rightarrow> db \<Rightarrow> (nat \<times> db) result" where
  "soft_delete_subtree root_id deleted_at d =
     update_subtree_deletion root_id (Some deleted_at) None d"

definition restore_subtree :: "uuid \<Rightarrow> instant \<Rightarrow> db \<Rightarrow> (nat \<times> db) result" where
  "restore_subtree root_id restored_at d =
     update_subtree_deletion root_id None (Some restored_at) d"

definition hard_delete_subtree :: "uuid \<Rightarrow> db \<Rightarrow> (nat \<times> db) result" where
  "hard_delete_subtree root_id d =
     (case subtree_cte (db_entries d) root_id of
        None \<Rightarrow> Inl PersistenceFailure
      | Some l \<Rightarrow> Inr (tbl_count (\<lambda>r. r_id r \<in> set (map fst l)) (db_entries d),
                       cascade_entries (set (map fst l)) d))"

section \<open>Versions and objects\<close>

definition current_version_rows :: "db \<Rightarrow> file_version list" where
  "current_version_rows d =
     filter (\<lambda>v. case tbl_find m_entry (v_file v) (db_meta d) of
        None \<Rightarrow> False | Some m \<Rightarrow> v_number v = fm_version_number (m_data m)) (db_versions d)"

definition get_current_version :: "unicode \<Rightarrow> db \<Rightarrow> uuid \<Rightarrow> file_version option result" where
  "get_current_version U d file_id =
     (case tbl_find v_file file_id (current_version_rows d) of
        None \<Rightarrow> Inr None
      | Some v \<Rightarrow> rbind (to_version U v) (\<lambda>v. Inr (Some v)))"

text \<open>The dictionary comprehension: a later row with the same key replaces an earlier one.\<close>

fun versions_dict :: "unicode \<Rightarrow> file_version list \<Rightarrow> (uuid \<rightharpoonup> file_version) \<Rightarrow>
    (uuid \<rightharpoonup> file_version) result" where
  "versions_dict U [] m = Inr m"
| "versions_dict U (v # vs) m =
     rbind (to_version U v) (\<lambda>v. versions_dict U vs (m(v_file v \<mapsto> v)))"

definition get_current_versions_batch ::
  "unicode \<Rightarrow> db \<Rightarrow> uuid list \<Rightarrow> (uuid \<rightharpoonup> file_version) result" where
  "get_current_versions_batch U d file_ids =
     (if file_ids = [] then Inr Map.empty
      else versions_dict U
        (filter (\<lambda>v. v_file v \<in> set file_ids) (current_version_rows d)) Map.empty)"

definition get_storage_object :: "unicode \<Rightarrow> db \<Rightarrow> uuid \<Rightarrow> storage_object option result" where
  "get_storage_object U d object_id =
     (case tbl_find o_id object_id (db_objects d) of
        None \<Rightarrow> Inr None
      | Some ob \<Rightarrow> rbind (to_storage_object U ob) (\<lambda>ob. Inr (Some ob)))"

fun to_storage_objects :: "unicode \<Rightarrow> storage_object list \<Rightarrow> storage_object list result" where
  "to_storage_objects U [] = Inr []"
| "to_storage_objects U (ob # obs) =
     rbind (to_storage_object U ob) (\<lambda>ob'.
     rbind (to_storage_objects U obs) (\<lambda>obs'. Inr (ob' # obs')))"

definition get_storage_objects_by_keys ::
  "unicode \<Rightarrow> db \<Rightarrow> string list \<Rightarrow> storage_object list result" where
  "get_storage_objects_by_keys U d keys =
     (if keys = [] then Inr []
      else to_storage_objects U (filter (\<lambda>ob. o_storage_key ob \<in> set keys) (db_objects d)))"

definition list_storage_objects ::
  "unicode \<Rightarrow> db \<Rightarrow> uuid option \<Rightarrow> nat \<Rightarrow> (storage_object list \<times> uuid option) result" where
  "list_storage_objects U d after_id limit =
     (let models = take (limit + 1) (sort_key o_id (filter (\<lambda>ob. case after_id of
            None \<Rightarrow> True | Some a \<Rightarrow> a < o_id ob) (db_objects d)));
          visible = take limit models;
          next_cursor = (if limit < length models \<and> visible \<noteq> []
            then Some (o_id (last visible)) else None)
      in rbind (to_storage_objects U visible) (\<lambda>obs. Inr (obs, next_cursor)))"

text \<open>\<open>_orphan_storage_object_condition\<close>: no version, thumbnail or preview refers to it.\<close>

definition orphan_condition :: "db \<Rightarrow> uuid \<Rightarrow> bool" where
  "orphan_condition d object_id \<longleftrightarrow>
     \<not> list_ex (\<lambda>v. v_object v = object_id) (db_versions d)
     \<and> \<not> list_ex (\<lambda>t. th_object t = Some object_id) (db_thumbnails d)
     \<and> \<not> list_ex (\<lambda>p. pv_object p = Some object_id) (db_previews d)"

definition claim_orphan_storage_objects ::
  "unicode \<Rightarrow> db \<Rightarrow> nat \<Rightarrow> (storage_object list \<times> bool) result" where
  "claim_orphan_storage_objects U d limit =
     (let models = take (limit + 1) (sort_key (\<lambda>ob. (o_created ob, o_id ob))
            (filter (\<lambda>ob. o_status ob = ObjReady \<and> orphan_condition d (o_id ob)) (db_objects d)))
      in rbind (to_storage_objects U (take limit models)) (\<lambda>obs.
         Inr (obs, limit < length models)))"

definition delete_claimed_orphan_storage_object :: "uuid \<Rightarrow> db \<Rightarrow> bool \<times> db" where
  "delete_claimed_orphan_storage_object object_id d =
     (let P = (\<lambda>ob. o_id ob = object_id \<and> o_status ob = ObjReady \<and> orphan_condition d object_id)
      in (0 < tbl_count P (db_objects d), d\<lparr>db_objects := tbl_delete P (db_objects d)\<rparr>))"

section \<open>The ordered subtree\<close>

text \<open>\<open>stream_subtree\<close>: active rows below the root, by depth, creation time and id.\<close>

definition subtree_rows :: "entry_row list \<Rightarrow> (uuid \<times> nat) list \<Rightarrow> (entry_row \<times> nat) list" where
  "subtree_rows tbl l =
     sort_key (\<lambda>(r, depth). (depth, r_created r, r_id r))
       (concat (map (\<lambda>(x, depth). map (\<lambda>r. (r, depth))
          (filter (\<lambda>r. r_id r = x \<and> r_deleted r = None) tbl)) l))"

definition stream_subtree :: "unicode \<Rightarrow> db \<Rightarrow> uuid \<Rightarrow> storage_entry list result" where
  "stream_subtree U d root_id =
     (case subtree_cte (db_entries d) root_id of
        None \<Rightarrow> Inl PersistenceFailure
      | Some l \<Rightarrow> to_entries U d (map fst (subtree_rows (db_entries d) l)))"

section \<open>Trash and uploads\<close>

definition get_trash_item :: "db \<Rightarrow> uuid \<Rightarrow> trash_item option" where
  "get_trash_item d trash_item_id = tbl_find ti_id trash_item_id (db_trash d)"

definition get_trash_item_by_entry :: "db \<Rightarrow> uuid \<Rightarrow> trash_item option" where
  "get_trash_item_by_entry d entry_id = tbl_find ti_entry entry_id (db_trash d)"

definition remove_trash_item :: "uuid \<Rightarrow> db \<Rightarrow> db" where
  "remove_trash_item trash_item_id d =
     d\<lparr>db_trash := tbl_delete (\<lambda>t. ti_id t = trash_item_id) (db_trash d)\<rparr>"

definition get_upload_session :: "db \<Rightarrow> uuid \<Rightarrow> upload_session option" where
  "get_upload_session d upload_id = tbl_find us_id upload_id (db_uploads d)"

definition save_upload_session :: "upload_session \<Rightarrow> db \<Rightarrow> db result" where
  "save_upload_session u d =
     (if tbl_count (\<lambda>r. us_id r = us_id u) (db_uploads d) \<noteq> 1 then Inl PersistenceFailure
      else
        (let tbl = tbl_update (\<lambda>r. us_id r = us_id u)
             (\<lambda>r. r\<lparr>us_uploaded_bytes := us_uploaded_bytes u, us_checksum := us_checksum u,
                     us_status := us_status u, us_updated := us_updated u\<rparr>) (db_uploads d)
         in if \<forall>r \<in> set tbl. upload_check d r then Inr (d\<lparr>db_uploads := tbl\<rparr>)
            else Inl PersistenceFailure))"

definition get_upload_sessions_by_ids :: "db \<Rightarrow> uuid list \<Rightarrow> upload_session list" where
  "get_upload_sessions_by_ids d upload_ids =
     (if upload_ids = [] then []
      else filter (\<lambda>u. us_id u \<in> set upload_ids) (db_uploads d))"

definition claim_expired_upload_sessions :: "db \<Rightarrow> instant \<Rightarrow> nat \<Rightarrow> upload_session list" where
  "claim_expired_upload_sessions d expired_at limit =
     take limit (sort_key (\<lambda>u. (us_expires u, us_id u))
       (filter (\<lambda>u. us_status u \<in> {Created, Uploading} \<and> us_expires u \<le> expired_at)
         (db_uploads d)))"

end
