(* ===== verification/Storage_Actions.thy ===== *)
theory Storage_Actions
  imports Storage_Repository
begin

text \<open>
  The transactional commands on the logical tree
  (\<open>app/application/use_cases/storage/actions.py\<close> and \<open>mappers.py\<close>): one transaction body
  \<open>..._tx\<close> per use case and the use case itself, which runs it in a unit of work. The ports
  injected into a use case are the record \<open>ports\<close>: the Unicode tables, the clock reading of
  the call, the database's own transaction time (its \<open>now()\<close>) and the identifiers the generator hands out during it, in order.
\<close>

record ports =
  p_unicode :: unicode
  p_now :: instant
  p_db_now :: instant
  p_ids :: "nat \<Rightarrow> uuid"

section \<open>Read models\<close>

record storage_entry_dto =
  de_id :: uuid
  de_parent :: "uuid option"
  de_kind :: entry_type
  de_name :: string
  de_size :: "int option"
  de_mime_type :: "string option"
  de_extension :: "string option"
  de_checksum :: "string option"
  de_version_number :: "int option"
  de_created :: instant
  de_updated :: instant
  de_is_favorite :: bool

definition entry_to_dto :: "storage_entry \<Rightarrow> bool \<Rightarrow> storage_entry_dto" where
  "entry_to_dto e is_favorite =
     (case e_kind e of
        File fm \<Rightarrow>
          \<lparr>de_id = e_id e, de_parent = e_parent e, de_kind = FileType, de_name = e_name e,
           de_size = Some (fm_size fm), de_mime_type = Some (fm_mime_type fm),
           de_extension = Some (fm_extension fm), de_checksum = Some (fm_checksum fm),
           de_version_number = Some (fm_version_number fm), de_created = e_created e,
           de_updated = e_updated e, de_is_favorite = is_favorite\<rparr>
      | Folder \<Rightarrow>
          \<lparr>de_id = e_id e, de_parent = e_parent e, de_kind = FolderType, de_name = e_name e,
           de_size = None, de_mime_type = None, de_extension = None, de_checksum = None,
           de_version_number = None, de_created = e_created e, de_updated = e_updated e,
           de_is_favorite = is_favorite\<rparr>)"

record file_details_dto =
  fd_id :: uuid
  fd_parent :: uuid
  fd_name :: string
  fd_metadata :: file_metadata
  fd_created :: instant
  fd_updated :: instant

definition file_to_details_dto :: "storage_entry \<Rightarrow> file_metadata \<Rightarrow> file_details_dto result" where
  "file_to_details_dto e fm =
     (case e_parent e of
        None \<Rightarrow> Inl PyTypeError
      | Some p \<Rightarrow> Inr \<lparr>fd_id = e_id e, fd_parent = p, fd_name = e_name e, fd_metadata = fm,
                       fd_created = e_created e, fd_updated = e_updated e\<rparr>)"

record trash_item_dto =
  dt_id :: uuid
  dt_entry :: uuid
  dt_original_parent :: uuid
  dt_trashed_at :: instant

definition trash_to_dto :: "trash_item \<Rightarrow> trash_item_dto" where
  "trash_to_dto t =
     \<lparr>dt_id = ti_id t, dt_entry = ti_entry t, dt_original_parent = ti_original_parent t,
      dt_trashed_at = ti_trashed_at t\<rparr>"

section \<open>Ownership and collision rules\<close>

definition require_owned :: "storage_entry option \<Rightarrow> uuid \<Rightarrow> storage_entry result" where
  "require_owned oe owner_id =
     (case oe of
        None \<Rightarrow> Inl StorageEntryNotFound
      | Some e \<Rightarrow> if e_owner e \<noteq> owner_id then Inl StorageEntryNotFound else Inr e)"

definition require_folder :: "storage_entry option \<Rightarrow> uuid \<Rightarrow> storage_entry result" where
  "require_folder oe owner_id =
     (case oe of
        None \<Rightarrow> Inl StorageEntryNotFound
      | Some e \<Rightarrow> if e_owner e \<noteq> owner_id \<or> e_deleted e \<noteq> None
                  then Inl StorageEntryNotFound else Inr e)"

definition ensure_name_available ::
  "db \<Rightarrow> uuid \<Rightarrow> entry_name \<Rightarrow> uuid option \<Rightarrow> unit result" where
  "ensure_name_available d parent_id name exclude =
     (if name_exists d parent_id (en_normalized name) exclude
      then Inl StorageNameConflict else Inr ())"

section \<open>Create folder\<close>

record create_folder_cmd =
  cf_owner :: uuid
  cf_parent :: uuid
  cf_name :: string

definition new_folder :: "uuid \<Rightarrow> uuid \<Rightarrow> uuid \<Rightarrow> entry_name \<Rightarrow> instant \<Rightarrow> storage_entry" where
  "new_folder i owner parent name now =
     \<lparr>e_id = i, e_owner = owner, e_parent = Some parent, e_name = en_value name,
      e_normalized = en_normalized name, e_created = now, e_updated = now,
      e_deleted = None, e_kind = Folder\<rparr>"

definition create_folder_tx ::
  "ports \<Rightarrow> create_folder_cmd \<Rightarrow> db \<Rightarrow> (storage_entry_dto \<times> db) result" where
  "create_folder_tx P c d =
     rbind (entry_name_create (p_unicode P) (cf_name c)) (\<lambda>name.
     rbind (get_folder (p_unicode P) d (cf_parent c) False) (\<lambda>found.
     rbind (require_folder found (cf_owner c)) (\<lambda>parent.
     rbind (ensure_name_available d (e_id parent) name None) (\<lambda>_.
     (let folder = new_folder (p_ids P 0) (cf_owner c) (e_id parent) name (p_now P)
      in rbind (add_folder folder d) (\<lambda>d'. Inr (entry_to_dto folder False, d')))))))"

definition create_folder ::
  "ports \<Rightarrow> create_folder_cmd \<Rightarrow> db \<Rightarrow> storage_entry_dto result \<times> db" where
  "create_folder P c = run_tx (create_folder_tx P c)"

section \<open>Rename\<close>

record rename_cmd =
  rn_owner :: uuid
  rn_entry :: uuid
  rn_new_name :: string

definition rename_entry_tx ::
  "ports \<Rightarrow> rename_cmd \<Rightarrow> db \<Rightarrow> (storage_entry_dto \<times> db) result" where
  "rename_entry_tx P c d =
     rbind (entry_name_create (p_unicode P) (rn_new_name c)) (\<lambda>name.
     rbind (get_entry (p_unicode P) d (rn_entry c) False) (\<lambda>found.
     rbind (require_owned found (rn_owner c)) (\<lambda>entry.
     (case e_parent entry of
        None \<Rightarrow> Inl InvalidStateTransition
      | Some parent \<Rightarrow>
          rbind (ensure_name_available d parent name (Some (e_id entry))) (\<lambda>_.
          rbind (entry_rename entry name (p_now P)) (\<lambda>renamed.
          rbind (save_entry renamed d) (\<lambda>d'. Inr (entry_to_dto renamed False, d'))))))))"

definition rename_entry :: "ports \<Rightarrow> rename_cmd \<Rightarrow> db \<Rightarrow> storage_entry_dto result \<times> db" where
  "rename_entry P c = run_tx (rename_entry_tx P c)"

section \<open>Move\<close>

record move_cmd =
  mv_owner :: uuid
  mv_entry :: uuid
  mv_destination :: uuid

definition move_entry_tx ::
  "ports \<Rightarrow> move_cmd \<Rightarrow> db \<Rightarrow> (storage_entry_dto \<times> db) result" where
  "move_entry_tx P c d =
     rbind (get_entry (p_unicode P) d (mv_entry c) False) (\<lambda>found.
     rbind (require_owned found (mv_owner c)) (\<lambda>entry.
     rbind (require (\<not> (e_parent entry = None \<or> e_id entry = mv_destination c)) InvalidMove) (\<lambda>_.
     rbind (get_folder (p_unicode P) d (mv_destination c) False) (\<lambda>found_dest.
     rbind (require_folder found_dest (mv_owner c)) (\<lambda>destination.
     rbind (if is_folder entry then is_descendant d (e_id entry) (e_id destination)
            else Inr False) (\<lambda>below.
     rbind (require (\<not> below) InvalidMove) (\<lambda>_.
     rbind (entry_name_create (p_unicode P) (e_name entry)) (\<lambda>name.
     rbind (ensure_name_available d (e_id destination) name (Some (e_id entry))) (\<lambda>_.
     rbind (entry_move entry (e_id destination) (p_now P)) (\<lambda>moved.
     rbind (save_entry moved d) (\<lambda>d'. Inr (entry_to_dto moved False, d'))))))))))))"

definition move_entry :: "ports \<Rightarrow> move_cmd \<Rightarrow> db \<Rightarrow> storage_entry_dto result \<times> db" where
  "move_entry P c = run_tx (move_entry_tx P c)"

section \<open>Copy\<close>

record copy_cmd =
  cp_owner :: uuid
  cp_entry :: uuid
  cp_destination :: uuid
  cp_new_name :: "string option"

text \<open>\<open>_copy_file_from_version\<close>: two identifiers, \<open>n\<close> for the file and \<open>n + 1\<close> for its version.\<close>

definition copied_metadata ::
  "unicode \<Rightarrow> uuid \<Rightarrow> entry_name \<Rightarrow> file_metadata \<Rightarrow> file_metadata" where
  "copied_metadata U file_id name fm =
     (let ext = entry_name_extension U name
      in \<lparr>fm_original_name = en_value name,
          fm_internal_name =
            (if ext \<noteq> [] then uuid_str file_id @ ''.'' @ ext else uuid_str file_id),
          fm_size = fm_size fm, fm_mime_type = fm_mime_type fm, fm_extension = ext,
          fm_checksum = fm_checksum fm, fm_version_number = 1\<rparr>)"

definition copy_file_from_version ::
  "ports \<Rightarrow> nat \<Rightarrow> storage_entry \<Rightarrow> file_metadata \<Rightarrow> file_version \<Rightarrow> uuid \<Rightarrow> entry_name \<Rightarrow> db \<Rightarrow>
     (storage_entry \<times> db) result" where
  "copy_file_from_version P n source fm version parent_id name d =
     (let file_id = p_ids P n;
          cfm = copied_metadata (p_unicode P) file_id name fm;
          copied = \<lparr>e_id = file_id, e_owner = e_owner source, e_parent = Some parent_id,
            e_name = en_value name, e_normalized = en_normalized name, e_created = p_now P,
            e_updated = p_now P, e_deleted = None, e_kind = File cfm\<rparr>;
          copied_version = \<lparr>v_id = p_ids P (n + 1), v_file = file_id,
            v_object = v_object version, v_number = 1, v_original_name = en_value name,
            v_size = fm_size fm, v_mime_type = fm_mime_type fm,
            v_extension = fm_extension cfm, v_checksum = fm_checksum fm,
            v_created_by = e_owner source, v_created = p_now P\<rparr>
      in rbind (file_post_init (p_unicode P) cfm) (\<lambda>_.
         rbind (file_version_post_init (p_unicode P) copied_version) (\<lambda>_.
         rbind (add_file copied cfm copied_version d) (\<lambda>d'. Inr (copied, d')))))"

fun copy_nodes ::
  "ports \<Rightarrow> (uuid \<rightharpoonup> file_version) \<Rightarrow> storage_entry list \<Rightarrow> nat \<Rightarrow> (uuid \<rightharpoonup> uuid) \<Rightarrow> db \<Rightarrow>
     db result" where
  "copy_nodes P versions [] n folder_ids d = Inr d"
| "copy_nodes P versions (child # nodes) n folder_ids d =
     (case Option.bind (e_parent child) folder_ids of
        None \<Rightarrow> Inl InvalidStateTransition
      | Some new_parent \<Rightarrow>
          rbind (entry_name_create (p_unicode P) (e_name child)) (\<lambda>child_name.
          (case e_kind child of
             Folder \<Rightarrow>
               (let copied = new_folder (p_ids P n) (e_owner child) new_parent child_name (p_now P)
                in rbind (add_folder copied d)
                     (copy_nodes P versions nodes (n + 1)
                        (folder_ids(e_id child \<mapsto> e_id copied))))
           | File fm \<Rightarrow>
               (case versions (e_id child) of
                  None \<Rightarrow> Inl InvalidStateTransition
                | Some version \<Rightarrow>
                    rbind (copy_file_from_version P n child fm version new_parent child_name d)
                      (\<lambda>(_, d'). copy_nodes P versions nodes (n + 2) folder_ids d')))))"

fun is_file :: "storage_entry \<Rightarrow> bool" where
  "is_file e = (case e_kind e of File _ \<Rightarrow> True | Folder \<Rightarrow> False)"

definition copy_folder_tree ::
  "ports \<Rightarrow> storage_entry \<Rightarrow> uuid \<Rightarrow> entry_name \<Rightarrow> db \<Rightarrow> (storage_entry \<times> db) result" where
  "copy_folder_tree P source parent_id name d =
     (let copied_root = new_folder (p_ids P 0) (e_owner source) parent_id name (p_now P)
      in rbind (add_folder copied_root d) (\<lambda>d1.
         rbind (stream_subtree (p_unicode P) d1 (e_id source)) (\<lambda>streamed.
         (let nodes = filter (\<lambda>e. e_id e \<noteq> e_id source) streamed;
              file_ids = map e_id (filter is_file nodes)
          in rbind (get_current_versions_batch (p_unicode P) d1 file_ids) (\<lambda>versions.
             rbind (copy_nodes P versions nodes 1 [e_id source \<mapsto> e_id copied_root] d1) (\<lambda>d2.
             Inr (copied_root, d2)))))))"

definition copy_file ::
  "ports \<Rightarrow> storage_entry \<Rightarrow> file_metadata \<Rightarrow> uuid \<Rightarrow> entry_name \<Rightarrow> db \<Rightarrow>
     (storage_entry \<times> db) result" where
  "copy_file P source fm parent_id name d =
     rbind (get_current_version (p_unicode P) d (e_id source)) (\<lambda>found.
     rbind (some_or InvalidStateTransition found) (\<lambda>version.
     copy_file_from_version P 0 source fm version parent_id name d))"

text \<open>\<open>command.new_name or source.name\<close>: an empty new name counts as none.\<close>

definition copy_target_name :: "copy_cmd \<Rightarrow> storage_entry \<Rightarrow> string" where
  "copy_target_name c source =
     (case cp_new_name c of
        None \<Rightarrow> e_name source | Some n \<Rightarrow> if n = [] then e_name source else n)"

definition copy_entry_tx ::
  "ports \<Rightarrow> copy_cmd \<Rightarrow> db \<Rightarrow> (storage_entry_dto \<times> db) result" where
  "copy_entry_tx P c d =
     rbind (get_entry (p_unicode P) d (cp_entry c) False) (\<lambda>found.
     rbind (require_owned found (cp_owner c)) (\<lambda>source.
     rbind (require (e_parent source \<noteq> None) InvalidStateTransition) (\<lambda>_.
     rbind (get_folder (p_unicode P) d (cp_destination c) False) (\<lambda>found_dest.
     rbind (require_folder found_dest (cp_owner c)) (\<lambda>destination.
     rbind (entry_name_create (p_unicode P) (copy_target_name c source)) (\<lambda>target_name.
     rbind (ensure_name_available d (e_id destination) target_name None) (\<lambda>_.
     rbind (case e_kind source of
              File fm \<Rightarrow> copy_file P source fm (e_id destination) target_name d
            | Folder \<Rightarrow> copy_folder_tree P source (e_id destination) target_name d)
       (\<lambda>(copied, d'). Inr (entry_to_dto copied False, d')))))))))"

definition copy_entry :: "ports \<Rightarrow> copy_cmd \<Rightarrow> db \<Rightarrow> storage_entry_dto result \<times> db" where
  "copy_entry P c = run_tx (copy_entry_tx P c)"

section \<open>Trash\<close>

record trash_cmd =
  tr_owner :: uuid
  tr_entry :: uuid

definition trash_entry_tx :: "ports \<Rightarrow> trash_cmd \<Rightarrow> db \<Rightarrow> (trash_item_dto \<times> db) result" where
  "trash_entry_tx P c d =
     rbind (get_entry (p_unicode P) d (tr_entry c) True) (\<lambda>found.
     rbind (require_owned found (tr_owner c)) (\<lambda>entry.
     (if e_deleted entry \<noteq> None
      then rbind (some_or InvalidStateTransition (get_trash_item_by_entry d (e_id entry)))
             (\<lambda>existing. Inr (trash_to_dto existing, d))
      else
        (case e_parent entry of
           None \<Rightarrow> Inl InvalidStateTransition
         | Some parent \<Rightarrow>
             (let item = \<lparr>ti_id = p_ids P 0, ti_entry = e_id entry, ti_original_parent = parent,
                ti_deleted_by = tr_owner c, ti_trashed_at = p_now P\<rparr>
              in rbind (entry_move_to_trash entry (p_now P)) (\<lambda>_.
                 rbind (soft_delete_subtree (e_id entry) (p_now P) d) (\<lambda>(_, d1).
                 rbind (insert_trash item d1) (\<lambda>d2. Inr (trash_to_dto item, d2)))))))))"

definition trash_entry :: "ports \<Rightarrow> trash_cmd \<Rightarrow> db \<Rightarrow> trash_item_dto result \<times> db" where
  "trash_entry P c = run_tx (trash_entry_tx P c)"

section \<open>Restore\<close>

record restore_cmd =
  rs_owner :: uuid
  rs_trash_item :: uuid
  rs_destination :: "uuid option"

definition restore_entry_tx ::
  "ports \<Rightarrow> restore_cmd \<Rightarrow> db \<Rightarrow> (storage_entry_dto \<times> db) result" where
  "restore_entry_tx P c d =
     rbind (some_or StorageEntryNotFound (get_trash_item d (rs_trash_item c))) (\<lambda>item.
     rbind (require (ti_deleted_by item = rs_owner c) StorageEntryNotFound) (\<lambda>_.
     rbind (get_entry (p_unicode P) d (ti_entry item) True) (\<lambda>found.
     rbind (require_owned found (rs_owner c)) (\<lambda>entry.
     (let destination_id = (case rs_destination c of
            None \<Rightarrow> ti_original_parent item | Some x \<Rightarrow> x)
      in rbind (get_folder (p_unicode P) d destination_id False) (\<lambda>found_dest.
         rbind (require_folder found_dest (rs_owner c)) (\<lambda>destination.
         rbind (entry_name_create (p_unicode P) (e_name entry)) (\<lambda>name.
         rbind (ensure_name_available d (e_id destination) name (Some (e_id entry))) (\<lambda>_.
         rbind (entry_restore entry (e_id destination) (p_now P)) (\<lambda>restored.
         rbind (save_entry restored d) (\<lambda>d1.
         rbind (restore_subtree (e_id restored) (p_now P) d1) (\<lambda>(_, d2).
         Inr (entry_to_dto restored False, remove_trash_item (ti_id item) d2)))))))))))))"

definition restore_entry :: "ports \<Rightarrow> restore_cmd \<Rightarrow> db \<Rightarrow> storage_entry_dto result \<times> db" where
  "restore_entry P c = run_tx (restore_entry_tx P c)"

end
