(* ===== verification/Storage_Invariant.thy ===== *)
theory Storage_Invariant
  imports Storage_Actions
begin

text \<open>
  The invariant of the storage tables: the declared constraints, a well-formed tree, files
  with metadata and a current version, and a tombstone above every deleted entry. Each
  primitive write of the repository preserves it under the condition its callers establish.
\<close>

section \<open>The invariant\<close>

definition meta_ok :: "db \<Rightarrow> bool" where
  "meta_ok d \<longleftrightarrow> distinct (map m_entry (db_meta d))
     \<and> (\<forall>m \<in> set (db_meta d). meta_row_check m \<and> m_entry m \<in> entry_ids d)"

definition versions_ok :: "db \<Rightarrow> bool" where
  "versions_ok d \<longleftrightarrow> distinct (map v_id (db_versions d))
     \<and> distinct (map (\<lambda>v. (v_file v, v_number v)) (db_versions d))
     \<and> (\<forall>v \<in> set (db_versions d). version_check d v)"

definition objects_ok :: "db \<Rightarrow> bool" where
  "objects_ok d \<longleftrightarrow> distinct (map o_id (db_objects d)) \<and> distinct (map o_storage_key (db_objects d))
     \<and> (\<forall>ob \<in> set (db_objects d). object_check ob \<and> o_storage_key ob \<noteq> [])"

definition uploads_ok :: "db \<Rightarrow> bool" where
  "uploads_ok d \<longleftrightarrow> distinct (map us_id (db_uploads d)) \<and> (\<forall>u \<in> set (db_uploads d). upload_check d u)"

definition trash_ok :: "db \<Rightarrow> bool" where
  "trash_ok d \<longleftrightarrow> distinct (map ti_id (db_trash d)) \<and> distinct (map ti_entry (db_trash d))
     \<and> (\<forall>t \<in> set (db_trash d). trash_check d t)"

definition rows_ok :: "db \<Rightarrow> bool" where
  "rows_ok d \<longleftrightarrow> entries_ok (account_ids d) (db_entries d) \<and> meta_ok d \<and> versions_ok d
     \<and> objects_ok d \<and> uploads_ok d \<and> trash_ok d"

definition files_ok :: "db \<Rightarrow> bool" where
  "files_ok d \<longleftrightarrow>
     (\<forall>r \<in> set (db_entries d). r_type r = FileType \<longrightarrow> r_id r \<in> tbl_keys m_entry (db_meta d))
     \<and> (\<forall>m \<in> set (db_meta d). (m_entry m, fm_version_number (m_data m))
          \<in> tbl_keys (\<lambda>v. (v_file v, v_number v)) (db_versions d))"

text \<open>A deleted entry lies at or below a deleted entry that has a tombstone.\<close>

definition covered_by :: "entry_row list \<Rightarrow> trash_item list \<Rightarrow> uuid \<Rightarrow> uuid \<Rightarrow> bool" where
  "covered_by tbl trash x root \<longleftrightarrow>
     root \<in> tbl_keys ti_entry trash \<and> (x, root) \<in> (parent_rel tbl)\<^sup>*
     \<and> (\<exists>r \<in> set tbl. r_id r = root \<and> r_deleted r \<noteq> None)"

definition trash_covers :: "entry_row list \<Rightarrow> trash_item list \<Rightarrow> bool" where
  "trash_covers tbl trash \<longleftrightarrow>
     (\<forall>r \<in> set tbl. r_deleted r \<noteq> None \<longrightarrow> (\<exists>root. covered_by tbl trash (r_id r) root))"

definition storage_ok :: "db \<Rightarrow> bool" where
  "storage_ok d \<longleftrightarrow> rows_ok d \<and> tree_wf (db_entries d) \<and> files_ok d
     \<and> trash_covers (db_entries d) (db_trash d)"

lemma storage_okD:
  assumes "storage_ok d"
  shows "rows_ok d" "tree_wf (db_entries d)" "files_ok d"
    "trash_covers (db_entries d) (db_trash d)"
    "entries_ok (account_ids d) (db_entries d)" "distinct (map r_id (db_entries d))"
    "distinct (map m_entry (db_meta d))" "meta_ok d" "versions_ok d" "objects_ok d"
    "uploads_ok d" "trash_ok d"
  using assms by (auto simp: storage_ok_def rows_ok_def meta_ok_def dest: tree_wfD)

lemmas table_ok_defs = meta_ok_def versions_ok_def objects_ok_def uploads_ok_def trash_ok_def

lemma storage_ok_empty: "storage_ok (empty_db\<lparr>db_accounts := accounts\<rparr>)"
  by (simp add: storage_ok_def rows_ok_def table_ok_defs files_ok_def trash_covers_def empty_db_def
      entries_ok_def sibling_keys_def root_owners_def)

section \<open>Foreign keys under growing tables\<close>

definition keys_le :: "db \<Rightarrow> db \<Rightarrow> bool" where
  "keys_le d d' \<longleftrightarrow> account_ids d \<subseteq> account_ids d' \<and> entry_ids d \<subseteq> entry_ids d'
     \<and> tbl_keys m_entry (db_meta d) \<subseteq> tbl_keys m_entry (db_meta d')
     \<and> tbl_keys o_id (db_objects d) \<subseteq> tbl_keys o_id (db_objects d')"

lemma checks_mono:
  assumes "keys_le d d'"
  shows "version_check d v \<Longrightarrow> version_check d' v" "upload_check d u \<Longrightarrow> upload_check d' u"
    "trash_check d t \<Longrightarrow> trash_check d' t"
  using assms
  by (auto simp only: keys_le_def version_check_def upload_check_def trash_check_def)

lemma meta_ok_mono:
  "meta_ok d \<Longrightarrow> keys_le d d' \<Longrightarrow> db_meta d' = db_meta d \<Longrightarrow> meta_ok d'"
  by (auto simp: meta_ok_def keys_le_def)

lemma versions_ok_mono:
  "versions_ok d \<Longrightarrow> keys_le d d' \<Longrightarrow> db_versions d' = db_versions d \<Longrightarrow> versions_ok d'"
  by (auto simp: versions_ok_def intro: checks_mono)

lemma objects_ok_mono: "objects_ok d \<Longrightarrow> db_objects d' = db_objects d \<Longrightarrow> objects_ok d'"
  by (simp add: objects_ok_def)

lemma uploads_ok_mono:
  "uploads_ok d \<Longrightarrow> keys_le d d' \<Longrightarrow> db_uploads d' = db_uploads d \<Longrightarrow> uploads_ok d'"
  by (auto simp: uploads_ok_def intro: checks_mono)

lemma trash_ok_mono:
  "trash_ok d \<Longrightarrow> keys_le d d' \<Longrightarrow> db_trash d' = db_trash d \<Longrightarrow> trash_ok d'"
  by (auto simp: trash_ok_def intro: checks_mono)

lemmas table_ok_mono = meta_ok_mono versions_ok_mono objects_ok_mono uploads_ok_mono trash_ok_mono

lemma rows_ok_entries:
  assumes "rows_ok d" and "entries_ok (account_ids d) tbl"
    and "entry_ids d \<subseteq> tbl_keys r_id tbl"
  shows "rows_ok (d\<lparr>db_entries := tbl\<rparr>)"
proof -
  have "keys_le d (d\<lparr>db_entries := tbl\<rparr>)" using assms(3) by (simp add: keys_le_def)
  with assms(1,2) show ?thesis
    by (auto simp: rows_ok_def intro: table_ok_mono)
qed

lemma rows_ok_insert_meta:
  assumes "rows_ok d" and ins: "insert_meta m d = Inr d'"
  shows "rows_ok d'"
proof -
  from ins have d': "d' = d\<lparr>db_meta := db_meta d @ [m]\<rparr>" and
    m: "meta_row_check m" "m_entry m \<in> entry_ids d" "m_entry m \<notin> tbl_keys m_entry (db_meta d)"
    by (auto simp: insert_meta_def split: if_splits)
  have le: "keys_le d d'" by (auto simp: keys_le_def d' tbl_keys_append)
  have "meta_ok d'" using assms(1) m by (auto simp: rows_ok_def meta_ok_def d' tbl_keys_def)
  with le assms(1) show ?thesis
    by (auto simp: rows_ok_def d' intro: table_ok_mono)
qed

lemma rows_ok_insert_version:
  assumes "rows_ok d" and ins: "insert_version v d = Inr d'"
  shows "rows_ok d'"
proof -
  from ins have d': "d' = d\<lparr>db_versions := db_versions d @ [v]\<rparr>" and
    v: "version_check d v" "v_id v \<notin> tbl_keys v_id (db_versions d)"
    "(v_file v, v_number v) \<notin> tbl_keys (\<lambda>v. (v_file v, v_number v)) (db_versions d)"
    by (auto simp: insert_version_def split: if_splits)
  have le: "keys_le d d'" by (simp add: keys_le_def d')
  have "distinct (map v_id (db_versions d'))"
    "distinct (map (\<lambda>v. (v_file v, v_number v)) (db_versions d'))"
    using assms(1) v(2,3) by (simp_all add: rows_ok_def versions_ok_def d' tbl_keys_def)
  moreover have "\<forall>v \<in> set (db_versions d'). version_check d' v"
    using assms(1) v(1) checks_mono(1) [OF le] by (auto simp: rows_ok_def versions_ok_def d')
  ultimately have "versions_ok d'" by (simp add: versions_ok_def)
  with le assms(1) show ?thesis
    by (auto simp: rows_ok_def d' intro: table_ok_mono)
qed

lemma rows_ok_insert_object:
  assumes "rows_ok d" and "o_storage_key ob \<noteq> []" and ins: "insert_object ob d = Inr d'"
  shows "rows_ok d'"
proof -
  from ins have d': "d' = d\<lparr>db_objects := db_objects d @ [ob]\<rparr>" and
    ob: "object_check ob" "o_id ob \<notin> tbl_keys o_id (db_objects d)"
    "o_storage_key ob \<notin> tbl_keys o_storage_key (db_objects d)"
    by (auto simp: insert_object_def split: if_splits)
  have le: "keys_le d d'" by (auto simp: keys_le_def d' tbl_keys_append)
  have "objects_ok d'"
    using assms(1,2) ob by (auto simp: rows_ok_def objects_ok_def d' tbl_keys_def)
  with le assms(1) show ?thesis
    by (auto simp: rows_ok_def d' intro: table_ok_mono)
qed

lemma rows_ok_insert_upload:
  assumes "rows_ok d" and ins: "insert_upload u d = Inr d'"
  shows "rows_ok d'"
proof -
  from ins have d': "d' = d\<lparr>db_uploads := db_uploads d @ [u]\<rparr>" and
    u: "upload_check d u" "us_id u \<notin> tbl_keys us_id (db_uploads d)"
    by (auto simp: insert_upload_def split: if_splits)
  have le: "keys_le d d'" by (simp add: keys_le_def d')
  have "\<forall>u \<in> set (db_uploads d'). upload_check d' u"
    using assms(1) u(1) checks_mono(2) [OF le] by (auto simp: rows_ok_def uploads_ok_def d')
  then have "uploads_ok d'"
    using assms(1) u(2) by (simp add: rows_ok_def uploads_ok_def d' tbl_keys_def)
  with le assms(1) show ?thesis
    by (auto simp: rows_ok_def d' intro: table_ok_mono)
qed

lemma rows_ok_insert_trash:
  assumes "rows_ok d" and ins: "insert_trash t d = Inr d'"
  shows "rows_ok d'"
proof -
  from ins have d': "d' = d\<lparr>db_trash := db_trash d @ [t]\<rparr>" and
    t: "trash_check d t" "ti_id t \<notin> tbl_keys ti_id (db_trash d)"
    "ti_entry t \<notin> tbl_keys ti_entry (db_trash d)"
    by (auto simp: insert_trash_def split: if_splits)
  have le: "keys_le d d'" by (simp add: keys_le_def d')
  have "\<forall>t \<in> set (db_trash d'). trash_check d' t"
    using assms(1) t(1) checks_mono(3) [OF le] by (auto simp: rows_ok_def trash_ok_def d')
  then have "trash_ok d'"
    using assms(1) t(2,3) by (simp add: rows_ok_def trash_ok_def d' tbl_keys_def)
  with le assms(1) show ?thesis
    by (auto simp: rows_ok_def d' intro: table_ok_mono)
qed

section \<open>Tombstone cover under updates\<close>

lemma covered_by_mono:
  assumes "covered_by tbl trash x root" and "set tbl \<subseteq> set tbl'" and "set trash \<subseteq> set trash'"
  shows "covered_by tbl' trash' x root"
proof -
  have "parent_rel tbl \<subseteq> parent_rel tbl'" using assms(2) by (auto simp: parent_rel_def)
  then have "(parent_rel tbl)\<^sup>* \<subseteq> (parent_rel tbl')\<^sup>*" by (rule rtrancl_mono)
  with assms show ?thesis unfolding covered_by_def tbl_keys_def by blast
qed

lemma path_below_avoids:
  assumes "(x, t) \<in> R\<^sup>*" and "(y, t) \<notin> R\<^sup>*" and "{(c, p) \<in> R. c \<noteq> y} \<subseteq> R'"
  shows "(x, t) \<in> R'\<^sup>*"
  using assms(1)
proof (induction rule: converse_rtrancl_induct)
  case (step c p)
  then have "c \<noteq> y" using assms(2) by (auto intro: converse_rtrancl_into_rtrancl)
  with step assms(3) show ?case by (auto intro: converse_rtrancl_into_rtrancl)
qed simp

lemma path_from_avoids:
  assumes "(x, t) \<in> R\<^sup>*" and "(x, y) \<notin> R\<^sup>*" and "{(c, p) \<in> R. c \<noteq> y} \<subseteq> R'"
  shows "(x, t) \<in> R'\<^sup>*"
  using assms(1,2)
proof (induction rule: converse_rtrancl_induct)
  case (step c p)
  then have "c \<noteq> y" "(p, y) \<notin> R\<^sup>*" by (auto intro: converse_rtrancl_into_rtrancl)
  with step assms(3) show ?case by (auto intro: converse_rtrancl_into_rtrancl)
qed simp

lemma trash_coversE:
  assumes "trash_covers tbl trash" and "r \<in> set tbl" "r_deleted r \<noteq> None"
  obtains root where "covered_by tbl trash (r_id r) root"
  using assms by (auto simp: trash_covers_def)

lemma trash_covers_append_active:
  assumes cov: "trash_covers tbl trash" and "r_deleted r = None"
  shows "trash_covers (tbl @ [r]) trash"
  unfolding trash_covers_def
proof (intro ballI impI)
  fix s assume "s \<in> set (tbl @ [r])" "r_deleted s \<noteq> None"
  with assms have "s \<in> set tbl" "r_deleted s \<noteq> None" by auto
  then obtain root where "covered_by tbl trash (r_id s) root" by (rule trash_coversE [OF cov])
  then have "covered_by (tbl @ [r]) trash (r_id s) root" by (rule covered_by_mono) auto
  then show "\<exists>root. covered_by (tbl @ [r]) trash (r_id s) root" ..
qed

lemma parent_rel_update_id:
  assumes "\<And>r. r_id (f r) = r_id r" and "\<And>r. P r \<Longrightarrow> r_parent (f r) = r_parent r"
  shows "parent_rel (tbl_update P f tbl) = parent_rel tbl"
  unfolding tbl_update_def using assms by (intro parent_rel_map_same) auto

lemma trash_covers_update_plain:
  assumes "trash_covers tbl trash" and "\<And>r. r_id (f r) = r_id r"
    and "\<And>r. P r \<Longrightarrow> r_parent (f r) = r_parent r" "\<And>r. P r \<Longrightarrow> r_deleted (f r) = r_deleted r"
  shows "trash_covers (tbl_update P f tbl) trash" (is "trash_covers ?t _")
  unfolding trash_covers_def
proof (intro ballI impI)
  have rel: "parent_rel ?t = parent_rel tbl" using assms by (intro parent_rel_update_id) auto
  fix s' assume "s' \<in> set ?t" and del: "r_deleted s' \<noteq> None"
  then obtain s where s: "s \<in> set tbl" "s' = (if P s then f s else s)"
    by (auto simp: set_tbl_update)
  have sid: "r_id s' = r_id s" and sdel: "r_deleted s \<noteq> None"
    using s(2) del assms(2,4) by (simp_all split: if_splits)
  from s(1) sdel obtain root where "covered_by tbl trash (r_id s) root"
    by (rule trash_coversE [OF assms(1)])
  then obtain r where root: "root \<in> tbl_keys ti_entry trash" "(r_id s, root) \<in> (parent_rel tbl)\<^sup>*"
    and r: "r \<in> set tbl" "r_id r = root" "r_deleted r \<noteq> None" by (auto simp: covered_by_def)
  have "\<exists>r' \<in> set ?t. r_id r' = root \<and> r_deleted r' \<noteq> None"
    using r assms by (intro bexI [of _ "if P r then f r else r"]) (auto simp: set_tbl_update)
  with root have "covered_by ?t trash (r_id s') root" by (simp add: covered_by_def rel sid)
  then show "\<exists>root. covered_by ?t trash (r_id s') root" ..
qed

text \<open>Moving an active entry: deleted entries below it keep their tombstone.\<close>

lemma trash_covers_reparent_active:
  assumes wf: "tree_wf tbl" and cov: "trash_covers tbl trash"
    and x: "x \<in> set tbl" "r_deleted x = None"
    and f: "\<And>r. r_id (f r) = r_id r" "\<And>r. r_id r = r_id x \<Longrightarrow> r_deleted (f r) = None"
  shows "trash_covers (tbl_update (\<lambda>r. r_id r = r_id x) f tbl) trash" (is "trash_covers ?t _")
  unfolding trash_covers_def
proof (intro ballI impI)
  fix s assume "s \<in> set ?t" "r_deleted s \<noteq> None"
  then have s: "s \<in> set tbl" "r_id s \<noteq> r_id x" using f by (auto simp: set_tbl_update split: if_splits)
  with cov \<open>r_deleted s \<noteq> None\<close> obtain root r where root: "root \<in> tbl_keys ti_entry trash"
    and path: "(r_id s, root) \<in> (parent_rel tbl)\<^sup>*"
    and r: "r \<in> set tbl" "r_id r = root" "r_deleted r \<noteq> None"
    unfolding trash_covers_def covered_by_def by blast
  have rx: "root \<noteq> r_id x"
    using r x distinct_key_inject [OF tree_wfD(1) [OF wf], of r x] by auto
  have above: "(r_id x, root) \<notin> (parent_rel tbl)\<^sup>*"
  proof
    assume "(r_id x, root) \<in> (parent_rel tbl)\<^sup>*"
    from ancestor_row [OF wf this x(1) refl] x(2) obtain s where
      "s \<in> set tbl" "r_id s = root" "r_deleted s = None" by auto
    with r show False
      using distinct_key_inject [OF tree_wfD(1) [OF wf], of s r] by simp
  qed
  have "{(c, p) \<in> parent_rel tbl. c \<noteq> r_id x} \<subseteq> parent_rel ?t"
  proof (rule subsetI)
    fix e assume "e \<in> {(c, p) \<in> parent_rel tbl. c \<noteq> r_id x}"
    then obtain r p where e: "e = (r_id r, p)" and r: "r \<in> set tbl" "r_id r \<noteq> r_id x" "r_parent r = Some p"
      by (auto simp: parent_rel_def)
    from r(1,2) have "r \<in> set ?t" by (simp add: tbl_update_keep)
    with r(3) e show "e \<in> parent_rel ?t" by (auto simp: parent_rel_def)
  qed
  with path above have "(r_id s, root) \<in> (parent_rel ?t)\<^sup>*" by (rule path_below_avoids)
  moreover have "r \<in> set ?t" using r rx by (simp add: tbl_update_keep)
  ultimately have "covered_by ?t trash (r_id s) root"
    using root r unfolding covered_by_def by blast
  then show "\<exists>root. covered_by ?t trash (r_id s) root" ..
qed

text \<open>Marking a subtree deleted and adding its root's tombstone.\<close>

lemma trash_covers_mark_deleted:
  assumes cov: "trash_covers tbl trash" and S: "S = descendants tbl x" "t \<noteq> None"
    and f: "\<And>r. r_id (f r) = r_id r" "\<And>r. r_parent (f r) = r_parent r" "\<And>r. r_deleted (f r) = t"
    and x: "x \<in> tbl_keys r_id tbl" and item: "ti_entry item = x"
  shows "trash_covers (tbl_update (\<lambda>r. r_id r \<in> S) f tbl) (trash @ [item])"
    (is "trash_covers ?t _")
  unfolding trash_covers_def
proof (intro ballI impI)
  have rel: "parent_rel ?t = parent_rel tbl" using f by (intro parent_rel_update_id) auto
  fix s' assume "s' \<in> set ?t" and del: "r_deleted s' \<noteq> None"
  then obtain s where s: "s \<in> set tbl" "s' = (if r_id s \<in> S then f s else s)"
    by (auto simp: set_tbl_update)
  have sid: "r_id s' = r_id s" using s f by simp
  show "\<exists>root. covered_by ?t (trash @ [item]) (r_id s') root"
  proof (cases "r_id s \<in> S")
    case True
    with S have "(r_id s, x) \<in> (parent_rel tbl)\<^sup>*" by (simp add: descendants_def)
    moreover obtain r where r: "r \<in> set tbl" "r_id r = x" using x by (auto simp: tbl_keys_def)
    then have "x \<in> S" using S x by (simp add: descendants_def)
    with r have "f r \<in> set ?t" by (simp add: tbl_update_hit)
    moreover have "r_id (f r) = x" "r_deleted (f r) \<noteq> None" using r f S(2) by simp_all
    moreover have "x \<in> tbl_keys ti_entry (trash @ [item])" using item by (simp add: tbl_keys_def)
    ultimately have "covered_by ?t (trash @ [item]) (r_id s') x"
      unfolding covered_by_def rel sid by blast
    then show ?thesis ..
  next
    case False
    with s del have "r_deleted s \<noteq> None" by simp
    with s(1) obtain root where "covered_by tbl trash (r_id s) root" by (rule trash_coversE [OF cov])
    then obtain r where root: "root \<in> tbl_keys ti_entry trash" "(r_id s, root) \<in> (parent_rel tbl)\<^sup>*"
      and r: "r \<in> set tbl" "r_id r = root" "r_deleted r \<noteq> None" by (auto simp: covered_by_def)
    have "\<exists>r' \<in> set ?t. r_id r' = root \<and> r_deleted r' \<noteq> None"
      using r f S(2) by (intro bexI [of _ "if r_id r \<in> S then f r else r"])
        (simp_all add: set_tbl_update)
    moreover have "root \<in> tbl_keys ti_entry (trash @ [item])"
      using root(1) by (auto simp: tbl_keys_def)
    ultimately have "covered_by ?t (trash @ [item]) (r_id s') root"
      using root(2) unfolding covered_by_def rel sid by blast
    then show ?thesis ..
  qed
qed

section \<open>Loaded entities are rows\<close>

lemma entry_model_simps [simp]:
  "r_id (entry_model e) = e_id e" "r_owner (entry_model e) = e_owner e"
  "r_parent (entry_model e) = e_parent e" "r_deleted (entry_model e) = e_deleted e"
  "r_name (entry_model e) = e_name e" "r_normalized (entry_model e) = e_normalized e"
  "r_created (entry_model e) = e_created e" "r_updated (entry_model e) = e_updated e"
  "r_type (entry_model e) = FolderType \<longleftrightarrow> is_folder e"
  "r_type (entry_model e) = FileType \<longleftrightarrow> \<not> is_folder e"
  by (simp_all add: entry_model_def split: entry_kind.split)

lemma to_entry_model: "to_entry U d r = Inr e \<Longrightarrow> entry_model e = r"
  by (auto simp: to_entry_def storage_entry_from_models_def entry_model_def result_simps
      split: entry_type.splits option.splits)

lemma to_entries_models: "to_entries U d rs = Inr es \<Longrightarrow> map entry_model es = rs"
  by (induction rs arbitrary: es) (auto simp: result_simps dest: to_entry_model)

lemma get_entry_SomeD:
  assumes "get_entry U d i inc = Inr (Some e)"
  shows "entry_model e \<in> set (db_entries d)" and "e_id e = i"
    and "inc \<or> e_deleted e = None"
proof -
  from assms obtain r where r: "find (\<lambda>r. r_id r = i \<and> (inc \<or> r_deleted r = None)) (db_entries d) = Some r"
    and "to_entry U d r = Inr e"
    by (auto simp: get_entry_def result_simps split: option.splits)
  then have m: "entry_model e = r" by (simp add: to_entry_model)
  from r have row: "r \<in> set (db_entries d) \<and> r_id r = i \<and> (inc \<or> r_deleted r = None)"
    by (auto simp: find_Some_iff in_set_conv_nth)
  show "entry_model e \<in> set (db_entries d)" using row m by simp
  show "e_id e = i" using row m [symmetric] by simp
  show "inc \<or> e_deleted e = None" using row m [symmetric] by simp
qed

lemma get_folder_SomeD:
  assumes "get_folder U d i inc = Inr (Some e)"
  shows "entry_model e \<in> set (db_entries d)" and "e_id e = i"
    and "inc \<or> e_deleted e = None" and "is_folder e"
proof -
  from assms have "get_entry U d i inc = Inr (Some e)" "is_folder e"
    by (auto simp: get_folder_def result_simps split: option.splits if_splits)
  then show "entry_model e \<in> set (db_entries d)" "e_id e = i" "inc \<or> e_deleted e = None"
    "is_folder e" by (auto dest: get_entry_SomeD)
qed

lemma require_owned_eq_Inr [result_simps]:
  "require_owned oe o' = Inr e \<longleftrightarrow> oe = Some e \<and> e_owner e = o'"
  by (auto simp: require_owned_def split: option.splits)

lemma require_folder_eq_Inr [result_simps]:
  "require_folder oe o' = Inr e \<longleftrightarrow> oe = Some e \<and> e_owner e = o' \<and> e_deleted e = None"
  by (auto simp: require_folder_def split: option.splits)

lemma ensure_name_available_eq_Inr [result_simps]:
  "ensure_name_available d p n x = Inr u \<longleftrightarrow> \<not> name_exists d p (en_normalized n) x"
  by (auto simp: ensure_name_available_def)

text \<open>The destination of a create, move, copy or restore.\<close>

definition active_folder_row :: "entry_row list \<Rightarrow> uuid \<Rightarrow> uuid \<Rightarrow> entry_row \<Rightarrow> bool" where
  "active_folder_row tbl owner p q \<longleftrightarrow> q \<in> set tbl \<and> r_id q = p \<and> r_type q = FolderType
     \<and> r_owner q = owner \<and> r_deleted q = None"

lemma required_folder_row:
  assumes "get_folder U d i inc = Inr found" and "require_folder found owner = Inr e"
  shows "active_folder_row (db_entries d) owner i (entry_model e)" and "e_id e = i"
  using assms get_folder_SomeD [of U d i inc e]
  by (auto simp: result_simps active_folder_row_def simp del: is_folder.simps)

section \<open>Each write keeps the invariant\<close>

lemma storage_ok_add_row:
  assumes ok: "storage_ok d" and add: "add_entry_row r d = Inr d'"
    and r: "r_parent r = Some p" "r_deleted r = None"
    and q: "active_folder_row (db_entries d) (r_owner r) p q"
  shows "rows_ok d'" and "tree_wf (db_entries d')" and "trash_covers (db_entries d') (db_trash d')"
    and "d' = d\<lparr>db_entries := db_entries d @ [r]\<rparr>"
proof -
  from add have e: "entries_ok (account_ids d) (db_entries d @ [r])"
    and d': "d' = d\<lparr>db_entries := db_entries d @ [r]\<rparr>"
    by (auto simp: add_entry_row_def result_simps)
  show "d' = d\<lparr>db_entries := db_entries d @ [r]\<rparr>" by (fact d')
  show "rows_ok d'" unfolding d'
    by (rule rows_ok_entries [OF storage_okD(1) [OF ok] e]) (simp add: tbl_keys_append)
  have new: "r_id r \<notin> tbl_keys r_id (db_entries d)"
    using e by (auto simp: entries_ok_def tbl_keys_def)
  have "tree_wf (db_entries d @ [r])"
  proof (rule tree_wf_insert [OF storage_okD(2) [OF ok] new])
    fix p' assume "r_parent r = Some p'"
    with r q show "good_parent (db_entries d) r p'"
      by (auto simp: good_parent_def active_folder_row_def)
  qed
  then show "tree_wf (db_entries d')" by (simp add: d')
  show "trash_covers (db_entries d') (db_trash d')"
    using trash_covers_append_active [OF storage_okD(4) [OF ok] r(2)] by (simp add: d')
qed

lemma storage_ok_add_folder:
  assumes ok: "storage_ok d" and add: "add_folder e d = Inr d'" and e: "e_kind e = Folder"
    "e_parent e = Some p" "e_deleted e = None"
    and q: "active_folder_row (db_entries d) (e_owner e) p q"
  shows "storage_ok d'"
proof -
  have row: "r_type (entry_model e) = FolderType" using e by simp
  note w = storage_ok_add_row [OF ok, of "entry_model e" d' p q]
  have "rows_ok d'" "tree_wf (db_entries d')" "trash_covers (db_entries d') (db_trash d')"
    and d': "d' = d\<lparr>db_entries := db_entries d @ [entry_model e]\<rparr>"
    using w add e q by (auto simp: add_folder_def)
  moreover have "files_ok d'"
    using storage_okD(3) [OF ok] row by (auto simp: files_ok_def d')
  ultimately show ?thesis by (simp add: storage_ok_def)
qed

lemma storage_ok_add_file:
  assumes ok: "storage_ok d" and add: "add_file e fm v d = Inr d'"
    and e: "e_parent e = Some p" "e_deleted e = None"
    and v: "v_file v = e_id e" "v_number v = fm_version_number fm"
    and q: "active_folder_row (db_entries d) (e_owner e) p q"
  shows "storage_ok d'"
proof -
  from add obtain d1 d2 where s: "add_entry_row (entry_model e) d = Inr d1"
    "insert_meta \<lparr>m_entry = e_id e, m_data = fm\<rparr> d1 = Inr d2" "insert_version v d2 = Inr d'"
    by (auto simp: add_file_def result_simps)
  have "rows_ok d1" "tree_wf (db_entries d1)" "trash_covers (db_entries d1) (db_trash d1)"
    and d1: "d1 = d\<lparr>db_entries := db_entries d @ [entry_model e]\<rparr>"
    using storage_ok_add_row [OF ok s(1), of p q] e q by auto
  moreover have d2: "d2 = d1\<lparr>db_meta := db_meta d1 @ [\<lparr>m_entry = e_id e, m_data = fm\<rparr>]\<rparr>"
    using s(2) by (auto simp: insert_meta_def split: if_splits)
  moreover have d': "d' = d2\<lparr>db_versions := db_versions d2 @ [v]\<rparr>"
    using s(3) by (auto simp: insert_version_def split: if_splits)
  moreover have "rows_ok d'"
    using calculation(1) s(2,3) by (blast intro: rows_ok_insert_meta rows_ok_insert_version)
  moreover have "files_ok d'"
    using storage_okD(3) [OF ok] v by (auto simp: files_ok_def d1 d2 d' tbl_keys_def)
  ultimately show ?thesis by (simp add: storage_ok_def)
qed

lemma storage_ok_insert_object:
  assumes ok: "storage_ok d" and "insert_object ob d = Inr d'" "o_storage_key ob \<noteq> []"
  shows "storage_ok d'"
proof -
  have "rows_ok d'" using assms storage_okD(1) [OF ok] by (blast intro: rows_ok_insert_object)
  with assms show ?thesis
    by (auto simp: storage_ok_def insert_object_def files_ok_def split: if_splits)
qed

lemma storage_ok_insert_upload:
  assumes ok: "storage_ok d" and "insert_upload u d = Inr d'"
  shows "storage_ok d'"
proof -
  have "rows_ok d'" using assms storage_okD(1) [OF ok] by (blast intro: rows_ok_insert_upload)
  with assms show ?thesis
    by (auto simp: storage_ok_def insert_upload_def files_ok_def split: if_splits)
qed

lemma storage_ok_save_upload:
  assumes ok: "storage_ok d" and save: "save_upload_session u d = Inr d'"
  shows "storage_ok d'"
proof -
  let ?f = "\<lambda>r. r\<lparr>us_uploaded_bytes := us_uploaded_bytes u, us_checksum := us_checksum u,
    us_status := us_status u, us_updated := us_updated u\<rparr>"
  let ?t = "tbl_update (\<lambda>r. us_id r = us_id u) ?f (db_uploads d)"
  from save have d': "d' = d\<lparr>db_uploads := ?t\<rparr>" and chk: "\<forall>r \<in> set ?t. upload_check d r"
    by (auto simp: save_upload_session_def Let_def split: if_splits)
  have "map us_id ?t = map us_id (db_uploads d)" by (rule map_key_tbl_update) simp
  moreover have le: "keys_le d d'" by (simp add: keys_le_def d')
  ultimately have "uploads_ok d'"
    using storage_okD(11) [OF ok] chk checks_mono(2) [OF le]
    by (auto simp: uploads_ok_def d' simp del: distinct_map)
  with storage_okD(1) [OF ok] le have "rows_ok d'"
    by (auto simp: rows_ok_def d' intro: table_ok_mono)
  with ok show ?thesis by (simp add: storage_ok_def files_ok_def d')
qed

text \<open>Saving an active entry under an active folder that is not below it.\<close>

lemma files_ok_update:
  assumes "files_ok d" and "\<And>r. r_id (f r) = r_id r" "\<And>r. r_type (f r) = r_type r"
  shows "files_ok (d\<lparr>db_entries := tbl_update P f (db_entries d)\<rparr>)"
  using assms by (auto simp: files_ok_def set_tbl_update)

lemma rows_ok_update:
  assumes "rows_ok d" and "\<And>r. r_id (f r) = r_id r"
    and "entries_ok (account_ids d) (tbl_update P f (db_entries d))"
  shows "rows_ok (d\<lparr>db_entries := tbl_update P f (db_entries d)\<rparr>)"
  using assms by (intro rows_ok_entries) (simp_all add: tbl_keys_update)

lemma storage_ok_save:
  assumes ok: "storage_ok d" and x: "x \<in> set (db_entries d)" "r_deleted x = None"
    and e: "e_id e = r_id x" "e_parent e = Some p" "e_deleted e = None"
    and q: "active_folder_row (db_entries d) (r_owner x) p q"
    and below: "(p, r_id x) \<notin> (parent_rel (db_entries d))\<^sup>*"
    and save: "save_entry e d = Inr d'"
  shows "storage_ok d'"
proof -
  let ?f = "\<lambda>r. r\<lparr>r_parent := e_parent e, r_name := e_name e, r_normalized := e_normalized e,
    r_updated := e_updated e, r_deleted := e_deleted e\<rparr>"
  let ?t = "tbl_update (\<lambda>r. r_id r = r_id x) ?f (db_entries d)"
  from save have chk: "entries_ok (account_ids d) ?t" and d': "d' = d\<lparr>db_entries := ?t\<rparr>"
    using e by (auto simp: save_entry_def result_simps split: if_splits)
  note ok' = storage_okD [OF ok]
  have "rows_ok d'" unfolding d' by (rule rows_ok_update [OF ok'(1) _ chk]) simp
  moreover have "tree_wf ?t"
    using q below e by (intro tree_wf_reparent [OF ok'(2), of q])
      (simp_all add: active_folder_row_def x)
  moreover have "files_ok d'" unfolding d' by (rule files_ok_update [OF ok'(3)]) simp_all
  moreover have "trash_covers ?t (db_trash d)"
    using e by (intro trash_covers_reparent_active [OF ok'(2,4) x]) simp_all
  ultimately show ?thesis by (simp add: storage_ok_def d')
qed

section \<open>Trash, restore, purge\<close>

lemma update_subtree_deletion_eq:
  assumes "update_subtree_deletion x del upd d = Inr (n, d')"
  obtains f where "d' = d\<lparr>db_entries := tbl_update (\<lambda>r. r_id r \<in> descendants (db_entries d) x) f (db_entries d)\<rparr>"
    and "entries_ok (account_ids d) (db_entries d')"
    and "\<And>r. r_id (f r) = r_id r" "\<And>r. r_type (f r) = r_type r" "\<And>r. r_owner (f r) = r_owner r"
    "\<And>r. r_parent (f r) = r_parent r" "\<And>r. r_deleted (f r) = del"
    "\<And>r. r_name (f r) = r_name r" "\<And>r. r_normalized (f r) = r_normalized r"
proof -
  let ?f = "\<lambda>r. (case upd of None \<Rightarrow> r\<lparr>r_deleted := del\<rparr>
      | Some t \<Rightarrow> r\<lparr>r_deleted := del, r_updated := t\<rparr>)"
  from assms obtain l where l: "subtree_cte (db_entries d) x = Some l" and
    w: "write_entries (tbl_update (\<lambda>r. r_id r \<in> set (map fst l)) ?f (db_entries d)) d = Inr d'"
    by (auto simp: update_subtree_deletion_def Let_def result_simps split: option.splits)
  have "set (map fst l) = descendants (db_entries d) x" using subtree_cte_set [OF l] by simp
  with w show thesis
    by (intro that [of ?f]) (auto simp: result_simps split: option.splits)
qed

lemma storage_ok_soft_delete:
  assumes ok: "storage_ok d" and x: "x \<in> entry_ids d"
    and del: "soft_delete_subtree x t d = Inr (n, d1)"
    and ins: "insert_trash item d1 = Inr d'" and item: "ti_entry item = x"
  shows "storage_ok d'"
proof -
  note ok' = storage_okD [OF ok]
  from del [unfolded soft_delete_subtree_def] show ?thesis
  proof (rule update_subtree_deletion_eq)
    fix f
    let ?S = "descendants (db_entries d) x"
    let ?t = "tbl_update (\<lambda>r. r_id r \<in> ?S) f (db_entries d)"
    assume d1: "d1 = d\<lparr>db_entries := ?t\<rparr>" and chk: "entries_ok (account_ids d) (db_entries d1)"
      and f: "\<And>r. r_id (f r) = r_id r" "\<And>r. r_type (f r) = r_type r"
        "\<And>r. r_owner (f r) = r_owner r" "\<And>r. r_parent (f r) = r_parent r"
        "\<And>r. r_deleted (f r) = Some t"
    have d': "d' = d1\<lparr>db_trash := db_trash d1 @ [item]\<rparr>"
      using ins by (auto simp: insert_trash_def split: if_splits)
    have "entries_ok (account_ids d) ?t" using chk by (simp add: d1)
    then have "rows_ok d1" unfolding d1 by (rule rows_ok_update [OF ok'(1) f(1)])
    with ins have "rows_ok d'" by (blast intro: rows_ok_insert_trash)
    moreover have "tree_wf ?t"
      by (rule tree_wf_mark_deleted [OF ok'(2) refl, where t = "Some t"]) (simp_all add: f)
    moreover have "files_ok d1" unfolding d1 by (rule files_ok_update [OF ok'(3)]) (simp_all add: f)
    then have "files_ok d'" by (simp add: files_ok_def d')
    moreover have "trash_covers ?t (db_trash d @ [item])"
      by (rule trash_covers_mark_deleted [OF ok'(4) refl, where t = "Some t"])
        (simp_all add: f x item)
    ultimately show ?thesis by (simp add: storage_ok_def d' d1)
  qed
qed

text \<open>The paths that stay when one row changes its parent and its subtree changes its marks.\<close>

lemma trash_covers_outside:
  assumes cov: "trash_covers tbl trash" 
    and keep: "\<And>r. r \<in> set tbl \<Longrightarrow> (r_id r, x) \<notin> (parent_rel tbl)\<^sup>* \<Longrightarrow> r \<in> set tbl'"
    and new: "\<And>s. s \<in> set tbl' \<Longrightarrow> r_deleted s \<noteq> None \<Longrightarrow>
        s \<in> set tbl \<and> (r_id s, x) \<notin> (parent_rel tbl)\<^sup>*"
    and tomb: "\<And>t. t \<in> set trash \<Longrightarrow> (ti_entry t, x) \<notin> (parent_rel tbl)\<^sup>* \<Longrightarrow> t \<in> set trash'"
  shows "trash_covers tbl' trash'"
  unfolding trash_covers_def
proof (intro ballI impI)
  let ?R = "parent_rel tbl"
  fix s assume s': "s \<in> set tbl'" "r_deleted s \<noteq> None"
  then have s: "s \<in> set tbl" and out: "(r_id s, x) \<notin> ?R\<^sup>*" using new by auto
  from s s'(2) obtain root where "covered_by tbl trash (r_id s) root"
    by (rule trash_coversE [OF cov])
  then obtain r t where path: "(r_id s, root) \<in> ?R\<^sup>*"
    and r: "r \<in> set tbl" "r_id r = root" "r_deleted r \<noteq> None"
    and t: "t \<in> set trash" "ti_entry t = root" by (auto simp: covered_by_def tbl_keys_def)
  have root_out: "(root, x) \<notin> ?R\<^sup>*" using path out by (meson rtrancl_trans)
  have edge: "(c, p) \<in> parent_rel tbl'" if cp: "(c, p) \<in> ?R" and "(c, x) \<notin> ?R\<^sup>*" for c p
  proof -
    from cp obtain r where r: "r \<in> set tbl" "r_id r = c" "r_parent r = Some p"
      by (auto simp: parent_rel_def)
    with keep that(2) have "r \<in> set tbl'" by simp
    with r show ?thesis by (auto simp: parent_rel_def)
  qed
  from path out have "(r_id s, root) \<in> (parent_rel tbl')\<^sup>*"
  proof (induction rule: converse_rtrancl_induct)
    case (step c p)
    from step.hyps(1) step.prems have "(p, x) \<notin> ?R\<^sup>*" by (blast intro: converse_rtrancl_into_rtrancl)
    then have "(p, root) \<in> (parent_rel tbl')\<^sup>*" by (rule step.IH)
    moreover have "(c, p) \<in> parent_rel tbl'" using step.hyps(1) step.prems by (rule edge)
    ultimately show ?case by (rule converse_rtrancl_into_rtrancl [rotated])
  qed simp
  moreover have "root \<in> tbl_keys ti_entry trash'"
    using tomb [OF t(1)] t(2) root_out by (auto simp: tbl_keys_def)
  moreover have "r \<in> set tbl'" using keep r root_out by simp
  ultimately have "covered_by tbl' trash' (r_id s) root" using r unfolding covered_by_def by blast
  then show "\<exists>root. covered_by tbl' trash' (r_id s) root" ..
qed

lemma paths_to_same:
  assumes "{(c, p) \<in> R. c \<noteq> x} \<subseteq> R'" and "(s, x) \<in> R\<^sup>*"
  shows "(s, x) \<in> R'\<^sup>*"
  using assms(2)
proof (induction rule: converse_rtrancl_induct)
  case (step c p)
  show ?case
  proof (cases "c = x")
    case False
    with step.hyps(1) assms(1) have "(c, p) \<in> R'" by auto
    with step.IH show ?thesis by (rule converse_rtrancl_into_rtrancl [rotated])
  qed simp
qed simp

lemma parent_rel_update_one:
  assumes "\<And>r. r_id (f r) = r_id r"
  shows "{(c, p) \<in> parent_rel tbl. c \<noteq> x} \<subseteq> parent_rel (tbl_update (\<lambda>r. r_id r = x) f tbl)"
    and "{(c, p) \<in> parent_rel (tbl_update (\<lambda>r. r_id r = x) f tbl). c \<noteq> x} \<subseteq> parent_rel tbl"
proof -
  let ?t = "tbl_update (\<lambda>r. r_id r = x) f tbl"
  show "{(c, p) \<in> parent_rel tbl. c \<noteq> x} \<subseteq> parent_rel ?t"
  proof (rule subsetI)
    fix e assume "e \<in> {(c, p) \<in> parent_rel tbl. c \<noteq> x}"
    then obtain r p where e: "e = (r_id r, p)" and r: "r \<in> set tbl" "r_id r \<noteq> x" "r_parent r = Some p"
      by (auto simp: parent_rel_def)
    from r(1,2) have "r \<in> set ?t" by (simp add: tbl_update_keep)
    with r(3) e show "e \<in> parent_rel ?t" by (auto simp: parent_rel_def)
  qed
  show "{(c, p) \<in> parent_rel ?t. c \<noteq> x} \<subseteq> parent_rel tbl"
  proof (rule subsetI)
    fix e assume "e \<in> {(c, p) \<in> parent_rel ?t. c \<noteq> x}"
    then obtain r p where e: "e = (r_id r, p)" and r: "r \<in> set ?t" "r_id r \<noteq> x" "r_parent r = Some p"
      by (auto simp: parent_rel_def)
    from r(1,2) have "r \<in> set tbl" by (auto simp: set_tbl_update assms split: if_splits)
    with r(3) e show "e \<in> parent_rel tbl" by (auto simp: parent_rel_def)
  qed
qed

lemma descendants_update_one:
  assumes "\<And>r. r_id (f r) = r_id r"
  shows "descendants (tbl_update (\<lambda>r. r_id r = x) f tbl) x = descendants tbl x"
  using parent_rel_update_one [where tbl = tbl and x = x and f = f, OF assms]
  by (auto simp: descendants_def tbl_keys_update assms intro: paths_to_same)

lemma not_below_active:
  assumes wf: "tree_wf tbl" and x: "x \<in> set tbl" "r_deleted x \<noteq> None"
    and q: "q \<in> set tbl" "r_deleted q = None"
  shows "(r_id q, r_id x) \<notin> (parent_rel tbl)\<^sup>*"
proof
  assume "(r_id q, r_id x) \<in> (parent_rel tbl)\<^sup>*"
  from ancestor_row [OF wf this q(1) refl] q(2) obtain s where
    "s \<in> set tbl" "r_id s = r_id x" "r_deleted s = None" by auto
  with x show False using distinct_key_inject [OF tree_wfD(1) [OF wf], of s x] by simp
qed

lemma rows_ok_remove_trash:
  assumes "rows_ok d"
  shows "rows_ok (remove_trash_item i d)"
proof -
  let ?d' = "remove_trash_item i d"
  have le: "keys_le d ?d'" by (simp add: keys_le_def remove_trash_item_def)
  have "trash_ok d" using assms by (simp add: rows_ok_def)
  moreover have "\<forall>t \<in> set (db_trash ?d'). trash_check d t \<longrightarrow> trash_check ?d' t"
    using checks_mono(3) [OF le] by blast
  ultimately have "trash_ok ?d'"
    by (auto simp: trash_ok_def remove_trash_item_def set_tbl_delete intro: distinct_map_tbl_delete
        simp del: distinct_map)
  with assms le show ?thesis
    by (auto simp: rows_ok_def remove_trash_item_def intro: table_ok_mono)
qed

lemma storage_ok_restore:
  assumes ok: "storage_ok d" and x: "x \<in> set (db_entries d)" "r_deleted x \<noteq> None"
    and e: "e_id e = r_id x" "e_parent e = Some p" "e_deleted e = None"
    and q: "active_folder_row (db_entries d) (r_owner x) p q"
    and save: "save_entry e d = Inr d1" and res: "restore_subtree (r_id x) t d1 = Inr (n, d2)"
    and item: "item \<in> set (db_trash d)" "ti_entry item = r_id x"
  shows "storage_ok (remove_trash_item (ti_id item) d2)"
proof -
  let ?R = "parent_rel (db_entries d)"
  let ?g = "\<lambda>r. r\<lparr>r_parent := e_parent e, r_name := e_name e, r_normalized := e_normalized e,
    r_updated := e_updated e, r_deleted := e_deleted e\<rparr>"
  let ?t1 = "tbl_update (\<lambda>r. r_id r = r_id x) ?g (db_entries d)"
  from save have chk1: "entries_ok (account_ids d) ?t1" and d1: "d1 = d\<lparr>db_entries := ?t1\<rparr>"
    using e by (auto simp: save_entry_def result_simps split: if_splits)
  note ok' = storage_okD [OF ok]
  have rows1: "rows_ok d1" unfolding d1 by (rule rows_ok_update [OF ok'(1) _ chk1]) simp
  have below: "(r_id q, r_id x) \<notin> ?R\<^sup>*"
    using q by (intro not_below_active [OF ok'(2) x]) (simp_all add: active_folder_row_def)
  have wf1: "tree_wf ?t1"
    using q below e by (intro tree_wf_reparent [OF ok'(2), of q])
      (simp_all add: active_folder_row_def x)
  have files1: "files_ok d1" unfolding d1 by (rule files_ok_update [OF ok'(3)]) simp_all
  have desc1: "descendants ?t1 (r_id x) = descendants (db_entries d) (r_id x)"
    by (rule descendants_update_one) simp
  from res [unfolded restore_subtree_def] show ?thesis
  proof (rule update_subtree_deletion_eq)
    fix f
    let ?S = "descendants (db_entries d) (r_id x)"
    let ?t2 = "tbl_update (\<lambda>r. r_id r \<in> ?S) f ?t1"
    let ?trash = "tbl_delete (\<lambda>t. ti_id t = ti_id item) (db_trash d)"
    assume "d2 = d1\<lparr>db_entries := tbl_update (\<lambda>r. r_id r \<in> descendants (db_entries d1) (r_id x)) f
          (db_entries d1)\<rparr>" and chk: "entries_ok (account_ids d1) (db_entries d2)"
      and f: "\<And>r. r_id (f r) = r_id r" "\<And>r. r_type (f r) = r_type r"
        "\<And>r. r_owner (f r) = r_owner r" "\<And>r. r_parent (f r) = r_parent r"
        "\<And>r. r_deleted (f r) = None"
    then have d2: "d2 = d1\<lparr>db_entries := ?t2\<rparr>" by (simp add: d1 desc1)
    have rows2: "rows_ok d2"
      using chk rows1 f(1) rows_ok_update [of d1 f "\<lambda>r. r_id r \<in> ?S"] by (simp add: d2 d1)
    have wf2: "tree_wf ?t2"
    proof (rule tree_wf_mark_active [OF wf1 desc1 [symmetric]])
      fix r assume "r \<in> set ?t1" "r_id r = r_id x"
      then show "r_deleted r = None" using e by (auto simp: set_tbl_update split: if_splits)
    qed (simp_all add: f)
    have files2: "files_ok d2"
      using files_ok_update [OF files1, of f] f(1,2) by (simp add: d2 d1)
    have cover: "trash_covers ?t2 ?trash"
    proof (rule trash_covers_outside [OF ok'(4)])
      fix r assume r: "r \<in> set (db_entries d)" "(r_id r, r_id x) \<notin> ?R\<^sup>*"
      then have "r_id r \<noteq> r_id x" "r_id r \<notin> ?S" by (auto simp: descendants_def)
      with r(1) show "r \<in> set ?t2" by (intro tbl_update_keep) simp_all
    next
      fix s assume s: "s \<in> set ?t2" "r_deleted s \<noteq> None"
      then have s1: "s \<in> set ?t1" "r_id s \<notin> ?S"
        using f(1,5) by (auto simp: set_tbl_update [of "\<lambda>r. r_id r \<in> ?S"] split: if_splits)
      then have s0: "s \<in> set (db_entries d)"
        using s(2) e by (auto simp: set_tbl_update split: if_splits)
      moreover have "r_id s \<in> entry_ids d" "r_id x \<in> entry_ids d"
        using s0 x(1) by (auto simp: tbl_keys_def)
      ultimately show "s \<in> set (db_entries d) \<and> (r_id s, r_id x) \<notin> ?R\<^sup>*"
        using s1(2) by (simp add: descendants_def)
    next
      fix t assume t: "t \<in> set (db_trash d)" "(ti_entry t, r_id x) \<notin> ?R\<^sup>*"
      have "ti_id t \<noteq> ti_id item"
      proof
        assume "ti_id t = ti_id item"
        then have "t = item"
          using distinct_key_inject [of ti_id "db_trash d" t item] t(1) item(1) ok'(12)
          by (simp add: trash_ok_def)
        with t(2) item(2) show False by simp
      qed
      with t(1) show "t \<in> set ?trash" by (simp add: set_tbl_delete)
    qed
    let ?d' = "remove_trash_item (ti_id item) d2"
    have d': "?d' = d2\<lparr>db_trash := ?trash\<rparr>" by (simp add: remove_trash_item_def d2 d1)
    have final: "db_entries ?d' = ?t2" "db_trash ?d' = ?trash"
      by (simp_all add: d', simp add: d2)
    have "rows_ok ?d'" by (rule rows_ok_remove_trash [OF rows2])
    moreover have "files_ok ?d'" using files2 by (simp add: files_ok_def d')
    ultimately show ?thesis using wf2 cover unfolding storage_ok_def final by blast
  qed
qed

lemma distinct_map_filter_conj:
  "distinct (map f (filter P xs)) \<Longrightarrow> distinct (map f (filter (\<lambda>x. Q x \<and> P x) xs))"
  by (induction xs) (auto split: if_splits)

lemma storage_ok_cascade:
  assumes ok: "storage_ok d" and gone: "gone = descendants (db_entries d) x"
  shows "storage_ok (cascade_entries gone d)"
proof -
  let ?d' = "cascade_entries gone d" and ?R = "parent_rel (db_entries d)"
  note ok' = storage_okD [OF ok]
  have parts: "db_entries ?d' = tbl_delete (\<lambda>r. r_id r \<in> gone) (db_entries d)"
    "db_meta ?d' = tbl_delete (\<lambda>m. m_entry m \<in> gone) (db_meta d)"
    "db_versions ?d' = tbl_delete (\<lambda>v. v_file v \<in> gone) (db_versions d)"
    "db_objects ?d' = db_objects d" "db_accounts ?d' = db_accounts d"
    "db_uploads ?d' = tbl_delete (\<lambda>u. us_parent u \<in> gone) (db_uploads d)"
    "db_trash ?d' = tbl_delete (\<lambda>t. ti_entry t \<in> gone) (db_trash d)"
    by (simp_all add: cascade_entries_def Let_def)
  have wf: "tree_wf (db_entries ?d')" unfolding parts(1) by (rule tree_wf_delete [OF ok'(2) gone])
  have ids: "entry_ids ?d' = entry_ids d - gone"
    by (auto simp: parts tbl_keys_def set_tbl_delete)
  have "entries_ok (account_ids ?d') (db_entries ?d')"
  proof -
    have e: "\<forall>r \<in> set (db_entries d). entry_row_check (account_ids d) (entry_ids d) r"
      and d: "distinct (sibling_keys (db_entries d))" "distinct (root_owners (db_entries d))"
      using ok'(5) by (simp_all add: entries_ok_def)
    have "entry_row_check (account_ids ?d') (entry_ids ?d') r" if r: "r \<in> set (db_entries ?d')" for r
    proof -
      from r e have c: "entry_row_check (account_ids d) (entry_ids d) r"
        by (simp add: parts set_tbl_delete)
      have "p \<in> entry_ids ?d'" if "r_parent r = Some p" for p
        using tree_wfD(3) [OF wf r that] by (auto simp: good_parent_def)
      with c show ?thesis by (auto simp: entry_row_check_def parts split: option.splits)
    qed
    moreover have "distinct (sibling_keys (db_entries ?d'))"
      using d(1) unfolding parts(1) sibling_keys_def tbl_delete_def filter_filter
      by (rule distinct_map_filter_conj)
    moreover have "distinct (root_owners (db_entries ?d'))"
      using d(2) unfolding parts(1) root_owners_def tbl_delete_def filter_filter
      by (rule distinct_map_filter_conj)
    ultimately show ?thesis using tree_wfD(1) [OF wf] by (simp add: entries_ok_def)
  qed
  moreover have "meta_ok ?d'"
    using ok'(8) ids by (auto simp: meta_ok_def parts set_tbl_delete intro: distinct_map_tbl_delete
        simp del: distinct_map)
  moreover have "versions_ok ?d'"
  proof -
    have "version_check ?d' v" if "v \<in> set (db_versions ?d')" for v
      using that ok'(9)
      by (auto simp: versions_ok_def version_check_def parts set_tbl_delete tbl_keys_def)
    with ok'(9) show ?thesis
      by (auto simp: versions_ok_def parts(3) intro: distinct_map_tbl_delete simp del: distinct_map)
  qed
  moreover have "objects_ok ?d'" using ok'(10) by (simp add: objects_ok_def parts)
  moreover have "uploads_ok ?d'"
  proof -
    have "upload_check ?d' u" if "u \<in> set (db_uploads ?d')" for u
      using that ok'(11) ids by (auto simp: uploads_ok_def upload_check_def parts set_tbl_delete)
    with ok'(11) show ?thesis
      by (auto simp: uploads_ok_def parts(6) intro: distinct_map_tbl_delete simp del: distinct_map)
  qed
  moreover have "trash_ok ?d'"
  proof -
    have "trash_check ?d' t" if "t \<in> set (db_trash ?d')" for t
      using that ok'(12) ids by (auto simp: trash_ok_def trash_check_def parts set_tbl_delete)
    with ok'(12) show ?thesis
      by (auto simp: trash_ok_def parts(7) intro: distinct_map_tbl_delete simp del: distinct_map)
  qed
  moreover have "files_ok ?d'"
    using ok'(3) by (auto simp: files_ok_def parts set_tbl_delete tbl_keys_def)
  moreover have "trash_covers (db_entries ?d') (db_trash ?d')"
  proof (cases "x \<in> entry_ids d")
    case True
    have out: "y \<in> gone \<longleftrightarrow> y \<in> entry_ids d \<and> (y, x) \<in> ?R\<^sup>*" for y
      using True by (simp add: gone descendants_def)
    show ?thesis unfolding parts
      by (rule trash_covers_outside [OF ok'(4), where x = x])
        (auto simp: set_tbl_delete out tbl_keys_def)
  next
    case False
    then have "gone = {}" by (simp add: gone descendants_def)
    then have "\<And>y. y \<notin> gone" by simp
    then show ?thesis using ok'(4) unfolding parts by (simp add: tbl_delete_def)
  qed
  ultimately show ?thesis using wf by (simp add: storage_ok_def rows_ok_def)
qed

lemma storage_ok_outbox [simp]: "storage_ok (d\<lparr>db_outbox := x\<rparr>) = storage_ok d"
  by (simp add: storage_ok_def rows_ok_def table_ok_defs files_ok_def version_check_def
      upload_check_def trash_check_def)

end
