(* ===== verification/Paging.thy ===== *)
theory Paging
  imports Prelude "HOL-Library.Product_Lexorder"
begin

text \<open>
  Keyset pagination: a page is cut out of an ordered listing after the row the cursor names.
  The interface is a query that returns one page; the lemma proved from it is that following
  the cursors visits every row once and in order.
\<close>

section \<open>One page of a query\<close>

text \<open>The statement is ordered, limited to one row more than asked, and cut.\<close>

definition cut_page :: "nat \<Rightarrow> 'r list \<Rightarrow> 'r list \<times> bool" where
  "cut_page n rows = (let fetched = take (n + 1) rows in (take n fetched, n < length fetched))"

datatype sort_direction = Asc | Desc

definition order_rows :: "sort_direction \<Rightarrow> ('r \<Rightarrow> 'k::linorder) \<Rightarrow> 'r list \<Rightarrow> 'r list" where
  "order_rows dir key rows =
     (case dir of Asc \<Rightarrow> sort_key key rows | Desc \<Rightarrow> rev (sort_key key rows))"

definition beyond :: "sort_direction \<Rightarrow> 'k::linorder \<Rightarrow> 'k \<Rightarrow> bool" where
  "beyond dir cursor k \<longleftrightarrow> (case dir of Asc \<Rightarrow> cursor < k | Desc \<Rightarrow> k < cursor)"

definition keyset_page ::
  "sort_direction \<Rightarrow> ('r \<Rightarrow> 'k::linorder) \<Rightarrow> nat \<Rightarrow> 'k option \<Rightarrow> 'r list \<Rightarrow> 'r list \<times> bool" where
  "keyset_page dir key n cursor rows =
     cut_page n (order_rows dir key
       (case cursor of None \<Rightarrow> rows | Some c \<Rightarrow> filter (\<lambda>r. beyond dir c (key r)) rows))"

lemma cut_page_eq: "cut_page n rows = (take n rows, n < length rows)"
  by (simp add: cut_page_def Let_def min_def)

lemma set_order_rows [simp]: "set (order_rows dir key rows) = set rows"
  and length_order_rows [simp]: "length (order_rows dir key rows) = length rows"
  by (simp_all add: order_rows_def split: sort_direction.split)

lemma distinct_order_rows [simp]: "distinct (order_rows dir key rows) = distinct rows"
  by (simp add: order_rows_def split: sort_direction.split)

lemma order_rows_filter: "order_rows dir key (filter P rows) = filter P (order_rows dir key rows)"
  by (simp add: order_rows_def filter_sort rev_filter [symmetric] split: sort_direction.split)

lemma sorted_wrt_order_rows:
  assumes "distinct (map key rows)"
  shows "sorted_wrt (\<lambda>a b. beyond dir (key a) (key b)) (order_rows dir key rows)"
proof -
  have "distinct (map key (sort_key key rows))"
    using assms by (simp add: distinct_map inj_on_def)
  then have "sorted_wrt (<) (map key (sort_key key rows))"
    by (simp add: strict_sorted_iff)
  then have "sorted_wrt (\<lambda>a b. key a < key b) (sort_key key rows)"
    by (simp add: sorted_wrt_map)
  then show ?thesis
    by (cases dir) (simp_all add: order_rows_def beyond_def sorted_wrt_rev)
qed

lemma beyond_asym: "beyond dir a b \<Longrightarrow> \<not> beyond dir b a"
  by (cases dir) (auto simp: beyond_def)

lemma beyond_irrefl [simp]: "\<not> beyond dir a a"
  by (cases dir) (auto simp: beyond_def)

lemma filter_beyond:
  assumes "distinct (map key rows)" and "order_rows dir key rows = pre @ r # post"
  shows "filter (\<lambda>x. beyond dir (key r) (key x)) (order_rows dir key rows) = post"
proof -
  from sorted_wrt_order_rows [OF assms(1), of dir] assms(2)
  have "\<forall>x \<in> set pre. beyond dir (key x) (key r)" "\<forall>x \<in> set post. beyond dir (key r) (key x)"
    by (auto simp: sorted_wrt_append)
  then have "filter (\<lambda>x. beyond dir (key r) (key x)) pre = []"
    "filter (\<lambda>x. beyond dir (key r) (key x)) post = post"
    using beyond_asym by (auto simp: filter_empty_conv filter_id_conv) blast
  then show ?thesis by (simp add: assms(2))
qed

lemma keyset_page_first: "keyset_page dir key n None rows =
    (take n (order_rows dir key rows), n < length rows)"
  by (simp add: keyset_page_def cut_page_eq)

lemma keyset_page_next:
  assumes "distinct (map key rows)" and "order_rows dir key rows = pre @ r # post"
  shows "keyset_page dir key n (Some (key r)) rows = (take n post, n < length post)"
  by (simp add: keyset_page_def cut_page_eq order_rows_filter filter_beyond [OF assms])

section \<open>Following the cursors\<close>

fun walk_pages :: "('c option \<Rightarrow> 'r list \<times> bool) \<Rightarrow> ('r \<Rightarrow> 'c) \<Rightarrow> nat \<Rightarrow> 'c option \<Rightarrow> 'r list list" where
  "walk_pages fetch cursor 0 c = []"
| "walk_pages fetch cursor (Suc k) c =
     (case fetch c of (rows, more_rows) \<Rightarrow>
        rows # (if more_rows \<and> rows \<noteq> [] then walk_pages fetch cursor k (Some (cursor (last rows))) else []))"

text \<open>
  The interface of a paged query on a state: the whole listing, the query, and the cursor a
  row gives. The fuel bounds the number of pages.
\<close>

locale paged_query =
  fixes usable :: "'s \<Rightarrow> bool"
    and listing :: "'s \<Rightarrow> 'r list"
    and fetch :: "'s \<Rightarrow> nat \<Rightarrow> 'c option \<Rightarrow> 'r list \<times> bool"
    and cursor :: "'r \<Rightarrow> 'c"
  assumes first_page: "usable s \<Longrightarrow> 0 < n \<Longrightarrow> fetch s n None = (take n (listing s), n < length (listing s))"
    and next_page: "usable s \<Longrightarrow> 0 < n \<Longrightarrow> listing s = pre @ r # post \<Longrightarrow>
      fetch s n (Some (cursor r)) = (take n post, n < length post)"
begin

lemma walk_after:
  assumes "usable s" "0 < n" and "listing s = pre @ r # post" "length post < k * n + 1"
  shows "concat (walk_pages (fetch s n) cursor k (Some (cursor r))) = post"
  using assms(3,4)
proof (induction k arbitrary: pre r post)
  case 0
  then show ?case by simp
next
  case (Suc k)
  have page: "fetch s n (Some (cursor r)) = (take n post, n < length post)"
    using next_page [OF assms(1,2) Suc.prems(1)] .
  show ?case
  proof (cases "n < length post")
    case False
    with page show ?thesis by simp
  next
    case True
    then have ne: "take n post \<noteq> []" using assms(2) by auto
    let ?l = "last (take n post)"
    have split: "take n post = butlast (take n post) @ [?l]" using ne by simp
    have "listing s = (pre @ r # butlast (take n post)) @ ?l # drop n post"
      using Suc.prems(1) append_take_drop_id [of n post] split by (metis append.assoc append_Cons append_Nil)
    moreover have "length (drop n post) < k * n + 1" using Suc.prems(2) True by simp
    ultimately have "concat (walk_pages (fetch s n) cursor k (Some (cursor ?l))) = drop n post"
      by (rule Suc.IH)
    with page True ne show ?thesis by simp
  qed
qed

lemma walk_all:
  assumes "usable s" "0 < n" and "length (listing s) \<le> k * n"
  shows "concat (walk_pages (fetch s n) cursor (Suc k) None) = listing s"
proof (cases "n < length (listing s)")
  case False
  with first_page [OF assms(1,2)] show ?thesis by simp
next
  case True
  then have ne: "take n (listing s) \<noteq> []" using assms(2) by auto
  let ?l = "last (take n (listing s))"
  have "listing s = butlast (take n (listing s)) @ ?l # drop n (listing s)"
    using append_take_drop_id [of n "listing s"] append_butlast_last_id [OF ne]
    by (metis append.assoc append_Cons append_Nil)
  moreover have "length (drop n (listing s)) < k * n + 1" using assms(3) by simp
  ultimately have "concat (walk_pages (fetch s n) cursor k (Some (cursor ?l))) = drop n (listing s)"
    by (rule walk_after [OF assms(1,2)])
  with first_page [OF assms(1,2)] True ne show ?thesis by simp
qed

lemma page_bounded:
  assumes "usable s" "0 < n" and "fetch s n c = (rows, more_rows)"
    and "c = None \<or> (\<exists>r \<in> set (listing s). c = Some (cursor r))"
  shows "length rows \<le> n"
  using assms(4)
proof
  assume "c = None"
  with assms(3) first_page [OF assms(1,2)] show ?thesis by auto
next
  assume "\<exists>r \<in> set (listing s). c = Some (cursor r)"
  then obtain r where "r \<in> set (listing s)" "c = Some (cursor r)" by blast
  then obtain pre post where "listing s = pre @ r # post" by (meson split_list)
  from next_page [OF assms(1,2) this] assms(3) \<open>c = Some (cursor r)\<close> show ?thesis by auto
qed

end

end
