(* ===== verification/Outbox_Repository.thy ===== *)
theory Outbox_Repository
  imports Database Paging
begin

text \<open>
  \<open>SQLAlchemyOutboxRepository\<close>: the transactional outbox. A message is pending until it is
  acknowledged; a failed delivery counts an attempt and keeps it pending. Rows locked by
  other transactions are the parameter \<open>locked\<close>, which \<open>SKIP LOCKED\<close> passes over.
\<close>

section \<open>Requests\<close>

record new_message =
  nm_aggregate_id :: uuid
  nm_aggregate_type :: string
  nm_event_type :: string
  nm_occurred :: instant
  nm_payload :: json_object

record outbox_filter =
  of_pending_only :: bool
  of_event_type :: "string option"
  of_aggregate_id :: "uuid option"
  of_created_from :: "instant option"
  of_created_to :: "instant option"

section \<open>The methods\<close>

definition outbox_add ::
  "uuid \<Rightarrow> instant \<Rightarrow> new_message \<Rightarrow> db \<Rightarrow> (outbox_row \<times> db) result" where
  "outbox_add new_id db_now msg d =
     (let row = \<lparr>ob_id = new_id, ob_aggregate_id = nm_aggregate_id msg,
            ob_aggregate_type = nm_aggregate_type msg, ob_event_type = nm_event_type msg,
            ob_occurred = nm_occurred msg, ob_payload = nm_payload msg, ob_processed = None,
            ob_attempts = 0, ob_last_error = None, ob_created = db_now, ob_updated = db_now,
            ob_deleted = None\<rparr>
      in rbind (insert_outbox row d) (\<lambda>d'. Inr (row, d')))"

definition outbox_get :: "db \<Rightarrow> uuid \<Rightarrow> outbox_row option" where
  "outbox_get d message_id =
     find (\<lambda>r. ob_id r = message_id \<and> ob_deleted r = None) (db_outbox d)"

definition pending :: "outbox_row \<Rightarrow> bool" where
  "pending r \<longleftrightarrow> ob_deleted r = None \<and> ob_processed r = None"

definition get_pending_for_update :: "db \<Rightarrow> uuid set \<Rightarrow> uuid \<Rightarrow> outbox_row option" where
  "get_pending_for_update d locked message_id =
     find (\<lambda>r. ob_id r = message_id \<and> pending r \<and> ob_id r \<notin> locked) (db_outbox d)"

definition optional :: "('a \<Rightarrow> bool) \<Rightarrow> 'a option \<Rightarrow> bool" where
  "optional P x = (case x of None \<Rightarrow> True | Some y \<Rightarrow> P y)"

definition outbox_filtered :: "outbox_filter \<Rightarrow> outbox_row \<Rightarrow> bool" where
  "outbox_filtered fs r \<longleftrightarrow>
     ob_deleted r = None
     \<and> (of_pending_only fs \<longrightarrow> ob_processed r = None)
     \<and> optional (\<lambda>t. ob_event_type r = t) (of_event_type fs)
     \<and> optional (\<lambda>a. ob_aggregate_id r = a) (of_aggregate_id fs)
     \<and> optional (\<lambda>t. ob_created r \<ge> t) (of_created_from fs)
     \<and> optional (\<lambda>t. ob_created r \<le> t) (of_created_to fs)"

definition outbox_list ::
  "db \<Rightarrow> outbox_filter \<Rightarrow> nat \<Rightarrow> (instant \<times> uuid) option \<Rightarrow>
     outbox_row list \<times> (instant \<times> uuid) option" where
  "outbox_list d fs limit cursor =
     (let models = take (limit + 1) (sort_key (\<lambda>r. (ob_created r, ob_id r))
            (filter (\<lambda>r. outbox_filtered fs r
               \<and> optional (\<lambda>c. c < (ob_created r, ob_id r)) cursor) (db_outbox d)));
          visible = take limit models
      in (visible,
          if limit < length models \<and> visible \<noteq> []
          then Some (ob_created (last visible), ob_id (last visible)) else None))"

definition outbox_soft_delete :: "uuid \<Rightarrow> instant \<Rightarrow> db \<Rightarrow> bool \<times> db" where
  "outbox_soft_delete message_id deleted_at d =
     (let P = (\<lambda>r. ob_id r = message_id \<and> ob_deleted r = None)
      in (0 < tbl_count P (db_outbox d),
          d\<lparr>db_outbox := tbl_update P
             (\<lambda>r. r\<lparr>ob_deleted := Some deleted_at, ob_updated := deleted_at\<rparr>) (db_outbox d)\<rparr>))"

definition mark_processed :: "uuid \<Rightarrow> instant \<Rightarrow> db \<Rightarrow> bool \<times> db" where
  "mark_processed message_id processed_at d =
     (let P = (\<lambda>r. ob_id r = message_id \<and> pending r)
      in (0 < tbl_count P (db_outbox d),
          d\<lparr>db_outbox := tbl_update P
             (\<lambda>r. r\<lparr>ob_processed := Some processed_at, ob_attempts := ob_attempts r + 1,
                     ob_last_error := None, ob_updated := processed_at\<rparr>) (db_outbox d)\<rparr>))"

definition record_failure :: "uuid \<Rightarrow> instant \<Rightarrow> string \<Rightarrow> db \<Rightarrow> bool \<times> db" where
  "record_failure message_id attempted_at error_kind d =
     (let P = (\<lambda>r. ob_id r = message_id \<and> pending r)
      in (0 < tbl_count P (db_outbox d),
          d\<lparr>db_outbox := tbl_update P
             (\<lambda>r. r\<lparr>ob_attempts := ob_attempts r + 1,
                     ob_last_error := Some (take 120 error_kind),
                     ob_updated := attempted_at\<rparr>) (db_outbox d)\<rparr>))"

section \<open>Lemmas\<close>

lemma outbox_add_eq_Inr:
  assumes "outbox_add i t msg d = Inr (row, d')"
  shows "d' = d\<lparr>db_outbox := db_outbox d @ [row]\<rparr>" and "ob_id row = i" "pending row"
    and "ob_event_type row = nm_event_type msg" "ob_payload row = nm_payload msg"
    and "ob_aggregate_id row = nm_aggregate_id msg" "ob_attempts row = 0"
    and "i \<notin> tbl_keys ob_id (db_outbox d)" "uuid7_check i"
  using assms
  by (auto simp: outbox_add_def insert_outbox_def outbox_check_def pending_def Let_def result_simps
      split: if_splits)

lemma find_SomeD: "find P xs = Some x \<Longrightarrow> x \<in> set xs \<and> P x"
  by (induction xs) (auto split: if_splits)

lemma get_pending_for_update_D:
  "get_pending_for_update d locked i = Some r \<Longrightarrow>
     r \<in> set (db_outbox d) \<and> ob_id r = i \<and> pending r \<and> i \<notin> locked"
  by (auto simp: get_pending_for_update_def dest!: find_SomeD)

lemma mark_processed_found:
  "r \<in> set (db_outbox d) \<Longrightarrow> ob_id r = i \<Longrightarrow> pending r \<Longrightarrow> fst (mark_processed i t d)"
  by (auto simp: mark_processed_def Let_def tbl_count_pos_iff)

lemma mark_processed_frame [simp]:
  "db_objects (snd (mark_processed i t d)) = db_objects d"
  "db_versions (snd (mark_processed i t d)) = db_versions d"
  "db_thumbnails (snd (mark_processed i t d)) = db_thumbnails d"
  "db_previews (snd (mark_processed i t d)) = db_previews d"
  "tbl_keys ob_id (db_outbox (snd (mark_processed i t d))) = tbl_keys ob_id (db_outbox d)"
  by (simp_all add: mark_processed_def Let_def tbl_keys_update)

lemma record_failure_frame [simp]:
  "db_objects (snd (record_failure i t k d)) = db_objects d"
  "db_versions (snd (record_failure i t k d)) = db_versions d"
  "db_thumbnails (snd (record_failure i t k d)) = db_thumbnails d"
  "db_previews (snd (record_failure i t k d)) = db_previews d"
  "tbl_keys ob_id (db_outbox (snd (record_failure i t k d))) = tbl_keys ob_id (db_outbox d)"
  by (simp_all add: record_failure_def Let_def tbl_keys_update)

text \<open>An acknowledgement takes the message out of the pending ones and touches no other.\<close>

lemma mark_processed_pending:
  "{r \<in> set (db_outbox (snd (mark_processed i t d))). pending r} =
     {r \<in> set (db_outbox d). pending r \<and> ob_id r \<noteq> i}"
  by (auto simp: mark_processed_def Let_def set_tbl_update pending_def)

lemma filter_tbl_update_same:
  assumes "\<And>r. key (f r) = key r" and "\<And>r. P r \<Longrightarrow> Q (f r) = Q r"
  shows "map key (filter Q (tbl_update P f tbl)) = map key (filter Q tbl)"
  using assms by (induction tbl) auto

lemma record_failure_pending_ids:
  "map ob_id (filter pending (db_outbox (snd (record_failure i t k d)))) =
     map ob_id (filter pending (db_outbox d))"
  by (simp add: record_failure_def Let_def filter_tbl_update_same pending_def)

section \<open>Paging through the messages\<close>

definition outbox_key :: "outbox_row \<Rightarrow> instant \<times> uuid" where
  "outbox_key r = (ob_created r, ob_id r)"

definition outbox_listing :: "db \<times> outbox_filter \<Rightarrow> outbox_row list" where
  "outbox_listing s = sort_key outbox_key (filter (outbox_filtered (snd s)) (db_outbox (fst s)))"

definition fetch_outbox ::
  "db \<times> outbox_filter \<Rightarrow> nat \<Rightarrow> (instant \<times> uuid) option \<Rightarrow> outbox_row list \<times> bool" where
  "fetch_outbox s n cursor =
     (case outbox_list (fst s) (snd s) n cursor of (rows, next_cursor) \<Rightarrow> (rows, next_cursor \<noteq> None))"

lemma fetch_outbox_keyset:
  assumes "0 < n"
  shows "fetch_outbox s n cursor =
    keyset_page Asc outbox_key n cursor (filter (outbox_filtered (snd s)) (db_outbox (fst s)))"
proof -
  let ?rows = "filter (\<lambda>r. outbox_filtered (snd s) r \<and> optional (\<lambda>c. c < outbox_key r) cursor)
    (db_outbox (fst s))"
  have sel: "(case cursor of None \<Rightarrow> filter (outbox_filtered (snd s)) (db_outbox (fst s))
      | Some c \<Rightarrow> filter (\<lambda>r. beyond Asc c (outbox_key r))
          (filter (outbox_filtered (snd s)) (db_outbox (fst s)))) = ?rows"
    by (auto simp: optional_def beyond_def conj_commute split: option.split)
  have eta: "(\<lambda>r. (ob_created r, ob_id r)) = outbox_key" by (rule ext) (simp add: outbox_key_def)
  let ?l = "sort_key outbox_key ?rows"
  have "n < length ?l \<Longrightarrow> take n ?l \<noteq> []" using assms by (cases ?l) auto
  then have "fetch_outbox s n cursor = cut_page n ?l"
    unfolding fetch_outbox_def outbox_list_def cut_page_def Let_def eta outbox_key_def [symmetric]
    by (auto simp add: min_def)
  then show ?thesis unfolding keyset_page_def sel order_rows_def by simp
qed

lemma outbox_list_cursor:
  "outbox_list d fs n c = (rows, Some k) \<Longrightarrow> rows \<noteq> [] \<and> k = outbox_key (last rows)"
  by (auto simp: outbox_list_def Let_def outbox_key_def split: if_splits)

interpretation outbox_pages: paged_query
  "\<lambda>s. distinct (map ob_id (db_outbox (fst s)))" outbox_listing fetch_outbox outbox_key
proof (unfold_locales, goal_cases)
  case (1 s n)
  then show ?case
    by (simp add: fetch_outbox_keyset keyset_page_first outbox_listing_def order_rows_def)
next
  case (2 s n pre r post)
  let ?rows = "filter (outbox_filtered (snd s)) (db_outbox (fst s))"
  have "distinct (map ob_id ?rows)" using 2(1) by (rule distinct_map_filter)
  then have "distinct (map snd (map outbox_key ?rows))" by (simp add: comp_def outbox_key_def)
  then have "distinct (map outbox_key ?rows)" by (rule distinct_map [THEN iffD1, THEN conjunct1])
  from keyset_page_next [OF this, of Asc pre r post n] 2(2,3)
  show ?case by (simp add: fetch_outbox_keyset outbox_listing_def order_rows_def)
qed

end
