(* ===== verification/File_Store.thy ===== *)
theory File_Store
  imports Prelude
begin

text \<open>
  \<open>LocalFileStorageProvider\<close> (\<open>app/infrastructure/storage/local.py\<close>): the directory tree under
  the storage root and every operation of the provider on it. Symbolic links do not occur;
  flushes to disk have no effect on the tree. The operating system's choices (partial
  writes, failing writes, failing flushes) are arguments.
\<close>

section \<open>The directory tree\<close>

type_synonym path = "string list"

datatype fs_node = RegFile bytes instant | DirNode

record fs =
  fs_nodes :: "(path \<times> fs_node) list"
  fs_dir_size :: int

definition fs_get :: "fs \<Rightarrow> path \<Rightarrow> fs_node option" where
  "fs_get s p = map_option snd (tbl_find fst p (fs_nodes s))"

definition fs_remove :: "path \<Rightarrow> fs \<Rightarrow> fs" where
  "fs_remove p s = s\<lparr>fs_nodes := tbl_delete (\<lambda>n. fst n = p) (fs_nodes s)\<rparr>"

definition fs_put :: "path \<Rightarrow> fs_node \<Rightarrow> fs \<Rightarrow> fs" where
  "fs_put p n s = s\<lparr>fs_nodes := (p, n) # tbl_delete (\<lambda>n. fst n = p) (fs_nodes s)\<rparr>"

lemma fs_get_put [simp]: "fs_get (fs_put p n s) q = (if q = p then Some n else fs_get s q)"
  by (auto simp: fs_get_def fs_put_def tbl_find_delete)

lemma tbl_find_delete_same: "tbl_find key k (tbl_delete (\<lambda>r. key r = k) tbl) = None"
  by (auto simp: tbl_find_None_iff tbl_keys_def set_tbl_delete)

lemma fs_get_remove [simp]: "fs_get (fs_remove p s) q = (if q = p then None else fs_get s q)"
  by (auto simp: fs_get_def fs_remove_def tbl_find_delete tbl_find_delete_same)

definition fs_file :: "fs \<Rightarrow> path \<Rightarrow> bytes option" where
  "fs_file s p = (case fs_get s p of Some (RegFile c _) \<Rightarrow> Some c | _ \<Rightarrow> None)"

lemma fs_file_put [simp]:
  "fs_file (fs_put p (RegFile c t) s) q = (if q = p then Some c else fs_file s q)"
  "fs_file (fs_put p DirNode s) q = (if q = p then None else fs_file s q)"
  and fs_file_remove [simp]: "fs_file (fs_remove p s) q = (if q = p then None else fs_file s q)"
  by (simp_all add: fs_file_def)

text \<open>\<open>path.mkdir(parents=True, exist_ok=True)\<close>; the storage root itself exists.\<close>

fun mkdirs_from :: "path \<Rightarrow> path \<Rightarrow> fs \<Rightarrow> fs result" where
  "mkdirs_from pre [] s = Inr s"
| "mkdirs_from pre (x # xs) s =
     (case fs_get s (pre @ [x]) of
        None \<Rightarrow> mkdirs_from (pre @ [x]) xs (fs_put (pre @ [x]) DirNode s)
      | Some DirNode \<Rightarrow> mkdirs_from (pre @ [x]) xs s
      | Some (RegFile _ _) \<Rightarrow> Inl FileStorageFailure)"

definition mkdirs :: "path \<Rightarrow> fs \<Rightarrow> fs result" where
  "mkdirs p s = mkdirs_from [] p s"

definition is_dir :: "fs \<Rightarrow> path \<Rightarrow> bool" where
  "is_dir s p \<longleftrightarrow> p = [] \<or> fs_get s p = Some DirNode"

lemma mkdirs_from_file: "mkdirs_from pre p s = Inr s' \<Longrightarrow> fs_file s' q = fs_file s q"
proof (induction pre p s rule: mkdirs_from.induct)
  case (2 pre x xs s)
  then show ?case
    by (cases "fs_get s (pre @ [x])") (auto simp: fs_file_def split: fs_node.splits if_splits)
qed simp

lemma mkdirs_file: "mkdirs p s = Inr s' \<Longrightarrow> fs_file s' q = fs_file s q"
  unfolding mkdirs_def by (rule mkdirs_from_file)

text \<open>\<open>os.replace(source, destination)\<close>: a directory moves with everything below it.\<close>

definition is_below :: "path \<Rightarrow> path \<Rightarrow> bool" where
  "is_below p q \<longleftrightarrow> take (length p) q = p"

definition os_replace :: "path \<Rightarrow> path \<Rightarrow> fs \<Rightarrow> fs result" where
  "os_replace source destination s =
     (case fs_get s source of
        None \<Rightarrow> Inl FileStorageFailure
      | Some (RegFile c t) \<Rightarrow> Inr (fs_put destination (RegFile c t) (fs_remove source s))
      | Some DirNode \<Rightarrow>
          if is_below source destination then Inl FileStorageFailure
          else Inr (s\<lparr>fs_nodes := map (\<lambda>(p, n).
                 if is_below source p then (destination @ drop (length source) p, n) else (p, n))
               (fs_nodes s)\<rparr>))"

section \<open>Keys and paths\<close>

definition staging_path :: "uuid \<Rightarrow> path" where
  "staging_path upload_id = [''staging'', uuid_str upload_id @ ''.part'']"

definition object_key :: "uuid \<Rightarrow> string" where
  "object_key upload_id =
     (let hexadecimal = uuid_hex upload_id
      in ''objects/'' @ take 2 hexadecimal @ ''/'' @ take 2 (drop 2 hexadecimal) @ ''/''
         @ uuid_str upload_id)"

text \<open>\<open>PurePosixPath(key).parts\<close> of a relative path: empty and \<open>.\<close> segments disappear.\<close>

definition posix_parts :: "string \<Rightarrow> path" where
  "posix_parts key = filter (\<lambda>x. x \<noteq> [] \<and> x \<noteq> ''.'') (py_split (CHR ''/'') key)"

definition posix_absolute :: "string \<Rightarrow> bool" where
  "posix_absolute key \<longleftrightarrow> py_startswith key ''/''"

definition key_path :: "string \<Rightarrow> path result" where
  "key_path key =
     (if posix_absolute key \<or> ''..'' \<in> set (posix_parts key) then Inl FileStorageFailure
      else Inr (posix_parts key))"

section \<open>Staging\<close>

definition create_upload :: "instant \<Rightarrow> uuid \<Rightarrow> fs \<Rightarrow> unit result \<times> fs" where
  "create_upload now upload_id s =
     (case mkdirs [''staging''] s of
        Inl e \<Rightarrow> (Inl e, s)
      | Inr s1 \<Rightarrow>
         (case mkdirs [''objects''] s1 of
            Inl e \<Rightarrow> (Inl e, s1)
          | Inr s2 \<Rightarrow>
             (if fs_get s2 (staging_path upload_id) \<noteq> None then (Inl FileStorageFailure, s2)
              else (Inr (), fs_put (staging_path upload_id) (RegFile [] now) s2))))"

text \<open>\<open>_coalesce_chunks\<close>: the inner \<open>while\<close> fills the buffer, yielding it whenever it is full.\<close>

function fill :: "nat \<Rightarrow> bytes \<Rightarrow> bytes \<Rightarrow> bytes list \<times> bytes" where
  "fill maximum pending chunk =
     (if chunk = [] then ([], pending)
      else if maximum \<le> length pending then ([], pending)
      else
        (let n = min (length chunk) (maximum - length pending);
             buffer = pending @ take n chunk
         in if length buffer = maximum
            then (let (out, rest) = fill maximum [] (drop n chunk) in (buffer # out, rest))
            else fill maximum buffer (drop n chunk)))"
  by pat_completeness auto
termination
  by (relation "measure (\<lambda>(_, _, chunk). length chunk)") auto

declare fill.simps [simp del]

fun coalesce_chunks :: "nat \<Rightarrow> bytes \<Rightarrow> bytes list \<Rightarrow> bytes list \<times> bytes" where
  "coalesce_chunks maximum pending [] = ([], pending)"
| "coalesce_chunks maximum pending (chunk # chunks) =
     (if chunk = [] then coalesce_chunks maximum pending chunks
      else if pending = [] \<and> maximum \<le> length chunk
      then (let (out, rest) = coalesce_chunks maximum pending chunks in (chunk # out, rest))
      else
        (let (out1, pending1) = fill maximum pending chunk;
             (out2, rest) = coalesce_chunks maximum pending1 chunks
         in (out1 @ out2, rest)))"

text \<open>
  A request body: its chunks, and the exception its iterator raises after them, if any. The
  blocks written for it: a buffer is lost when the iterator raises.
\<close>

record body_stream =
  bs_chunks :: "bytes list"
  bs_error :: "error option"

definition coalesced :: "nat \<Rightarrow> body_stream \<Rightarrow> bytes list" where
  "coalesced maximum b =
     (let (out, rest) = coalesce_chunks maximum [] (bs_chunks b)
      in if bs_error b = None \<and> rest \<noteq> [] then out @ [rest] else out)"

text \<open>
  What the operating system does: the outcome of each \<open>write\<close> call in turn (all bytes once
  the list is used up), and whether flushing and truncating work.
\<close>

datatype write_outcome = Wrote nat | WriteFails

record os_faults =
  of_writes :: "write_outcome list"
  of_sync_fails :: bool
  of_truncate_fails :: bool

definition no_faults :: os_faults where
  "no_faults = \<lparr>of_writes = [], of_sync_fails = False, of_truncate_fails = False\<rparr>"

text \<open>\<open>_write_all\<close>: the file after it, the remaining outcomes, and whether it succeeded.\<close>

fun write_all ::
  "write_outcome list \<Rightarrow> bytes \<Rightarrow> bytes \<Rightarrow> bytes \<times> write_outcome list \<times> bool" where
  "write_all [] file view = (file @ view, [], True)"
| "write_all (w # ws) file view =
     (if view = [] then (file, w # ws, True)
      else (case w of
          WriteFails \<Rightarrow> (file, ws, False)
        | Wrote n \<Rightarrow>
            if n = 0 then (file, ws, False)
            else write_all ws (file @ take n view) (drop n view)))"

fun write_blocks :: "write_outcome list \<Rightarrow> bytes \<Rightarrow> bytes list \<Rightarrow> bytes \<times> bool" where
  "write_blocks ws file [] = (file, True)"
| "write_blocks ws file (b # bs) =
     (case write_all ws file b of
        (file', ws', ok) \<Rightarrow> if ok then write_blocks ws' file' bs else (file', False))"

text \<open>\<open>handle.truncate(offset)\<close>: a shorter file is extended with zero bytes.\<close>

definition truncated :: "nat \<Rightarrow> bytes \<Rightarrow> bytes" where
  "truncated offset c = take offset c @ replicate (offset - length c) CHR 0x00"

definition append_chunk ::
  "nat \<Rightarrow> os_faults \<Rightarrow> instant \<Rightarrow> uuid \<Rightarrow> nat \<Rightarrow> body_stream \<Rightarrow> fs \<Rightarrow> int result \<times> fs" where
  "append_chunk write_buffer F now upload_id offset b s =
     (let p = staging_path upload_id;
          rollback = (\<lambda>c e. if of_truncate_fails F then (Inl PyOSError, fs_put p (RegFile c now) s)
             else (Inl e, fs_put p (RegFile (truncated offset c) now) s))
      in case fs_file s p of
           None \<Rightarrow> (Inl FileStorageFailure, s)
         | Some c \<Rightarrow>
             if length c \<noteq> offset then rollback c FileStorageFailure
             else
               (let (c', ok) = write_blocks (of_writes F) c (coalesced write_buffer b)
                in if \<not> ok then rollback c' FileStorageFailure
                   else
                     (case bs_error b of
                        Some e \<Rightarrow>
                          if e \<in> {FileStorageFailure, PyOSError, PyValueError}
                          then rollback c' FileStorageFailure
                          else (Inl e, fs_put p (RegFile c' now) s)
                      | None \<Rightarrow>
                          if of_sync_fails F then rollback c' FileStorageFailure
                          else (Inr (int (length c')), fs_put p (RegFile c' now) s))))"

definition upload_size :: "uuid \<Rightarrow> fs \<Rightarrow> int result" where
  "upload_size upload_id s =
     (case fs_get s (staging_path upload_id) of
        None \<Rightarrow> Inl FileStorageFailure
      | Some (RegFile c _) \<Rightarrow> Inr (int (length c))
      | Some DirNode \<Rightarrow> Inr (fs_dir_size s))"

definition unlink_missing_ok :: "path \<Rightarrow> fs \<Rightarrow> unit result \<times> fs" where
  "unlink_missing_ok p s =
     (if is_dir s p then (Inl FileStorageFailure, s) else (Inr (), fs_remove p s))"

definition discard_upload :: "uuid \<Rightarrow> fs \<Rightarrow> unit result \<times> fs" where
  "discard_upload upload_id s = unlink_missing_ok (staging_path upload_id) s"

definition truncate_upload :: "instant \<Rightarrow> uuid \<Rightarrow> nat \<Rightarrow> fs \<Rightarrow> unit result \<times> fs" where
  "truncate_upload now upload_id offset s =
     (let p = staging_path upload_id
      in case fs_file s p of
           None \<Rightarrow> (Inl FileStorageFailure, s)
         | Some c \<Rightarrow> (Inr (), fs_put p (RegFile (truncated offset c) now) s))"

section \<open>Permanent objects\<close>

record stored_object =
  so_key :: string
  so_size :: int

definition publish_upload :: "uuid \<Rightarrow> int \<Rightarrow> fs \<Rightarrow> stored_object result \<times> fs" where
  "publish_upload upload_id expected_size s =
     (let source = staging_path upload_id; key = object_key upload_id
      in case key_path key of
           Inl e \<Rightarrow> (Inl e, s)
         | Inr destination \<Rightarrow>
             (case fs_get s source of
                None \<Rightarrow> (Inl FileStorageFailure, s)
              | Some node \<Rightarrow>
                  (let actual_size = (case node of RegFile c _ \<Rightarrow> int (length c)
                         | DirNode \<Rightarrow> fs_dir_size s)
                   in if actual_size \<noteq> expected_size then (Inl FileStorageFailure, s)
                      else
                        (case mkdirs (butlast destination) s of
                           Inl e \<Rightarrow> (Inl e, s)
                         | Inr s1 \<Rightarrow>
                             if is_dir s1 destination \<or> fs_get s1 destination \<noteq> None
                             then (Inl FileStorageFailure, s1)
                             else
                               (case os_replace source destination s1 of
                                  Inl e \<Rightarrow> (Inl e, s1)
                                | Inr s2 \<Rightarrow>
                                    (Inr \<lparr>so_key = key, so_size = actual_size\<rparr>, s2))))))"

definition stat :: "string \<Rightarrow> fs \<Rightarrow> stored_object option result" where
  "stat key s =
     rbind (key_path key) (\<lambda>p. Inr
       (if is_dir s p then Some \<lparr>so_key = key, so_size = fs_dir_size s\<rparr>
        else case fs_file s p of None \<Rightarrow> None
             | Some c \<Rightarrow> Some \<lparr>so_key = key, so_size = int (length c)\<rparr>))"

definition delete_object :: "string \<Rightarrow> fs \<Rightarrow> unit result \<times> fs" where
  "delete_object key s =
     (case key_path key of Inl e \<Rightarrow> (Inl e, s) | Inr p \<Rightarrow> unlink_missing_ok p s)"

definition quarantine :: "string \<Rightarrow> fs \<Rightarrow> unit result \<times> fs" where
  "quarantine key s =
     (case key_path key of
        Inl e \<Rightarrow> (Inl e, s)
      | Inr source \<Rightarrow>
          (let destination = ''lost+found'' # posix_parts key
           in if \<not> is_dir s source \<and> fs_get s source = None then (Inr (), s)
              else
                (case mkdirs (butlast destination) s of
                   Inl e \<Rightarrow> (Inl e, s)
                 | Inr s1 \<Rightarrow>
                     if fs_get s1 destination \<noteq> None then (Inl FileStorageFailure, s1)
                     else
                       (case os_replace source destination s1 of
                          Inl e \<Rightarrow> (Inl e, s1) | Inr s2 \<Rightarrow> (Inr (), s2)))))"

section \<open>Streaming\<close>

record byte_range =
  br_start :: int
  br_end :: int

text \<open>The read loop: blocks of at most \<open>block\<close> bytes until the limit or the end of the file.\<close>

function read_blocks :: "nat \<Rightarrow> nat option \<Rightarrow> bytes \<Rightarrow> bytes list" where
  "read_blocks block remaining rest =
     (if remaining = Some 0 then []
      else
        (let size = (case remaining of None \<Rightarrow> block | Some n \<Rightarrow> min block n);
             chunk = take size rest
         in if chunk = [] then []
            else chunk # read_blocks block
                   (map_option (\<lambda>n. n - length chunk) remaining) (drop size rest)))"
  by pat_completeness auto
termination
  by (relation "measure (\<lambda>(_, _, rest). length rest)") (auto split: option.splits)

declare read_blocks.simps [simp del]

definition stream_path :: "nat \<Rightarrow> path \<Rightarrow> byte_range option \<Rightarrow> fs \<Rightarrow> bytes list result" where
  "stream_path block p byte_range s =
     (case fs_file s p of
        None \<Rightarrow> Inl FileStorageFailure
      | Some c \<Rightarrow>
          (case byte_range of
             None \<Rightarrow> Inr (read_blocks block None c)
           | Some r \<Rightarrow>
               if br_start r < 0 \<or> br_end r < br_start r then Inl FileStorageFailure
               else Inr (read_blocks block (Some (nat (br_end r - br_start r + 1)))
                      (drop (nat (br_start r)) c))))"

definition stream_upload :: "nat \<Rightarrow> uuid \<Rightarrow> fs \<Rightarrow> bytes list result" where
  "stream_upload block upload_id s = stream_path block (staging_path upload_id) None s"

definition stream_object :: "nat \<Rightarrow> string \<Rightarrow> byte_range option \<Rightarrow> fs \<Rightarrow> bytes list result" where
  "stream_object block key byte_range s =
     rbind (key_path key) (\<lambda>p. stream_path block p byte_range s)"

section \<open>Buffering loses and reorders nothing\<close>

lemma fill_props:
  "length pending < m \<Longrightarrow> fill m pending chunk = (out, rest) \<Longrightarrow>
     concat out @ rest = pending @ chunk \<and> length rest < m \<and> (\<forall>b \<in> set out. length b = m)"
proof (induction m pending chunk arbitrary: out rest rule: fill.induct)
  case (1 m pending chunk)
  define n where "n = min (length chunk) (m - length pending)"
  define buffer where "buffer = pending @ take n chunk"
  show ?case
  proof (cases "chunk = []")
    case True
    with "1.prems" show ?thesis by (simp add: fill.simps)
  next
    case False
    with "1.prems"(1) have unf: "fill m pending chunk =
        (if length buffer = m
         then (let (out, rest) = fill m [] (drop n chunk) in (buffer # out, rest))
         else fill m buffer (drop n chunk))"
      by (subst fill.simps) (simp add: Let_def n_def [symmetric] buffer_def [symmetric] del: length_append)
    have whole: "buffer @ drop n chunk = pending @ chunk" by (simp add: buffer_def)
    show ?thesis
    proof (cases "length buffer = m")
      case True
      obtain out' rest' where r: "fill m [] (drop n chunk) = (out', rest')" by fastforce
      from True "1.prems" r have o: "out = buffer # out'" "rest = rest'" by (simp_all add: unf)
      have "concat out' @ rest' = [] @ drop n chunk \<and> length rest' < m \<and> (\<forall>b \<in> set out'. length b = m)"
        using False "1.prems"(1) True r by (intro "1.IH"(1)) (auto simp: n_def buffer_def)
      with True whole show ?thesis by (auto simp: o)
    next
      case buf: False
      with "1.prems" have r: "fill m buffer (drop n chunk) = (out, rest)" by (simp add: unf)
      have "length buffer < m" using buf "1.prems"(1) by (auto simp: buffer_def n_def)
      then have "concat out @ rest = buffer @ drop n chunk \<and> length rest < m
          \<and> (\<forall>b \<in> set out. length b = m)"
        using False "1.prems" buf r
        by (intro "1.IH"(2) [OF _ _ n_def buffer_def]) auto
      then show ?thesis by (simp add: whole)
    qed
  qed
qed

lemma coalesce_chunks_props:
  "0 < m \<Longrightarrow> length pending < m \<Longrightarrow> coalesce_chunks m pending chunks = (out, rest) \<Longrightarrow>
     concat out @ rest = pending @ concat chunks \<and> length rest < m
     \<and> (\<forall>b \<in> set out. m \<le> length b \<and> (length b = m \<or> b \<in> set chunks))"
proof (induction m pending chunks arbitrary: out rest rule: coalesce_chunks.induct)
  case (2 m pending chunk chunks)
  show ?case
  proof (cases "chunk = []")
    case True
    have "concat out @ rest = pending @ concat chunks \<and> length rest < m
        \<and> (\<forall>b \<in> set out. m \<le> length b \<and> (length b = m \<or> b \<in> set chunks))"
      using True "2.prems" by (intro "2.IH"(1)) auto
    with True show ?thesis by auto
  next
    case False
    show ?thesis
    proof (cases "pending = [] \<and> m \<le> length chunk")
      case True
      obtain out' rest' where r: "coalesce_chunks m pending chunks = (out', rest')" by fastforce
      with True False "2.prems" have o: "out = chunk # out'" "rest = rest'" by simp_all
      have "concat out' @ rest' = pending @ concat chunks \<and> length rest' < m
          \<and> (\<forall>b \<in> set out'. m \<le> length b \<and> (length b = m \<or> b \<in> set chunks))"
        using False True "2.prems" r by (intro "2.IH"(2)) auto
      with True show ?thesis by (auto simp: o)
    next
      case nd: False
      obtain out1 pending1 where f: "fill m pending chunk = (out1, pending1)" by fastforce
      obtain out2 rest2 where r: "coalesce_chunks m pending1 chunks = (out2, rest2)" by fastforce
      from nd False "2.prems" f r have o: "out = out1 @ out2" "rest = rest2"
        by (auto simp: Let_def)
      have f': "concat out1 @ pending1 = pending @ chunk \<and> length pending1 < m
          \<and> (\<forall>b \<in> set out1. length b = m)"
        using fill_props "2.prems"(2) f by blast
      have "concat out2 @ rest2 = pending1 @ concat chunks \<and> length rest2 < m
          \<and> (\<forall>b \<in> set out2. m \<le> length b \<and> (length b = m \<or> b \<in> set chunks))"
        using False nd "2.prems" f f' r by (intro "2.IH"(3)) auto
      moreover from this f' have "concat out @ rest = pending @ concat (chunk # chunks)"
        by (simp add: o)
      ultimately show ?thesis using f' by (auto simp: o)
    qed
  qed
qed auto

lemma coalesced_concat:
  assumes "0 < m" and "bs_error b = None"
  shows "concat (coalesced m b) = concat (bs_chunks b)"
proof -
  obtain out rest where r: "coalesce_chunks m [] (bs_chunks b) = (out, rest)" by fastforce
  with coalesce_chunks_props [of m "[]" "bs_chunks b" out rest] assms
  show ?thesis by (auto simp: coalesced_def)
qed

section \<open>Writing\<close>

lemma write_all_prefix: "write_all ws cur view = (out, ws', ok) \<Longrightarrow> \<exists>p. out = cur @ p"
  by (induction ws cur view rule: write_all.induct) (auto split: if_splits write_outcome.splits)

lemma write_all_ok: "write_all ws cur view = (out, ws', True) \<Longrightarrow> out = cur @ view"
  by (induction ws cur view rule: write_all.induct)
    (auto split: if_splits write_outcome.splits)

lemma write_blocks_prefix: "write_blocks ws cur bs = (out, ok) \<Longrightarrow> \<exists>p. out = cur @ p"
proof (induction ws cur bs rule: write_blocks.induct)
  case (2 ws cur b bs)
  obtain f1 ws1 ok1 where w: "write_all ws cur b = (f1, ws1, ok1)" by (metis prod_cases3)
  then obtain p where p: "f1 = cur @ p" using write_all_prefix by blast
  show ?case
  proof (cases ok1)
    case True
    with "2.IH" [OF w [symmetric] refl True] "2.prems" w p show ?thesis by auto
  next
    case False
    with "2.prems" w p show ?thesis by auto
  qed
qed simp

lemma write_blocks_ok: "write_blocks ws cur bs = (out, True) \<Longrightarrow> out = cur @ concat bs"
proof (induction ws cur bs rule: write_blocks.induct)
  case (2 ws cur b bs)
  obtain f1 ws1 ok1 where w: "write_all ws cur b = (f1, ws1, ok1)" by (metis prod_cases3)
  with 2 show ?case by (cases ok1) (auto dest: write_all_ok)
qed simp

lemma write_blocks_no_faults: "write_blocks [] cur bs = (cur @ concat bs, True)"
  by (induction bs arbitrary: cur) auto

lemma truncated_prefix [simp]: "truncated (length c) (c @ p) = c"
  by (simp add: truncated_def)

lemma truncated_same [simp]: "truncated (length c) c = c"
  by (simp add: truncated_def)

section \<open>Keys\<close>

lemma py_split_append: "c \<notin> set xs \<Longrightarrow> py_split c (xs @ c # ys) = xs # py_split c ys"
  by (induction xs) auto

lemma hex_digit_plain: "n < 16 \<Longrightarrow> hex_digit n \<notin> {CHR ''/'', CHR ''.'', CHR 0x5C}"
proof
  assume "n < 16" and "hex_digit n \<in> {CHR ''/'', CHR ''.'', CHR 0x5C}"
  then have "of_char (hex_digit n) \<in> {47, 46, 92 :: nat}" by auto
  with \<open>n < 16\<close> show False by (auto simp: hex_digit_def split: if_splits)
qed

lemma hex_of_plain: "c \<in> set (hex_of n u) \<Longrightarrow> c \<notin> {CHR ''/'', CHR ''.'', CHR 0x5C}"
proof (induction n arbitrary: u)
  case (Suc n)
  then consider "c \<in> set (hex_of n (u div 16))" | "c = hex_digit (u mod 16)" by auto
  then show ?case
  proof cases
    case 2
    with hex_digit_plain [of "u mod 16"] show ?thesis by simp
  qed (rule Suc.IH)
qed simp

lemma uuid_hex_plain: "c \<in> set (uuid_hex u) \<Longrightarrow> c \<noteq> CHR ''/'' \<and> c \<noteq> CHR ''.''"
  using hex_of_plain [of c 32 u] by (simp add: uuid_hex_def)

lemma uuid_str_plain: "c \<in> set (uuid_str u) \<Longrightarrow> c \<noteq> CHR ''/'' \<and> c \<noteq> CHR ''.''"
  unfolding uuid_str_def Let_def using uuid_hex_plain [of c u]
  by (auto dest!: in_set_takeD in_set_dropD)

lemma object_key_parts:
  "posix_parts (object_key u) =
     [''objects'', take 2 (uuid_hex u), take 2 (drop 2 (uuid_hex u)), uuid_str u]"
proof -
  let ?h = "uuid_hex u"
  let ?a = "take 2 ?h" and ?b = "take 2 (drop 2 ?h)" and ?c = "uuid_str u"
  have plain: "CHR ''/'' \<notin> set ?a" "CHR ''/'' \<notin> set ?b" "CHR ''/'' \<notin> set ?c"
    "CHR ''.'' \<notin> set ?a" "CHR ''.'' \<notin> set ?b" "CHR ''.'' \<notin> set ?c"
    using uuid_hex_plain uuid_str_plain by (blast dest: in_set_takeD in_set_dropD)+
  have ne: "?a \<noteq> []" "?b \<noteq> []" "?c \<noteq> []"
    by (simp_all add: length_0_conv [symmetric] del: length_0_conv)
  have "object_key u = ''objects'' @ CHR ''/'' # (?a @ CHR ''/'' # (?b @ CHR ''/'' # ?c))"
    by (simp add: object_key_def Let_def)
  then have "py_split (CHR ''/'') (object_key u) = [''objects'', ?a, ?b, ?c]"
    using plain by (simp only: py_split_append py_split_single) (simp add: py_split_append py_split_single)
  moreover have "?a \<noteq> ''.''" "?b \<noteq> ''.''" "?c \<noteq> ''.''" using plain by auto
  ultimately show ?thesis using ne by (simp add: posix_parts_def)
qed

lemma object_key_path:
  "key_path (object_key u) =
     Inr [''objects'', take 2 (uuid_hex u), take 2 (drop 2 (uuid_hex u)), uuid_str u]"
proof -
  have "CHR ''.'' \<notin> set (take 2 (uuid_hex u))" "CHR ''.'' \<notin> set (take 2 (drop 2 (uuid_hex u)))"
    "CHR ''.'' \<notin> set (uuid_str u)"
    using uuid_hex_plain uuid_str_plain by (blast dest: in_set_takeD in_set_dropD)+
  moreover have "x \<noteq> ''..''" if "CHR ''.'' \<notin> set x" for x using that by auto
  ultimately have "''..'' \<notin> set (posix_parts (object_key u))"
    unfolding object_key_parts by force
  moreover have "\<not> posix_absolute (object_key u)"
    by (simp add: posix_absolute_def py_startswith_def object_key_def Let_def)
  ultimately show ?thesis by (simp add: key_path_def object_key_parts)
qed

lemma object_key_inject:
  assumes "u < 2 ^ 128" and "w < 2 ^ 128"
  shows "object_key u = object_key w \<longleftrightarrow> u = w"
  using object_key_parts [of u] object_key_parts [of w] uuid_str_inject [OF assms] by auto

lemma staging_not_object:
  "key_path (object_key u) \<noteq> Inr (staging_path w)"
  by (simp add: object_key_path staging_path_def)

lemma staging_path_inject:
  assumes "u < 2 ^ 128" and "w < 2 ^ 128"
  shows "staging_path u = staging_path w \<longleftrightarrow> u = w"
  using uuid_str_inject [OF assms] by (auto simp: staging_path_def)

text \<open>No key leaves the storage root: the path has no empty, \<open>.\<close> or \<open>..\<close> segment.\<close>

lemma key_path_confined:
  "key_path key = Inr p \<Longrightarrow> x \<in> set p \<Longrightarrow> x \<notin> {'''', ''.'', ''..''} \<and> CHR ''/'' \<notin> set x"
proof -
  have "CHR ''/'' \<notin> set x" if "x \<in> set (py_split (CHR ''/'') key)" for x
    using that by (induction key arbitrary: x) (auto split: list.splits if_splits)
  moreover assume "key_path key = Inr p" "x \<in> set p"
  ultimately show ?thesis by (auto simp: key_path_def posix_parts_def split: if_splits)
qed

section \<open>Streaming returns the requested slice\<close>

lemma read_blocks_concat:
  "0 < block \<Longrightarrow> concat (read_blocks block remaining rest) =
     (case remaining of None \<Rightarrow> rest | Some n \<Rightarrow> take n rest)"
proof (induction block remaining rest rule: read_blocks.induct)
  case (1 block remaining rest)
  define size where "size = (case remaining of None \<Rightarrow> block | Some n \<Rightarrow> min block n)"
  define chunk where "chunk = take size rest"
  show ?case
  proof (cases "remaining = Some 0 \<or> chunk = []")
    case True
    have z: "size = 0 \<longleftrightarrow> remaining = Some 0"
      using \<open>0 < block\<close> by (auto simp: size_def split: option.splits)
    from True have e: "read_blocks block remaining rest = []"
      by (subst read_blocks.simps)
        (auto simp only: size_def [symmetric] chunk_def [symmetric] Let_def if_True split: if_split)
    from True z have "remaining = Some 0 \<or> rest = []" by (auto simp: chunk_def)
    then show ?thesis by (auto simp: e split: option.splits)
  next
    case False
    then have e: "read_blocks block remaining rest =
        chunk # read_blocks block (map_option (\<lambda>n. n - length chunk) remaining) (drop size rest)"
      by (subst read_blocks.simps)
        (auto simp only: size_def [symmetric] chunk_def [symmetric] Let_def split: if_split)
    have ih: "concat (read_blocks block (map_option (\<lambda>n. n - length chunk) remaining) (drop size rest)) =
        (case map_option (\<lambda>n. n - length chunk) remaining of None \<Rightarrow> drop size rest
         | Some n \<Rightarrow> take n (drop size rest))"
      using False 1 by (intro "1.IH" [OF _ size_def chunk_def]) auto
    have main: "concat (read_blocks block remaining rest) = chunk @
        (case map_option (\<lambda>n. n - length chunk) remaining of None \<Rightarrow> drop size rest
         | Some n \<Rightarrow> take n (drop size rest))"
      by (simp only: e ih concat.simps)
    show ?thesis
    proof (cases remaining)
      case None
      then show ?thesis unfolding main by (simp add: chunk_def)
    next
      case (Some n)
      have le: "size \<le> n" using Some by (simp add: size_def)
      have "take size rest @ take (n - length (take size rest)) (drop size rest) = take n rest"
      proof (cases "size \<le> length rest")
        case True
        then have "take n rest = take (size + (n - size)) rest" using le by simp
        with True show ?thesis by (simp only: take_add length_take min_absorb2)
      next
        case False
        with le show ?thesis by simp
      qed
      with Some show ?thesis unfolding main by (simp add: chunk_def)
    qed
  qed
qed

lemma read_blocks_bounded: "b \<in> set (read_blocks block remaining rest) \<Longrightarrow> 0 < length b \<and> length b \<le> block"
proof (induction block remaining rest rule: read_blocks.induct)
  case (1 block remaining rest)
  then show ?case
    by (subst (asm) (2) read_blocks.simps) (auto simp: Let_def split: if_splits option.splits)
qed

section \<open>Operations on bytes\<close>

text \<open>The object interface that the use cases rely on.\<close>

locale object_store =
  fixes content :: "'s \<Rightarrow> string \<Rightarrow> bytes option"
    and remove :: "string \<Rightarrow> 's \<Rightarrow> unit result \<times> 's"
    and valid :: "string \<Rightarrow> bool"
  assumes remove_gone: "remove k s = (Inr u, s') \<Longrightarrow> content s' k = None"
    and remove_other: "valid k \<Longrightarrow> valid k' \<Longrightarrow> k \<noteq> k' \<Longrightarrow>
          content (snd (remove k s)) k' = content s k'"
    and remove_failed: "remove k s = (Inl e, s') \<Longrightarrow> s' = s"
begin

lemma remove_kept:
  "valid k \<Longrightarrow> valid k' \<Longrightarrow> content s k' = Some c \<Longrightarrow>
     content (snd (remove k s)) k' = Some c \<or> k = k'"
  using remove_other [of k k' s] by auto

end

text \<open>A regular file stays a regular file or vanishes; keys name the files of published objects.\<close>

definition object_content :: "fs \<Rightarrow> string \<Rightarrow> bytes option" where
  "object_content s key = (case key_path key of Inl _ \<Rightarrow> None | Inr p \<Rightarrow> fs_file s p)"

definition is_object_key :: "string \<Rightarrow> bool" where
  "is_object_key key \<longleftrightarrow> (\<exists>u < 2 ^ 128. key = object_key u)"

lemma object_path_inject:
  assumes "is_object_key k" and "is_object_key k'" and "key_path k = key_path k'"
  shows "k = k'"
proof -
  from assms(1,2) obtain u w where u: "u < 2 ^ 128" "k = object_key u"
    and w: "w < 2 ^ 128" "k' = object_key w" by (auto simp: is_object_key_def)
  with assms(3) have "uuid_str u = uuid_str w" by (simp add: object_key_path)
  with u w show ?thesis by (simp add: uuid_str_inject)
qed

lemma object_key_path_Inr: "is_object_key k \<Longrightarrow> \<exists>p. key_path k = Inr p"
  by (auto simp: is_object_key_def object_key_path)

interpretation local_store: object_store object_content delete_object is_object_key
proof
  fix k s u s'
  assume "delete_object k s = (Inr u, s')"
  then show "object_content s' k = None"
    by (auto simp: delete_object_def unlink_missing_ok_def object_content_def
        split: sum.splits if_splits)
next
  fix k k' :: string and s :: fs
  assume k: "is_object_key k" "is_object_key k'" "k \<noteq> k'"
  then obtain p q where "key_path k = Inr p" "key_path k' = Inr q"
    using object_key_path_Inr by blast
  moreover from this k have "p \<noteq> q" using object_path_inject by metis
  ultimately show "object_content (snd (delete_object k s)) k' = object_content s k'"
    by (simp add: delete_object_def unlink_missing_ok_def object_content_def)
next
  fix k s e s'
  assume "delete_object k s = (Inl e, s')"
  then show "s' = s"
    by (auto simp: delete_object_def unlink_missing_ok_def split: sum.splits if_splits)
qed

subsection \<open>Append\<close>

lemma append_chunk_success:
  assumes "append_chunk wb F now u offset b s = (Inr n, s')" and "0 < wb"
  shows "\<exists>c. fs_file s (staging_path u) = Some c \<and> length c = offset \<and> bs_error b = None
    \<and> fs_file s' (staging_path u) = Some (c @ concat (bs_chunks b))
    \<and> n = int (offset + length (concat (bs_chunks b)))"
proof -
  from assms(1) obtain c c' where c: "fs_file s (staging_path u) = Some c" "length c = offset"
    "write_blocks (of_writes F) c (coalesced wb b) = (c', True)" "bs_error b = None"
    and r: "n = int (length c')" "s' = fs_put (staging_path u) (RegFile c' now) s"
    by (auto simp: append_chunk_def Let_def split: option.splits if_splits prod.splits)
  from c(3) have "c' = c @ concat (coalesced wb b)" by (rule write_blocks_ok)
  then have "c' = c @ concat (bs_chunks b)" using coalesced_concat assms(2) c(4) by simp
  with c r show ?thesis by simp
qed

lemma append_chunk_failure:
  assumes "append_chunk wb F now u offset b s = (Inl FileStorageFailure, s')"
    and "fs_file s (staging_path u) = Some c" and "length c = offset"
  shows "fs_file s' (staging_path u) = Some c"
proof -
  obtain c' ok where w: "write_blocks (of_writes F) c (coalesced wb b) = (c', ok)" by fastforce
  then obtain p where "c' = c @ p" using write_blocks_prefix by blast
  with assms w show ?thesis
    by (auto simp: append_chunk_def Let_def split: option.splits if_splits)
qed

lemma append_chunk_other_files:
  "q \<noteq> staging_path u \<Longrightarrow> fs_file (snd (append_chunk wb F now u offset b s)) q = fs_file s q"
  by (auto simp: append_chunk_def Let_def split: option.splits prod.splits)

subsection \<open>Publish\<close>

lemma publish_upload_success:
  assumes "publish_upload u expected s = (Inr ob, s')" and "fs_file s (staging_path u) = Some c"
  shows "so_key ob = object_key u" and "so_size ob = expected" "expected = int (length c)"
    and "object_content s' (object_key u) = Some c"
    and "object_content s (object_key u) = None"
    and "fs_file s' (staging_path u) = None"
    and "\<And>q. q \<noteq> staging_path u \<Longrightarrow> key_path (object_key u) \<noteq> Inr q \<Longrightarrow> fs_file s' q = fs_file s q"
proof -
  let ?src = "staging_path u"
  obtain dst where dst: "key_path (object_key u) = Inr dst" by (simp add: object_key_path)
  have ne: "dst \<noteq> ?src" using dst staging_not_object [of u u] by auto
  obtain t where node: "fs_get s ?src = Some (RegFile c t)"
    using assms(2) by (auto simp: fs_file_def split: option.splits fs_node.splits)
  from assms(1) dst node obtain s1 where m: "mkdirs (butlast dst) s = Inr s1"
    and free: "\<not> is_dir s1 dst" "fs_get s1 dst = None" and size: "int (length c) = expected"
    and r: "ob = \<lparr>so_key = object_key u, so_size = int (length c)\<rparr>"
      "os_replace ?src dst s1 = Inr s'"
    by (auto simp: publish_upload_def Let_def split: if_splits sum.splits)
  note same = mkdirs_file [OF m]
  obtain t' where node1: "fs_get s1 ?src = Some (RegFile c t')"
    using same [of ?src] assms(2) by (auto simp: fs_file_def split: option.splits fs_node.splits)
  with r(2) have s': "s' = fs_put dst (RegFile c t') (fs_remove ?src s1)" by (simp add: os_replace_def)
  show "so_key ob = object_key u" "so_size ob = expected" "expected = int (length c)"
    using r(1) size by simp_all
  show "object_content s' (object_key u) = Some c" by (simp add: object_content_def dst s')
  have "fs_file s1 dst = None" using free(2) by (simp add: fs_file_def)
  then show "object_content s (object_key u) = None" by (simp add: object_content_def dst same)
  show "fs_file s' ?src = None" using ne by (simp add: s')
  show "fs_file s' q = fs_file s q" if "q \<noteq> ?src" "key_path (object_key u) \<noteq> Inr q" for q
    using that dst same by (simp add: s')
qed

end
