(* ===== verification/Storage_Outbox.thy ===== *)
theory Storage_Outbox
  imports Storage_Invariant Outbox_Repository File_Store
begin

text \<open>
  Permanent deletion and the outbox consumer
  (\<open>app/application/use_cases/storage/actions.py\<close>, \<open>.../storage/outbox.py\<close>): purging a subtree
  requests an orphan sweep; the sweep detaches unreferenced objects from the database and
  requests the deletion of their bytes; the bytes go last. The lemmas show that no byte a
  committed object row needs is ever removed, on the interface \<open>object_store\<close>.
\<close>

section \<open>Purge\<close>

definition orphan_sweep_requested :: string where
  "orphan_sweep_requested = ''storage.orphan_sweep_requested''"

definition object_delete_requested :: string where
  "object_delete_requested = ''storage.object_delete_requested''"

lemma event_types_distinct [simp]:
  "orphan_sweep_requested \<noteq> object_delete_requested"
  "object_delete_requested \<noteq> orphan_sweep_requested"
  by (simp_all add: orphan_sweep_requested_def object_delete_requested_def)

record purge_cmd =
  pg_owner :: uuid
  pg_trash_item :: uuid

definition permanently_delete_tx :: "ports \<Rightarrow> purge_cmd \<Rightarrow> db \<Rightarrow> (nat \<times> db) result" where
  "permanently_delete_tx P c d =
     rbind (some_or StorageEntryNotFound (get_trash_item d (pg_trash_item c))) (\<lambda>item.
     rbind (require (ti_deleted_by item = pg_owner c) StorageEntryNotFound) (\<lambda>_.
     rbind (get_entry (p_unicode P) d (ti_entry item) True) (\<lambda>found.
     rbind (require_owned found (pg_owner c)) (\<lambda>entry.
     rbind (require (e_deleted entry \<noteq> None) InvalidStateTransition) (\<lambda>_.
     rbind (hard_delete_subtree (e_id entry) (remove_trash_item (ti_id item) d)) (\<lambda>(n, d1).
     rbind (outbox_add (p_ids P 0) (p_db_now P)
         \<lparr>nm_aggregate_id = e_id entry, nm_aggregate_type = ''storage.entry'',
          nm_event_type = orphan_sweep_requested, nm_occurred = p_now P,
          nm_payload = [(''purged_entry_id'', JStr (uuid_str (e_id entry)))]\<rparr> d1) (\<lambda>(_, d2).
     Inr (n, d2))))))))"

definition permanently_delete :: "ports \<Rightarrow> purge_cmd \<Rightarrow> db \<Rightarrow> nat result \<times> db" where
  "permanently_delete P c = run_tx (permanently_delete_tx P c)"

section \<open>The consumer\<close>

record process_cmd =
  pc_event_batch :: nat
  pc_orphan_batch :: nat

definition process_cmd_create :: "int \<Rightarrow> int \<Rightarrow> process_cmd result" where
  "process_cmd_create events orphans =
     rbind (require (1 \<le> events \<and> events \<le> 200) ApplicationValidation) (\<lambda>_.
     rbind (require (1 \<le> orphans \<and> orphans \<le> 1000) ApplicationValidation) (\<lambda>_.
     Inr \<lparr>pc_event_batch = nat events, pc_orphan_batch = nat orphans\<rparr>))"

record event_outcome =
  eo_claimed :: bool
  eo_processed :: bool
  eo_deferred :: bool
  eo_failed :: bool
  eo_metadata :: int
  eo_physical :: int

definition unclaimed :: event_outcome where
  "unclaimed = \<lparr>eo_claimed = False, eo_processed = False, eo_deferred = False,
     eo_failed = False, eo_metadata = 0, eo_physical = 0\<rparr>"

record process_result =
  pr_seen :: int
  pr_processed :: int
  pr_deferred :: int
  pr_failed :: int
  pr_metadata :: int
  pr_physical :: int

definition process_zero :: process_result where
  "process_zero = \<lparr>pr_seen = 0, pr_processed = 0, pr_deferred = 0, pr_failed = 0,
     pr_metadata = 0, pr_physical = 0\<rparr>"

text \<open>\<open>type(exc).__name__\<close> of the exceptions that can reach the consumer.\<close>

definition error_kind_name :: "error \<Rightarrow> string" where
  "error_kind_name e =
     (case e of
        ApplicationValidation \<Rightarrow> ''ApplicationValidationError''
      | OutboxProcessing \<Rightarrow> ''OutboxProcessingError''
      | PersistenceFailure \<Rightarrow> ''PersistenceError''
      | FileStorageFailure \<Rightarrow> ''FileStorageError''
      | InvalidChecksum \<Rightarrow> ''InvalidChecksumError''
      | InvalidStateTransition \<Rightarrow> ''InvalidStateTransitionError''
      | PyOSError \<Rightarrow> ''OSError''
      | _ \<Rightarrow> ''Exception'')"

definition storage_key_from_payload :: "json_object \<Rightarrow> string result" where
  "storage_key_from_payload payload =
     (case map_of payload ''storage_key'' of
        Some (JStr v) \<Rightarrow>
          if v = [] \<or> 500 < length v then Inl ApplicationValidation
          else if posix_absolute v \<or> ''..'' \<in> set (posix_parts v) \<or> posix_parts v = []
                  \<or> hd (posix_parts v) \<noteq> ''objects''
          then Inl ApplicationValidation else Inr v
      | _ \<Rightarrow> Inl ApplicationValidation)"

text \<open>\<open>ids\<close> from position \<open>n\<close> on are the identifiers the generator will hand out.\<close>

fun detach_orphans ::
  "ports \<Rightarrow> storage_object list \<Rightarrow> nat \<Rightarrow> int \<Rightarrow> db \<Rightarrow> (int \<times> nat \<times> db) result" where
  "detach_orphans P [] n count d = Inr (count, n, d)"
| "detach_orphans P (ob # obs) n count d =
     (let (deleted, d1) = delete_claimed_orphan_storage_object (o_id ob) d
      in if \<not> deleted then detach_orphans P obs n count d1
         else rbind (outbox_add (p_ids P n) (p_db_now P)
             \<lparr>nm_aggregate_id = o_id ob, nm_aggregate_type = ''storage.object'',
              nm_event_type = object_delete_requested, nm_occurred = p_now P,
              nm_payload = [(''storage_key'', JStr (o_storage_key ob))]\<rparr> d1)
           (\<lambda>(_, d2). detach_orphans P obs (n + 1) (count + 1) d2))"

definition process_orphan_sweep ::
  "ports \<Rightarrow> outbox_row \<Rightarrow> nat \<Rightarrow> nat \<Rightarrow> db \<Rightarrow> (event_outcome \<times> nat \<times> db) result" where
  "process_orphan_sweep P message orphan_batch n d =
     rbind (claim_orphan_storage_objects (p_unicode P) d orphan_batch) (\<lambda>(objects, has_more).
     rbind (detach_orphans P objects n 0 d) (\<lambda>(count, n', d1).
     (if has_more
      then Inr (unclaimed\<lparr>eo_claimed := True, eo_deferred := True, eo_metadata := count\<rparr>, n', d1)
      else
        (let (found, d2) = mark_processed (ob_id message) (p_now P) d1
         in rbind (require found OutboxProcessing) (\<lambda>_.
            Inr (unclaimed\<lparr>eo_claimed := True, eo_processed := True, eo_metadata := count\<rparr>,
                 n', d2))))))"

text \<open>The bytes are deleted before the acknowledgement commits.\<close>

definition process_object_delete ::
  "(string \<Rightarrow> 's \<Rightarrow> unit result \<times> 's) \<Rightarrow> ports \<Rightarrow> outbox_row \<Rightarrow> db \<Rightarrow> 's \<Rightarrow>
     (event_outcome \<times> db) result \<times> 's" where
  "process_object_delete remove P message d s =
     (case storage_key_from_payload (ob_payload message) of
        Inl e \<Rightarrow> (Inl e, s)
      | Inr key \<Rightarrow>
          (case remove key s of
             (Inl e, s') \<Rightarrow> (Inl e, s')
           | (Inr _, s') \<Rightarrow>
               (let (found, d1) = mark_processed (ob_id message) (p_now P) d
                in (rbind (require found OutboxProcessing) (\<lambda>_.
                    Inr (unclaimed\<lparr>eo_claimed := True, eo_processed := True, eo_physical := 1\<rparr>, d1)),
                    s'))))"

definition process_leased ::
  "(string \<Rightarrow> 's \<Rightarrow> unit result \<times> 's) \<Rightarrow> ports \<Rightarrow> outbox_row \<Rightarrow> nat \<Rightarrow> nat \<Rightarrow> db \<Rightarrow> 's \<Rightarrow>
     (event_outcome \<times> nat \<times> db) result \<times> 's" where
  "process_leased remove P leased orphan_batch n d s =
     (if ob_event_type leased = orphan_sweep_requested
      then (process_orphan_sweep P leased orphan_batch n d, s)
      else if ob_event_type leased = object_delete_requested
      then (case process_object_delete remove P leased d s of
              (r, s') \<Rightarrow> (rbind r (\<lambda>(out, d1). Inr (out, n, d1)), s'))
      else (Inl OutboxProcessing, s))"

text \<open>A failure rolls the transaction back and is recorded in a transaction of its own.\<close>

definition process_message ::
  "(string \<Rightarrow> 's \<Rightarrow> unit result \<times> 's) \<Rightarrow> ports \<Rightarrow> uuid set \<Rightarrow> outbox_row \<Rightarrow> nat \<Rightarrow> nat \<Rightarrow>
     db \<Rightarrow> 's \<Rightarrow> event_outcome \<times> nat \<times> db \<times> 's" where
  "process_message remove P locked message orphan_batch n d s =
     (case get_pending_for_update d locked (ob_id message) of
        None \<Rightarrow> (unclaimed, n, d, s)
      | Some leased \<Rightarrow>
          (case process_leased remove P leased orphan_batch n d s of
             (Inr (out, n', d'), s') \<Rightarrow> (out, n', d', s')
           | (Inl e, s') \<Rightarrow>
               (unclaimed\<lparr>eo_claimed := True, eo_failed := True\<rparr>, n,
                snd (record_failure (ob_id message) (p_now P) (error_kind_name e) d), s')))"

definition pending_of_type :: "string \<Rightarrow> outbox_filter" where
  "pending_of_type t = \<lparr>of_pending_only = True, of_event_type = Some t, of_aggregate_id = None,
     of_created_from = None, of_created_to = None\<rparr>"

definition next_pending_message :: "db \<Rightarrow> outbox_row option" where
  "next_pending_message d =
     (case fst (outbox_list d (pending_of_type object_delete_requested) 1 None) of
        m # _ \<Rightarrow> Some m
      | [] \<Rightarrow>
         (case fst (outbox_list d (pending_of_type orphan_sweep_requested) 1 None) of
            m # _ \<Rightarrow> Some m | [] \<Rightarrow> None))"

definition add_outcome :: "event_outcome \<Rightarrow> process_result \<Rightarrow> process_result" where
  "add_outcome out r =
     \<lparr>pr_seen = pr_seen r + 1, pr_processed = pr_processed r + of_bool (eo_processed out),
      pr_deferred = pr_deferred r + of_bool (eo_deferred out),
      pr_failed = pr_failed r + of_bool (eo_failed out),
      pr_metadata = pr_metadata r + eo_metadata out,
      pr_physical = pr_physical r + eo_physical out\<rparr>"

fun outbox_cycle ::
  "(string \<Rightarrow> 's \<Rightarrow> unit result \<times> 's) \<Rightarrow> ports \<Rightarrow> uuid set \<Rightarrow> nat \<Rightarrow> nat \<Rightarrow> nat \<Rightarrow>
     process_result \<Rightarrow> db \<Rightarrow> 's \<Rightarrow> process_result \<times> nat \<times> db \<times> 's" where
  "outbox_cycle remove P locked orphan_batch 0 n r d s = (r, n, d, s)"
| "outbox_cycle remove P locked orphan_batch (Suc k) n r d s =
     (case next_pending_message d of
        None \<Rightarrow> (r, n, d, s)
      | Some message \<Rightarrow>
          (case process_message remove P locked message orphan_batch n d s of
             (out, n', d', s') \<Rightarrow>
               if \<not> eo_claimed out then (r, n', d', s')
               else if eo_failed out then (add_outcome out r, n', d', s')
               else outbox_cycle remove P locked orphan_batch k n' (add_outcome out r) d' s'))"

definition process_storage_outbox ::
  "(string \<Rightarrow> 's \<Rightarrow> unit result \<times> 's) \<Rightarrow> ports \<Rightarrow> uuid set \<Rightarrow> process_cmd \<Rightarrow> db \<Rightarrow> 's \<Rightarrow>
     process_result \<times> nat \<times> db \<times> 's" where
  "process_storage_outbox remove P locked c d s =
     outbox_cycle remove P locked (pc_orphan_batch c) (pc_event_batch c) 0 process_zero d s"

section \<open>No needed byte is removed\<close>

definition payload_key :: "outbox_row \<Rightarrow> string option" where
  "payload_key m = (case map_of (ob_payload m) ''storage_key'' of Some (JStr v) \<Rightarrow> Some v | _ \<Rightarrow> None)"

definition live_keys :: "db \<Rightarrow> string set" where
  "live_keys d = tbl_keys o_storage_key (db_objects d)"

definition pending_deletes :: "db \<Rightarrow> string set" where
  "pending_deletes d = {k. \<exists>m \<in> set (db_outbox d). pending m
     \<and> ob_event_type m = object_delete_requested \<and> payload_key m = Some k}"

text \<open>
  Every object row has its bytes, every requested deletion is of bytes no row names, and
  every derived asset that names an object names an existing one.
\<close>

definition bytes_ok :: "('s \<Rightarrow> string \<Rightarrow> bytes option) \<Rightarrow> (string \<Rightarrow> bool) \<Rightarrow> db \<Rightarrow> 's \<Rightarrow> bool" where
  "bytes_ok content valid d s \<longleftrightarrow>
     (\<forall>k \<in> live_keys d. valid k \<and> content s k \<noteq> None)
     \<and> (\<forall>k \<in> pending_deletes d. valid k \<and> k \<notin> live_keys d)"

definition assets_ok :: "db \<Rightarrow> bool" where
  "assets_ok d \<longleftrightarrow>
     (\<forall>t \<in> set (db_thumbnails d). \<forall>i. th_object t = Some i \<longrightarrow> i \<in> tbl_keys o_id (db_objects d))
     \<and> (\<forall>p \<in> set (db_previews d). \<forall>i. pv_object p = Some i \<longrightarrow> i \<in> tbl_keys o_id (db_objects d))"

lemma bytes_ok_shrink:
  "bytes_ok content valid d s \<Longrightarrow> live_keys d' \<subseteq> live_keys d \<Longrightarrow>
     pending_deletes d' \<subseteq> pending_deletes d \<Longrightarrow> bytes_ok content valid d' s"
  unfolding bytes_ok_def by blast

lemma bytes_ok_detach:
  "bytes_ok content valid d s \<Longrightarrow> k \<in> live_keys d \<Longrightarrow> live_keys d' = live_keys d - {k} \<Longrightarrow>
     pending_deletes d' = insert k (pending_deletes d) \<Longrightarrow> bytes_ok content valid d' s"
  unfolding bytes_ok_def by auto

lemma pending_deletes_mark:
  "pending_deletes (snd (mark_processed i t d)) \<subseteq> pending_deletes d"
  using mark_processed_pending [of i t d] unfolding pending_deletes_def by blast

lemma live_keys_outbox [simp]: "live_keys (d\<lparr>db_outbox := x\<rparr>) = live_keys d"
  by (simp add: live_keys_def)

lemma pending_deletes_record_failure:
  "pending_deletes (snd (record_failure i t k d)) = pending_deletes d"
proof -
  let ?P = "\<lambda>r. ob_id r = i \<and> pending r"
  let ?f = "\<lambda>r. r\<lparr>ob_attempts := ob_attempts r + 1, ob_last_error := Some (take 120 k),
    ob_updated := t\<rparr>"
  have same: "pending (?f r) = pending r" "ob_event_type (?f r) = ob_event_type r"
    "payload_key (?f r) = payload_key r" for r
    by (simp_all add: pending_def payload_key_def)
  have "(\<exists>m \<in> set (tbl_update ?P ?f tbl). pending m \<and> ob_event_type m = e \<and> payload_key m = x) \<longleftrightarrow>
      (\<exists>m \<in> set tbl. pending m \<and> ob_event_type m = e \<and> payload_key m = x)" for tbl e x
    by (induction tbl) (auto simp: same)
  then show ?thesis
    by (simp add: pending_deletes_def record_failure_def Let_def)
qed

text \<open>Detaching one claimed orphan.\<close>

lemma detach_one:
  assumes ok: "storage_ok d" and assets: "assets_ok d"
    and sub: "set (db_objects d) \<subseteq> set objs" "distinct (map o_id objs)" "ob \<in> set objs"
    and del: "delete_claimed_orphan_storage_object (o_id ob) d = (True, d1)"
    and add: "outbox_add i t \<lparr>nm_aggregate_id = a, nm_aggregate_type = at,
      nm_event_type = object_delete_requested, nm_occurred = oc,
      nm_payload = [(''storage_key'', JStr (o_storage_key ob))]\<rparr> d1 = Inr (row, d2)"
  shows "storage_ok d2" and "assets_ok d2" and "set (db_objects d2) \<subseteq> set (db_objects d)"
    and "o_storage_key ob \<in> live_keys d" and "live_keys d2 = live_keys d - {o_storage_key ob}"
    and "pending_deletes d2 = insert (o_storage_key ob) (pending_deletes d)"
    and "db_versions d2 = db_versions d" and "db_entries d2 = db_entries d"
    and "db_uploads d2 = db_uploads d" and "db_meta d2 = db_meta d"
    and "db_accounts d2 = db_accounts d" and "db_trash d2 = db_trash d"
proof -
  let ?P = "\<lambda>x. o_id x = o_id ob \<and> o_status x = ObjReady \<and> orphan_condition d (o_id ob)"
  from del have cnt: "0 < tbl_count ?P (db_objects d)"
    and d1: "d1 = d\<lparr>db_objects := tbl_delete ?P (db_objects d)\<rparr>"
    by (auto simp: delete_claimed_orphan_storage_object_def Let_def)
  from cnt obtain x where x: "x \<in> set (db_objects d)" "o_id x = o_id ob"
    and orphan: "orphan_condition d (o_id ob)" and st: "o_status x = ObjReady"
    by (auto simp: tbl_count_pos_iff)
  have "x = ob" using distinct_key_inject [OF sub(2), of x ob] x sub by auto
  then have ob: "ob \<in> set (db_objects d)" using x by simp
  have objs: "objects_ok d" by (rule storage_okD(10) [OF ok])
  have only: "?P y \<longleftrightarrow> y = ob" if "y \<in> set (db_objects d)" for y
    using distinct_key_inject [of o_id "db_objects d" y ob] that ob objs orphan st \<open>x = ob\<close>
    by (auto simp: objects_ok_def)
  have left: "set (db_objects d1) = set (db_objects d) - {ob}"
    using only by (auto simp: d1 set_tbl_delete)
  note row = outbox_add_eq_Inr [OF add]
  have d2: "d2 = d1\<lparr>db_outbox := db_outbox d1 @ [row]\<rparr>" by (rule row(1))
  show "set (db_objects d2) \<subseteq> set (db_objects d)" using left by (auto simp: d2)
  show "o_storage_key ob \<in> live_keys d" using ob by (auto simp: live_keys_def tbl_keys_def)
  show "live_keys d2 = live_keys d - {o_storage_key ob}"
  proof -
    have "y = ob" if "y \<in> set (db_objects d)" "o_storage_key y = o_storage_key ob" for y
      using distinct_key_inject [of o_storage_key "db_objects d" y ob] that ob objs
      by (simp add: objects_ok_def)
    then show ?thesis using left by (auto simp: d2 live_keys_def tbl_keys_def)
  qed
  show "pending_deletes d2 = insert (o_storage_key ob) (pending_deletes d)"
    using row(3,4,5) by (auto simp: d2 d1 pending_deletes_def payload_key_def)
  show "db_versions d2 = db_versions d" "db_entries d2 = db_entries d" "db_uploads d2 = db_uploads d"
    "db_meta d2 = db_meta d" "db_accounts d2 = db_accounts d" "db_trash d2 = db_trash d"
    by (simp_all add: d2 d1)
  have ids: "tbl_keys o_id (db_objects d1) = tbl_keys o_id (db_objects d) - {o_id ob}"
    using left distinct_key_inject [of o_id "db_objects d" _ ob] ob objs
    by (auto simp: tbl_keys_def objects_ok_def)
  have "version_check d1 v" if "v \<in> set (db_versions d)" for v
    using that storage_okD(9) [OF ok] orphan
    by (auto simp: versions_ok_def version_check_def ids d1 [symmetric] orphan_condition_def list_ex_iff)
      (simp_all add: d1)
  then have vers: "versions_ok d1"
    using storage_okD(9) [OF ok] by (simp add: versions_ok_def d1)
  have objs1: "objects_ok d1"
    using objs by (simp add: objects_ok_def d1 distinct_map_tbl_delete set_tbl_delete del: distinct_map)
  have le: "account_ids d1 = account_ids d" "entry_ids d1 = entry_ids d" "db_meta d1 = db_meta d"
    by (simp_all add: d1)
  have "meta_ok d1" "uploads_ok d1" "trash_ok d1" "files_ok d1"
    using storage_okD(3,8,11,12) [OF ok]
    by (simp_all add: meta_ok_def uploads_ok_def trash_ok_def files_ok_def upload_check_def
        trash_check_def d1)
  with vers objs1 ok have "storage_ok d1"
    by (simp add: storage_ok_def rows_ok_def d1)
  then show "storage_ok d2" by (simp add: d2)
  show "assets_ok d2"
    using assets orphan by (auto simp: assets_ok_def d2 ids orphan_condition_def list_ex_iff)
      (simp_all add: d1)
qed

text \<open>The state of database and bytes the consumer keeps.\<close>

definition store_ok :: "('s \<Rightarrow> string \<Rightarrow> bytes option) \<Rightarrow> (string \<Rightarrow> bool) \<Rightarrow> db \<Rightarrow> 's \<Rightarrow> bool" where
  "store_ok content valid d s \<longleftrightarrow> storage_ok d \<and> assets_ok d \<and> bytes_ok content valid d s"

text \<open>What the consumer never changes: entries, versions; objects only disappear.\<close>

definition only_detaches :: "db \<Rightarrow> db \<Rightarrow> bool" where
  "only_detaches d d' \<longleftrightarrow> db_versions d' = db_versions d \<and> db_entries d' = db_entries d
     \<and> set (db_objects d') \<subseteq> set (db_objects d) \<and> db_uploads d' = db_uploads d
     \<and> db_meta d' = db_meta d \<and> db_accounts d' = db_accounts d \<and> db_trash d' = db_trash d
     \<and> live_keys d' \<union> pending_deletes d' \<subseteq> live_keys d \<union> pending_deletes d"

lemma only_detaches_mark: "only_detaches d (snd (mark_processed i t d))"
  using pending_deletes_mark [of i t d]
  by (auto simp: only_detaches_def live_keys_def) (simp_all add: mark_processed_def Let_def)

lemma only_detaches_failure: "only_detaches d (snd (record_failure i t k d))"
  using pending_deletes_record_failure [of i t k d]
  by (auto simp: only_detaches_def live_keys_def) (simp_all add: record_failure_def Let_def)

lemma only_detaches_refl [simp]: "only_detaches d d"
  by (simp add: only_detaches_def)

lemma only_detaches_trans [trans]:
  "only_detaches a b \<Longrightarrow> only_detaches b c \<Longrightarrow> only_detaches a c"
  by (auto simp: only_detaches_def)

lemma detach_orphans_keeps:
  assumes "store_ok content valid d s" and "set (db_objects d) \<subseteq> set all" "distinct (map o_id all)"
    and "set objs \<subseteq> set all" and "detach_orphans P objs n c d = Inr (c', n', d')"
  shows "store_ok content valid d' s \<and> only_detaches d d'"
  using assms
proof (induction P objs n c d arbitrary: c' n' d' rule: detach_orphans.induct)
  case (2 P ob obs n c d)
  obtain b d1 where del: "delete_claimed_orphan_storage_object (o_id ob) d = (b, d1)" by fastforce
  show ?case
  proof (cases b)
    case False
    have "tbl_delete Q t = t" if "\<not> 0 < tbl_count Q t" for Q :: "storage_object \<Rightarrow> bool" and t
      using that by (simp add: tbl_count_def tbl_delete_def filter_empty_conv)
    with del False have "d1 = d"
      by (auto simp: delete_claimed_orphan_storage_object_def Let_def)
    with "2.IH"(1) [OF refl del [symmetric]] "2.prems" del False show ?thesis by (auto simp: Let_def)
  next
    case True
    with del have del': "delete_claimed_orphan_storage_object (o_id ob) d = (True, d1)" by simp
    let ?m = "\<lparr>nm_aggregate_id = o_id ob, nm_aggregate_type = ''storage.object'',
      nm_event_type = object_delete_requested, nm_occurred = p_now P,
      nm_payload = [(''storage_key'', JStr (o_storage_key ob))]\<rparr>"
    from "2.prems"(5) True del obtain row d2 where
      add: "outbox_add (p_ids P n) (p_db_now P) ?m d1 = Inr (row, d2)"
      and rest: "detach_orphans P obs (n + 1) (c + 1) d2 = Inr (c', n', d')"
      by (auto simp: result_simps)
    note one = detach_one [OF _ _ "2.prems"(2,3) _ del' add]
    have st: "storage_ok d" "assets_ok d" "bytes_ok content valid d s" "ob \<in> set all"
      using "2.prems"(1,4) by (auto simp: store_ok_def)
    note one = one [OF st(1,2,4)]
    have "store_ok content valid d2 s"
      using one(1,2) bytes_ok_detach [OF st(3) one(4,5,6)] by (simp add: store_ok_def)
    moreover have "only_detaches d d2"
      unfolding only_detaches_def one(5,6)
      using one(3,4,7-12) by auto
    moreover have "store_ok content valid d' s \<and> only_detaches d2 d'"
      using calculation(1) one(3) "2.prems" rest True
      by (intro "2.IH"(2) [OF refl del [symmetric]]) auto
    ultimately show ?thesis by (blast intro: only_detaches_trans)
  qed
qed auto

lemma store_ok_mark_processed:
  "store_ok content valid d s \<Longrightarrow> store_ok content valid (snd (mark_processed i t d)) s"
  using bytes_ok_shrink [of content valid d s "snd (mark_processed i t d)"]
    pending_deletes_mark [of i t d]
  by (simp add: store_ok_def assets_ok_def live_keys_def)
    (simp add: mark_processed_def Let_def)

lemma store_ok_record_failure:
  "store_ok content valid d s \<Longrightarrow> store_ok content valid (snd (record_failure i t k d)) s"
  using bytes_ok_shrink [of content valid d s "snd (record_failure i t k d)"]
    pending_deletes_record_failure [of i t k d]
  by (simp add: store_ok_def assets_ok_def live_keys_def)
    (simp add: record_failure_def Let_def)

lemma to_storage_objects_same: "to_storage_objects U obs = Inr obs' \<Longrightarrow> obs' = obs"
  by (induction obs arbitrary: obs') (auto simp: result_simps to_storage_object_def)

lemma claim_orphans_sub:
  "claim_orphan_storage_objects U d limit = Inr (objs, has_more) \<Longrightarrow>
     set objs \<subseteq> {ob \<in> set (db_objects d). o_status ob = ObjReady \<and> orphan_condition d (o_id ob)}"
  by (auto simp: claim_orphan_storage_objects_def Let_def result_simps
      dest!: to_storage_objects_same in_set_takeD)

lemma process_orphan_sweep_keeps:
  assumes ok: "store_ok content valid d s"
    and run: "process_orphan_sweep P m k n d = Inr (out, n', d')"
  shows "store_ok content valid d' s \<and> only_detaches d d'"
proof -
  from run obtain objs has_more c n1 d1 where claim: "claim_orphan_storage_objects (p_unicode P) d k = Inr (objs, has_more)"
    and det: "detach_orphans P objs n 0 d = Inr (c, n1, d1)"
    and d': "d' = d1 \<or> d' = snd (mark_processed (ob_id m) (p_now P) d1)"
    by (auto simp: process_orphan_sweep_def Let_def result_simps split: if_splits prod.splits)
  have "distinct (map o_id (db_objects d))"
    using ok storage_okD(10) by (auto simp: store_ok_def objects_ok_def)
  then have "store_ok content valid d1 s \<and> only_detaches d d1"
    using ok claim_orphans_sub [OF claim] det by (intro detach_orphans_keeps) auto
  moreover have "only_detaches d1 (snd (mark_processed (ob_id m) (p_now P) d1))"
    by (rule only_detaches_mark)
  ultimately show ?thesis
    using d' by (auto intro: store_ok_mark_processed only_detaches_trans)
qed

lemma storage_key_from_payload_key:
  "storage_key_from_payload (ob_payload m) = Inr k \<Longrightarrow> payload_key m = Some k"
  by (auto simp: storage_key_from_payload_def payload_key_def split: option.splits json_value.splits if_splits)

text \<open>On any store with the laws of \<open>object_store\<close>.\<close>

context object_store
begin

lemma bytes_ok_remove:
  assumes "bytes_ok content valid d s" and "k \<in> pending_deletes d"
  shows "bytes_ok content valid d (snd (remove k s))"
    and "\<And>k'. k' \<in> live_keys d \<Longrightarrow> content (snd (remove k s)) k' = content s k'"
proof -
  have v: "valid k" "k \<notin> live_keys d" using assms by (auto simp: bytes_ok_def)
  show same: "content (snd (remove k s)) k' = content s k'" if "k' \<in> live_keys d" for k'
    using that v assms(1) by (intro remove_other) (auto simp: bytes_ok_def)
  show "bytes_ok content valid d (snd (remove k s))"
    using assms(1) same by (auto simp: bytes_ok_def)
qed

lemma process_message_keeps:
  assumes ok: "store_ok content valid d s"
    and run: "process_message remove P locked m k n d s = (out, n', d', s')"
  shows "store_ok content valid d' s'" and "only_detaches d d'"
    and "\<And>key. key \<in> live_keys d \<Longrightarrow> content s' key = content s key"
proof -
  let ?goal = "store_ok content valid d' s' \<and> only_detaches d d'
    \<and> (\<forall>key \<in> live_keys d. content s' key = content s key)"
  have ?goal
  proof (cases "get_pending_for_update d locked (ob_id m)")
    case None
    with run ok show ?thesis by (simp add: process_message_def)
  next
    case (Some leased)
    obtain r s1 where pl: "process_leased remove P leased k n d s = (r, s1)" by fastforce
    have lease: "leased \<in> set (db_outbox d)" "pending leased"
      using get_pending_for_update_D [OF Some] by auto
    have bytes: "bytes_ok content valid d s1 \<and> (\<forall>key \<in> live_keys d. content s1 key = content s key)"
    proof (cases "ob_event_type leased = object_delete_requested")
      case True
      show ?thesis
      proof (cases "storage_key_from_payload (ob_payload leased)")
        case (Inl e)
        with pl True ok show ?thesis
          by (auto simp: process_leased_def process_object_delete_def store_ok_def)
      next
        case (Inr key)
        then have "key \<in> pending_deletes d"
          using lease True storage_key_from_payload_key [OF Inr] by (auto simp: pending_deletes_def)
        moreover have "s1 = snd (remove key s)"
          using pl True Inr
          by (auto simp: process_leased_def process_object_delete_def Let_def
              split: prod.splits sum.splits)
        ultimately show ?thesis using ok bytes_ok_remove [of d s key] by (simp add: store_ok_def)
      qed
    next
      case False
      with pl ok show ?thesis by (auto simp: process_leased_def store_ok_def split: if_splits)
    qed
    with ok have ok1: "store_ok content valid d s1" by (simp add: store_ok_def)
    show ?thesis
    proof (cases r)
      case (Inl e)
      with run Some pl have "s' = s1" "d' = snd (record_failure (ob_id m) (p_now P) (error_kind_name e) d)"
        by (simp_all add: process_message_def)
      then show ?thesis using bytes store_ok_record_failure [OF ok1] by (simp add: only_detaches_failure)
    next
      case (Inr x)
      with run Some pl have x: "x = (out, n', d')" "s' = s1"
        by (cases x; simp add: process_message_def)+
      consider (sweep) "process_orphan_sweep P leased k n d = Inr (out, n', d')"
        | (del) "d' = snd (mark_processed (ob_id leased) (p_now P) d)"
        using pl Inr x
        by (auto simp: process_leased_def process_object_delete_def Let_def result_simps
            split: if_splits sum.splits prod.splits)
      then show ?thesis
      proof cases
        case sweep
        from process_orphan_sweep_keeps [OF ok1 this] bytes x show ?thesis by simp
      next
        case del
        then show ?thesis using bytes x store_ok_mark_processed [OF ok1] by (simp add: only_detaches_mark)
      qed
    qed
  qed
  then show "store_ok content valid d' s'" "only_detaches d d'"
    "\<And>key. key \<in> live_keys d \<Longrightarrow> content s' key = content s key" by auto
qed

lemma live_keys_detaches: "only_detaches d d' \<Longrightarrow> live_keys d' \<subseteq> live_keys d"
  by (auto simp: only_detaches_def live_keys_def tbl_keys_def)

lemma outbox_cycle_keeps:
  assumes "store_ok content valid d s"
    and "outbox_cycle remove P locked ob k n r d s = (r', n', d', s')"
  shows "store_ok content valid d' s' \<and> only_detaches d d'
    \<and> (\<forall>key \<in> live_keys d'. content s' key = content s key)"
  using assms
proof (induction k arbitrary: n r d s)
  case (Suc k)
  show ?case
  proof (cases "next_pending_message d")
    case None
    with Suc.prems show ?thesis by simp
  next
    case (Some m)
    obtain out n1 d1 s1 where pm: "process_message remove P locked m ob n d s = (out, n1, d1, s1)"
      by (metis prod_cases4)
    note keep = process_message_keeps [OF Suc.prems(1) pm]
    show ?thesis
    proof (cases "eo_claimed out \<and> \<not> eo_failed out")
      case True
      then have "outbox_cycle remove P locked ob k n1 (add_outcome out r) d1 s1 = (r', n', d', s')"
        using Suc.prems(2) Some pm by simp
      from Suc.IH [OF keep(1) this] keep live_keys_detaches [of d d1] live_keys_detaches [of d1 d']
      show ?thesis by (auto intro: only_detaches_trans)
    next
      case False
      then have "d' = d1" "s' = s1" using Suc.prems(2) Some pm by (auto split: if_splits)
      with keep live_keys_detaches [of d d1] show ?thesis by auto
    qed
  qed
qed simp

end

end
