(* ===== verification/Tree_Commands.thy ===== *)
theory Tree_Commands
  imports Storage_Outbox
begin

text \<open>
  The commands on the logical tree together: each keeps the invariant of the storage
  tables, so every sequence of them does; and what each of them does to the tree.
\<close>

section \<open>Commands\<close>

datatype tree_command =
    CreateFolder create_folder_cmd | Rename rename_cmd | Move move_cmd | Copy copy_cmd
  | MoveToTrash trash_cmd | Restore restore_cmd | Purge purge_cmd

fun exec_tree :: "ports \<Rightarrow> tree_command \<Rightarrow> db \<Rightarrow> db" where
  "exec_tree P (CreateFolder c) d = snd (create_folder P c d)"
| "exec_tree P (Rename c) d = snd (rename_entry P c d)"
| "exec_tree P (Move c) d = snd (move_entry P c d)"
| "exec_tree P (Copy c) d = snd (copy_entry P c d)"
| "exec_tree P (MoveToTrash c) d = snd (trash_entry P c d)"
| "exec_tree P (Restore c) d = snd (restore_entry P c d)"
| "exec_tree P (Purge c) d = snd (permanently_delete P c d)"

text \<open>A history: each command with the ports of its own call.\<close>

definition exec_history :: "(ports \<times> tree_command) list \<Rightarrow> db \<Rightarrow> db" where
  "exec_history h d = fold (\<lambda>(P, c). exec_tree P c) h d"

section \<open>Each command keeps the invariant\<close>

lemma create_folder_ok:
  assumes ok: "storage_ok d" and run: "create_folder_tx P c d = Inr (x, d')"
  shows "storage_ok d'"
proof -
  from run obtain name found parent where
    f: "get_folder (p_unicode P) d (cf_parent c) False = Inr found"
      "require_folder found (cf_owner c) = Inr parent"
    and add: "add_folder (new_folder (p_ids P 0) (cf_owner c) (e_id parent) name (p_now P)) d = Inr d'"
    by (auto simp: create_folder_tx_def Let_def result_simps)
  note q = required_folder_row [OF f]
  show ?thesis
    by (rule storage_ok_add_folder [OF ok add]) (use q in \<open>auto simp: new_folder_def\<close>)
qed

lemma parent_not_below:
  assumes "tree_wf tbl" and "r \<in> set tbl" "r_parent r = Some p"
  shows "(p, r_id r) \<notin> (parent_rel tbl)\<^sup>*"
proof
  assume "(p, r_id r) \<in> (parent_rel tbl)\<^sup>*"
  moreover have "(r_id r, p) \<in> parent_rel tbl" using assms by (auto simp: parent_rel_def)
  ultimately have "(r_id r, r_id r) \<in> (parent_rel tbl)\<^sup>+" by (rule rtrancl_into_trancl2 [rotated])
  with tree_wfD(2) [OF assms(1)] show False by (auto simp: acyclic_def)
qed

lemma rename_entry_ok:
  assumes ok: "storage_ok d" and run: "rename_entry_tx P c d = Inr (x, d')"
  shows "storage_ok d'"
proof -
  from run obtain name e p e' where get: "get_entry (p_unicode P) d (rn_entry c) False = Inr (Some e)"
    and par: "e_parent e = Some p" and ren: "entry_rename e name (p_now P) = Inr e'"
    and save: "save_entry e' d = Inr d'"
    by (auto simp: rename_entry_tx_def result_simps split: option.splits)
  let ?r = "entry_model e"
  have r: "?r \<in> set (db_entries d)" "r_deleted ?r = None" "r_parent ?r = Some p"
    using get_entry_SomeD [OF get] par by auto
  have e': "e_id e' = r_id ?r" "e_parent e' = Some p" "e_deleted e' = None"
    using ren par by (auto simp: entry_rename_def split: if_splits)
  have wf: "tree_wf (db_entries d)" by (rule storage_okD(2) [OF ok])
  from tree_wfD(3) [OF wf r(1,3)] r(2) obtain q where
    "active_folder_row (db_entries d) (r_owner ?r) p q"
    by (auto simp: good_parent_def active_folder_row_def)
  from storage_ok_save [OF ok r(1,2) e' this parent_not_below [OF wf r(1,3)] save] show ?thesis .
qed

lemma is_descendant_iff:
  assumes "is_descendant d x y = Inr b"
  shows "b \<longleftrightarrow> y \<in> descendants (db_entries d) x \<and> y \<noteq> x"
proof -
  from assms obtain l where l: "subtree_cte (db_entries d) x = Some l"
    "b = list_ex (\<lambda>(z, _). z = y \<and> z \<noteq> x) l"
    by (auto simp: is_descendant_def split: option.splits)
  show ?thesis unfolding subtree_cte_set [OF l(1), symmetric] l(2) by (force simp: list_ex_iff)
qed

lemma move_entry_ok:
  assumes ok: "storage_ok d" and run: "move_entry_tx P c d = Inr (x, d')"
  shows "storage_ok d'"
proof -
  from run obtain e found dest below e' where
    get: "get_entry (p_unicode P) d (mv_entry c) False = Inr (Some e)"
    and owned: "e_owner e = mv_owner c" and self: "e_id e \<noteq> mv_destination c"
    and f: "get_folder (p_unicode P) d (mv_destination c) False = Inr found"
      "require_folder found (mv_owner c) = Inr dest"
    and desc: "(if is_folder e then is_descendant d (e_id e) (e_id dest) else Inr False) = Inr False"
    and mov: "entry_move e (e_id dest) (p_now P) = Inr e'" and save: "save_entry e' d = Inr d'"
    by (auto simp: move_entry_tx_def result_simps simp del: is_folder.simps)
  let ?r = "entry_model e" and ?R = "parent_rel (db_entries d)"
  have r: "?r \<in> set (db_entries d)" "r_deleted ?r = None" using get_entry_SomeD [OF get] by auto
  have wf: "tree_wf (db_entries d)" by (rule storage_okD(2) [OF ok])
  have e': "e_id e' = r_id ?r" "e_parent e' = Some (e_id dest)" "e_deleted e' = None"
    using mov by (auto simp: entry_move_def split: if_splits)
  note q = required_folder_row [OF f]
  have below: "(e_id dest, r_id ?r) \<notin> ?R\<^sup>*"
  proof (cases "is_folder e")
    case True
    have "e_id dest \<in> entry_ids d" "e_id e \<in> entry_ids d"
      using q r(1) by (auto simp: active_folder_row_def tbl_keys_def image_iff intro: rev_bexI)
    with is_descendant_iff [of d "e_id e" "e_id dest" False] desc True q(2) self show ?thesis
      by (auto simp: descendants_def)
  next
    case False
    then have "r_type ?r = FileType" by simp
    from file_has_no_children [OF wf r(1) this, of "e_id dest"] q(2) self show ?thesis by auto
  qed
  have "active_folder_row (db_entries d) (r_owner ?r) (e_id dest) (entry_model dest)"
    using q owned by simp
  from storage_ok_save [OF ok r e' this below save] show ?thesis .
qed

lemma trash_entry_ok:
  assumes ok: "storage_ok d" and run: "trash_entry_tx P c d = Inr (x, d')"
  shows "storage_ok d'"
proof (cases "d' = d")
  case False
  with run obtain e p n d1 item where
    get: "get_entry (p_unicode P) d (tr_entry c) True = Inr (Some e)"
    and del: "soft_delete_subtree (e_id e) (p_now P) d = Inr (n, d1)"
    and ins: "insert_trash item d1 = Inr d'" and item: "ti_entry item = e_id e"
    by (auto simp: trash_entry_tx_def Let_def result_simps split: if_splits option.splits)
  have "e_id e \<in> entry_ids d"
    using get_entry_SomeD(1) [OF get] by (auto simp: tbl_keys_def image_iff intro!: bexI)
  from storage_ok_soft_delete [OF ok this del ins item] show ?thesis .
qed (simp add: ok)

lemma restore_entry_ok:
  assumes ok: "storage_ok d" and run: "restore_entry_tx P c d = Inr (x, d')"
  shows "storage_ok d'"
proof -
  from run obtain item e found dest name e' d1 n d2 i where
    item: "tbl_find ti_id (rs_trash_item c) (db_trash d) = Some item"
    and get: "get_entry (p_unicode P) d (ti_entry item) True = Inr (Some e)"
    and owned: "e_owner e = rs_owner c"
    and f: "get_folder (p_unicode P) d i False = Inr found" "require_folder found (rs_owner c) = Inr dest"
    and res: "entry_restore e (e_id dest) (p_now P) = Inr e'" and save: "save_entry e' d = Inr d1"
    and rest: "restore_subtree (e_id e') (p_now P) d1 = Inr (n, d2)"
    and d': "d' = remove_trash_item (ti_id item) d2"
    by (auto simp: restore_entry_tx_def Let_def result_simps get_trash_item_def)
  let ?r = "entry_model e"
  have r: "?r \<in> set (db_entries d)" "r_id ?r = ti_entry item" using get_entry_SomeD [OF get] by auto
  have e': "e_id e' = r_id ?r" "e_parent e' = Some (e_id dest)" "e_deleted e' = None"
    and del: "r_deleted ?r \<noteq> None"
    using res by (auto simp: entry_restore_def split: if_splits)
  note q = required_folder_row [OF f]
  have q': "active_folder_row (db_entries d) (r_owner ?r) (e_id dest) (entry_model dest)"
    using q owned by simp
  have it: "item \<in> set (db_trash d)" "ti_entry item = r_id ?r"
    using item r(2) by (auto dest: tbl_find_in)
  show ?thesis unfolding d'
    by (rule storage_ok_restore [OF ok r(1) del e' q' save _ it]) (use rest e' in simp)
qed

lemma descendants_entries_cong [simp]: "descendants (db_entries (remove_trash_item i d)) x = descendants (db_entries d) x"
  by (simp add: remove_trash_item_def)

text \<open>
  Removing the tombstone first and then the subtree gives the same database as removing the
  subtree, which takes its tombstone along.
\<close>

lemma hard_delete_eq:
  assumes "hard_delete_subtree x d = Inr (n, d')"
  shows "d' = cascade_entries (descendants (db_entries d) x) d"
    and "n = tbl_count (\<lambda>r. r_id r \<in> descendants (db_entries d) x) (db_entries d)"
proof -
  from assms obtain l where l: "subtree_cte (db_entries d) x = Some l"
    and r: "n = tbl_count (\<lambda>r. r_id r \<in> set (map fst l)) (db_entries d)"
      "d' = cascade_entries (set (map fst l)) d"
    by (auto simp: hard_delete_subtree_def split: option.splits)
  have "set (map fst l) = descendants (db_entries d) x" using subtree_cte_set [OF l] by simp
  with r show "d' = cascade_entries (descendants (db_entries d) x) d"
    and "n = tbl_count (\<lambda>r. r_id r \<in> descendants (db_entries d) x) (db_entries d)" by simp_all
qed

lemma tbl_delete_delete:
  "(\<And>r. r \<in> set tbl \<Longrightarrow> Q r \<Longrightarrow> P r) \<Longrightarrow> tbl_delete P (tbl_delete Q tbl) = tbl_delete P tbl"
  by (induction tbl) auto

lemma cascade_remove_trash_item:
  assumes "distinct (map ti_id (db_trash d))" and "item \<in> set (db_trash d)" "ti_entry item \<in> gone"
  shows "cascade_entries gone (remove_trash_item (ti_id item) d) = cascade_entries gone d"
proof -
  have "tbl_delete (\<lambda>t. ti_entry t \<in> gone) (tbl_delete (\<lambda>t. ti_id t = ti_id item) (db_trash d)) =
      tbl_delete (\<lambda>t. ti_entry t \<in> gone) (db_trash d)"
    using assms distinct_key_inject [OF assms(1), of _ item] by (intro tbl_delete_delete) auto
  then show ?thesis by (simp add: cascade_entries_def remove_trash_item_def Let_def)
qed

lemma permanently_delete_db:
  assumes ok: "storage_ok d" and run: "permanently_delete_tx P c d = Inr (n, d')"
  obtains x row where "d' = (cascade_entries (descendants (db_entries d) x) d)\<lparr>db_outbox := db_outbox d @ [row]\<rparr>"
    and "n = tbl_count (\<lambda>r. r_id r \<in> descendants (db_entries d) x) (db_entries d)"
    and "\<exists>item \<in> set (db_trash d). ti_id item = pg_trash_item c \<and> ti_entry item = x"
    and "\<exists>r \<in> set (db_entries d). r_id r = x \<and> r_deleted r \<noteq> None \<and> r_owner r = pg_owner c"
    and "pending row" "ob_event_type row = orphan_sweep_requested" "ob_id row \<notin> tbl_keys ob_id (db_outbox d)"
proof -
  from run obtain item e d1 row where
    item: "tbl_find ti_id (pg_trash_item c) (db_trash d) = Some item"
    and get: "get_entry (p_unicode P) d (ti_entry item) True = Inr (Some e)"
    and e: "e_owner e = pg_owner c" "e_deleted e \<noteq> None"
    and del: "hard_delete_subtree (e_id e) (remove_trash_item (ti_id item) d) = Inr (n, d1)"
    and add: "outbox_add (p_ids P 0) (p_db_now P)
         \<lparr>nm_aggregate_id = e_id e, nm_aggregate_type = ''storage.entry'',
          nm_event_type = orphan_sweep_requested, nm_occurred = p_now P,
          nm_payload = [(''purged_entry_id'', JStr (uuid_str (e_id e)))]\<rparr> d1 = Inr (row, d')"
    by (auto simp: permanently_delete_tx_def result_simps get_trash_item_def)
  let ?x = "e_id e" and ?D = "descendants (db_entries d) (e_id e)"
  have r: "entry_model e \<in> set (db_entries d)" "?x = ti_entry item"
    using get_entry_SomeD [OF get] by auto
  then have "?x \<in> ?D" by (auto simp: descendants_def tbl_keys_def image_iff intro!: bexI)
  moreover have it: "item \<in> set (db_trash d)" "ti_id item = pg_trash_item c"
    using item by (auto dest: tbl_find_Some_D)
  ultimately have "cascade_entries ?D (remove_trash_item (ti_id item) d) = cascade_entries ?D d"
    using storage_okD(12) [OF ok] r(2) by (intro cascade_remove_trash_item) (simp_all add: trash_ok_def)
  with hard_delete_eq [OF del] have d1: "d1 = cascade_entries ?D d"
    and n: "n = tbl_count (\<lambda>r. r_id r \<in> ?D) (db_entries d)"
    by (simp_all add: remove_trash_item_def)
  have "d' = (cascade_entries ?D d)\<lparr>db_outbox := db_outbox d @ [row]\<rparr>"
    using outbox_add_eq_Inr(1) [OF add] by (simp add: d1 cascade_entries_def Let_def)
  moreover have "ob_id row \<notin> tbl_keys ob_id (db_outbox d)"
    using outbox_add_eq_Inr(2,8) [OF add] by (simp add: d1 cascade_entries_def Let_def)
  ultimately show thesis
    using that [OF _ n] it r e outbox_add_eq_Inr(3,4) [OF add]
    by (metis (no_types, lifting) entry_model_simps(1,2,4) new_message.select_convs(3))
qed

lemma permanently_delete_ok:
  assumes ok: "storage_ok d" and run: "permanently_delete_tx P c d = Inr (n, d')"
  shows "storage_ok d'"
proof -
  from permanently_delete_db [OF ok run] obtain x row where
    "d' = (cascade_entries (descendants (db_entries d) x) d)\<lparr>db_outbox := db_outbox d @ [row]\<rparr>" .
  then show ?thesis by (simp add: storage_ok_cascade [OF ok refl])
qed

subsection \<open>Copy\<close>

lemma subtree_rows_sub:
  assumes "subtree_cte tbl root = Some l" and "(r, k) \<in> set (subtree_rows tbl l)"
  shows "r \<in> set tbl" and "r_id r \<in> descendants tbl root" and "r_deleted r = None"
    and "(r_id r, root) \<in> parent_rel tbl ^^ k"
proof -
  from assms(2) obtain x where x: "(x, k) \<in> set l" and r: "r \<in> set tbl" "r_id r = x" "r_deleted r = None"
    by (auto simp: subtree_rows_def)
  show "r \<in> set tbl" "r_deleted r = None" by (fact r)+
  show "r_id r \<in> descendants tbl root"
    using subtree_cte_set [OF assms(1)] x r(2) by (metis fst_conv image_eqI)
  show "(r_id r, root) \<in> parent_rel tbl ^^ k" using subtree_cte_depth [OF assms(1) x] r(2) by simp
qed

lemma stream_subtree_models:
  assumes "stream_subtree U d root = Inr es" and "e \<in> set es"
  shows "entry_model e \<in> set (db_entries d)" and "e_id e \<in> descendants (db_entries d) root"
    and "e_deleted e = None"
proof -
  from assms(1) obtain l where l: "subtree_cte (db_entries d) root = Some l"
    and es: "to_entries U d (map fst (subtree_rows (db_entries d) l)) = Inr es"
    by (auto simp: stream_subtree_def split: option.splits)
  have "entry_model e \<in> set (map fst (subtree_rows (db_entries d) l))"
    using assms(2) unfolding to_entries_models [OF es, symmetric] by simp
  then obtain k where "(entry_model e, k) \<in> set (subtree_rows (db_entries d) l)" by auto
  from subtree_rows_sub [OF l this] show "entry_model e \<in> set (db_entries d)"
    "e_id e \<in> descendants (db_entries d) root" "e_deleted e = None" by simp_all
qed

lemma descendants_same_owner:
  assumes "tree_wf tbl" and "r_id r \<in> descendants tbl (r_id x)" and "r \<in> set tbl" "x \<in> set tbl"
  shows "r_owner r = r_owner x"
proof -
  have "(r_id r, r_id x) \<in> (parent_rel tbl)\<^sup>*" using assms(2) by (simp add: descendants_def)
  from ancestor_row [OF assms(1) this assms(3) refl] obtain s where
    "s \<in> set tbl" "r_id s = r_id x" "r_owner s = r_owner r" by auto
  with distinct_key_inject [OF tree_wfD(1) [OF assms(1)], of s x] assms(4) show ?thesis by simp
qed

lemma active_folder_row_grow:
  "active_folder_row tbl own p q \<Longrightarrow> set tbl \<subseteq> set tbl' \<Longrightarrow> active_folder_row tbl' own p q"
  by (auto simp: active_folder_row_def)

lemma add_folder_entries:
  "add_folder e d = Inr d' \<Longrightarrow> db_entries d' = db_entries d @ [entry_model e]"
  by (auto simp: add_folder_def add_entry_row_def result_simps)

lemma add_file_entries:
  assumes "add_file e fm v d = Inr d'"
  shows "db_entries d' = db_entries d @ [entry_model e]" and "db_versions d' = db_versions d @ [v]"
    and "db_meta d' = db_meta d @ [\<lparr>m_entry = e_id e, m_data = fm\<rparr>]" "db_objects d' = db_objects d"
  using assms
  by (auto simp: add_file_def add_entry_row_def insert_meta_def insert_version_def result_simps
      split: if_splits)

lemma copy_file_from_version_ok:
  assumes ok: "storage_ok d" and q: "active_folder_row (db_entries d) (e_owner src) p q"
    and run: "copy_file_from_version P n src fm v p name d = Inr (copied, d')"
  shows "storage_ok d'" and "set (db_entries d) \<subseteq> set (db_entries d')"
proof -
  let ?fid = "p_ids P n"
  let ?cfm = "copied_metadata (p_unicode P) ?fid name fm"
  let ?v = "\<lparr>v_id = p_ids P (n + 1), v_file = ?fid,
            v_object = v_object v, v_number = 1, v_original_name = en_value name,
            v_size = fm_size fm, v_mime_type = fm_mime_type fm,
            v_extension = fm_extension ?cfm, v_checksum = fm_checksum fm,
            v_created_by = e_owner src, v_created = p_now P\<rparr>"
  from run have copied: "copied = \<lparr>e_id = ?fid, e_owner = e_owner src, e_parent = Some p,
            e_name = en_value name, e_normalized = en_normalized name, e_created = p_now P,
            e_updated = p_now P, e_deleted = None, e_kind = File ?cfm\<rparr>"
    and add: "add_file copied ?cfm ?v d = Inr d'"
    by (auto simp: copy_file_from_version_def Let_def result_simps)
  have "v_number ?v = fm_version_number ?cfm" by (simp add: copied_metadata_def Let_def)
  then show "storage_ok d'"
    by (intro storage_ok_add_file [OF ok add]) (use q in \<open>simp_all add: copied\<close>)
  show "set (db_entries d) \<subseteq> set (db_entries d')" using add_file_entries(1) [OF add] by auto
qed

lemma copy_nodes_ok:
  assumes "storage_ok d" and "\<And>p. p \<in> ran fids \<Longrightarrow> \<exists>q. active_folder_row (db_entries d) own p q"
    and "\<And>c. c \<in> set nodes \<Longrightarrow> e_owner c = own"
    and "copy_nodes P vs nodes n fids d = Inr d'"
  shows "storage_ok d'"
  using assms
proof (induction nodes arbitrary: n fids d)
  case Nil
  then show ?case by simp
next
  case (Cons child nodes)
  from Cons.prems(4) obtain p name where p: "Option.bind (e_parent child) fids = Some p"
    and name: "entry_name_create (p_unicode P) (e_name child) = Inr name"
    by (auto simp: result_simps split: option.splits)
  have own: "e_owner child = own" using Cons.prems(3) by simp
  from p have "p \<in> ran fids" by (auto simp: ran_def bind_eq_Some_conv)
  then obtain q where q: "active_folder_row (db_entries d) own p q" using Cons.prems(2) by blast
  show ?case
  proof (cases "e_kind child")
    case Folder
    let ?new = "new_folder (p_ids P n) (e_owner child) p name (p_now P)"
    from Cons.prems(4) p name Folder obtain d1 where add: "add_folder ?new d = Inr d1"
      and rest: "copy_nodes P vs nodes (n + 1) (fids(e_id child \<mapsto> e_id ?new)) d1 = Inr d'"
      by (auto simp: Let_def result_simps)
    have ok1: "storage_ok d1"
      by (rule storage_ok_add_folder [OF Cons.prems(1) add]) (use q own in \<open>simp_all add: new_folder_def\<close>)
    note ent = add_folder_entries [OF add]
    have dests: "\<exists>q. active_folder_row (db_entries d1) own p' q"
      if "p' \<in> ran (fids(e_id child \<mapsto> e_id ?new))" for p'
    proof (cases "p' = e_id ?new")
      case True
      have "active_folder_row (db_entries d1) own p' (entry_model ?new)"
        using True own by (simp add: active_folder_row_def ent) (simp add: new_folder_def)
      then show ?thesis ..
    next
      case False
      with that have "p' \<in> ran fids" by (auto simp: ran_def split: if_splits)
      with Cons.prems(2) show ?thesis
        by (metis active_folder_row_grow ent set_append sup_ge1)
    qed
    show ?thesis by (rule Cons.IH [OF ok1 dests _ rest]) (assumption, rule Cons.prems(3), simp)
  next
    case (File fm)
    from Cons.prems(4) p name File obtain v copied d1 where
      cf: "copy_file_from_version P n child fm v p name d = Inr (copied, d1)"
      and rest: "copy_nodes P vs nodes (n + 2) fids d1 = Inr d'"
      by (auto simp: result_simps split: option.splits)
    have "active_folder_row (db_entries d) (e_owner child) p q" using q own by simp
    note one = copy_file_from_version_ok [OF Cons.prems(1) this cf]
    have "\<exists>q. active_folder_row (db_entries d1) own p' q" if "p' \<in> ran fids" for p'
      using Cons.prems(2) [OF that] active_folder_row_grow one(2) by blast
    from Cons.IH [OF one(1) this _ rest] Cons.prems(3) show ?thesis by simp
  qed
qed

lemma copy_entry_ok:
  assumes ok: "storage_ok d" and run: "copy_entry_tx P c d = Inr (x, d')"
  shows "storage_ok d'"
proof -
  from run obtain src found dest name copied where
    get: "get_entry (p_unicode P) d (cp_entry c) False = Inr (Some src)"
    and owned: "e_owner src = cp_owner c"
    and f: "get_folder (p_unicode P) d (cp_destination c) False = Inr found"
      "require_folder found (cp_owner c) = Inr dest"
    and step: "(case e_kind src of
        File fm \<Rightarrow> copy_file P src fm (e_id dest) name d
      | Folder \<Rightarrow> copy_folder_tree P src (e_id dest) name d) = Inr (copied, d')"
    by (auto simp: copy_entry_tx_def result_simps)
  note q = required_folder_row [OF f]
  have q': "active_folder_row (db_entries d) (e_owner src) (e_id dest) (entry_model dest)"
    using q owned by simp
  show ?thesis
  proof (cases "e_kind src")
    case (File fm)
    with step obtain v where "copy_file_from_version P 0 src fm v (e_id dest) name d = Inr (copied, d')"
      by (auto simp: copy_file_def result_simps)
    from copy_file_from_version_ok(1) [OF ok q' this] show ?thesis .
  next
    case Folder
    let ?root = "new_folder (p_ids P 0) (e_owner src) (e_id dest) name (p_now P)"
    from step Folder obtain d1 streamed vs where add: "add_folder ?root d = Inr d1"
      and str: "stream_subtree (p_unicode P) d1 (e_id src) = Inr streamed"
      and nodes: "copy_nodes P vs (filter (\<lambda>e. e_id e \<noteq> e_id src) streamed) 1
        [e_id src \<mapsto> e_id ?root] d1 = Inr d'"
      by (auto simp: copy_folder_tree_def Let_def result_simps)
    have ok1: "storage_ok d1"
      by (rule storage_ok_add_folder [OF ok add]) (use q' in \<open>simp_all add: new_folder_def\<close>)
    note ent = add_folder_entries [OF add]
    have src: "entry_model src \<in> set (db_entries d1)" using get_entry_SomeD(1) [OF get] by (simp add: ent)
    show ?thesis
    proof (rule copy_nodes_ok [OF ok1 _ _ nodes, where own = "e_owner src"])
      fix p assume "p \<in> ran [e_id src \<mapsto> e_id ?root]"
      then have "active_folder_row (db_entries d1) (e_owner src) p (entry_model ?root)"
        by (simp add: active_folder_row_def ent) (simp add: new_folder_def)
      then show "\<exists>q. active_folder_row (db_entries d1) (e_owner src) p q" ..
    next
      fix e assume "e \<in> set (filter (\<lambda>e. e_id e \<noteq> e_id src) streamed)"
      then have "e \<in> set streamed" by simp
      from stream_subtree_models [OF str this] src show "e_owner e = e_owner src"
        using descendants_same_owner [OF storage_okD(2) [OF ok1], of "entry_model e" "entry_model src"]
        by simp
    qed
  qed
qed

section \<open>The invariant holds throughout\<close>

lemma run_tx_storage_ok:
  "storage_ok d \<Longrightarrow> (\<And>x d'. t d = Inr (x, d') \<Longrightarrow> storage_ok d') \<Longrightarrow> storage_ok (snd (run_tx t d))"
  by (rule run_tx_invariant)

lemma exec_tree_ok:
  assumes "storage_ok d"
  shows "storage_ok (exec_tree P c d)"
proof (cases c)
  case (CreateFolder x)
  show ?thesis unfolding CreateFolder exec_tree.simps create_folder_def
    by (rule run_tx_storage_ok [OF assms]) (rule create_folder_ok [OF assms])
next
  case (Rename x)
  show ?thesis unfolding Rename exec_tree.simps rename_entry_def
    by (rule run_tx_storage_ok [OF assms]) (rule rename_entry_ok [OF assms])
next
  case (Move x)
  show ?thesis unfolding Move exec_tree.simps move_entry_def
    by (rule run_tx_storage_ok [OF assms]) (rule move_entry_ok [OF assms])
next
  case (Copy x)
  show ?thesis unfolding Copy exec_tree.simps copy_entry_def
    by (rule run_tx_storage_ok [OF assms]) (rule copy_entry_ok [OF assms])
next
  case (MoveToTrash x)
  show ?thesis unfolding MoveToTrash exec_tree.simps trash_entry_def
    by (rule run_tx_storage_ok [OF assms]) (rule trash_entry_ok [OF assms])
next
  case (Restore x)
  show ?thesis unfolding Restore exec_tree.simps restore_entry_def
    by (rule run_tx_storage_ok [OF assms]) (rule restore_entry_ok [OF assms])
next
  case (Purge x)
  show ?thesis unfolding Purge exec_tree.simps permanently_delete_def
    by (rule run_tx_storage_ok [OF assms]) (rule permanently_delete_ok [OF assms])
qed

lemma exec_history_ok:
  assumes "storage_ok d"
  shows "storage_ok (exec_history h d)"
proof -
  have "storage_ok (fold (\<lambda>(P, c). exec_tree P c) h d)"
    using assms by (induction h arbitrary: d) (auto intro: exec_tree_ok)
  then show ?thesis by (simp add: exec_history_def)
qed

end
