(* ===== verification/Mime_Detection.thy ===== *)
theory Mime_Detection
  imports Prelude
begin

text \<open>
  \<open>SignatureMimeDetector\<close> (\<open>app/infrastructure/storage/mime.py\<close>): signatures first, then a
  text heuristic on strictly decoded UTF-8. The table behind \<open>mimetypes.guess_type\<close> depends
  on the host and is the argument \<open>guess\<close>.
\<close>

section \<open>Strict UTF-8 decoding\<close>

text \<open>\<open>bytes.decode("utf-8")\<close>: shortest forms only, no surrogates, at most \<open>U+10FFFF\<close>.\<close>

definition cont :: "nat \<Rightarrow> bool" where
  "cont b \<longleftrightarrow> 128 \<le> b \<and> b < 192"

fun utf8_decode :: "nat list \<Rightarrow> nat list option" where
  "utf8_decode [] = Some []"
| "utf8_decode (a # rest) =
     (if a < 128 then map_option ((#) a) (utf8_decode rest)
      else if 194 \<le> a \<and> a < 224 then
        (case rest of
           b # more \<Rightarrow>
             if cont b then map_option ((#) ((a - 192) * 64 + (b - 128))) (utf8_decode more)
             else None
         | _ \<Rightarrow> None)
      else if 224 \<le> a \<and> a < 240 then
        (case rest of
           b # c # more \<Rightarrow>
             if cont b \<and> cont c \<and> (a = 224 \<longrightarrow> 160 \<le> b) \<and> (a = 237 \<longrightarrow> b < 160)
             then map_option ((#) ((a - 224) * 4096 + (b - 128) * 64 + (c - 128))) (utf8_decode more)
             else None
         | _ \<Rightarrow> None)
      else if 240 \<le> a \<and> a < 245 then
        (case rest of
           b # c # e # more \<Rightarrow>
             if cont b \<and> cont c \<and> cont e \<and> (a = 240 \<longrightarrow> 144 \<le> b) \<and> (a = 244 \<longrightarrow> b < 144)
             then map_option ((#) ((a - 240) * 262144 + (b - 128) * 4096 + (c - 128) * 64 + (e - 128)))
                    (utf8_decode more)
             else None
         | _ \<Rightarrow> None)
      else None)"

definition byte_values :: "bytes \<Rightarrow> nat list" where
  "byte_values = map of_char"

section \<open>Detection\<close>

text \<open>\<open>controls / max(1, len(decoded)) < 0.01\<close>, without the division.\<close>

definition looks_like_text :: "bytes \<Rightarrow> bool" where
  "looks_like_text prefix =
     (if CHR 0x00 \<in> set prefix then False
      else case utf8_decode (byte_values prefix) of
        None \<Rightarrow> False
      | Some decoded \<Rightarrow>
          (let controls = length (filter (\<lambda>c. c < 32 \<and> c \<notin> {10, 13, 9}) decoded)
           in 100 * controls < max 1 (length decoded)))"

definition bytes_of :: "nat list \<Rightarrow> bytes" where
  "bytes_of = map char_of"

definition signatures :: "(bytes \<times> string) list" where
  "signatures =
     [(''%PDF-'', ''application/pdf''),
      (bytes_of [137, 80, 78, 71, 13, 10, 26, 10], ''image/png''),
      (bytes_of [255, 216, 255], ''image/jpeg''),
      (''GIF87a'', ''image/gif''),
      (''GIF89a'', ''image/gif''),
      (bytes_of [80, 75, 3, 4], ''application/zip''),
      (bytes_of [55, 122, 188, 175, 39, 28], ''application/x-7z-compressed''),
      (bytes_of [82, 97, 114, 33, 26, 7], ''application/vnd.rar''),
      (''ID3'', ''audio/mpeg'')]"

definition slice :: "nat \<Rightarrow> nat \<Rightarrow> 'a list \<Rightarrow> 'a list" where
  "slice a b xs = take (b - a) (drop a xs)"

definition detect_mime :: "(string \<Rightarrow> string option) \<Rightarrow> bytes \<Rightarrow> string \<Rightarrow> string" where
  "detect_mime guess prefix filename =
     (if prefix = [] then ''application/x-empty''
      else case find (\<lambda>(signature, _). py_startswith prefix signature) signatures of
        Some (_, mime_type) \<Rightarrow> mime_type
      | None \<Rightarrow>
          if py_startswith prefix ''RIFF'' \<and> slice 8 12 prefix = ''WAVE'' then ''audio/wav''
          else if py_startswith prefix ''RIFF'' \<and> slice 8 12 prefix = ''WEBP'' then ''image/webp''
          else if 12 \<le> length prefix \<and> slice 4 8 prefix = ''ftyp'' then ''video/mp4''
          else if looks_like_text prefix
          then (case guess filename of
                  Some g \<Rightarrow> if py_startswith g ''text/'' then g else ''text/plain''
                | None \<Rightarrow> ''text/plain'')
          else ''application/octet-stream'')"

section \<open>Lemmas\<close>

text \<open>ASCII text decodes to itself.\<close>

lemma utf8_decode_ascii: "\<forall>b \<in> set bs. b < 128 \<Longrightarrow> utf8_decode bs = Some bs"
  by (induction bs) auto

lemma map_option_cons_append:
  "map_option ((#) x) z = Some cs \<Longrightarrow>
     (\<And>zs. z = Some zs \<Longrightarrow> w = map_option (append zs) v) \<Longrightarrow>
     map_option ((#) x) w = map_option (append cs) v"
  by (cases v) auto

lemma utf8_decode_append:
  "utf8_decode xs = Some cs \<Longrightarrow> utf8_decode (xs @ ys) = map_option (append cs) (utf8_decode ys)"
proof (induction xs arbitrary: cs rule: utf8_decode.induct)
  case 1
  then show ?case by (simp add: option.map_ident)
next
  case (2 a rest)
  consider (one) "a < 128" | (two) "\<not> a < 128" "194 \<le> a \<and> a < 224"
    | (three) "\<not> a < 128" "\<not> (194 \<le> a \<and> a < 224)" "224 \<le> a \<and> a < 240"
    | (four) "\<not> a < 128" "\<not> (194 \<le> a \<and> a < 224)" "\<not> (224 \<le> a \<and> a < 240)" "240 \<le> a \<and> a < 245"
    using "2.prems" by (fastforce split: if_splits)
  then show ?case
  proof cases
    case one
    with "2.prems" have "map_option ((#) a) (utf8_decode rest) = Some cs" by simp
    from map_option_cons_append [OF this "2.IH"(1) [OF one]] one show ?thesis by simp
  next
    case two
    from "2.prems" two obtain b more where r: "rest = b # more" "cont b"
      by (auto split: list.splits if_splits)
    from "2.prems" two r have
      "map_option ((#) ((a - 192) * 64 + (b - 128))) (utf8_decode more) = Some cs" by simp
    from map_option_cons_append [OF this "2.IH"(2) [OF two r]] two r show ?thesis by simp
  next
    case three
    from "2.prems" three obtain b c more where r: "rest = b # c # more"
      by (auto split: list.splits)
    with "2.prems" three have g: "cont b \<and> cont c \<and> (a = 224 \<longrightarrow> 160 \<le> b) \<and> (a = 237 \<longrightarrow> b < 160)"
      by (simp split: if_splits)
    from "2.prems" three r g have
      "map_option ((#) ((a - 224) * 4096 + (b - 128) * 64 + (c - 128))) (utf8_decode more) = Some cs"
      by simp
    from map_option_cons_append [OF this "2.IH"(3) [OF three r refl g]] three r g show ?thesis by simp
  next
    case four
    from "2.prems" four obtain b c e more where r: "rest = b # c # e # more"
      by (auto split: list.splits)
    with "2.prems" four have g: "cont b \<and> cont c \<and> cont e \<and> (a = 240 \<longrightarrow> 144 \<le> b) \<and> (a = 244 \<longrightarrow> b < 144)"
      by (simp split: if_splits)
    from "2.prems" four r g have
      "map_option ((#) ((a - 240) * 262144 + (b - 128) * 4096 + (c - 128) * 64 + (e - 128)))
         (utf8_decode more) = Some cs" by simp
    from map_option_cons_append [OF this "2.IH"(4) [OF four r refl refl g]] four r g show ?thesis by simp
  qed
qed

text \<open>The first byte of a two-byte character at the end makes the text undecodable.\<close>

lemma utf8_decode_cut:
  assumes "utf8_decode xs = Some cs" and "194 \<le> a" "a < 245"
  shows "utf8_decode (xs @ [a]) = None"
  using utf8_decode_append [OF assms(1), of "[a]"] assms(2,3) by simp

end
