(* ===== verification/Uploads.thy ===== *)
theory Uploads
  imports Tree_Commands Mime_Detection
begin

text \<open>
  Resumable uploads (\<open>app/application/use_cases/storage/uploads.py\<close>) on the database and the
  local store together. A use case returns its result and both states, so that what an
  error leaves behind is visible. SHA-256, the virus scanner and the MIME tables of the host
  are the record \<open>upload_services\<close>; metrics are not modelled.
\<close>

section \<open>Policy and services\<close>

record upload_policy =
  up_maximum_file_size :: int
  up_maximum_chunk_size :: int
  up_maximum_logical_path_length :: int
  up_session_ttl :: int
  up_allowed_extensions :: "string list"
  up_blocked_extensions :: "string list"
  up_allowed_mime_types :: "string list"

record upload_services =
  sv_sha256 :: "bytes \<Rightarrow> string"
  sv_guess_type :: "string \<Rightarrow> string option"
  sv_virus_scan :: "(bytes \<Rightarrow> bool) option"
  sv_write_buffer :: nat
  sv_block_size :: nat
  sv_faults :: os_faults

record upload_session_dto =
  ud_id :: uuid
  ud_parent :: uuid
  ud_filename :: string
  ud_expected_size :: int
  ud_uploaded_bytes :: int
  ud_mime_type :: "string option"
  ud_extension :: string
  ud_status :: upload_status
  ud_expires :: instant
  ud_checksum :: "string option"

definition upload_dto :: "upload_session \<Rightarrow> upload_session_dto" where
  "upload_dto u =
     \<lparr>ud_id = us_id u, ud_parent = us_parent u, ud_filename = us_original_name u,
      ud_expected_size = us_expected_size u, ud_uploaded_bytes = us_uploaded_bytes u,
      ud_mime_type = us_mime_type u, ud_extension = us_extension u, ud_status = us_status u,
      ud_expires = us_expires u, ud_checksum = us_checksum u\<rparr>"

definition require_upload :: "upload_session option \<Rightarrow> uuid \<Rightarrow> upload_session result" where
  "require_upload ou owner_id =
     (case ou of
        None \<Rightarrow> Inl UploadSessionNotFound
      | Some u \<Rightarrow> if us_owner u \<noteq> owner_id then Inl UploadSessionNotFound else Inr u)"

definition require_writable :: "upload_session \<Rightarrow> instant \<Rightarrow> unit result" where
  "require_writable u now =
     rbind (require (\<not> us_expires u \<le> now) UploadStateConflict) (\<lambda>_.
     require (us_status u \<in> {Created, Uploading}) UploadStateConflict)"

definition canonical_mime :: "unicode \<Rightarrow> string \<Rightarrow> string result" where
  "canonical_mime U v =
     (let mime_type = u_casefold U (py_strip (u_is_space U) (fst (py_partition (CHR '';'') v)))
      in if CHR ''/'' \<notin> set mime_type \<or> 255 < length mime_type then Inl UploadValidation
         else Inr mime_type)"

definition validate_start_policy :: "int \<Rightarrow> string \<Rightarrow> string \<Rightarrow> upload_policy \<Rightarrow> unit result" where
  "validate_start_policy sz extension mime_type policy =
     rbind (require (\<not> (sz < 0 \<or> up_maximum_file_size policy < sz)) UploadValidation) (\<lambda>_.
     rbind (require (extension \<notin> set (up_blocked_extensions policy)) UploadValidation) (\<lambda>_.
     rbind (require (\<not> (up_allowed_extensions policy \<noteq> []
         \<and> extension \<notin> set (up_allowed_extensions policy))) UploadValidation) (\<lambda>_.
     require (\<not> (up_allowed_mime_types policy \<noteq> []
         \<and> mime_type \<notin> set (up_allowed_mime_types policy))) UploadValidation)))"

definition compatible_containers :: "string \<Rightarrow> string list" where
  "compatible_containers detected =
     (if detected = ''application/zip''
      then [''application/vnd.openxmlformats-officedocument.wordprocessingml.document'',
            ''application/vnd.openxmlformats-officedocument.spreadsheetml.sheet'',
            ''application/vnd.openxmlformats-officedocument.presentationml.presentation'']
      else [])"

definition validate_mime :: "string option \<Rightarrow> string \<Rightarrow> upload_policy \<Rightarrow> unit result" where
  "validate_mime declared detected policy =
     rbind (require (\<not> (up_allowed_mime_types policy \<noteq> []
         \<and> detected \<notin> set (up_allowed_mime_types policy))) UploadValidation) (\<lambda>_.
     (case declared of
        None \<Rightarrow> Inr ()
      | Some m \<Rightarrow>
          if m = ''application/octet-stream'' then Inr ()
          else require (m = detected \<or> m \<in> set (compatible_containers detected)) UploadValidation))"

section \<open>Start\<close>

record start_cmd =
  su_owner :: uuid
  su_parent :: uuid
  su_filename :: string
  su_expected_size :: int
  su_declared_mime :: string

definition new_upload ::
  "uuid \<Rightarrow> start_cmd \<Rightarrow> entry_name \<Rightarrow> string \<Rightarrow> string \<Rightarrow> uuid \<Rightarrow> instant \<Rightarrow> upload_policy \<Rightarrow>
     upload_session" where
  "new_upload upload_id c name extension mime folder_id now policy =
     \<lparr>us_id = upload_id, us_owner = su_owner c, us_parent = folder_id,
      us_original_name = en_value name,
      us_internal_name = (if extension \<noteq> [] then uuid_str upload_id @ ''.'' @ extension
        else uuid_str upload_id),
      us_expected_size = su_expected_size c, us_uploaded_bytes = 0, us_mime_type = Some mime,
      us_extension = extension, us_checksum = None, us_staging_key = uuid_str upload_id,
      us_status = Created, us_expires = now + up_session_ttl policy, us_created = now,
      us_updated = now\<rparr>"

text \<open>The checks before an upload identifier is drawn.\<close>

definition start_checks ::
  "ports \<Rightarrow> upload_policy \<Rightarrow> start_cmd \<Rightarrow> db \<Rightarrow> (entry_name \<times> string \<times> storage_entry) result" where
  "start_checks P policy c d =
     (let U = p_unicode P
      in rbind (entry_name_create U (su_filename c)) (\<lambda>name.
         rbind (canonical_mime U (su_declared_mime c)) (\<lambda>mime.
         rbind (validate_start_policy (su_expected_size c) (entry_name_extension U name) mime policy) (\<lambda>_.
         rbind (get_folder U d (su_parent c) False) (\<lambda>found.
         rbind (require_owned found (su_owner c)) (\<lambda>folder.
         rbind (logical_path_length d (e_id folder)) (\<lambda>path_length.
         rbind (require (path_length + int (length (en_value name))
             \<le> up_maximum_logical_path_length policy) UploadValidation) (\<lambda>_.
         rbind (require (\<not> name_exists d (e_id folder) (en_normalized name) None) StorageNameConflict)
           (\<lambda>_. Inr (name, mime, folder))))))))))"

definition start_upload ::
  "ports \<Rightarrow> upload_policy \<Rightarrow> start_cmd \<Rightarrow> db \<Rightarrow> fs \<Rightarrow> upload_session_dto result \<times> db \<times> fs" where
  "start_upload P policy c d s =
     (case start_checks P policy c d of
        Inl e \<Rightarrow> (Inl e, d, s)
      | Inr (name, mime, folder) \<Rightarrow>
          (let upload_id = p_ids P 0;
               session = new_upload upload_id c name (entry_name_extension (p_unicode P) name) mime
                 (e_id folder) (p_now P) policy;
               discard = (\<lambda>e s. case discard_upload upload_id s of
                   (Inl e', s') \<Rightarrow> (Inl e', d, s') | (Inr _, s') \<Rightarrow> (Inl e, d, s'))
           in case create_upload (p_now P) upload_id s of
                (Inl e, s1) \<Rightarrow> discard e s1
              | (Inr _, s1) \<Rightarrow>
                  (case insert_upload session d of
                     Inl e \<Rightarrow> discard e s1
                   | Inr d1 \<Rightarrow> (Inr (upload_dto session), d1, s1))))"

definition get_upload_status :: "uuid \<Rightarrow> uuid \<Rightarrow> db \<Rightarrow> upload_session_dto result" where
  "get_upload_status owner_id upload_id d =
     rbind (require_upload (get_upload_session d upload_id) owner_id) (\<lambda>u. Inr (upload_dto u))"

section \<open>Append\<close>

text \<open>\<open>_BoundedHashingStream\<close>: the chunks it lets through, its final error, its length.\<close>

fun bounded_chunks :: "int \<Rightarrow> int \<Rightarrow> int \<Rightarrow> error option \<Rightarrow> bytes list \<Rightarrow>
    bytes list \<times> error option \<times> int" where
  "bounded_chunks maximum remaining sz err [] = ([], err, sz)"
| "bounded_chunks maximum remaining sz err (c # cs) =
     (let next_size = sz + int (length c)
      in if next_size > maximum then ([], Some UploadValidation, sz)
         else if next_size > remaining then ([], Some UploadValidation, sz)
         else (case bounded_chunks maximum remaining next_size err cs of
                 (out, e, n) \<Rightarrow> (c # out, e, n)))"

definition bounded_stream :: "int \<Rightarrow> int \<Rightarrow> body_stream \<Rightarrow> body_stream \<times> int" where
  "bounded_stream maximum remaining b =
     (case bounded_chunks maximum remaining 0 (bs_error b) (bs_chunks b) of
        (out, e, n) \<Rightarrow> (\<lparr>bs_chunks = out, bs_error = e\<rparr>, n))"

record append_cmd =
  au_owner :: uuid
  au_upload :: uuid
  au_offset :: int
  au_body :: body_stream

record chunk_result =
  cr_upload :: uuid
  cr_offset :: int
  cr_received :: int
  cr_sha256 :: string

definition append_checks :: "ports \<Rightarrow> append_cmd \<Rightarrow> db \<Rightarrow> upload_session result" where
  "append_checks P c d =
     rbind (require_upload (get_upload_session d (au_upload c)) (au_owner c)) (\<lambda>u.
     rbind (require_writable u (p_now P)) (\<lambda>_.
     rbind (require (au_offset c = us_uploaded_bytes u)
       (UploadOffsetMismatch (us_uploaded_bytes u))) (\<lambda>_. Inr u)))"

definition record_chunk :: "ports \<Rightarrow> upload_session \<Rightarrow> int \<Rightarrow> int \<Rightarrow> db \<Rightarrow> db result" where
  "record_chunk P u sz persisted d =
     rbind (require (sz \<noteq> 0) UploadValidation) (\<lambda>_.
     rbind (require (persisted = us_uploaded_bytes u + sz) UploadValidation) (\<lambda>_.
     rbind (record_progress u persisted (p_now P)) (\<lambda>u'.
     save_upload_session u' d)))"

definition append_upload ::
  "ports \<Rightarrow> upload_services \<Rightarrow> upload_policy \<Rightarrow> append_cmd \<Rightarrow> db \<Rightarrow> fs \<Rightarrow>
     chunk_result result \<times> db \<times> fs" where
  "append_upload P S policy c d s =
     (case append_checks P c d of
        Inl e \<Rightarrow> (Inl e, d, s)
      | Inr u \<Rightarrow>
          (let (stream, sz) = bounded_stream (up_maximum_chunk_size policy)
                 (us_expected_size u - us_uploaded_bytes u) (au_body c);
               previous_offset = nat (us_uploaded_bytes u)
           in case append_chunk (sv_write_buffer S) (sv_faults S) (p_now P) (us_id u)
                  previous_offset stream s of
                (Inl e, s1) \<Rightarrow> (Inl e, d, s1)
              | (Inr persisted, s1) \<Rightarrow>
                  (case record_chunk P u sz persisted d of
                     Inl e \<Rightarrow>
                       (case truncate_upload (p_now P) (us_id u) previous_offset s1 of
                          (Inl e', s2) \<Rightarrow> (Inl e', d, s2) | (Inr _, s2) \<Rightarrow> (Inl e, d, s2))
                   | Inr d1 \<Rightarrow>
                       (Inr \<lparr>cr_upload = us_id u, cr_offset = persisted, cr_received = sz,
                             cr_sha256 = sv_sha256 S (concat (bs_chunks stream))\<rparr>, d1, s1))))"

section \<open>Complete\<close>

definition inspection_prefix_size :: nat where
  "inspection_prefix_size = 64 * 1024"

fun inspect_chunks :: "bytes list \<Rightarrow> bytes \<Rightarrow> int \<Rightarrow> bytes \<Rightarrow> bytes \<times> int \<times> bytes" where
  "inspect_chunks [] hashed sz prefix = (hashed, sz, prefix)"
| "inspect_chunks (c # cs) hashed sz prefix =
     inspect_chunks cs (hashed @ c) (sz + int (length c))
       (if length prefix < inspection_prefix_size
        then prefix @ take (inspection_prefix_size - length prefix) c else prefix)"

definition inspect_stream :: "upload_services \<Rightarrow> bytes list \<Rightarrow> string \<times> int \<times> bytes" where
  "inspect_stream S chunks =
     (case inspect_chunks chunks [] 0 [] of
        (hashed, sz, prefix) \<Rightarrow> (sv_sha256 S hashed, sz, prefix))"

record owned_upload_cmd =
  ou_owner :: uuid
  ou_upload :: uuid

record inspected =
  in_upload :: upload_session
  in_checksum :: string
  in_size :: int
  in_mime :: string
  in_name :: entry_name

text \<open>Everything before the staged file is published.\<close>

definition complete_checks ::
  "ports \<Rightarrow> upload_services \<Rightarrow> upload_policy \<Rightarrow> owned_upload_cmd \<Rightarrow> db \<Rightarrow> fs \<Rightarrow> inspected result" where
  "complete_checks P S policy c d s =
     rbind (require_upload (get_upload_session d (ou_upload c)) (ou_owner c)) (\<lambda>u.
     rbind (require_writable u (p_now P)) (\<lambda>_.
     rbind (require (us_uploaded_bytes u = us_expected_size u) UploadStateConflict) (\<lambda>_.
     rbind (stream_upload (sv_block_size S) (us_id u) s) (\<lambda>blocks.
     (case inspect_stream S blocks of
        (checksum, inspected_size, prefix) \<Rightarrow>
          rbind (upload_size (us_id u) s) (\<lambda>actual_size.
          rbind (require (\<not> (inspected_size \<noteq> us_expected_size u \<or> actual_size \<noteq> inspected_size))
            UploadValidation) (\<lambda>_.
          (let detected = detect_mime (sv_guess_type S) prefix (us_original_name u)
           in rbind (validate_mime (us_mime_type u) detected policy) (\<lambda>_.
              rbind (case sv_virus_scan S of
                       None \<Rightarrow> Inr ()
                     | Some scan \<Rightarrow> require (scan (concat blocks)) UploadValidation) (\<lambda>_.
              rbind (get_folder (p_unicode P) d (us_parent u) False) (\<lambda>found.
              rbind (require_owned found (us_owner u)) (\<lambda>_.
              rbind (entry_name_create (p_unicode P) (us_original_name u)) (\<lambda>name.
              rbind (require (\<not> name_exists d (us_parent u) (en_normalized name) None)
                StorageNameConflict) (\<lambda>_.
              Inr \<lparr>in_upload = u, in_checksum = checksum, in_size = inspected_size,
                   in_mime = detected, in_name = name\<rparr>))))))))))))))"

definition completed_object :: "ports \<Rightarrow> inspected \<Rightarrow> stored_object \<Rightarrow> storage_object" where
  "completed_object P i stored =
     \<lparr>o_id = p_ids P 1, o_storage_key = so_key stored, o_size = so_size stored,
      o_mime_type = in_mime i, o_checksum = in_checksum i, o_status = ObjReady,
      o_created = p_now P, o_updated = p_now P, o_deleted = None\<rparr>"

definition completed_metadata :: "inspected \<Rightarrow> stored_object \<Rightarrow> file_metadata" where
  "completed_metadata i stored =
     \<lparr>fm_original_name = us_original_name (in_upload i),
      fm_internal_name = us_internal_name (in_upload i), fm_size = so_size stored,
      fm_mime_type = in_mime i, fm_extension = us_extension (in_upload i),
      fm_checksum = in_checksum i, fm_version_number = 1\<rparr>"

definition completed_file :: "ports \<Rightarrow> inspected \<Rightarrow> stored_object \<Rightarrow> storage_entry" where
  "completed_file P i stored =
     \<lparr>e_id = p_ids P 0, e_owner = us_owner (in_upload i), e_parent = Some (us_parent (in_upload i)),
      e_name = en_value (in_name i), e_normalized = en_normalized (in_name i),
      e_created = p_now P, e_updated = p_now P, e_deleted = None,
      e_kind = File (completed_metadata i stored)\<rparr>"

definition completed_version :: "ports \<Rightarrow> inspected \<Rightarrow> stored_object \<Rightarrow> file_version" where
  "completed_version P i stored =
     \<lparr>v_id = p_ids P 2, v_file = p_ids P 0, v_object = p_ids P 1, v_number = 1,
      v_original_name = us_original_name (in_upload i), v_size = so_size stored,
      v_mime_type = in_mime i, v_extension = us_extension (in_upload i),
      v_checksum = in_checksum i, v_created_by = us_owner (in_upload i), v_created = p_now P\<rparr>"

definition record_completion :: "ports \<Rightarrow> inspected \<Rightarrow> stored_object \<Rightarrow> db \<Rightarrow> db result" where
  "record_completion P i stored d =
     (let U = p_unicode P; ob = completed_object P i stored; fm = completed_metadata i stored;
          version = completed_version P i stored
      in rbind (storage_object_post_init U ob) (\<lambda>_.
         rbind (file_post_init U fm) (\<lambda>_.
         rbind (file_version_post_init U version) (\<lambda>_.
         rbind (sha256_create U (in_checksum i)) (\<lambda>checksum.
         rbind (upload_complete (in_upload i) checksum (p_now P)) (\<lambda>u.
         rbind (insert_object ob d) (\<lambda>d1.
         rbind (add_file (completed_file P i stored) fm version d1) (\<lambda>d2.
         save_upload_session u d2))))))))"

text \<open>A failure after the publication deletes the published object.\<close>

definition complete_upload ::
  "ports \<Rightarrow> upload_services \<Rightarrow> upload_policy \<Rightarrow> owned_upload_cmd \<Rightarrow> db \<Rightarrow> fs \<Rightarrow>
     storage_entry_dto result \<times> db \<times> fs" where
  "complete_upload P S policy c d s =
     (case complete_checks P S policy c d s of
        Inl e \<Rightarrow> (Inl e, d, s)
      | Inr i \<Rightarrow>
          (case publish_upload (us_id (in_upload i)) (in_size i) s of
             (Inl e, s1) \<Rightarrow> (Inl e, d, s1)
           | (Inr stored, s1) \<Rightarrow>
               (case record_completion P i stored d of
                  Inr d1 \<Rightarrow> (Inr (entry_to_dto (completed_file P i stored) False), d1, s1)
                | Inl e \<Rightarrow>
                    (case delete_object (so_key stored) s1 of
                       (Inl e', s2) \<Rightarrow> (Inl e', d, s2) | (Inr _, s2) \<Rightarrow> (Inl e, d, s2)))))"

section \<open>Cancel\<close>

definition cancel_tx :: "ports \<Rightarrow> owned_upload_cmd \<Rightarrow> db \<Rightarrow> (upload_session \<times> db) result" where
  "cancel_tx P c d =
     rbind (require_upload (get_upload_session d (ou_upload c)) (ou_owner c)) (\<lambda>u.
     rbind (require (us_status u \<noteq> Completed) UploadStateConflict) (\<lambda>_.
     (let u' = u\<lparr>us_status := Cancelled, us_updated := p_now P\<rparr>
      in rbind (save_upload_session u' d) (\<lambda>d1. Inr (u', d1)))))"

definition cancel_upload ::
  "ports \<Rightarrow> owned_upload_cmd \<Rightarrow> db \<Rightarrow> fs \<Rightarrow> upload_session_dto result \<times> db \<times> fs" where
  "cancel_upload P c d s =
     (case cancel_tx P c d of
        Inl e \<Rightarrow> (Inl e, d, s)
      | Inr (u, d1) \<Rightarrow>
          (case discard_upload (us_id u) s of
             (Inl e, s1) \<Rightarrow> (Inl e, d1, s1) | (Inr _, s1) \<Rightarrow> (Inr (upload_dto u), d1, s1)))"

end
