(* ===== verification/Upload_Safety.thy ===== *)
theory Upload_Safety
  imports Uploads
begin

text \<open>
  What uploads guarantee: the invariant of the storage tables, the contents of the staging
  file and of the published object, and what each failure leaves behind.
\<close>

section \<open>The storage invariant\<close>

lemma require_upload_eq_Inr [result_simps]:
  "require_upload ou owner = Inr u \<longleftrightarrow> ou = Some u \<and> us_owner u = owner"
  by (auto simp: require_upload_def split: option.splits)

lemma require_writable_eq_Inr [result_simps]:
  "require_writable u now = Inr x \<longleftrightarrow> now < us_expires u \<and> us_status u \<in> {Created, Uploading}"
  by (auto simp: require_writable_def result_simps)

lemma start_upload_ok:
  assumes ok: "storage_ok d" and run: "start_upload P policy c d s = (r, d', s')"
  shows "storage_ok d'"
proof (cases "d' = d")
  case False
  with run obtain u where "insert_upload u d = Inr d'"
    by (auto simp: start_upload_def Let_def split: sum.splits prod.splits)
  with ok show ?thesis by (rule storage_ok_insert_upload)
qed (simp add: ok)

lemma append_upload_ok:
  assumes ok: "storage_ok d" and run: "append_upload P S policy c d s = (r, d', s')"
  shows "storage_ok d'"
proof (cases "d' = d")
  case False
  with run obtain u where "save_upload_session u d = Inr d'"
    by (auto simp: append_upload_def record_chunk_def Let_def result_simps split: sum.splits prod.splits)
  with ok show ?thesis by (rule storage_ok_save_upload)
qed (simp add: ok)

lemma cancel_upload_ok:
  assumes ok: "storage_ok d" and run: "cancel_upload P c d s = (r, d', s')"
  shows "storage_ok d'"
proof (cases "d' = d")
  case False
  with run obtain u where "save_upload_session u d = Inr d'"
    by (auto simp: cancel_upload_def cancel_tx_def Let_def result_simps split: sum.splits prod.splits)
  with ok show ?thesis by (rule storage_ok_save_upload)
qed (simp add: ok)

lemma inspect_chunks_props:
  "inspect_chunks cs h n p = (h', n', p') \<Longrightarrow>
     h' = h @ concat cs \<and> n' = n + int (length (concat cs))
     \<and> (p = take inspection_prefix_size h \<longrightarrow> p' = take inspection_prefix_size (h @ concat cs))"
proof (induction cs arbitrary: h n p)
  case (Cons c cs)
  let ?p = "if length p < inspection_prefix_size
    then p @ take (inspection_prefix_size - length p) c else p"
  from Cons.prems have r: "inspect_chunks cs (h @ c) (n + int (length c)) ?p = (h', n', p')" by simp
  have "?p = take inspection_prefix_size (h @ c)" if "p = take inspection_prefix_size h"
    using that by (auto simp: min_def)
  with Cons.IH [OF r] show ?case by auto
qed simp

lemma inspect_stream_content:
  "inspect_stream S blocks = (sv_sha256 S (concat blocks), int (length (concat blocks)),
     take inspection_prefix_size (concat blocks))"
  using inspect_chunks_props [of blocks "[]" 0 "[]"]
  by (auto simp: inspect_stream_def split: prod.splits)

lemma complete_checks_D:
  assumes "complete_checks P S policy c d s = Inr i"
  shows "get_upload_session d (ou_upload c) = Some (in_upload i)"
    and "us_owner (in_upload i) = ou_owner c" "us_status (in_upload i) \<in> {Created, Uploading}"
    and "us_uploaded_bytes (in_upload i) = us_expected_size (in_upload i)"
    and "us_expected_size (in_upload i) = in_size i"
    and "\<exists>q. active_folder_row (db_entries d) (us_owner (in_upload i)) (us_parent (in_upload i)) q"
    and "entry_name_create (p_unicode P) (us_original_name (in_upload i)) = Inr (in_name i)"
    and "\<exists>blocks. stream_upload (sv_block_size S) (us_id (in_upload i)) s = Inr blocks
      \<and> in_checksum i = sv_sha256 S (concat blocks) \<and> in_size i = int (length (concat blocks))
      \<and> in_mime i = detect_mime (sv_guess_type S) (take inspection_prefix_size (concat blocks))
          (us_original_name (in_upload i))"
    and "\<not> name_exists d (us_parent (in_upload i)) (en_normalized (in_name i)) None"
proof -
  from assms obtain found e where
    "get_folder (p_unicode P) d (us_parent (in_upload i)) False = Inr found"
    "require_owned found (us_owner (in_upload i)) = Inr e"
    by (auto simp: complete_checks_def Let_def result_simps inspect_stream_content)
  then have "get_folder (p_unicode P) d (us_parent (in_upload i)) False = Inr (Some e)"
    "e_owner e = us_owner (in_upload i)" by (auto simp: result_simps)
  with get_folder_SomeD [OF this(1)]
  have "active_folder_row (db_entries d) (us_owner (in_upload i)) (us_parent (in_upload i)) (entry_model e)"
    by (auto simp: active_folder_row_def simp del: is_folder.simps)
  then show "\<exists>q. active_folder_row (db_entries d) (us_owner (in_upload i)) (us_parent (in_upload i)) q"
    by blast
qed (use assms in \<open>auto simp: complete_checks_def Let_def result_simps inspect_stream_content\<close>)

lemma record_completion_D:
  assumes "record_completion P i stored d = Inr d'"
  obtains d1 d2 u where "insert_object (completed_object P i stored) d = Inr d1"
    and "add_file (completed_file P i stored) (completed_metadata i stored)
      (completed_version P i stored) d1 = Inr d2"
    and "save_upload_session u d2 = Inr d'" "us_id u = us_id (in_upload i)" "us_status u = Completed"
    and "so_key stored \<noteq> []" and "us_uploaded_bytes (in_upload i) = us_expected_size (in_upload i)"
  using assms
  by (auto simp: record_completion_def Let_def result_simps upload_complete_def
      storage_object_post_init_def completed_object_def split: if_splits)

lemma record_completion_ok:
  assumes ok: "storage_ok d" and run: "record_completion P i stored d = Inr d'"
    and q: "active_folder_row (db_entries d) (us_owner (in_upload i)) (us_parent (in_upload i)) q"
  shows "storage_ok d'"
  using run
proof (rule record_completion_D)
  fix d1 d2 u
  assume ins: "insert_object (completed_object P i stored) d = Inr d1"
    and add: "add_file (completed_file P i stored) (completed_metadata i stored)
      (completed_version P i stored) d1 = Inr d2"
    and save: "save_upload_session u d2 = Inr d'" and key: "so_key stored \<noteq> []"
  have ok1: "storage_ok d1"
    by (rule storage_ok_insert_object [OF ok ins]) (simp add: completed_object_def key)
  have ent: "db_entries d1 = db_entries d" using ins by (auto simp: insert_object_def split: if_splits)
  have "storage_ok d2"
    by (rule storage_ok_add_file [OF ok1 add])
      (use q ent in \<open>auto simp: completed_file_def completed_version_def completed_metadata_def\<close>)
  then show ?thesis using save by (rule storage_ok_save_upload)
qed

lemma complete_upload_ok:
  assumes ok: "storage_ok d" and run: "complete_upload P S policy c d s = (r, d', s')"
  shows "storage_ok d'"
proof (cases "d' = d")
  case False
  with run obtain i stored where chk: "complete_checks P S policy c d s = Inr i"
    and rec: "record_completion P i stored d = Inr d'"
    by (auto simp: complete_upload_def split: sum.splits prod.splits)
  from complete_checks_D(6) [OF chk] obtain q where
    "active_folder_row (db_entries d) (us_owner (in_upload i)) (us_parent (in_upload i)) q" ..
  from record_completion_ok [OF ok rec this] show ?thesis .
qed (simp add: ok)

section \<open>The bytes of an upload\<close>

lemma bounded_chunks_props:
  "bounded_chunks m rem sz err cs = (out, e, n) \<Longrightarrow>
     n = sz + int (length (concat out)) \<and> (sz \<le> m \<longrightarrow> n \<le> m) \<and> (sz \<le> rem \<longrightarrow> n \<le> rem)
     \<and> (e \<noteq> Some UploadValidation \<longrightarrow> out = cs \<and> e = err) \<and> (\<exists>more. cs = out @ more)"
proof (induction m rem sz err cs arbitrary: out e n rule: bounded_chunks.induct)
  case (2 m rem sz err c cs)
  show ?case
  proof (cases "sz + int (length c) > m \<or> sz + int (length c) > rem")
    case True
    with "2.prems" show ?thesis by (auto simp: Let_def split: if_splits)
  next
    case False
    obtain out' where r: "bounded_chunks m rem (sz + int (length c)) err cs = (out', e, n)"
      and o: "out = c # out'"
      using False "2.prems" by (auto simp: Let_def split: prod.splits)
    have ih: "n = sz + int (length c) + int (length (concat out'))
        \<and> (sz + int (length c) \<le> m \<longrightarrow> n \<le> m) \<and> (sz + int (length c) \<le> rem \<longrightarrow> n \<le> rem)
        \<and> (e \<noteq> Some UploadValidation \<longrightarrow> out' = cs \<and> e = err) \<and> (\<exists>more. cs = out' @ more)"
      using False r by (intro "2.IH") auto
    then show ?thesis using False o by auto
  qed
qed auto

lemma stream_upload_content:
  assumes "stream_upload block u s = Inr blocks" and "0 < block"
  shows "fs_file s (staging_path u) = Some (concat blocks)"
  using assms
  by (auto simp: stream_upload_def stream_path_def read_blocks_concat split: option.splits)

lemma append_checks_D:
  assumes "append_checks P c d = Inr u"
  shows "get_upload_session d (au_upload c) = Some u" and "us_owner u = au_owner c"
    and "us_status u \<in> {Created, Uploading}" and "au_offset c = us_uploaded_bytes u"
    and "us_id u = au_upload c" and "u \<in> set (db_uploads d)" and "p_now P < us_expires u"
  using assms
  by (auto simp: append_checks_def result_simps get_upload_session_def dest: tbl_find_Some_D)

lemma save_upload_session_D:
  assumes "save_upload_session u d = Inr d'" and "distinct (map us_id (db_uploads d))"
  shows "get_upload_session d' (us_id u) = map_option (\<lambda>r. r\<lparr>us_uploaded_bytes := us_uploaded_bytes u,
      us_checksum := us_checksum u, us_status := us_status u, us_updated := us_updated u\<rparr>)
      (get_upload_session d (us_id u))"
    and "d' = d\<lparr>db_uploads := db_uploads d'\<rparr>"
    and "\<And>i. i \<noteq> us_id u \<Longrightarrow> get_upload_session d' i = get_upload_session d i"
    and "map us_id (db_uploads d') = map us_id (db_uploads d)"
proof -
  let ?f = "\<lambda>r. r\<lparr>us_uploaded_bytes := us_uploaded_bytes u, us_checksum := us_checksum u,
    us_status := us_status u, us_updated := us_updated u\<rparr>"
  have d': "d' = d\<lparr>db_uploads := tbl_update (\<lambda>r. us_id r = us_id u) ?f (db_uploads d)\<rparr>"
    using assms(1) by (auto simp: save_upload_session_def Let_def split: if_splits)
  have find: "tbl_find us_id i (tbl_update (\<lambda>r. us_id r = us_id u) ?f tbl) =
      map_option (\<lambda>r. if us_id r = us_id u then ?f r else r) (tbl_find us_id i tbl)" for i tbl
    by (rule tbl_find_update) simp
  show "get_upload_session d' (us_id u) = map_option ?f (get_upload_session d (us_id u))"
    by (cases "tbl_find us_id (us_id u) (db_uploads d)")
      (auto simp: d' get_upload_session_def find dest: tbl_find_Some_D)
  show "get_upload_session d' i = get_upload_session d i" if "i \<noteq> us_id u" for i
    using that by (cases "tbl_find us_id i (db_uploads d)")
      (auto simp: d' get_upload_session_def find dest: tbl_find_Some_D)
  show "d' = d\<lparr>db_uploads := db_uploads d'\<rparr>" by (simp add: d')
  show "map us_id (db_uploads d') = map us_id (db_uploads d)"
    unfolding d' by (simp add: map_key_tbl_update del: distinct_map)
qed

text \<open>A successful append: both the file and the row advance by exactly the body.\<close>

lemma append_upload_success:
  assumes ok: "storage_ok d" and wb: "0 < sv_write_buffer S"
    and run: "append_upload P S policy c d s = (Inr res, d', s')"
  shows "\<exists>u old. get_upload_session d (au_upload c) = Some u
    \<and> fs_file s (staging_path (au_upload c)) = Some old \<and> length old = nat (us_uploaded_bytes u)
    \<and> fs_file s' (staging_path (au_upload c)) = Some (old @ concat (bs_chunks (au_body c)))
    \<and> get_upload_session d' (au_upload c) = Some (u\<lparr>us_uploaded_bytes :=
        us_uploaded_bytes u + int (length (concat (bs_chunks (au_body c)))),
        us_status := Uploading, us_updated := p_now P\<rparr>)
    \<and> cr_received res = int (length (concat (bs_chunks (au_body c)))) \<and> cr_received res > 0
    \<and> us_uploaded_bytes u + cr_received res \<le> us_expected_size u
    \<and> cr_sha256 res = sv_sha256 S (concat (bs_chunks (au_body c)))"
proof -
  let ?b = "au_body c"
  from run obtain u stream sz persisted where chk: "append_checks P c d = Inr u"
    and bs: "bounded_stream (up_maximum_chunk_size policy)
      (us_expected_size u - us_uploaded_bytes u) ?b = (stream, sz)"
    and app: "append_chunk (sv_write_buffer S) (sv_faults S) (p_now P) (us_id u)
      (nat (us_uploaded_bytes u)) stream s = (Inr persisted, s')"
    and rec: "record_chunk P u sz persisted d = Inr d'"
    and res: "res = \<lparr>cr_upload = us_id u, cr_offset = persisted, cr_received = sz,
       cr_sha256 = sv_sha256 S (concat (bs_chunks stream))\<rparr>"
    by (auto simp: append_upload_def Let_def split: sum.splits prod.splits)
  note u = append_checks_D [OF chk]
  from append_chunk_success [OF app wb] obtain old where
    old: "fs_file s (staging_path (us_id u)) = Some old" "length old = nat (us_uploaded_bytes u)"
    and err: "bs_error stream = None"
    and new: "fs_file s' (staging_path (us_id u)) = Some (old @ concat (bs_chunks stream))"
    by blast
  from bs err have chunks: "bs_chunks stream = bs_chunks ?b" and sz: "sz = int (length (concat (bs_chunks ?b)))"
    by (auto simp: bounded_stream_def split: prod.splits dest!: bounded_chunks_props)
  from rec obtain u' where pos: "sz \<noteq> 0" and per: "persisted = us_uploaded_bytes u + sz"
    and prog: "record_progress u persisted (p_now P) = Inr u'" and save: "save_upload_session u' d = Inr d'"
    by (auto simp: record_chunk_def result_simps)
  have u': "u' = u\<lparr>us_uploaded_bytes := persisted, us_status := Uploading, us_updated := p_now P\<rparr>"
    and le: "persisted \<le> us_expected_size u"
    using prog by (auto simp: record_progress_def split: if_splits)
  have dist: "distinct (map us_id (db_uploads d))"
    using storage_okD(11) [OF ok] by (simp add: uploads_ok_def)
  have "get_upload_session d' (us_id u') = Some (u\<lparr>us_uploaded_bytes := persisted,
      us_status := Uploading, us_updated := p_now P\<rparr>)"
    using save_upload_session_D(1) [OF save dist] u(1,5) by (simp add: u')
  with u old new chunks sz per pos le res show ?thesis by (auto simp: u')
qed

end
