(* ===== verification/System_Invariant.thy ===== *)
theory System_Invariant
  imports Upload_Safety
begin

text \<open>
  The database and the file store together: the invariant that no committed reference ever
  loses its bytes, and its preservation by tree commands, uploads and the deletion cycle.
\<close>

section \<open>What tree commands leave alone\<close>

text \<open>The outbox only grows, by sweep requests under new identifiers.\<close>

definition outbox_extends :: "db \<Rightarrow> db \<Rightarrow> bool" where
  "outbox_extends d d' \<longleftrightarrow> (\<exists>rows. db_outbox d' = db_outbox d @ rows
     \<and> (\<forall>r \<in> set rows. ob_event_type r = orphan_sweep_requested)
     \<and> distinct (map ob_id rows) \<and> set (map ob_id rows) \<inter> tbl_keys ob_id (db_outbox d) = {})"

lemma outbox_extends_same [simp]: "db_outbox d' = db_outbox d \<Longrightarrow> outbox_extends d d'"
  by (simp add: outbox_extends_def)

lemma outbox_extends_trans:
  assumes "outbox_extends a b" and "outbox_extends b c"
  shows "outbox_extends a c"
proof -
  from assms obtain rows rows' where
    "db_outbox b = db_outbox a @ rows" "\<forall>r \<in> set rows. ob_event_type r = orphan_sweep_requested"
    "distinct (map ob_id rows)" "set (map ob_id rows) \<inter> tbl_keys ob_id (db_outbox a) = {}"
    "db_outbox c = db_outbox b @ rows'" "\<forall>r \<in> set rows'. ob_event_type r = orphan_sweep_requested"
    "distinct (map ob_id rows')" "set (map ob_id rows') \<inter> tbl_keys ob_id (db_outbox b) = {}"
    by (auto simp: outbox_extends_def)
  then show ?thesis unfolding outbox_extends_def
    by (intro exI [of _ "rows @ rows'"]) (auto simp: tbl_keys_def)
qed

definition keeps_objects :: "db \<Rightarrow> db \<Rightarrow> bool" where
  "keeps_objects d d' \<longleftrightarrow>
     db_objects d' = db_objects d \<and> set (db_thumbnails d') \<subseteq> set (db_thumbnails d)
     \<and> set (db_previews d') \<subseteq> set (db_previews d) \<and> set (db_uploads d') \<subseteq> set (db_uploads d)
     \<and> pending_deletes d' = pending_deletes d \<and> outbox_extends d d'"

named_theorems keeps \<open>writes that keep objects, assets and requested deletions\<close>

lemma keeps_objects_refl [keeps]: "keeps_objects d d"
  by (simp add: keeps_objects_def)

lemma keeps_objects_trans [trans]:
  "keeps_objects a b \<Longrightarrow> keeps_objects b c \<Longrightarrow> keeps_objects a c"
  by (auto simp: keeps_objects_def intro: outbox_extends_trans)

lemma keeps_write_entries [keeps]: "write_entries tbl d = Inr d' \<Longrightarrow> keeps_objects d d'"
  by (auto simp: result_simps keeps_objects_def pending_deletes_def)

lemma keeps_insert [keeps]:
  "insert_meta m d = Inr d' \<Longrightarrow> keeps_objects d d'"
  "insert_version v d = Inr d' \<Longrightarrow> keeps_objects d d'"
  "insert_trash t d = Inr d' \<Longrightarrow> keeps_objects d d'"
  by (auto simp: insert_defs keeps_objects_def pending_deletes_def split: if_splits)

lemma keeps_add_folder [keeps]: "add_folder e d = Inr d' \<Longrightarrow> keeps_objects d d'"
  by (auto simp: add_folder_def add_entry_row_def intro: keeps)

lemma keeps_add_file [keeps]:
  assumes "add_file e fm v d = Inr d'"
  shows "keeps_objects d d'"
proof -
  from assms obtain d1 d2 where "write_entries (db_entries d @ [entry_model e]) d = Inr d1"
    "insert_meta \<lparr>m_entry = e_id e, m_data = fm\<rparr> d1 = Inr d2" "insert_version v d2 = Inr d'"
    by (auto simp: add_file_def add_entry_row_def result_simps)
  from keeps_objects_trans [OF keeps_objects_trans [OF keeps_write_entries [OF this(1)]
      keeps_insert(1) [OF this(2)]] keeps_insert(2) [OF this(3)]] show ?thesis .
qed

lemma keeps_save_entry [keeps]: "save_entry e d = Inr d' \<Longrightarrow> keeps_objects d d'"
  by (auto simp: save_entry_def intro: keeps split: if_splits)

lemma keeps_subtree [keeps]:
  "update_subtree_deletion x del upd d = Inr (n, d') \<Longrightarrow> keeps_objects d d'"
  by (auto simp: update_subtree_deletion_def Let_def result_simps keeps_objects_def
      pending_deletes_def split: option.splits)

lemma keeps_remove_trash [keeps]: "keeps_objects d (remove_trash_item i d)"
  by (simp add: remove_trash_item_def keeps_objects_def pending_deletes_def)

lemma keeps_cascade [keeps]: "keeps_objects d (cascade_entries gone d)"
  by (auto simp: cascade_entries_def Let_def keeps_objects_def pending_deletes_def set_tbl_delete)

lemma keeps_sweep_request [keeps]:
  "pending row \<Longrightarrow> ob_event_type row = orphan_sweep_requested \<Longrightarrow> ob_id row \<notin> tbl_keys ob_id (db_outbox d) \<Longrightarrow>
     keeps_objects d (d\<lparr>db_outbox := db_outbox d @ [row]\<rparr>)"
  by (auto simp: keeps_objects_def pending_deletes_def outbox_extends_def)

lemma keeps_copy_file [keeps]:
  "copy_file_from_version P n src fm v p name d = Inr (copied, d') \<Longrightarrow> keeps_objects d d'"
  by (auto simp: copy_file_from_version_def Let_def result_simps intro: keeps)

lemma keeps_copy_nodes [keeps]:
  "copy_nodes P vs nodes n fids d = Inr d' \<Longrightarrow> keeps_objects d d'"
proof (induction nodes arbitrary: n fids d)
  case Nil
  then show ?case by (simp add: keeps)
next
  case (Cons child nodes)
  then obtain p name where p: "Option.bind (e_parent child) fids = Some p"
    and name: "entry_name_create (p_unicode P) (e_name child) = Inr name"
    by (auto simp: result_simps split: option.splits)
  have "\<exists>d1 n1 fids1. keeps_objects d d1 \<and> copy_nodes P vs nodes n1 fids1 d1 = Inr d'"
  proof (cases "e_kind child")
    case Folder
    with Cons.prems p name obtain e d1 fids1 where "add_folder e d = Inr d1"
      "copy_nodes P vs nodes (n + 1) fids1 d1 = Inr d'"
      by (auto simp: Let_def result_simps)
    then show ?thesis using keeps_add_folder by blast
  next
    case (File fm)
    with Cons.prems p name obtain v x d1 where
      "copy_file_from_version P n child fm v p name d = Inr (x, d1)"
      "copy_nodes P vs nodes (n + 2) fids d1 = Inr d'"
      by (auto simp: result_simps split: option.splits)
    then show ?thesis using keeps_copy_file by blast
  qed
  then obtain d1 n1 fids1 where one: "keeps_objects d d1"
    and rest: "copy_nodes P vs nodes n1 fids1 d1 = Inr d'" by blast
  from one Cons.IH [OF rest] show ?case by (rule keeps_objects_trans)
qed

lemma keeps_copy_entry:
  assumes "copy_entry_tx P c d = Inr (x, d')"
  shows "keeps_objects d d'"
proof -
  from assms obtain src dest name copied where
    step: "(case e_kind src of
        File fm \<Rightarrow> copy_file P src fm dest name d
      | Folder \<Rightarrow> copy_folder_tree P src dest name d) = Inr (copied, d')"
    by (auto simp: copy_entry_tx_def result_simps)
  show ?thesis
  proof (cases "e_kind src")
    case (File fm)
    with step show ?thesis by (auto simp: copy_file_def result_simps intro: keeps)
  next
    case Folder
    with step obtain root d1 vs nodes fids where "add_folder root d = Inr d1"
      "copy_nodes P vs nodes 1 fids d1 = Inr d'"
      by (auto simp: copy_folder_tree_def Let_def result_simps)
    from keeps_objects_trans [OF keeps_add_folder [OF this(1)] keeps_copy_nodes [OF this(2)]]
    show ?thesis .
  qed
qed

lemma keeps_restore_entry:
  assumes "restore_entry_tx P c d = Inr (x, d')"
  shows "keeps_objects d d'"
proof -
  from assms obtain e d1 i n d2 k where "save_entry e d = Inr d1"
    "update_subtree_deletion i None (Some (p_now P)) d1 = Inr (n, d2)" "d' = remove_trash_item k d2"
    by (auto simp: restore_entry_tx_def restore_subtree_def Let_def result_simps)
  with keeps_objects_trans [OF keeps_objects_trans [OF keeps_save_entry [OF this(1)]
      keeps_subtree [OF this(2)]] keeps_remove_trash] show ?thesis by simp
qed

lemma keeps_trash_entry:
  assumes "trash_entry_tx P c d = Inr (x, d')"
  shows "keeps_objects d d'"
proof (cases "d' = d")
  case False
  with assms obtain i n d1 t where "update_subtree_deletion i (Some (p_now P)) None d = Inr (n, d1)"
    "insert_trash t d1 = Inr d'"
    by (auto simp: trash_entry_tx_def soft_delete_subtree_def Let_def result_simps
        split: if_splits option.splits)
  from keeps_objects_trans [OF keeps_subtree [OF this(1)] keeps_insert(3) [OF this(2)]]
  show ?thesis .
qed (simp add: keeps)

lemma keeps_permanently_delete:
  assumes "storage_ok d" and "permanently_delete_tx P c d = Inr (n, d')"
  shows "keeps_objects d d'"
  using assms
proof (rule permanently_delete_db)
  fix x row
  let ?d1 = "cascade_entries (descendants (db_entries d) x) d"
  assume d': "d' = ?d1\<lparr>db_outbox := db_outbox d @ [row]\<rparr>" and row: "pending row"
    "ob_event_type row = orphan_sweep_requested" "ob_id row \<notin> tbl_keys ob_id (db_outbox d)"
  have "db_outbox ?d1 = db_outbox d" by (simp add: cascade_entries_def Let_def)
  with keeps_sweep_request [OF row(1,2), of ?d1] row(3) d' have "keeps_objects ?d1 d'" by simp
  with keeps_cascade [of d] show ?thesis by (rule keeps_objects_trans)
qed

lemma keeps_run_tx:
  "(\<And>x d'. t d = Inr (x, d') \<Longrightarrow> keeps_objects d d') \<Longrightarrow> keeps_objects d (snd (run_tx t d))"
  using run_tx_invariant [of "keeps_objects d" d t] by (simp add: keeps)

lemma exec_tree_keeps: "storage_ok d \<Longrightarrow> keeps_objects d (exec_tree P c d)"
proof (cases c)
  case (CreateFolder x)
  then show ?thesis unfolding CreateFolder exec_tree.simps create_folder_def
    by (intro keeps_run_tx) (auto simp: create_folder_tx_def Let_def result_simps intro: keeps)
next
  case (Rename x)
  then show ?thesis unfolding Rename exec_tree.simps rename_entry_def
    by (intro keeps_run_tx)
      (auto simp: rename_entry_tx_def result_simps split: option.splits intro: keeps)
next
  case (Move x)
  then show ?thesis unfolding Move exec_tree.simps move_entry_def
    by (intro keeps_run_tx) (auto simp: move_entry_tx_def result_simps intro: keeps)
next
  case (Copy x)
  then show ?thesis unfolding Copy exec_tree.simps copy_entry_def
    by (intro keeps_run_tx) (rule keeps_copy_entry)
next
  case (MoveToTrash x)
  then show ?thesis unfolding MoveToTrash exec_tree.simps trash_entry_def
    by (intro keeps_run_tx) (rule keeps_trash_entry)
next
  case (Restore x)
  then show ?thesis unfolding Restore exec_tree.simps restore_entry_def
    by (intro keeps_run_tx) (rule keeps_restore_entry)
next
  case (Purge x)
  assume "storage_ok d"
  then show ?thesis unfolding Purge exec_tree.simps permanently_delete_def
    by (intro keeps_run_tx) (rule keeps_permanently_delete)
qed

section \<open>The file store under uploads\<close>

lemma object_not_staging: "is_object_key k \<Longrightarrow> key_path k \<noteq> Inr (staging_path u)"
  using staging_not_object by (auto simp: is_object_key_def)

text \<open>Two stores with the same permanent objects.\<close>

definition same_objects :: "fs \<Rightarrow> fs \<Rightarrow> bool" where
  "same_objects s s' \<longleftrightarrow> (\<forall>k. is_object_key k \<longrightarrow> object_content s' k = object_content s k)"

lemma same_objects_refl [simp]: "same_objects s s"
  by (simp add: same_objects_def)

lemma same_objects_trans [trans]: "same_objects a b \<Longrightarrow> same_objects b c \<Longrightarrow> same_objects a c"
  by (simp add: same_objects_def)

lemma same_objects_staging:
  assumes "\<And>q. q \<noteq> staging_path u \<Longrightarrow> fs_file s' q = fs_file s q"
  shows "same_objects s s'"
  unfolding same_objects_def
proof (intro allI impI)
  fix k assume k: "is_object_key k"
  then obtain p where p: "key_path k = Inr p" using object_key_path_Inr by blast
  then have "p \<noteq> staging_path u" using object_not_staging [OF k, of u] by auto
  then show "object_content s' k = object_content s k" by (simp add: object_content_def p assms)
qed

lemma same_objects_append: "same_objects s (snd (append_chunk wb F now u off b s))"
  by (rule same_objects_staging) (rule append_chunk_other_files)

lemma same_objects_truncate: "same_objects s (snd (truncate_upload now u off s))"
  by (rule same_objects_staging [of u]) (auto simp: truncate_upload_def Let_def split: option.splits)

lemma same_objects_discard: "same_objects s (snd (discard_upload u s))"
  by (rule same_objects_staging [of u]) (auto simp: discard_upload_def unlink_missing_ok_def)

lemma same_objects_create: "same_objects s (snd (create_upload now u s))"
  by (rule same_objects_staging [of u])
    (auto simp: create_upload_def mkdirs_file split: sum.splits)

lemma publish_upload_failure:
  assumes "publish_upload u n s = (Inl e, s')"
  shows "same_objects s s'"
proof -
  have "fs_file s' q = fs_file s q" for q
    using assms
    by (auto simp: publish_upload_def Let_def dest: mkdirs_file
        split: sum.splits option.splits if_splits)
  then show ?thesis by (intro same_objects_staging [of undefined]) simp
qed

lemma publish_upload_objects:
  assumes "publish_upload u n s = (Inr ob, s')" and "fs_file s (staging_path u) = Some c"
    and "u < 2 ^ 128" and "is_object_key k" and "k \<noteq> object_key u"
  shows "object_content s' k = object_content s k"
proof -
  obtain p where p: "key_path k = Inr p" using object_key_path_Inr assms(4) by blast
  have "is_object_key (object_key u)" using assms(3) by (auto simp: is_object_key_def)
  then have "key_path (object_key u) \<noteq> Inr p"
    using object_path_inject [OF assms(4), of "object_key u"] p assms(5) by auto
  moreover have "p \<noteq> staging_path u" using object_not_staging [OF assms(4)] p by auto
  ultimately show ?thesis
    using publish_upload_success(7) [OF assms(1,2)] by (simp add: object_content_def p)
qed

section \<open>The invariant\<close>

text \<open>
  Every object row describes its bytes: length and checksum. An upload that can still be
  completed has not published and its object is not awaiting deletion.
\<close>

definition integrity :: "(bytes \<Rightarrow> string) \<Rightarrow> db \<Rightarrow> fs \<Rightarrow> bool" where
  "integrity sha d s \<longleftrightarrow> (\<forall>ob \<in> set (db_objects d). \<exists>c. object_content s (o_storage_key ob) = Some c
     \<and> o_size ob = int (length c) \<and> o_checksum ob = sha c)"

definition uploads_fresh :: "db \<Rightarrow> bool" where
  "uploads_fresh d \<longleftrightarrow> (\<forall>u \<in> set (db_uploads d). us_id u < 2 ^ 128
     \<and> (us_status u \<in> {Created, Uploading} \<longrightarrow>
          object_key (us_id u) \<notin> live_keys d \<union> pending_deletes d))"

definition system_ok :: "(bytes \<Rightarrow> string) \<Rightarrow> db \<Rightarrow> fs \<Rightarrow> bool" where
  "system_ok sha d s \<longleftrightarrow> store_ok object_content is_object_key d s \<and> integrity sha d s
     \<and> uploads_fresh d"

lemma system_ok_tree:
  assumes ok: "system_ok sha d s"
  shows "system_ok sha (exec_tree P c d) s"
proof -
  let ?d = "exec_tree P c d"
  have st: "storage_ok d" "assets_ok d" "bytes_ok object_content is_object_key d s"
    "integrity sha d s" "uploads_fresh d" using ok by (auto simp: system_ok_def store_ok_def)
  have keep: "keeps_objects d ?d" by (rule exec_tree_keeps [OF st(1)])
  have lk: "live_keys ?d = live_keys d" "pending_deletes ?d = pending_deletes d"
    using keep by (simp_all add: keeps_objects_def live_keys_def)
  have "storage_ok ?d" by (rule exec_tree_ok [OF st(1)])
  moreover have "assets_ok ?d" using st(2) keep by (auto simp: assets_ok_def keeps_objects_def)
  moreover have "bytes_ok object_content is_object_key ?d s" using st(3) by (simp add: bytes_ok_def lk)
  moreover have "integrity sha ?d s" using st(4) keep by (simp add: integrity_def keeps_objects_def)
  moreover have "uploads_fresh ?d" using st(5) keep by (auto simp: uploads_fresh_def lk keeps_objects_def)
  ultimately show ?thesis by (simp add: system_ok_def store_ok_def)
qed

text \<open>A step that changes upload rows and staging files only.\<close>

lemma system_ok_same_live:
  assumes ok: "system_ok sha d s" and d': "d' = d\<lparr>db_uploads := db_uploads d'\<rparr>"
    and st: "storage_ok d'" and fresh: "uploads_fresh d'"
    and cont: "\<And>k. k \<in> live_keys d \<Longrightarrow> is_object_key k \<Longrightarrow> object_content s' k = object_content s k"
  shows "system_ok sha d' s'"
proof -
  have "live_keys d' = live_keys d" "pending_deletes d' = pending_deletes d"
    "db_objects d' = db_objects d" "db_thumbnails d' = db_thumbnails d" "db_previews d' = db_previews d"
    by (subst d', simp add: live_keys_def pending_deletes_def)+
  note same = this
  have valid: "is_object_key k" if "k \<in> live_keys d" for k
    using ok that by (auto simp: system_ok_def store_ok_def bytes_ok_def)
  have "bytes_ok object_content is_object_key d' s'"
    using ok by (auto simp: system_ok_def store_ok_def bytes_ok_def same cont)
  moreover have "integrity sha d' s'"
    using ok cont valid by (auto simp: system_ok_def integrity_def same live_keys_def tbl_keys_def)
  moreover have "assets_ok d'" using ok by (simp add: system_ok_def store_ok_def assets_ok_def same)
  ultimately show ?thesis using st fresh by (simp add: system_ok_def store_ok_def)
qed

lemma system_ok_uploads:
  assumes "system_ok sha d s" and "d' = d\<lparr>db_uploads := db_uploads d'\<rparr>"
    and "storage_ok d'" and "same_objects s s'" and "uploads_fresh d'"
  shows "system_ok sha d' s'"
  by (rule system_ok_same_live [OF assms(1,2,3,5)]) (use assms(4) in \<open>simp add: same_objects_def\<close>)

lemma uploads_fresh_save:
  assumes fresh: "uploads_fresh d" and dist: "distinct (map us_id (db_uploads d))"
    and save: "save_upload_session u d = Inr d'"
    and live: "us_status u \<in> {Created, Uploading} \<Longrightarrow>
      object_key (us_id u) \<notin> live_keys d \<union> pending_deletes d"
  shows "uploads_fresh d'"
proof -
  have d': "d' = d\<lparr>db_uploads := db_uploads d'\<rparr>" by (rule save_upload_session_D(2) [OF save dist])
  have same: "live_keys d' = live_keys d" "pending_deletes d' = pending_deletes d"
    by (subst d', simp add: live_keys_def pending_deletes_def)+
  have "db_uploads d' = tbl_update (\<lambda>r. us_id r = us_id u) (\<lambda>r. r\<lparr>us_uploaded_bytes := us_uploaded_bytes u,
      us_checksum := us_checksum u, us_status := us_status u, us_updated := us_updated u\<rparr>) (db_uploads d)"
    using save by (auto simp: save_upload_session_def Let_def split: if_splits)
  with fresh live show ?thesis
    by (auto simp: uploads_fresh_def same set_tbl_update split: if_splits)
qed

lemma start_same_objects:
  assumes run: "start_upload P policy c d s = (r, d', s')"
  shows "same_objects s s'"
proof (cases "start_checks P policy c d")
  case (Inr x)
  obtain q s1 where cr: "create_upload (p_now P) (p_ids P 0) s = (q, s1)" by fastforce
  have one: "same_objects s s1" using same_objects_create by (metis cr snd_conv)
  have "s' = s1 \<or> s' = snd (discard_upload (p_ids P 0) s1)"
    using run Inr cr by (auto simp: start_upload_def Let_def split: sum.splits prod.splits)
  with one same_objects_discard [of s1 "p_ids P 0"] show ?thesis by (auto intro: same_objects_trans)
qed (use run in \<open>simp add: start_upload_def\<close>)

lemma system_ok_start:
  assumes ok: "system_ok sha d s" and run: "start_upload P policy c d s = (r, d', s')"
    and new: "p_ids P 0 < 2 ^ 128" "object_key (p_ids P 0) \<notin> live_keys d \<union> pending_deletes d"
  shows "system_ok sha d' s'"
proof -
  have st: "storage_ok d" "uploads_fresh d" using ok by (auto simp: system_ok_def store_ok_def)
  have "d' = d \<or> (\<exists>u. insert_upload u d = Inr d' \<and> us_id u = p_ids P 0)"
    using run by (auto simp: start_upload_def new_upload_def Let_def split: sum.splits prod.splits)
  then have "d' = d\<lparr>db_uploads := db_uploads d'\<rparr> \<and> uploads_fresh d'"
    using st(2) new
    by (auto simp: insert_upload_def uploads_fresh_def live_keys_def pending_deletes_def split: if_splits)
  moreover have "same_objects s s'" by (rule start_same_objects [OF run])
  ultimately show ?thesis
    using start_upload_ok [OF st(1) run] system_ok_uploads [OF ok] by blast
qed

lemma append_same_objects:
  assumes run: "append_upload P S policy c d s = (r, d', s')"
  shows "same_objects s s'"
proof (cases "append_checks P c d")
  case (Inr u)
  obtain stream sz where bs: "bounded_stream (up_maximum_chunk_size policy)
    (us_expected_size u - us_uploaded_bytes u) (au_body c) = (stream, sz)" by fastforce
  obtain q s1 where app: "append_chunk (sv_write_buffer S) (sv_faults S) (p_now P) (us_id u)
    (nat (us_uploaded_bytes u)) stream s = (q, s1)" by fastforce
  have one: "same_objects s s1" using same_objects_append by (metis app snd_conv)
  have two: "same_objects s1 (snd (truncate_upload (p_now P) (us_id u) (nat (us_uploaded_bytes u)) s1))"
    by (rule same_objects_truncate)
  from run Inr bs app have
    "s' = s1 \<or> s' = snd (truncate_upload (p_now P) (us_id u) (nat (us_uploaded_bytes u)) s1)"
    by (auto simp: append_upload_def split: sum.splits prod.splits)
  with one two show ?thesis by (auto intro: same_objects_trans)
qed (use run in \<open>simp add: append_upload_def\<close>)

lemma system_ok_append:
  assumes ok: "system_ok sha d s" and run: "append_upload P S policy c d s = (r, d', s')"
  shows "system_ok sha d' s'"
proof -
  have st: "storage_ok d" "uploads_fresh d" using ok by (auto simp: system_ok_def store_ok_def)
  have dist: "distinct (map us_id (db_uploads d))"
    using storage_okD(11) [OF st(1)] by (simp add: uploads_ok_def)
  have "d' = d\<lparr>db_uploads := db_uploads d'\<rparr> \<and> uploads_fresh d'"
  proof (cases "d' = d")
    case False
    with run obtain u u' n where u: "append_checks P c d = Inr u"
      and prog: "record_progress u n (p_now P) = Inr u'" and save: "save_upload_session u' d = Inr d'"
      by (auto simp: append_upload_def record_chunk_def Let_def result_simps split: sum.splits prod.splits)
    have "us_id u' = us_id u" using prog by (auto simp: record_progress_def split: if_splits)
    then have "object_key (us_id u') \<notin> live_keys d \<union> pending_deletes d"
      using append_checks_D(3,6) [OF u] st(2) unfolding uploads_fresh_def by metis
    then show ?thesis
      using uploads_fresh_save [OF st(2) dist save] save_upload_session_D(2) [OF save dist] by blast
  qed (simp add: st)
  moreover have "same_objects s s'" by (rule append_same_objects [OF run])
  ultimately show ?thesis
    using append_upload_ok [OF st(1) run] system_ok_uploads [OF ok] by blast
qed

lemma cancel_same_objects:
  assumes run: "cancel_upload P c d s = (r, d', s')"
  shows "same_objects s s'"
  using run same_objects_discard [of s]
  by (auto simp: cancel_upload_def split: sum.splits prod.splits) (metis snd_conv)+

lemma system_ok_cancel:
  assumes ok: "system_ok sha d s" and run: "cancel_upload P c d s = (r, d', s')"
  shows "system_ok sha d' s'"
proof -
  have st: "storage_ok d" "uploads_fresh d" using ok by (auto simp: system_ok_def store_ok_def)
  have dist: "distinct (map us_id (db_uploads d))"
    using storage_okD(11) [OF st(1)] by (simp add: uploads_ok_def)
  have "d' = d\<lparr>db_uploads := db_uploads d'\<rparr> \<and> uploads_fresh d'"
  proof (cases "d' = d")
    case False
    with run obtain u where save: "save_upload_session u d = Inr d'" and "us_status u = Cancelled"
      by (auto simp: cancel_upload_def cancel_tx_def Let_def result_simps split: sum.splits prod.splits)
    then show ?thesis
      using uploads_fresh_save [OF st(2) dist save] save_upload_session_D(2) [OF save dist] by simp
  qed (simp add: st)
  moreover have "same_objects s s'" by (rule cancel_same_objects [OF run])
  ultimately show ?thesis
    using cancel_upload_ok [OF st(1) run] system_ok_uploads [OF ok] by blast
qed

text \<open>Completion adds one object, under a key no row and no deletion request names.\<close>

lemma record_completion_frame:
  assumes run: "record_completion P i stored d = Inr d'" and ok: "storage_ok d"
    and q: "active_folder_row (db_entries d) (us_owner (in_upload i)) (us_parent (in_upload i)) q"
  shows "db_objects d' = db_objects d @ [completed_object P i stored]"
    and "db_thumbnails d' = db_thumbnails d" "db_previews d' = db_previews d"
    and "db_outbox d' = db_outbox d"
    and "\<And>r. r \<in> set (db_uploads d') \<Longrightarrow> us_id r = us_id (in_upload i) \<and> us_status r = Completed
      \<or> r \<in> set (db_uploads d)"
    and "\<And>r. r \<in> set (db_uploads d') \<Longrightarrow> us_id r \<in> us_id ` set (db_uploads d)"
    and "db_entries d' = db_entries d @ [entry_model (completed_file P i stored)]"
    and "db_versions d' = db_versions d @ [completed_version P i stored]"
    and "db_meta d' = db_meta d @ [\<lparr>m_entry = p_ids P 0, m_data = completed_metadata i stored\<rparr>]"
proof -
  from run obtain d1 d2 u where ins: "insert_object (completed_object P i stored) d = Inr d1"
    and add: "add_file (completed_file P i stored) (completed_metadata i stored)
      (completed_version P i stored) d1 = Inr d2"
    and save: "save_upload_session u d2 = Inr d'"
    and u: "us_id u = us_id (in_upload i)" "us_status u = Completed"
    by (rule record_completion_D)
  have d1: "d1 = d\<lparr>db_objects := db_objects d @ [completed_object P i stored]\<rparr>"
    using ins by (auto simp: insert_object_def split: if_splits)
  have d2: "d2 = d1\<lparr>db_entries := db_entries d1 @ [entry_model (completed_file P i stored)],
      db_meta := db_meta d1 @ [\<lparr>m_entry = p_ids P 0, m_data = completed_metadata i stored\<rparr>],
      db_versions := db_versions d1 @ [completed_version P i stored]\<rparr>"
    using add by (auto simp: add_file_def add_entry_row_def insert_meta_def insert_version_def
        completed_file_def result_simps split: if_splits)
  let ?f = "\<lambda>r. r\<lparr>us_uploaded_bytes := us_uploaded_bytes u,
      us_checksum := us_checksum u, us_status := us_status u, us_updated := us_updated u\<rparr>"
  have d': "d' = d2\<lparr>db_uploads := tbl_update (\<lambda>r. us_id r = us_id u) ?f (db_uploads d2)\<rparr>"
    using save by (auto simp: save_upload_session_def Let_def split: if_splits)
  show "db_objects d' = db_objects d @ [completed_object P i stored]"
    "db_thumbnails d' = db_thumbnails d" "db_previews d' = db_previews d" "db_outbox d' = db_outbox d"
    "db_entries d' = db_entries d @ [entry_model (completed_file P i stored)]"
    "db_versions d' = db_versions d @ [completed_version P i stored]"
    "db_meta d' = db_meta d @ [\<lparr>m_entry = p_ids P 0, m_data = completed_metadata i stored\<rparr>]"
    by (simp_all add: d' d2 d1)
  show "us_id r = us_id (in_upload i) \<and> us_status r = Completed \<or> r \<in> set (db_uploads d)"
    and "us_id r \<in> us_id ` set (db_uploads d)" if "r \<in> set (db_uploads d')" for r
    using that u by (auto simp: d' d2 d1 set_tbl_update rev_image_eqI split: if_splits)
qed

lemma record_completion_marks:
  assumes run: "record_completion P i stored d = Inr d'" and ok: "storage_ok d"
    and u: "in_upload i \<in> set (db_uploads d)"
  shows "\<exists>r \<in> set (db_uploads d'). us_id r = us_id (in_upload i) \<and> us_status r = Completed"
proof -
  from run obtain d1 d2 v where ins: "insert_object (completed_object P i stored) d = Inr d1"
    and add: "add_file (completed_file P i stored) (completed_metadata i stored)
      (completed_version P i stored) d1 = Inr d2"
    and save: "save_upload_session v d2 = Inr d'"
    and v: "us_id v = us_id (in_upload i)" "us_status v = Completed"
    by (rule record_completion_D)
  have "db_uploads d2 = db_uploads d"
    using ins add by (auto simp: insert_object_def add_file_def add_entry_row_def insert_meta_def
        insert_version_def result_simps split: if_splits)
  with u v have "in_upload i \<in> set (db_uploads d2)" "us_id (in_upload i) = us_id v" by simp_all
  then have "(in_upload i)\<lparr>us_uploaded_bytes := us_uploaded_bytes v, us_checksum := us_checksum v,
      us_status := us_status v, us_updated := us_updated v\<rparr> \<in> set (db_uploads d')"
    using save by (auto simp: save_upload_session_def Let_def set_tbl_update split: if_splits)
  then show ?thesis using v by (intro bexI) auto
qed

text \<open>What publishing one more object does to each part of the invariant.\<close>

lemma publish_bytes_ok:
  assumes "bytes_ok object_content is_object_key d s" and "live_keys d1 = insert key (live_keys d)"
    and "pending_deletes d1 = pending_deletes d" and "is_object_key key" "key \<notin> pending_deletes d"
    and "object_content s1 key \<noteq> None"
    and other: "\<And>k. is_object_key k \<Longrightarrow> k \<noteq> key \<Longrightarrow> object_content s1 k = object_content s k"
  shows "bytes_ok object_content is_object_key d1 s1"
  unfolding bytes_ok_def assms(2,3)
proof (intro conjI ballI)
  fix k assume "k \<in> insert key (live_keys d)"
  then show k: "is_object_key k" using assms(1,4) by (auto simp: bytes_ok_def)
  assume "k \<in> insert key (live_keys d)"
  then show "object_content s1 k \<noteq> None"
    using assms(1,6) other [OF k] by (cases "k = key") (auto simp: bytes_ok_def)
next
  fix k assume "k \<in> pending_deletes d"
  then show "is_object_key k" "k \<notin> insert key (live_keys d)"
    using assms(1,5) by (auto simp: bytes_ok_def)
qed

lemma publish_integrity:
  assumes "integrity sha d s" and "bytes_ok object_content is_object_key d s"
    and "db_objects d1 = db_objects d @ [ob]" and "o_storage_key ob \<notin> live_keys d"
    and c: "object_content s1 (o_storage_key ob) = Some c" "o_size ob = int (length c)" "o_checksum ob = sha c"
    and other: "\<And>k. is_object_key k \<Longrightarrow> k \<noteq> o_storage_key ob \<Longrightarrow> object_content s1 k = object_content s k"
  shows "integrity sha d1 s1"
  unfolding integrity_def assms(3)
proof
  fix x assume "x \<in> set (db_objects d @ [ob])"
  then consider "x \<in> set (db_objects d)" | "x = ob" by auto
  then show "\<exists>c. object_content s1 (o_storage_key x) = Some c \<and> o_size x = int (length c)
      \<and> o_checksum x = sha c"
  proof cases
    case 1
    then have "o_storage_key x \<in> live_keys d" by (auto simp: live_keys_def tbl_keys_def)
    then have "object_content s1 (o_storage_key x) = object_content s (o_storage_key x)"
      using assms(2,4) by (intro other) (auto simp: bytes_ok_def)
    with 1 assms(1) show ?thesis by (simp add: integrity_def)
  qed (use c in simp)
qed

lemma publish_uploads_fresh:
  assumes fresh: "uploads_fresh d" and "live_keys d1 = insert (object_key u) (live_keys d)"
    and "pending_deletes d1 = pending_deletes d" and u: "u < 2 ^ 128"
    and dist: "distinct (map us_id (db_uploads d1))"
    and rows: "\<And>v. v \<in> set (db_uploads d1) \<Longrightarrow> us_id v = u \<and> us_status v = Completed \<or> v \<in> set (db_uploads d)"
      "\<And>v. v \<in> set (db_uploads d1) \<Longrightarrow> us_id v \<in> us_id ` set (db_uploads d)"
    and mark: "\<exists>r \<in> set (db_uploads d1). us_id r = u \<and> us_status r = Completed"
  shows "uploads_fresh d1"
  unfolding uploads_fresh_def assms(2,3)
proof
  fix v assume v: "v \<in> set (db_uploads d1)"
  have vid: "us_id v < 2 ^ 128" using rows(2) [OF v] fresh by (auto simp: uploads_fresh_def)
  have "object_key (us_id v) \<notin> insert (object_key u) (live_keys d) \<union> pending_deletes d"
    if w: "us_status v \<in> {Created, Uploading}"
  proof -
    have vd: "v \<in> set (db_uploads d)" using rows(1) [OF v] w by auto
    obtain r where r: "r \<in> set (db_uploads d1)" "us_id r = u" "us_status r = Completed"
      using mark by blast
    have "us_id v \<noteq> u"
      using distinct_key_inject [OF dist v r(1)] r w by auto
    then have "object_key (us_id v) \<noteq> object_key u" by (simp add: object_key_inject [OF vid u])
    moreover have "object_key (us_id v) \<notin> live_keys d \<union> pending_deletes d"
      using fresh vd w unfolding uploads_fresh_def by blast
    ultimately show ?thesis by simp
  qed
  with vid show "us_id v < 2 ^ 128 \<and> (us_status v \<in> {Created, Uploading} \<longrightarrow>
      object_key (us_id v) \<notin> insert (object_key u) (live_keys d) \<union> pending_deletes d)" by blast
qed

text \<open>What is known when a staged file is about to be published.\<close>

lemma completing:
  assumes ok: "system_ok sha d s" and block: "0 < sv_block_size S"
    and chk: "complete_checks P S policy c d s = Inr i"
  shows "in_upload i \<in> set (db_uploads d)" and "us_id (in_upload i) < 2 ^ 128"
    and "object_key (us_id (in_upload i)) \<notin> live_keys d"
    and "object_key (us_id (in_upload i)) \<notin> pending_deletes d"
    and "is_object_key (object_key (us_id (in_upload i)))"
    and "\<exists>content. fs_file s (staging_path (us_id (in_upload i))) = Some content
      \<and> in_checksum i = sv_sha256 S content \<and> in_size i = int (length content)"
proof -
  have fresh: "uploads_fresh d" using ok by (simp add: system_ok_def)
  note D = complete_checks_D [OF chk]
  show u: "in_upload i \<in> set (db_uploads d)"
    using D(1) by (auto simp: get_upload_session_def dest: tbl_find_in)
  show id: "us_id (in_upload i) < 2 ^ 128" using fresh u by (simp add: uploads_fresh_def)
  show "object_key (us_id (in_upload i)) \<notin> live_keys d"
    "object_key (us_id (in_upload i)) \<notin> pending_deletes d"
    using fresh u D(3) unfolding uploads_fresh_def by blast+
  show "is_object_key (object_key (us_id (in_upload i)))" using id by (auto simp: is_object_key_def)
  obtain blocks where bl: "stream_upload (sv_block_size S) (us_id (in_upload i)) s = Inr blocks"
    and sum: "in_checksum i = sv_sha256 S (concat blocks)" "in_size i = int (length (concat blocks))"
    using D(8) by blast
  from stream_upload_content [OF bl block] sum
  show "\<exists>content. fs_file s (staging_path (us_id (in_upload i))) = Some content
      \<and> in_checksum i = sv_sha256 S content \<and> in_size i = int (length content)" by blast
qed

lemma system_ok_published:
  assumes ok: "system_ok (sv_sha256 S) d s" and block: "0 < sv_block_size S"
    and chk: "complete_checks P S policy c d s = Inr i"
    and pub: "publish_upload (us_id (in_upload i)) (in_size i) s = (Inr stored, s1)"
    and rec: "record_completion P i stored d = Inr d1"
  shows "system_ok (sv_sha256 S) d1 s1"
proof -
  let ?u = "in_upload i"
  let ?key = "object_key (us_id ?u)"
  have st: "storage_ok d" "uploads_fresh d" "bytes_ok object_content is_object_key d s" "assets_ok d"
    "integrity (sv_sha256 S) d s"
    using ok by (auto simp: system_ok_def store_ok_def)
  note comp = completing [OF ok block chk]
  note u = comp(1) and id = comp(2) and new = comp(3,4) and valid = comp(5)
  obtain bytes where content: "fs_file s (staging_path (us_id ?u)) = Some bytes"
    and sum: "in_checksum i = sv_sha256 S bytes" "in_size i = int (length bytes)" using comp(6) by blast
  note P = publish_upload_success [OF pub content]
  note other = publish_upload_objects [OF pub content id]
  obtain fo where fo: "active_folder_row (db_entries d) (us_owner ?u) (us_parent ?u) fo"
    using complete_checks_D(6) [OF chk] by blast
  note F = record_completion_frame [OF rec st(1) fo]
  have lk: "live_keys d1 = insert ?key (live_keys d)"
    by (simp add: live_keys_def F(1) tbl_keys_def completed_object_def P(1))
  have pd: "pending_deletes d1 = pending_deletes d" by (simp add: pending_deletes_def F(4))
  have st1: "storage_ok d1" by (rule record_completion_ok [OF st(1) rec fo])
  have "bytes_ok object_content is_object_key d1 s1"
    by (rule publish_bytes_ok [OF st(3) lk pd valid new(2)]) (use P(4) other in auto)
  moreover have "integrity (sv_sha256 S) d1 s1"
    by (rule publish_integrity [OF st(5,3) F(1), where c = bytes])
      (use new(1) P(1,2,4) sum other in \<open>simp_all add: completed_object_def\<close>)
  moreover have "uploads_fresh d1"
    by (rule publish_uploads_fresh [OF st(2) lk pd id _ F(5,6) record_completion_marks [OF rec st(1) u]])
      (use storage_okD(11) [OF st1] in \<open>simp add: uploads_ok_def\<close>)
  moreover have "assets_ok d1" using st(4) by (auto simp: assets_ok_def F(1,2,3) tbl_keys_def)
  ultimately show ?thesis using st1 by (simp add: system_ok_def store_ok_def)
qed

lemma unpublished_content:
  assumes ok: "system_ok sha d s" and block: "0 < sv_block_size S"
    and chk: "complete_checks P S policy c d s = Inr i"
    and pub: "publish_upload (us_id (in_upload i)) (in_size i) s = (Inr stored, s1)"
    and k: "k \<in> live_keys d" "is_object_key k"
  shows "object_content s1 k = object_content s k"
    and "object_content (snd (delete_object (so_key stored) s1)) k = object_content s k"
proof -
  note comp = completing [OF ok block chk]
  obtain bytes where content: "fs_file s (staging_path (us_id (in_upload i))) = Some bytes"
    using comp(6) by blast
  have key: "so_key stored = object_key (us_id (in_upload i))"
    by (rule publish_upload_success(1) [OF pub content])
  have ne: "k \<noteq> object_key (us_id (in_upload i))" using k(1) comp(3) by auto
  show same: "object_content s1 k = object_content s k"
    by (rule publish_upload_objects [OF pub content comp(2) k(2) ne])
  show "object_content (snd (delete_object (so_key stored) s1)) k = object_content s k"
    using local_store.remove_other [OF comp(5) k(2)] ne by (simp add: key same)
qed

lemma system_ok_unpublished:
  assumes ok: "system_ok (sv_sha256 S) d s" and block: "0 < sv_block_size S"
    and chk: "complete_checks P S policy c d s = Inr i"
    and pub: "publish_upload (us_id (in_upload i)) (in_size i) s = (Inr stored, s1)"
  shows "system_ok (sv_sha256 S) d (snd (delete_object (so_key stored) s1))"
  by (rule system_ok_same_live [OF ok])
    (use ok unpublished_content(2) [OF ok block chk pub] in \<open>simp_all add: system_ok_def store_ok_def\<close>)

lemma system_ok_complete:
  assumes ok: "system_ok (sv_sha256 S) d s" and block: "0 < sv_block_size S"
    and run: "complete_upload P S policy c d s = (r, d', s')"
  shows "system_ok (sv_sha256 S) d' s'"
proof (cases "complete_checks P S policy c d s")
  case (Inl e)
  with run ok show ?thesis by (simp add: complete_upload_def)
next
  case chk: (Inr i)
  obtain q s1 where pub: "publish_upload (us_id (in_upload i)) (in_size i) s = (q, s1)" by fastforce
  show ?thesis
  proof (cases q)
    case (Inl e)
    with pub run chk have "d' = d" "s' = s1" by (simp_all add: complete_upload_def)
    with publish_upload_failure pub Inl show ?thesis
      by (intro system_ok_uploads [OF ok]) (use ok in \<open>auto simp: system_ok_def store_ok_def\<close>)
  next
    case (Inr stored)
    note pub' = pub [unfolded Inr]
    show ?thesis
    proof (cases "record_completion P i stored d")
      case (Inl e)
      then have "s' = snd (delete_object (so_key stored) s1)" "d' = d"
        using run chk pub' by (auto simp: complete_upload_def split: prod.splits sum.splits)
      with system_ok_unpublished [OF ok block chk pub'] show ?thesis by simp
    next
      case (Inr d1)
      with run chk pub' system_ok_published [OF ok block chk pub' Inr] show ?thesis
        by (simp add: complete_upload_def)
    qed
  qed
qed

text \<open>No use case of an upload changes the bytes of an existing object.\<close>

lemma complete_upload_content:
  assumes ok: "system_ok sha d s" and block: "0 < sv_block_size S"
    and run: "complete_upload P S policy c d s = (r, d', s')"
    and k: "k \<in> live_keys d"
  shows "object_content s' k = object_content s k"
proof (cases "complete_checks P S policy c d s")
  case (Inl e)
  with run show ?thesis by (simp add: complete_upload_def)
next
  case chk: (Inr i)
  have valid: "is_object_key k" using ok k by (simp add: system_ok_def store_ok_def bytes_ok_def)
  obtain q s1 where pub: "publish_upload (us_id (in_upload i)) (in_size i) s = (q, s1)" by fastforce
  show ?thesis
  proof (cases q)
    case (Inl e)
    with pub run chk have "s' = s1" by (simp add: complete_upload_def)
    with publish_upload_failure pub Inl valid show ?thesis by (simp add: same_objects_def)
  next
    case (Inr stored)
    with run chk pub have "s' = s1 \<or> s' = snd (delete_object (so_key stored) s1)"
      by (auto simp: complete_upload_def split: sum.splits prod.splits)
    with unpublished_content [OF ok block chk pub [unfolded Inr] k valid] show ?thesis by auto
  qed
qed

lemma system_ok_cleanup:
  assumes ok: "system_ok sha d s"
    and run: "process_storage_outbox delete_object P locked c d s = (r, n, d', s')"
  shows "system_ok sha d' s'" and "\<And>k. k \<in> live_keys d' \<Longrightarrow> object_content s' k = object_content s k"
    and "only_detaches d d'"
proof -
  have st: "store_ok object_content is_object_key d s" "integrity sha d s" "uploads_fresh d"
    using ok by (auto simp: system_ok_def)
  from local_store.outbox_cycle_keeps [OF st(1) run [unfolded process_storage_outbox_def]]
  have st': "store_ok object_content is_object_key d' s'" and det: "only_detaches d d'"
    and cont: "\<forall>k \<in> live_keys d'. object_content s' k = object_content s k" by auto
  have "integrity sha d' s'"
    using st(2) det cont by (auto simp: integrity_def only_detaches_def live_keys_def tbl_keys_def)
  moreover have "uploads_fresh d'"
    using st(3) det unfolding uploads_fresh_def only_detaches_def by auto
  ultimately show "system_ok sha d' s'" using st' by (simp add: system_ok_def)
  show "object_content s' k = object_content s k" if "k \<in> live_keys d'" for k using cont that by blast
  show "only_detaches d d'" by (rule det)
qed

lemma version_bytes:
  assumes "system_ok sha d s" and "v \<in> set (db_versions d)"
  shows "\<exists>ob \<in> set (db_objects d). o_id ob = v_object v
    \<and> (\<exists>c. object_content s (o_storage_key ob) = Some c \<and> o_size ob = int (length c)
         \<and> o_checksum ob = sha c)"
proof -
  have "versions_ok d" using assms(1) storage_okD(9) by (auto simp: system_ok_def store_ok_def)
  with assms(2) have "v_object v \<in> tbl_keys o_id (db_objects d)"
    by (simp add: versions_ok_def version_check_def)
  then obtain ob where "ob \<in> set (db_objects d)" "o_id ob = v_object v" by (auto simp: tbl_keys_def)
  with assms(1) show ?thesis by (auto simp: system_ok_def integrity_def)
qed

end
