(* ===== verification/Content_Description.thy ===== *)
theory Content_Description
  imports System_Invariant
begin

text \<open>
  The rows that describe a file agree with each other: the metadata of an entry with its
  current version, and a version with its storage object, in size and checksum. Together with
  the integrity of the objects this says what a reader of an entry can rely on.
\<close>

section \<open>The invariant\<close>

definition versions_described :: "db \<Rightarrow> bool" where
  "versions_described d \<longleftrightarrow>
     (\<forall>v \<in> set (db_versions d). \<forall>ob \<in> set (db_objects d). o_id ob = v_object v \<longrightarrow>
        o_size ob = v_size v \<and> o_checksum ob = v_checksum v)"

definition files_described :: "db \<Rightarrow> bool" where
  "files_described d \<longleftrightarrow>
     (\<forall>m \<in> set (db_meta d). \<forall>v \<in> set (db_versions d).
        v_file v = m_entry m \<and> v_number v = fm_version_number (m_data m) \<longrightarrow>
        v_size v = fm_size (m_data m) \<and> v_checksum v = fm_checksum (m_data m))"

definition described :: "db \<Rightarrow> bool" where
  "described d \<longleftrightarrow> versions_described d \<and> files_described d"

text \<open>Steps that only take rows away.\<close>

definition shrinks_files :: "db \<Rightarrow> db \<Rightarrow> bool" where
  "shrinks_files d d' \<longleftrightarrow> set (db_meta d') \<subseteq> set (db_meta d)
     \<and> set (db_versions d') \<subseteq> set (db_versions d) \<and> set (db_objects d') \<subseteq> set (db_objects d)"

named_theorems shrinks \<open>writes that add no metadata, version or object\<close>

lemma described_shrink: "described d \<Longrightarrow> shrinks_files d d' \<Longrightarrow> described d'"
  unfolding described_def versions_described_def files_described_def shrinks_files_def by blast

lemma shrinks_refl [shrinks]: "shrinks_files d d"
  by (simp add: shrinks_files_def)

lemma shrinks_trans: "shrinks_files a b \<Longrightarrow> shrinks_files b c \<Longrightarrow> shrinks_files a c"
  unfolding shrinks_files_def by blast

lemma shrinks_write_entries [shrinks]: "write_entries tbl d = Inr d' \<Longrightarrow> shrinks_files d d'"
  by (auto simp: result_simps shrinks_files_def)

lemma shrinks_add_folder [shrinks]: "add_folder e d = Inr d' \<Longrightarrow> shrinks_files d d'"
  by (auto simp: add_folder_def add_entry_row_def intro: shrinks)

lemma shrinks_save_entry [shrinks]: "save_entry e d = Inr d' \<Longrightarrow> shrinks_files d d'"
  by (auto simp: save_entry_def intro: shrinks split: if_splits)

lemma shrinks_insert_trash [shrinks]: "insert_trash t d = Inr d' \<Longrightarrow> shrinks_files d d'"
  by (auto simp: insert_trash_def shrinks_files_def split: if_splits)

lemma shrinks_subtree [shrinks]:
  "update_subtree_deletion x del upd d = Inr (n, d') \<Longrightarrow> shrinks_files d d'"
  by (auto simp: update_subtree_deletion_def Let_def result_simps shrinks_files_def split: option.splits)

lemma shrinks_remove_trash [shrinks]: "shrinks_files d (remove_trash_item i d)"
  by (simp add: remove_trash_item_def shrinks_files_def)

lemma shrinks_cascade [shrinks]: "shrinks_files d (cascade_entries gone d)"
  by (auto simp: cascade_entries_def Let_def shrinks_files_def set_tbl_delete)

lemma shrinks_restore_entry:
  assumes "restore_entry_tx P c d = Inr (x, d')"
  shows "shrinks_files d d'"
proof -
  from assms obtain e d1 i n d2 k where "save_entry e d = Inr d1"
    "update_subtree_deletion i None (Some (p_now P)) d1 = Inr (n, d2)" "d' = remove_trash_item k d2"
    by (auto simp: restore_entry_tx_def restore_subtree_def Let_def result_simps)
  with shrinks_trans [OF shrinks_trans [OF shrinks_save_entry [OF this(1)]
      shrinks_subtree [OF this(2)]] shrinks_remove_trash] show ?thesis by simp
qed

lemma shrinks_trash_entry:
  assumes "trash_entry_tx P c d = Inr (x, d')"
  shows "shrinks_files d d'"
proof (cases "d' = d")
  case False
  with assms obtain i n d1 t where "update_subtree_deletion i (Some (p_now P)) None d = Inr (n, d1)"
    "insert_trash t d1 = Inr d'"
    by (auto simp: trash_entry_tx_def soft_delete_subtree_def Let_def result_simps
        split: if_splits option.splits)
  from shrinks_trans [OF shrinks_subtree [OF this(1)] shrinks_insert_trash [OF this(2)]] show ?thesis .
qed (simp add: shrinks)

lemma shrinks_permanently_delete:
  assumes "storage_ok d" and "permanently_delete_tx P c d = Inr (n, d')"
  shows "shrinks_files d d'"
  using assms
proof (rule permanently_delete_db)
  fix x row
  assume "d' = (cascade_entries (descendants (db_entries d) x) d)\<lparr>db_outbox := db_outbox d @ [row]\<rparr>"
  with shrinks_cascade [of d "descendants (db_entries d) x"] show ?thesis
    by (simp add: shrinks_files_def)
qed

section \<open>Adding a file\<close>

lemma described_add_file:
  assumes d: "described d" and ok: "storage_ok d" and add: "add_file e fm v d = Inr d'"
    and agree: "v_size v = fm_size fm" "v_checksum v = fm_checksum fm"
    and obj: "\<And>ob. ob \<in> set (db_objects d) \<Longrightarrow> o_id ob = v_object v \<Longrightarrow>
      o_size ob = v_size v \<and> o_checksum ob = v_checksum v"
    and fid: "v_file v = e_id e"
  shows "described d'"
proof -
  note ent = add_file_entries [OF add]
  have new: "e_id e \<notin> tbl_keys m_entry (db_meta d)"
    using add by (auto simp: add_file_def add_entry_row_def insert_meta_def result_simps split: if_splits)
  have fk: "v_file w \<in> tbl_keys m_entry (db_meta d)" if "w \<in> set (db_versions d)" for w
    using storage_okD(9) [OF ok] that by (simp add: versions_ok_def version_check_def)
  have "versions_described d'"
    using d obj unfolding described_def versions_described_def ent(2,4) by auto
  moreover have "files_described d'"
    unfolding files_described_def
  proof (intro ballI impI)
    fix m w assume m: "m \<in> set (db_meta d')" and w: "w \<in> set (db_versions d')"
      and eq: "v_file w = m_entry m \<and> v_number w = fm_version_number (m_data m)"
    consider "m \<in> set (db_meta d)" "w \<in> set (db_versions d)"
      | "m \<in> set (db_meta d)" "w = v" | "m = \<lparr>m_entry = e_id e, m_data = fm\<rparr>" "w \<in> set (db_versions d)"
      | "m = \<lparr>m_entry = e_id e, m_data = fm\<rparr>" "w = v"
      using m w by (auto simp: ent)
    then show "v_size w = fm_size (m_data m) \<and> v_checksum w = fm_checksum (m_data m)"
    proof cases
      case 1
      with d eq show ?thesis by (simp add: described_def files_described_def)
    next
      case 2
      with eq fid new show ?thesis by (auto simp: tbl_keys_def)
    next
      case 3
      with eq fk [OF 3(2)] new show ?thesis by simp
    next
      case 4
      with agree show ?thesis by simp
    qed
  qed
  ultimately show ?thesis by (simp add: described_def)
qed

section \<open>Copies describe the same content\<close>

text \<open>\<open>v\<close> is the version that the metadata \<open>fm\<close> of file \<open>x\<close> points at.\<close>

definition current_of :: "db \<Rightarrow> uuid \<Rightarrow> file_metadata \<Rightarrow> file_version \<Rightarrow> bool" where
  "current_of d x fm v \<longleftrightarrow> \<lparr>m_entry = x, m_data = fm\<rparr> \<in> set (db_meta d) \<and> v \<in> set (db_versions d)
     \<and> v_file v = x \<and> v_number v = fm_version_number fm"

lemma described_current:
  assumes "described d" and "current_of d x fm v"
  shows "v_size v = fm_size fm" "v_checksum v = fm_checksum fm"
    and "ob \<in> set (db_objects d) \<Longrightarrow> o_id ob = v_object v \<Longrightarrow>
      o_size ob = fm_size fm \<and> o_checksum ob = fm_checksum fm"
  using assms unfolding described_def files_described_def versions_described_def current_of_def
  by fastforce+

lemma to_entry_meta:
  assumes "to_entry U d r = Inr e" and "e_kind e = File fm"
  shows "\<lparr>m_entry = e_id e, m_data = fm\<rparr> \<in> set (db_meta d)"
    and "tbl_find m_entry (e_id e) (db_meta d) = Some \<lparr>m_entry = e_id e, m_data = fm\<rparr>"
proof -
  from assms obtain m where m: "tbl_find m_entry (r_id r) (db_meta d) = Some m" "fm = m_data m" "e_id e = r_id r"
    by (auto simp: to_entry_def storage_entry_from_models_def result_simps
        split: entry_type.splits option.splits)
  have eq: "m = \<lparr>m_entry = e_id e, m_data = fm\<rparr>"
    using tbl_find_Some_D [OF m(1)] m(2,3) by (cases m) simp
  show "\<lparr>m_entry = e_id e, m_data = fm\<rparr> \<in> set (db_meta d)"
    using tbl_find_in [OF m(1)] unfolding eq .
  show "tbl_find m_entry (e_id e) (db_meta d) = Some \<lparr>m_entry = e_id e, m_data = fm\<rparr>"
    using m(1) unfolding m(3) [symmetric] eq .
qed

lemma get_entry_meta:
  assumes "get_entry U d i inc = Inr (Some e)" and "e_kind e = File fm"
  shows "tbl_find m_entry (e_id e) (db_meta d) = Some \<lparr>m_entry = e_id e, m_data = fm\<rparr>"
  using assms to_entry_meta(2) by (auto simp: get_entry_def result_simps split: option.splits)

lemma current_version_rows_current:
  assumes "v \<in> set (current_version_rows d)" and "tbl_find m_entry x (db_meta d) = Some \<lparr>m_entry = x, m_data = fm\<rparr>"
    and "v_file v = x"
  shows "current_of d x fm v"
  using assms tbl_find_in [OF assms(2)] by (auto simp: current_version_rows_def current_of_def)

lemma get_current_version_current:
  assumes "get_current_version U d x = Inr (Some v)"
    and "tbl_find m_entry x (db_meta d) = Some \<lparr>m_entry = x, m_data = fm\<rparr>"
  shows "current_of d x fm v"
proof -
  from assms(1) have "tbl_find v_file x (current_version_rows d) = Some v"
    by (auto simp: get_current_version_def to_version_def result_simps split: option.splits)
  from tbl_find_Some_D [OF this] current_version_rows_current [OF _ assms(2)] show ?thesis by blast
qed

lemma versions_dict_range:
  "versions_dict U vs m = Inr m' \<Longrightarrow> m' x = Some v \<Longrightarrow> m x = Some v \<or> v \<in> set vs \<and> v_file v = x"
  by (induction vs arbitrary: m) (fastforce simp: to_version_def result_simps split: if_splits)+

lemma get_current_versions_batch_range:
  assumes "get_current_versions_batch U d ids = Inr vs" and "vs x = Some v"
  shows "v \<in> set (current_version_rows d)" and "v_file v = x"
proof -
  from assms have "versions_dict U (filter (\<lambda>v. v_file v \<in> set ids) (current_version_rows d)) Map.empty = Inr vs"
    by (auto simp: get_current_versions_batch_def split: if_splits)
  from versions_dict_range [OF this assms(2)]
  show "v \<in> set (current_version_rows d)" "v_file v = x" by auto
qed

lemma current_of_grow:
  "current_of d x fm v \<Longrightarrow> set (db_meta d) \<subseteq> set (db_meta d') \<Longrightarrow>
     set (db_versions d) \<subseteq> set (db_versions d') \<Longrightarrow> current_of d' x fm v"
  by (auto simp: current_of_def)

lemma described_copy_file:
  assumes d: "described d" and ok: "storage_ok d" and cur: "current_of d x fm v"
    and run: "copy_file_from_version P n src fm v p name d = Inr (copied, d')"
  shows "described d'" and "set (db_meta d) \<subseteq> set (db_meta d')"
    and "set (db_versions d) \<subseteq> set (db_versions d')"
proof -
  from run obtain fm' v' where add: "add_file copied fm' v' d = Inr d'"
    and fm': "fm_size fm' = fm_size fm" "fm_checksum fm' = fm_checksum fm"
    and v': "v_size v' = fm_size fm" "v_checksum v' = fm_checksum fm" "v_object v' = v_object v"
      "v_file v' = e_id copied"
    by (auto simp: copy_file_from_version_def copied_metadata_def Let_def result_simps)
  note ent = add_file_entries [OF add]
  show "described d'"
    using described_current(3) [OF d cur]
    by (intro described_add_file [OF d ok add]) (simp_all add: fm' v')
  show "set (db_meta d) \<subseteq> set (db_meta d')" "set (db_versions d) \<subseteq> set (db_versions d')"
    using ent by auto
qed

lemma copy_folder_targets:
  assumes add: "add_folder (new_folder i owner p name now) d = Inr d1" and "owner = own"
    and old: "\<And>p. p \<in> ran fids \<Longrightarrow> \<exists>q. active_folder_row (db_entries d) own p q"
    and p': "p' \<in> ran (fids(x \<mapsto> e_id (new_folder i owner p name now)))"
  shows "\<exists>q. active_folder_row (db_entries d1) own p' q"
proof (cases "p' = i")
  case True
  have "active_folder_row (db_entries d1) own p' (entry_model (new_folder i owner p name now))"
    using True assms(2) by (simp add: active_folder_row_def add_folder_entries [OF add]) (simp add: new_folder_def)
  then show ?thesis ..
next
  case False
  with p' have "p' \<in> ran fids" by (auto simp: ran_def new_folder_def split: if_splits)
  with old show ?thesis by (metis active_folder_row_grow add_folder_entries [OF add] set_append sup_ge1)
qed

text \<open>Copying a tree needs both invariants in step: the metadata keys of the copies are new.\<close>

lemma described_copy_nodes:
  assumes "described d" and "storage_ok d"
    and "\<And>p. p \<in> ran fids \<Longrightarrow> \<exists>q. active_folder_row (db_entries d) own p q"
    and "\<And>c. c \<in> set nodes \<Longrightarrow> e_owner c = own"
    and "\<And>c fm v. c \<in> set nodes \<Longrightarrow> e_kind c = File fm \<Longrightarrow> vs (e_id c) = Some v \<Longrightarrow> current_of d (e_id c) fm v"
    and "copy_nodes P vs nodes n fids d = Inr d'"
  shows "described d'"
  using assms
proof (induction nodes arbitrary: n fids d)
  case (Cons child nodes)
  from Cons.prems(6) obtain p name where p: "Option.bind (e_parent child) fids = Some p"
    and name: "entry_name_create (p_unicode P) (e_name child) = Inr name"
    by (auto simp: result_simps split: option.splits)
  have own: "e_owner child = own" using Cons.prems(4) by simp
  from p have "p \<in> ran fids" by (auto simp: ran_def bind_eq_Some_conv)
  then obtain q where q: "active_folder_row (db_entries d) own p q" using Cons.prems(3) by blast
  show ?case
  proof (cases "e_kind child")
    case Folder
    let ?new = "new_folder (p_ids P n) (e_owner child) p name (p_now P)"
    let ?fids = "fids(e_id child \<mapsto> e_id ?new)"
    from Cons.prems(6) p name Folder obtain d1 where add: "add_folder ?new d = Inr d1"
      and rest: "copy_nodes P vs nodes (n + 1) ?fids d1 = Inr d'"
      by (auto simp: Let_def result_simps)
    have sh: "shrinks_files d d1" "db_meta d1 = db_meta d" "db_versions d1 = db_versions d"
      using add by (auto simp: add_folder_def add_entry_row_def result_simps shrinks_files_def)
    have ok1: "storage_ok d1"
      by (rule storage_ok_add_folder [OF Cons.prems(2) add]) (use q own in \<open>simp_all add: new_folder_def\<close>)
    have folders: "\<exists>q. active_folder_row (db_entries d1) own p' q" if "p' \<in> ran ?fids" for p'
      by (rule copy_folder_targets [OF add own Cons.prems(3)]) (assumption, rule that)
    have current: "current_of d1 (e_id c) fm v"
      if "c \<in> set nodes" "e_kind c = File fm" "vs (e_id c) = Some v" for c fm v
      using Cons.prems(5) [of c fm v] that sh(2,3) by (simp add: current_of_def)
    have owners: "e_owner c = own" if "c \<in> set nodes" for c
      using Cons.prems(4) that by simp
    show ?thesis
      by (rule Cons.IH [OF described_shrink [OF Cons.prems(1) sh(1)] ok1 folders owners current rest])
  next
    case (File fm)
    from Cons.prems(6) p name File obtain v copied d1 where vs: "vs (e_id child) = Some v"
      and cf: "copy_file_from_version P n child fm v p name d = Inr (copied, d1)"
      and rest: "copy_nodes P vs nodes (n + 2) fids d1 = Inr d'"
      by (auto simp: result_simps split: option.splits)
    have "active_folder_row (db_entries d) (e_owner child) p q" using q own by simp
    note one = copy_file_from_version_ok [OF Cons.prems(2) this cf]
    have "current_of d (e_id child) fm v" using Cons.prems(5) File vs by simp
    note two = described_copy_file [OF Cons.prems(1,2) this cf]
    have "\<exists>q. active_folder_row (db_entries d1) own p' q" if "p' \<in> ran fids" for p'
      using Cons.prems(3) [OF that] active_folder_row_grow one(2) by blast
    then show ?thesis
      by (rule Cons.IH [OF two(1) one(1) _ _ _ rest])
        (use Cons.prems(4,5) current_of_grow [OF _ two(2,3)] in \<open>auto\<close>)
  qed
qed simp

lemma stream_subtree_meta:
  assumes "stream_subtree U d root = Inr es" and "e \<in> set es" and "e_kind e = File fm"
  shows "tbl_find m_entry (e_id e) (db_meta d) = Some \<lparr>m_entry = e_id e, m_data = fm\<rparr>"
proof -
  have "\<exists>r. to_entry U d r = Inr e" if "to_entries U d rs = Inr es" "e \<in> set es" for rs es
    using that by (induction rs arbitrary: es) (auto simp: result_simps)
  with assms(1,2) obtain r where "to_entry U d r = Inr e"
    by (auto simp: stream_subtree_def split: option.splits)
  with to_entry_meta(2) assms(3) show ?thesis by blast
qed

lemma described_copy_entry:
  assumes d: "described d" and ok: "storage_ok d" and run: "copy_entry_tx P c d = Inr (x, d')"
  shows "described d'"
proof -
  from run obtain src found dest name copied where
    get: "get_entry (p_unicode P) d (cp_entry c) False = Inr (Some src)" and owned: "e_owner src = cp_owner c"
    and f: "get_folder (p_unicode P) d (cp_destination c) False = Inr found"
      "require_folder found (cp_owner c) = Inr dest"
    and step: "(case e_kind src of
        File fm \<Rightarrow> copy_file P src fm (e_id dest) name d
      | Folder \<Rightarrow> copy_folder_tree P src (e_id dest) name d) = Inr (copied, d')"
    by (auto simp: copy_entry_tx_def result_simps)
  have q: "active_folder_row (db_entries d) (e_owner src) (e_id dest) (entry_model dest)"
    using required_folder_row [OF f] owned by simp
  show ?thesis
  proof (cases "e_kind src")
    case (File fm)
    with step obtain v where "get_current_version (p_unicode P) d (e_id src) = Inr (Some v)"
      and cf: "copy_file_from_version P 0 src fm v (e_id dest) name d = Inr (copied, d')"
      by (auto simp: copy_file_def result_simps)
    from described_copy_file(1) [OF d ok get_current_version_current [OF this(1) get_entry_meta [OF get File]] cf]
    show ?thesis .
  next
    case Folder
    let ?root = "new_folder (p_ids P 0) (e_owner src) (e_id dest) name (p_now P)"
    from step Folder obtain d1 streamed vs where add: "add_folder ?root d = Inr d1"
      and str: "stream_subtree (p_unicode P) d1 (e_id src) = Inr streamed"
      and vs: "get_current_versions_batch (p_unicode P) d1
        (map e_id (filter is_file (filter (\<lambda>e. e_id e \<noteq> e_id src) streamed))) = Inr vs"
      and nodes: "copy_nodes P vs (filter (\<lambda>e. e_id e \<noteq> e_id src) streamed) 1
        [e_id src \<mapsto> e_id ?root] d1 = Inr d'"
      by (auto simp: copy_folder_tree_def Let_def result_simps)
    have ok1: "storage_ok d1"
      by (rule storage_ok_add_folder [OF ok add]) (use q in \<open>simp_all add: new_folder_def\<close>)
    note ent = add_folder_entries [OF add]
    have src: "entry_model src \<in> set (db_entries d1)" using get_entry_SomeD(1) [OF get] by (simp add: ent)
    have folders: "\<exists>q. active_folder_row (db_entries d1) (e_owner src) p q"
      if "p \<in> ran [e_id src \<mapsto> e_id ?root]" for p
      using copy_folder_targets [OF add refl, of Map.empty p] that by simp
    have owners: "e_owner e = e_owner src" if "e \<in> set (filter (\<lambda>e. e_id e \<noteq> e_id src) streamed)" for e
      using stream_subtree_models [OF str] that src
        descendants_same_owner [OF storage_okD(2) [OF ok1], of "entry_model e" "entry_model src"] by simp
    have cur: "current_of d1 (e_id e) fm v"
      if "e \<in> set (filter (\<lambda>e. e_id e \<noteq> e_id src) streamed)" "e_kind e = File fm" "vs (e_id e) = Some v" for e fm v
    proof -
      note batch = get_current_versions_batch_range [OF vs that(3)]
      with current_version_rows_current stream_subtree_meta [OF str _ that(2)] that(1) show ?thesis
        by (simp add: batch)
    qed
    show ?thesis
      by (rule described_copy_nodes [OF described_shrink [OF d shrinks_add_folder [OF add]] ok1 folders owners cur nodes])
  qed
qed

section \<open>Every step keeps it\<close>

lemma described_run_tx:
  "described d \<Longrightarrow> (\<And>x d'. t d = Inr (x, d') \<Longrightarrow> described d') \<Longrightarrow> described (snd (run_tx t d))"
  by (rule run_tx_invariant)

lemma exec_tree_described:
  assumes d: "described d" and ok: "storage_ok d"
  shows "described (exec_tree P c d)"
proof (cases c)
  case (CreateFolder x)
  show ?thesis unfolding CreateFolder exec_tree.simps create_folder_def
    by (intro described_run_tx d described_shrink [OF d])
      (auto simp: create_folder_tx_def Let_def result_simps intro: shrinks)
next
  case (Rename x)
  show ?thesis unfolding Rename exec_tree.simps rename_entry_def
    by (intro described_run_tx d described_shrink [OF d])
      (auto simp: rename_entry_tx_def result_simps split: option.splits intro: shrinks)
next
  case (Move x)
  show ?thesis unfolding Move exec_tree.simps move_entry_def
    by (intro described_run_tx d described_shrink [OF d])
      (auto simp: move_entry_tx_def result_simps intro: shrinks)
next
  case (Copy x)
  show ?thesis unfolding Copy exec_tree.simps copy_entry_def
    by (intro described_run_tx d) (rule described_copy_entry [OF d ok])
next
  case (MoveToTrash x)
  show ?thesis unfolding MoveToTrash exec_tree.simps trash_entry_def
    by (intro described_run_tx d described_shrink [OF d]) (rule shrinks_trash_entry)
next
  case (Restore x)
  show ?thesis unfolding Restore exec_tree.simps restore_entry_def
    by (intro described_run_tx d described_shrink [OF d]) (rule shrinks_restore_entry)
next
  case (Purge x)
  show ?thesis unfolding Purge exec_tree.simps permanently_delete_def
    by (intro described_run_tx d described_shrink [OF d]) (rule shrinks_permanently_delete [OF ok])
qed

lemma only_detaches_described: "described d \<Longrightarrow> only_detaches d d' \<Longrightarrow> described d'"
  by (rule described_shrink) (auto simp: shrinks_files_def only_detaches_def)

lemma described_uploads: "described d \<Longrightarrow> d' = d\<lparr>db_uploads := db_uploads d'\<rparr> \<Longrightarrow> described d'"
proof -
  assume "described d" and eq: "d' = d\<lparr>db_uploads := db_uploads d'\<rparr>"
  have "shrinks_files d d'" by (subst eq) (simp add: shrinks_files_def)
  with \<open>described d\<close> show "described d'" by (rule described_shrink)
qed

lemma record_completion_described:
  assumes d: "described d" and ok: "storage_ok d" and rec: "record_completion P i stored d = Inr d'"
  shows "described d'"
proof -
  from rec obtain d1 d2 u where ins: "insert_object (completed_object P i stored) d = Inr d1"
    and add: "add_file (completed_file P i stored) (completed_metadata i stored)
      (completed_version P i stored) d1 = Inr d2"
    and save: "save_upload_session u d2 = Inr d'"
    by (rule record_completion_D)
  let ?ob = "completed_object P i stored"
  have d1: "d1 = d\<lparr>db_objects := db_objects d @ [?ob]\<rparr>" and new: "o_id ?ob \<notin> tbl_keys o_id (db_objects d)"
    using ins by (auto simp: insert_object_def split: if_splits)
  have fk: "v_object w \<in> tbl_keys o_id (db_objects d)" "v_file w \<in> tbl_keys m_entry (db_meta d)"
    if "w \<in> set (db_versions d)" for w
    using storage_okD(9) [OF ok] that by (simp_all add: versions_ok_def version_check_def)
  note ent = add_file_entries [OF add]
  have e: "e_id (completed_file P i stored) = p_ids P 0" "v_file (completed_version P i stored) = p_ids P 0"
    by (simp_all add: completed_file_def completed_version_def)
  have fresh: "p_ids P 0 \<notin> tbl_keys m_entry (db_meta d)"
    using add by (auto simp: add_file_def add_entry_row_def insert_meta_def result_simps d1 e split: if_splits)
  have "versions_described d2"
    unfolding versions_described_def ent(2,4)
  proof (intro ballI impI)
    fix v ob
    assume "v \<in> set (db_versions d1 @ [completed_version P i stored])" "ob \<in> set (db_objects d1)"
      and eq: "o_id ob = v_object v"
    then consider "v \<in> set (db_versions d)" "ob \<in> set (db_objects d)" | "v \<in> set (db_versions d)" "ob = ?ob"
      | "v = completed_version P i stored" "ob \<in> set (db_objects d)" | "v = completed_version P i stored" "ob = ?ob"
      by (auto simp: d1)
    then show "o_size ob = v_size v \<and> o_checksum ob = v_checksum v"
    proof cases
      case 1
      with d eq show ?thesis by (simp add: described_def versions_described_def)
    next
      case 2
      with fk(1) new eq show ?thesis by auto
    next
      case 3
      from 3(2) have "o_id ob \<in> tbl_keys o_id (db_objects d)" by (simp add: tbl_keys_def)
      with eq new 3(1) show ?thesis by (simp add: completed_version_def completed_object_def)
    next
      case 4
      then show ?thesis by (simp add: completed_version_def completed_object_def)
    qed
  qed
  moreover have "files_described d2"
    unfolding files_described_def ent(2,3) e
  proof (intro ballI impI)
    fix m w
    assume "m \<in> set (db_meta d1 @ [\<lparr>m_entry = p_ids P 0, m_data = completed_metadata i stored\<rparr>])"
      "w \<in> set (db_versions d1 @ [completed_version P i stored])"
      and eq: "v_file w = m_entry m \<and> v_number w = fm_version_number (m_data m)"
    then consider "m \<in> set (db_meta d)" "w \<in> set (db_versions d)"
      | "m \<in> set (db_meta d)" "w = completed_version P i stored"
      | "m = \<lparr>m_entry = p_ids P 0, m_data = completed_metadata i stored\<rparr>" "w \<in> set (db_versions d)"
      | "m = \<lparr>m_entry = p_ids P 0, m_data = completed_metadata i stored\<rparr>" "w = completed_version P i stored"
      by (auto simp: d1)
    then show "v_size w = fm_size (m_data m) \<and> v_checksum w = fm_checksum (m_data m)"
    proof cases
      case 1
      with d eq show ?thesis by (simp add: described_def files_described_def)
    next
      case 2
      with eq e(2) fresh show ?thesis by (auto simp: tbl_keys_def)
    next
      case 3
      with eq fk(2) [OF 3(2)] fresh show ?thesis by simp
    next
      case 4
      then show ?thesis by (simp add: completed_version_def completed_metadata_def)
    qed
  qed
  ultimately have "described d2" by (simp add: described_def)
  moreover have "shrinks_files d2 d'"
    using save by (auto simp: save_upload_session_def Let_def shrinks_files_def split: if_splits)
  ultimately show ?thesis by (rule described_shrink)
qed

end
