(* ===== verification/Auth_Repository.thy ===== *)
theory Auth_Repository
  imports Database
begin

text \<open>
  The authentication tables: \<open>app/infrastructure/persistence/repositories/auth.py\<close> (accounts,
  sessions, audit events, the rate limiter) with the constraints of
  \<open>.../models/auth.py\<close>, and the keyed digests of \<open>app/infrastructure/security/secrets.py\<close>.
\<close>

section \<open>Secrets\<close>

text \<open>
  HMAC-SHA-256 in hexadecimal is the function \<open>sc_hmac\<close>; text stands for its UTF-8 bytes.
\<close>

record secret_provider =
  sc_hmac :: "bytes \<Rightarrow> bytes \<Rightarrow> string"
  sc_key :: bytes

definition secret_digest :: "secret_provider \<Rightarrow> string \<Rightarrow> string" where
  "secret_digest K v = sc_hmac K (sc_key K) (''secret'' @ [CHR 0x00] @ v)"

definition secret_matches :: "secret_provider \<Rightarrow> string \<Rightarrow> string \<Rightarrow> bool" where
  "secret_matches K v expected_digest \<longleftrightarrow> secret_digest K v = expected_digest"

definition secret_fingerprint :: "secret_provider \<Rightarrow> string \<Rightarrow> string" where
  "secret_fingerprint K v = sc_hmac K (sc_key K) (''fingerprint'' @ [CHR 0x00] @ v)"

section \<open>Accounts\<close>

definition account_check :: "admin_account \<Rightarrow> bool" where
  "account_check a \<longleftrightarrow> uuid7_check (aa_id a) \<and> 0 \<le> aa_failed_attempts a
     \<and> aa_failed_attempts a < 2 ^ 31 \<and> length (aa_username a) \<le> 100
     \<and> length (aa_normalized a) \<le> 100"

text \<open>The unique \<open>singleton_key\<close> admits one row, soft-deleted ones included.\<close>

definition accounts_ok :: "admin_account list \<Rightarrow> bool" where
  "accounts_ok tbl \<longleftrightarrow> length tbl \<le> 1 \<and> (\<forall>a \<in> set tbl. account_check a)"

definition write_accounts :: "admin_account list \<Rightarrow> db \<Rightarrow> db result" where
  "write_accounts tbl d =
     (if accounts_ok tbl then Inr (d\<lparr>db_accounts := tbl\<rparr>) else Inl PersistenceFailure)"

definition get_single :: "db \<Rightarrow> admin_account option" where
  "get_single d = find (\<lambda>a. aa_deleted a = None) (db_accounts d)"

definition get_by_normalized_username :: "db \<Rightarrow> string \<Rightarrow> admin_account option" where
  "get_by_normalized_username d normalized =
     find (\<lambda>a. aa_normalized a = normalized \<and> aa_deleted a = None) (db_accounts d)"

definition add_account :: "admin_account \<Rightarrow> db \<Rightarrow> db result" where
  "add_account a d = write_accounts (db_accounts d @ [a]) d"

definition save_account :: "admin_account \<Rightarrow> db \<Rightarrow> db result" where
  "save_account a d =
     (if tbl_count (\<lambda>r. aa_id r = aa_id a) (db_accounts d) \<noteq> 1 then Inl PersistenceFailure
      else write_accounts
        (tbl_update (\<lambda>r. aa_id r = aa_id a) (\<lambda>r. a\<lparr>aa_created := aa_created r\<rparr>) (db_accounts d)) d)"

section \<open>Sessions\<close>

definition session_check :: "db \<Rightarrow> auth_session \<Rightarrow> bool" where
  "session_check d s \<longleftrightarrow> uuid7_check (as_id s) \<and> uuid7_check (as_family s)
     \<and> uuid7_check (as_refresh_jti s) \<and> as_admin s \<in> account_ids d
     \<and> length (as_refresh_hash s) \<le> 64 \<and> length (as_csrf_hash s) \<le> 64
     \<and> length (as_ip_hash s) \<le> 64 \<and> length (as_user_agent_hash s) \<le> 64"

definition write_sessions :: "auth_session list \<Rightarrow> db \<Rightarrow> db result" where
  "write_sessions tbl d =
     (if distinct (map as_id tbl) \<and> distinct (map as_refresh_jti tbl)
         \<and> (\<forall>s \<in> set tbl. session_check d s)
      then Inr (d\<lparr>db_sessions := tbl\<rparr>) else Inl PersistenceFailure)"

definition get_session :: "db \<Rightarrow> uuid \<Rightarrow> auth_session option" where
  "get_session d session_id =
     find (\<lambda>s. as_id s = session_id \<and> as_deleted s = None) (db_sessions d)"

definition add_session :: "auth_session \<Rightarrow> db \<Rightarrow> db result" where
  "add_session s d = write_sessions (db_sessions d @ [s]) d"

definition save_session :: "auth_session \<Rightarrow> db \<Rightarrow> db result" where
  "save_session s d =
     (if tbl_count (\<lambda>r. as_id r = as_id s) (db_sessions d) \<noteq> 1 then Inl PersistenceFailure
      else write_sessions
        (tbl_update (\<lambda>r. as_id r = as_id s)
          (\<lambda>r. s\<lparr>as_admin := as_admin r, as_family := as_family r, as_created := as_created r\<rparr>)
          (db_sessions d)) d)"

definition revoke_all_active ::
  "uuid \<Rightarrow> instant \<Rightarrow> revocation_reason \<Rightarrow> db \<Rightarrow> nat \<times> db" where
  "revoke_all_active admin_id now reason d =
     (let P = (\<lambda>s. as_admin s = admin_id \<and> as_revoked_at s = None \<and> as_deleted s = None)
      in (tbl_count P (db_sessions d),
          d\<lparr>db_sessions := tbl_update P
             (\<lambda>s. s\<lparr>as_revoked_at := Some now, as_revoke_reason := Some reason,
                     as_updated := now\<rparr>) (db_sessions d)\<rparr>))"

section \<open>Audit events\<close>

definition add_event :: "security_event \<Rightarrow> db \<Rightarrow> db result" where
  "add_event ev d =
     (if uuid7_check (se_id ev) \<and> se_id ev \<notin> tbl_keys se_id (db_events d)
         \<and> (case se_admin ev of None \<Rightarrow> True | Some a \<Rightarrow> a \<in> account_ids d)
         \<and> length (se_ip_hash ev) \<le> 64 \<and> length (se_user_agent_hash ev) \<le> 64
      then Inr (d\<lparr>db_events := db_events d @ [ev]\<rparr>) else Inl PersistenceFailure)"

section \<open>The rate limiter\<close>

record rate_decision =
  rd_allowed :: bool
  rd_retry_after :: int

definition second :: int where
  "second = 1000000"

definition allowed_now :: rate_decision where
  "allowed_now = \<lparr>rd_allowed = True, rd_retry_after = 0\<rparr>"

text \<open>\<open>math.ceil((t - now).total_seconds())\<close>, at least one second.\<close>

definition retry_after_seconds :: "instant \<Rightarrow> instant \<Rightarrow> int" where
  "retry_after_seconds locked_until now = max 1 (- ((now - locked_until) div second))"

text \<open>The bucket after the call and the decision; \<open>window\<close> and \<open>block\<close> are in seconds.\<close>

definition consume_locked ::
  "rate_limit_row option \<Rightarrow> uuid \<Rightarrow> string \<Rightarrow> string \<Rightarrow> instant \<Rightarrow> int \<Rightarrow> int \<Rightarrow> int \<Rightarrow>
     rate_limit_row \<times> rate_decision" where
  "consume_locked model new_id scope subject now limit window block =
     (case model of
        None \<Rightarrow>
          (\<lparr>rl_id = new_id, rl_scope = scope, rl_subject = subject, rl_window_started = now,
            rl_count = 1, rl_blocked_until = None, rl_updated = now\<rparr>, allowed_now)
      | Some m \<Rightarrow>
          (case (case rl_blocked_until m of Some b \<Rightarrow> if b > now then Some b else None
                 | None \<Rightarrow> None) of
             Some b \<Rightarrow> (m, \<lparr>rd_allowed = False, rd_retry_after = retry_after_seconds b now\<rparr>)
           | None \<Rightarrow>
               if rl_window_started m + window * second \<le> now
               then (m\<lparr>rl_window_started := now, rl_count := 1, rl_blocked_until := None,
                       rl_updated := now\<rparr>, allowed_now)
               else
                 (let m1 = m\<lparr>rl_count := rl_count m + 1, rl_updated := now\<rparr>
                  in if rl_count m1 > limit
                     then (m1\<lparr>rl_blocked_until := Some (now + block * second)\<rparr>,
                           \<lparr>rd_allowed = False, rd_retry_after = block\<rparr>)
                     else (m1, allowed_now))))"

text \<open>A transaction of its own, serialised per bucket.\<close>

definition rate_consume ::
  "secret_provider \<Rightarrow> uuid \<Rightarrow> string \<Rightarrow> string \<Rightarrow> instant \<Rightarrow> int \<Rightarrow> int \<Rightarrow> int \<Rightarrow> db \<Rightarrow>
     (rate_decision \<times> db) result" where
  "rate_consume K new_id scope subject now limit window block d =
     (let subject_hash = secret_fingerprint K subject;
          P = (\<lambda>r. rl_scope r = scope \<and> rl_subject r = subject_hash)
      in case find P (db_rate_limits d) of
           None \<Rightarrow>
             if uuid7_check new_id \<and> new_id \<notin> tbl_keys rl_id (db_rate_limits d)
                \<and> length scope \<le> 50 \<and> length subject_hash \<le> 64
             then (let (m, dec) = consume_locked None new_id scope subject_hash now limit window block
                   in Inr (dec, d\<lparr>db_rate_limits := db_rate_limits d @ [m]\<rparr>))
             else Inl PersistenceFailure
         | Some m0 \<Rightarrow>
             (let (m, dec) = consume_locked (Some m0) new_id scope subject_hash now limit window block
              in Inr (dec, d\<lparr>db_rate_limits := tbl_update P (\<lambda>_. m) (db_rate_limits d)\<rparr>)))"

definition enforce_rate_limit ::
  "secret_provider \<Rightarrow> uuid \<Rightarrow> string \<Rightarrow> string \<Rightarrow> instant \<Rightarrow> int \<Rightarrow> int \<Rightarrow> int \<Rightarrow> db \<Rightarrow>
     unit result \<times> db" where
  "enforce_rate_limit K new_id scope subject now limit window block d =
     (case rate_consume K new_id scope subject now limit window block d of
        Inl e \<Rightarrow> (Inl e, d)
      | Inr (dec, d') \<Rightarrow>
          (require (rd_allowed dec) (RateLimitExceeded (rd_retry_after dec)), d'))"

section \<open>Lemmas\<close>

lemma digest_not_fingerprint_input:
  "''secret'' @ [CHR 0x00] @ v \<noteq> ''fingerprint'' @ [CHR 0x00] @ w"
  by simp

lemma second_pos [simp]: "0 < second"
  by (simp add: second_def)

text \<open>Once the announced delay is over, the lock is over; earlier by a second it is not.\<close>

lemma retry_after_seconds_enough:
  "locked_until \<le> now + retry_after_seconds locked_until now * second"
proof -
  let ?q = "(now - locked_until) div second"
  have "now - locked_until = second * ?q + (now - locked_until) mod second" by simp
  moreover have "0 \<le> (now - locked_until) mod second" by simp
  moreover have "- ?q * second \<le> retry_after_seconds locked_until now * second"
    by (rule mult_right_mono) (simp_all add: retry_after_seconds_def second_def)
  then have "- (second * ?q) \<le> retry_after_seconds locked_until now * second"
    by (simp only: mult.commute mult_minus_left)
  ultimately show ?thesis by linarith
qed

text \<open>A run of requests to one bucket: the decisions in order.\<close>

fun consume_run ::
  "rate_limit_row option \<Rightarrow> uuid \<Rightarrow> string \<Rightarrow> string \<Rightarrow> int \<Rightarrow> int \<Rightarrow> int \<Rightarrow> instant list \<Rightarrow>
     rate_decision list" where
  "consume_run m i sc su limit window block [] = []"
| "consume_run m i sc su limit window block (t # ts) =
     (case consume_locked m i sc su t limit window block of
        (m', dec) \<Rightarrow> dec # consume_run (Some m') i sc su limit window block ts)"

lemma consume_within_window:
  assumes "rl_blocked_until m = None" and "t < rl_window_started m + window * second"
  shows "consume_locked (Some m) i sc su t limit window block =
    (if rl_count m + 1 > limit
     then (m\<lparr>rl_count := rl_count m + 1, rl_updated := t, rl_blocked_until := Some (t + block * second)\<rparr>,
           \<lparr>rd_allowed = False, rd_retry_after = block\<rparr>)
     else (m\<lparr>rl_count := rl_count m + 1, rl_updated := t\<rparr>, allowed_now))"
  using assms by (simp add: consume_locked_def Let_def)

lemma consume_while_blocked:
  assumes "rl_blocked_until m = Some b" and "t < b"
  shows "consume_locked (Some m) i sc su t limit window block =
    (m, \<lparr>rd_allowed = False, rd_retry_after = retry_after_seconds b t\<rparr>)"
  using assms by (simp add: consume_locked_def)

lemma consume_run_blocked:
  assumes "rl_blocked_until m = Some b" and "\<forall>t \<in> set ts. t < b"
  shows "\<forall>dec \<in> set (consume_run (Some m) i sc su limit window block ts). \<not> rd_allowed dec"
  using assms(2) by (induction ts) (auto simp: consume_while_blocked [OF assms(1)])

text \<open>Within one window and block, at most \<open>limit\<close> requests pass.\<close>

lemma consume_run_limit:
  assumes "rl_blocked_until m = None" and "rl_count m \<le> limit"
    and "\<forall>t \<in> set ts. rl_window_started m \<le> t \<and> t < rl_window_started m + window * second"
    and "window \<le> block"
  shows "int (length (filter rd_allowed (consume_run (Some m) i sc su limit window block ts)))
      \<le> limit - rl_count m"
  using assms
proof (induction ts arbitrary: m)
  case Nil
  then show ?case by simp
next
  case (Cons t ts)
  have t: "t < rl_window_started m + window * second" using Cons.prems(3) by simp
  note step = consume_within_window [OF Cons.prems(1) t, of i sc su limit block]
  show ?case
  proof (cases "rl_count m + 1 > limit")
    case True
    let ?m = "m\<lparr>rl_count := rl_count m + 1, rl_updated := t, rl_blocked_until := Some (t + block * second)\<rparr>"
    have "s < t + block * second" if "s \<in> set ts" for s
    proof -
      have "s < rl_window_started m + window * second" "rl_window_started m \<le> t"
        using Cons.prems(3) that by auto
      moreover have "window * second \<le> block * second"
        using Cons.prems(4) by (intro mult_right_mono) (simp_all add: order.strict_implies_order)
      ultimately show ?thesis by linarith
    qed
    then have "\<forall>dec \<in> set (consume_run (Some ?m) i sc su limit window block ts). \<not> rd_allowed dec"
      by (intro consume_run_blocked [of _ "t + block * second"]) auto
    then have "filter rd_allowed (consume_run (Some ?m) i sc su limit window block ts) = []"
      by (simp add: filter_empty_conv)
    with True step Cons.prems(2) show ?thesis by simp
  next
    case False
    let ?m = "m\<lparr>rl_count := rl_count m + 1, rl_updated := t\<rparr>"
    have "int (length (filter rd_allowed (consume_run (Some ?m) i sc su limit window block ts)))
        \<le> limit - rl_count ?m"
      using Cons.prems False by (intro Cons.IH) auto
    with False step show ?thesis by (simp add: allowed_now_def)
  qed
qed

lemma write_accounts_eq_Inr [result_simps]:
  "write_accounts tbl d = Inr d' \<longleftrightarrow> accounts_ok tbl \<and> d' = d\<lparr>db_accounts := tbl\<rparr>"
  by (auto simp: write_accounts_def)

lemma write_sessions_eq_Inr [result_simps]:
  "write_sessions tbl d = Inr d' \<longleftrightarrow> distinct (map as_id tbl) \<and> distinct (map as_refresh_jti tbl)
     \<and> (\<forall>s \<in> set tbl. session_check d s) \<and> d' = d\<lparr>db_sessions := tbl\<rparr>"
  by (auto simp: write_sessions_def)

lemma add_event_eq_Inr: "add_event ev d = Inr d' \<Longrightarrow> d' = d\<lparr>db_events := db_events d @ [ev]\<rparr>"
  by (auto simp: add_event_def split: if_splits)

end
