(* ===== verification/Header_Text.thy ===== *)
theory Header_Text
  imports Storage_Domain
begin

text \<open>
  Text primitives of the HTTP layer as Python has them: \<open>int(text)\<close>, \<open>str(number)\<close> and
  \<open>urllib.parse.quote\<close>. Header values are Latin-1 text, one character per byte.
\<close>

section \<open>Integers in header text\<close>

definition latin1_space :: "char \<Rightarrow> bool" where
  "latin1_space c \<longleftrightarrow> (let n = of_char c :: nat
     in 9 \<le> n \<and> n \<le> 13 \<or> 28 \<le> n \<and> n \<le> 32 \<or> n = 133 \<or> n = 160)"

definition digit_value :: "char \<Rightarrow> nat option" where
  "digit_value c = (let n = of_char c :: nat in if 48 \<le> n \<and> n \<le> 57 then Some (n - 48) else None)"

text \<open>Digits, with single underscores between them.\<close>

fun py_digits :: "nat \<Rightarrow> bool \<Rightarrow> string \<Rightarrow> nat option" where
  "py_digits acc after_digit [] = (if after_digit then Some acc else None)"
| "py_digits acc after_digit (c # cs) =
     (case digit_value c of
        Some v \<Rightarrow> py_digits (10 * acc + v) True cs
      | None \<Rightarrow> if c = CHR ''_'' \<and> after_digit then py_digits acc False cs else None)"

text \<open>The interpreter refuses conversions of more than 4300 digits.\<close>

definition py_int :: "string \<Rightarrow> int option" where
  "py_int text =
     (let t = py_strip latin1_space text;
          negative = py_startswith t ''-'';
          body = (if negative \<or> py_startswith t ''+'' then tl t else t)
      in if 4300 < length (filter (\<lambda>c. digit_value c \<noteq> None) body) then None
         else map_option (\<lambda>n. if negative then - int n else int n) (py_digits 0 False body))"

section \<open>Decimal text\<close>

fun dec :: "nat \<Rightarrow> string" where
  "dec n = (if n < 10 then [char_of (48 + n)] else dec (n div 10) @ [char_of (48 + n mod 10)])"

declare dec.simps [simp del]

definition py_str :: "int \<Rightarrow> string" where
  "py_str n = (if n < 0 then ''-'' @ dec (nat (- n)) else dec (nat n))"

definition crlf :: string where
  "crlf = [CHR 0x0D, CHR 0x0A]"

definition dquote :: string where
  "dquote = [CHR 0x22]"

section \<open>Percent encoding\<close>

definition char_code :: "char \<Rightarrow> nat" where
  "char_code c = of_char c"

definition unreserved :: "char \<Rightarrow> bool" where
  "unreserved c \<longleftrightarrow>
     (let n = char_code c
      in 48 \<le> n \<and> n \<le> 57 \<or> 65 \<le> n \<and> n \<le> 90 \<or> 97 \<le> n \<and> n \<le> 122
         \<or> c \<in> {CHR ''_'', CHR ''.'', CHR ''-'', CHR ''~''})"

definition hex_upper :: "nat \<Rightarrow> char" where
  "hex_upper n = (if n < 10 then char_of (48 + n) else char_of (55 + n))"

text \<open>\<open>urllib.parse.quote(text, safe="")\<close> on the UTF-8 bytes.\<close>

fun quote :: "string \<Rightarrow> string" where
  "quote [] = []"
| "quote (c # cs) =
     (if unreserved c then c # quote cs
      else CHR ''%'' # hex_upper (char_code c div 16) # hex_upper (char_code c mod 16) # quote cs)"

section \<open>Decimal text comes back\<close>

lemma digit_value_digit [simp]: "n < 10 \<Longrightarrow> digit_value (char_of (48 + n)) = Some n"
  by (simp add: digit_value_def Let_def)

lemma py_digits_dec: "py_digits acc b (dec n @ cs) = py_digits (acc * 10 ^ length (dec n) + n) True cs"
proof (induction n arbitrary: acc b cs rule: dec.induct)
  case (1 n)
  show ?case
  proof (cases "n < 10")
    case True
    then show ?thesis by (subst (1 2) dec.simps) (simp add: mult.commute)
  next
    case False
    have "py_digits acc b (dec n @ cs) = py_digits acc b (dec (n div 10) @ char_of (48 + n mod 10) # cs)"
      using False by (subst dec.simps) simp
    also have "\<dots> = py_digits (10 * (acc * 10 ^ length (dec (n div 10)) + n div 10) + n mod 10) True cs"
      using False by (simp add: 1)
    also have "10 * (acc * 10 ^ length (dec (n div 10)) + n div 10) + n mod 10 =
        acc * 10 ^ length (dec n) + n"
    proof -
      have "length (dec n) = Suc (length (dec (n div 10)))" using False by (subst dec.simps) simp
      moreover have "10 * (n div 10) + n mod 10 = n" by simp
      ultimately show ?thesis by (simp add: distrib_left)
    qed
    finally show ?thesis .
  qed
qed

lemma dec_not_Nil [simp]: "dec n \<noteq> []"
  by (subst dec.simps) simp

lemma dec_digits: "c \<in> set (dec n) \<Longrightarrow> 48 \<le> (of_char c :: nat) \<and> (of_char c :: nat) \<le> 57"
proof (induction n rule: dec.induct)
  case (1 n)
  then show ?case by (subst (asm) (2) dec.simps) (auto split: if_splits)
qed

lemma length_dec: "n < 10 ^ k \<Longrightarrow> 0 < k \<Longrightarrow> length (dec n) \<le> k"
proof (induction n arbitrary: k rule: dec.induct)
  case (1 n)
  show ?case
  proof (cases "n < 10")
    case True
    then show ?thesis using 1(3) by (subst dec.simps) simp
  next
    case False
    with 1(3) obtain j where k: "k = Suc j" by (cases k) auto
    with 1(2) False have "0 < j" by (cases j) auto
    note k = k this
    with 1(2) have "n div 10 < 10 ^ j" by (simp add: less_mult_imp_div_less mult.commute)
    with False 1(1) k have "length (dec (n div 10)) \<le> j" by blast
    with False k show ?thesis by (subst dec.simps) simp
  qed
qed

lemma dec_strip: "py_strip latin1_space (dec n) = dec n"
proof -
  have no: "\<not> latin1_space c" if "c \<in> set (dec n)" for c
    using dec_digits [OF that] by (auto simp: latin1_space_def Let_def)
  then have "dropWhile latin1_space (dec n) = dec n" by (cases "dec n") auto
  moreover have "dropWhile latin1_space (rev (dec n)) = rev (dec n)"
    using no by (cases "rev (dec n)") (auto dest: arg_cong [of _ _ set])
  ultimately show ?thesis by (simp add: py_strip_def)
qed

lemma py_int_dec:
  assumes "n < 10 ^ 4300"
  shows "py_int (dec n) = Some (int n)"
proof -
  have "length (filter (\<lambda>c. digit_value c \<noteq> None) (dec n)) \<le> 4300"
    using length_dec [OF assms] length_filter_le [of _ "dec n"] by (meson le_trans zero_less_numeral)
  moreover have "hd (dec n) \<notin> {CHR ''-'', CHR ''+''}"
    using dec_digits [of "hd (dec n)" n] by auto
  then have "\<not> py_startswith (dec n) ''-''" "\<not> py_startswith (dec n) ''+''"
    by (cases "dec n"; simp add: py_startswith_def)+
  ultimately show ?thesis
    using py_digits_dec [of 0 False n "[]"] by (simp add: py_int_def dec_strip Let_def)
qed

section \<open>Percent encoding comes back and is safe\<close>

definition hex_digit_of :: "char \<Rightarrow> nat" where
  "hex_digit_of c = (let n = char_code c in if n \<le> 57 then n - 48 else n - 55)"

fun unquote :: "string \<Rightarrow> string" where
  "unquote (c # h # l # cs) =
     (if c = CHR ''%'' then char_of (16 * hex_digit_of h + hex_digit_of l) # unquote cs
      else c # unquote (h # l # cs))"
| "unquote cs = cs"

lemma char_code_less: "char_code c < 256"
  using range_nat_of_char by (auto simp: char_code_def)

lemma hex_digit_of_upper [simp]: "n < 16 \<Longrightarrow> hex_digit_of (hex_upper n) = n"
  by (simp add: hex_digit_of_def hex_upper_def char_code_def Let_def)

lemma unquote_plain: "c \<noteq> CHR ''%'' \<Longrightarrow> unquote (c # cs) = c # unquote cs"
  by (cases cs rule: unquote.cases) auto

lemma unquote_quote: "unquote (quote s) = s"
proof (induction s)
  case (Cons c cs)
  have "unreserved c \<Longrightarrow> c \<noteq> CHR ''%''"
    by (auto simp: unreserved_def char_code_def Let_def)
  moreover have "16 * (char_code c div 16) + char_code c mod 16 = char_code c" by simp
  moreover have "char_of (char_code c) = c" by (simp add: char_code_def)
  ultimately show ?case
    using Cons char_code_less [of c] by (simp add: unquote_plain del: mult_div_mod_eq)
qed simp

lemma quote_safe:
  assumes "c \<in> set (quote s)"
  shows "33 \<le> char_code c \<and> char_code c < 127 \<and> c \<notin> {CHR 0x22, CHR '';'', CHR '','', CHR 0x27}"
proof -
  have un: "33 \<le> char_code c \<and> char_code c < 127 \<and> c \<notin> {CHR 0x22, CHR '';'', CHR '','', CHR 0x27}"
    if "unreserved c" for c
    using that by (auto simp: unreserved_def char_code_def Let_def)
  have hx: "unreserved (hex_upper n)" if "n < 16" for n
    using that by (simp add: hex_upper_def unreserved_def char_code_def Let_def)
  have "c \<in> set (quote s) \<Longrightarrow> unreserved c \<or> c = CHR ''%''"
  proof (induction s)
    case (Cons x xs)
    with hx [of "char_code x div 16"] hx [of "char_code x mod 16"] char_code_less [of x] show ?case
      by (auto split: if_splits)
  qed simp
  with assms un show ?thesis by (auto simp: char_code_def)
qed

section \<open>Lists of tokens\<close>

lemma strip_latin1:
  assumes "\<forall>c \<in> set s. \<not> latin1_space c"
  shows "py_strip latin1_space s = s"
  by (rule py_strip_fixed) (use assms in auto)

end
