(* ===== verification/Uuid_Text.thy ===== *)
theory Uuid_Text
  imports Header_Text
begin

text \<open>
  \<open>uuid.UUID(text)\<close>: the spellings of an identifier that Python accepts, and that the text the program
  writes is read back. Text is read by its code points.
\<close>

section \<open>Reading an identifier\<close>

definition code_points :: "string \<Rightarrow> nat list" where
  "code_points = map char_code"

definition hex_value :: "nat \<Rightarrow> nat option" where
  "hex_value c =
     (if 48 \<le> c \<and> c \<le> 57 then Some (c - 48)
      else if 97 \<le> c \<and> c \<le> 102 then Some (c - 87)
      else if 65 \<le> c \<and> c \<le> 70 then Some (c - 55)
      else None)"

text \<open>\<open>s.replace(pattern, "")\<close> for a non-empty pattern.\<close>

function py_remove :: "string \<Rightarrow> string \<Rightarrow> string" where
  "py_remove pat [] = []"
| "py_remove pat (c # s) =
     (if pat \<noteq> [] \<and> py_startswith (c # s) pat then py_remove pat (drop (length pat) (c # s))
      else c # py_remove pat s)"
  by pat_completeness auto

termination
  by (relation "measure (\<lambda>(pat, s). length s)") auto

text \<open>\<open>int(text, 16)\<close>: white space around it, a sign, \<open>0x\<close>, and single underscores between digits.\<close>

fun hex_number :: "nat \<Rightarrow> bool \<Rightarrow> nat list \<Rightarrow> nat option" where
  "hex_number acc after_digit [] = (if after_digit then Some acc else None)"
| "hex_number acc after_digit (c # cs) =
     (case hex_value c of
        Some v \<Rightarrow> hex_number (16 * acc + v) True cs
      | None \<Rightarrow> if c = 95 \<and> after_digit then hex_number acc False cs else None)"

definition py_int16 :: "string \<Rightarrow> int option" where
  "py_int16 text =
     (let t = py_strip latin1_space text;
          negative = py_startswith t ''-'';
          body = (if negative \<or> py_startswith t ''+'' then tl t else t);
          prefixed = py_startswith body ''0x'' \<or> py_startswith body ''0X''
      in map_option (\<lambda>n. if negative then - int n else int n)
           (hex_number 0 False (code_points (if prefixed then py_removeprefix (drop 2 body) ''_'' else body))))"

definition uuid_parse :: "string \<Rightarrow> uuid result" where
  "uuid_parse text =
     (let hex = filter (\<lambda>c. c \<noteq> CHR ''-'')
          (py_strip (\<lambda>c. c \<in> set ''{}'') (py_remove ''uuid:'' (py_remove ''urn:'' text)))
      in rbind (require (length hex = 32) PyValueError) (\<lambda>_.
         rbind (some_or PyValueError (py_int16 hex)) (\<lambda>n.
         rbind (require (0 \<le> n \<and> n < 2 ^ 128) PyValueError) (\<lambda>_. Inr (nat n)))))"

section \<open>Code points\<close>

lemma code_points_append [simp]: "code_points (s @ t) = code_points s @ code_points t"
  and code_points_Cons [simp]: "code_points (c # s) = char_code c # code_points s"
  and code_points_Nil [simp]: "code_points [] = []"
  by (simp_all add: code_points_def)

lemma hex_value_digit: "n < 16 \<Longrightarrow> hex_value (char_code (hex_digit n)) = Some n"
  by (auto simp: hex_value_def hex_digit_def char_code_def)

lemma char_code_inject: "char_code c = char_code e \<longleftrightarrow> c = e"
  by (simp add: char_code_def)

section \<open>Identifiers come back\<close>

lemma hex_number_hex_of:
  "0 < n \<Longrightarrow> hex_number acc b (code_points (hex_of n u) @ cs) = hex_number (acc * 16 ^ n + u mod 16 ^ n) True cs"
proof (induction n arbitrary: acc b u cs)
  case (Suc n)
  have split: "u mod 16 ^ Suc n = 16 * (u div 16 mod 16 ^ n) + u mod 16" by (simp add: mod_mult2_eq)
  show ?case
  proof (cases n)
    case 0
    then show ?thesis by (simp add: hex_value_digit mult.commute)
  next
    case (Suc m)
    then have "0 < n" by simp
    from Suc.IH [OF this, of acc b "u div 16" "char_code (hex_digit (u mod 16)) # cs"]
    show ?thesis unfolding split by (simp add: hex_value_digit algebra_simps)
  qed
qed simp

lemma py_remove_absent: "\<exists>c \<in> set pat. c \<notin> set s \<Longrightarrow> py_remove pat s = s"
proof (induction pat s rule: py_remove.induct)
  case (2 pat c s)
  have "\<not> py_startswith (c # s) pat"
    using "2.prems" unfolding py_startswith_def by (metis in_set_takeD)
  with 2 show ?case by auto
qed simp

lemma hex_of_digits: "c \<in> set (hex_of n u) \<Longrightarrow> c \<in> set hex_digits"
proof -
  have "hex_digit k \<in> set hex_digits" if "k < 16" for k
  proof -
    have "list_all (\<lambda>k. hex_digit k \<in> set hex_digits) [0..<16]" by code_simp
    then show ?thesis using that by (simp add: list_all_iff)
  qed
  then show "c \<in> set (hex_of n u) \<Longrightarrow> c \<in> set hex_digits" by (induction n arbitrary: u) auto
qed

lemma set_uuid_str: "c \<in> set (uuid_str u) \<Longrightarrow> c = CHR ''-'' \<or> c \<in> set hex_digits"
  by (auto simp: uuid_str_def uuid_hex_def Let_def hex_of_digits dest!: in_set_takeD in_set_dropD)

lemma py_int16_hex_of: "0 < n \<Longrightarrow> py_int16 (hex_of n u) = Some (int (u mod 16 ^ n))"
proof -
  assume n: "0 < n"
  let ?h = "hex_of n u"
  have plain: "\<not> latin1_space c \<and> c \<notin> {CHR ''-'', CHR ''+'', CHR ''x'', CHR ''X''}" if "c \<in> set ?h" for c
    using hex_of_digits [OF that] by (auto simp: hex_digits_def latin1_space_def)
  have ne: "?h \<noteq> []" using n by (metis length_hex_of length_0_conv less_irrefl)
  have "py_strip latin1_space ?h = ?h" by (rule py_strip_fixed) (use plain ne in simp)
  moreover have "\<not> py_startswith ?h p" if "\<exists>c \<in> set p. c \<in> {CHR ''-'', CHR ''+'', CHR ''x'', CHR ''X''}" for p
    using that plain unfolding py_startswith_def by (metis in_set_takeD)
  ultimately show ?thesis
    using hex_number_hex_of [OF n, of 0 False u "[]"] by (simp add: py_int16_def Let_def)
qed

theorem uuid_parse_str: "u < 2 ^ 128 \<Longrightarrow> uuid_parse (uuid_str u) = Inr u"
proof -
  assume u: "u < 2 ^ 128"
  let ?s = "uuid_str u"
  have plain: "c \<notin> {CHR '':'', CHR ''{'', CHR ''}''}" if "c \<in> set ?s" for c
    using set_uuid_str [OF that] by (auto simp: hex_digits_def)
  have "py_remove ''urn:'' ?s = ?s" "py_remove ''uuid:'' ?s = ?s"
    by (rule py_remove_absent; use plain in force)+
  moreover have "?s \<noteq> []" using length_uuid_str [of u] by force
  then have "py_strip (\<lambda>c. c \<in> set ''{}'') ?s = ?s" by (intro py_strip_fixed) (use plain in auto)
  moreover have "py_int16 (uuid_hex u) = Some (int u)"
    using py_int16_hex_of [of 32 u] u by (simp add: uuid_hex_def)
  ultimately show ?thesis using u by (simp add: uuid_parse_def Let_def uuid_hex_of_str [symmetric])
qed

end
