(* ===== verification/Tokens.thy ===== *)
theory Tokens
  imports Database Uuid_Text
begin

text \<open>
  \<open>PyJwtProvider\<close> (\<open>app/infrastructure/security/jwt_provider.py\<close>): the claims put into access
  and refresh tokens and the checks on the way back. The PyJWT library is the record
  \<open>jwt_library\<close>: signing, and verification with the checks of issuer, audience and required
  claims that the code asks of it.
\<close>

section \<open>Claims and the library\<close>

record jwt_library =
  jl_encode :: "json_object \<Rightarrow> string \<Rightarrow> string"
  jl_decode :: "string \<Rightarrow> string \<Rightarrow> string \<Rightarrow> string \<Rightarrow> string list \<Rightarrow> json_object option"

text \<open>\<open>jl_decode token secret audience issuer required\<close>.\<close>

record jwt_settings =
  jw_access_secret :: string
  jw_refresh_secret :: string
  jw_issuer :: string
  jw_audience :: string
  jw_access_ttl :: int

record issued_token =
  it_value :: string
  it_expires :: instant

record access_claims =
  ac_admin :: uuid
  ac_session :: uuid
  ac_jti :: uuid
  ac_issued :: instant
  ac_expires :: instant

record refresh_claims =
  rc_admin :: uuid
  rc_session :: uuid
  rc_family :: uuid
  rc_jti :: uuid
  rc_issued :: instant
  rc_expires :: instant

section \<open>Instants\<close>

definition microseconds :: int where
  "microseconds = 1000000"

text \<open>\<open>int(t.timestamp())\<close>, which truncates towards zero, and \<open>datetime.fromtimestamp\<close>.\<close>

definition to_seconds :: "instant \<Rightarrow> int" where
  "to_seconds t = (if t < 0 then - ((- t) div microseconds) else t div microseconds)"

definition token_instant :: "json_value \<Rightarrow> instant result" where
  "token_instant v = (case v of JInt n \<Rightarrow> Inr (n * microseconds) | _ \<Rightarrow> Inl PyValueError)"

section \<open>Issuing\<close>

definition token_payload ::
  "jwt_settings \<Rightarrow> string \<Rightarrow> uuid \<Rightarrow> uuid \<Rightarrow> uuid \<Rightarrow> instant \<Rightarrow> instant \<Rightarrow> uuid option \<Rightarrow>
     json_object" where
  "token_payload T token_type admin_id session_id jti now expires_at family_id =
     [(''iss'', JStr (jw_issuer T)), (''aud'', JStr (jw_audience T)),
      (''sub'', JStr (uuid_str admin_id)), (''sid'', JStr (uuid_str session_id)),
      (''jti'', JStr (uuid_str jti)), (''type'', JStr token_type),
      (''iat'', JInt (to_seconds now)), (''nbf'', JInt (to_seconds now)),
      (''exp'', JInt (to_seconds expires_at))]
     @ (case family_id of None \<Rightarrow> [] | Some f \<Rightarrow> [(''fid'', JStr (uuid_str f))])"

definition encode_token ::
  "jwt_library \<Rightarrow> jwt_settings \<Rightarrow> string \<Rightarrow> string \<Rightarrow> uuid \<Rightarrow> uuid \<Rightarrow> uuid \<Rightarrow> instant \<Rightarrow> instant \<Rightarrow>
     uuid option \<Rightarrow> string" where
  "encode_token L T secret token_type admin_id session_id jti now expires_at family_id =
     jl_encode L (token_payload T token_type admin_id session_id jti now expires_at family_id) secret"

definition issue_access ::
  "jwt_library \<Rightarrow> jwt_settings \<Rightarrow> uuid \<Rightarrow> uuid \<Rightarrow> uuid \<Rightarrow> instant \<Rightarrow> issued_token" where
  "issue_access L T admin_id session_id jti now =
     (let expires_at = now + jw_access_ttl T * microseconds
      in \<lparr>it_value = encode_token L T (jw_access_secret T) ''access'' admin_id session_id jti now
            expires_at None,
          it_expires = expires_at\<rparr>)"

definition issue_refresh ::
  "jwt_library \<Rightarrow> jwt_settings \<Rightarrow> uuid \<Rightarrow> uuid \<Rightarrow> uuid \<Rightarrow> uuid \<Rightarrow> instant \<Rightarrow> instant \<Rightarrow>
     issued_token" where
  "issue_refresh L T admin_id session_id family_id jti now expires_at =
     \<lparr>it_value = encode_token L T (jw_refresh_secret T) ''refresh'' admin_id session_id jti now
        expires_at (Some family_id),
      it_expires = expires_at\<rparr>"

section \<open>Validating\<close>

definition required_claims :: "string list" where
  "required_claims =
     [''iss'', ''aud'', ''sub'', ''sid'', ''jti'', ''type'', ''iat'', ''nbf'', ''exp'']"

text \<open>\<open>except (KeyError, TypeError, ValueError): raise AuthenticationError()\<close>\<close>

definition as_authentication :: "'a result \<Rightarrow> 'a result" where
  "as_authentication m = (case m of Inl _ \<Rightarrow> Inl AuthenticationFailed | Inr x \<Rightarrow> Inr x)"

definition claim_instant :: "json_object \<Rightarrow> string \<Rightarrow> instant result" where
  "claim_instant p k = rbind (some_or PyValueError (map_of p k)) token_instant"

definition claim_uuid :: "json_object \<Rightarrow> string \<Rightarrow> uuid result" where
  "claim_uuid p k =
     rbind (some_or PyValueError (map_of p k)) (\<lambda>v.
     (case v of JStr s \<Rightarrow> uuid_parse s | _ \<Rightarrow> Inl PyTypeError))"

definition leeway :: int where
  "leeway = 30 * microseconds"

definition decode_token ::
  "jwt_library \<Rightarrow> jwt_settings \<Rightarrow> string \<Rightarrow> string \<Rightarrow> string \<Rightarrow> instant \<Rightarrow> json_object result" where
  "decode_token L T token secret expected_type now =
     rbind (some_or AuthenticationFailed
       (jl_decode L token secret (jw_audience T) (jw_issuer T) required_claims)) (\<lambda>payload.
     rbind (require (map_of payload ''type'' = Some (JStr expected_type)) AuthenticationFailed) (\<lambda>_.
     rbind (as_authentication (claim_instant payload ''nbf'')) (\<lambda>not_before.
     rbind (require (\<not> not_before > now + leeway) AuthenticationFailed) (\<lambda>_.
     Inr payload))))"

definition validate_time :: "instant \<Rightarrow> instant \<Rightarrow> instant \<Rightarrow> unit result" where
  "validate_time issued_at expires_at now =
     require (\<not> (expires_at \<le> now \<or> issued_at > now + leeway)) AuthenticationFailed"

definition decode_access ::
  "jwt_library \<Rightarrow> jwt_settings \<Rightarrow> string \<Rightarrow> instant \<Rightarrow> access_claims result" where
  "decode_access L T token now =
     rbind (decode_token L T token (jw_access_secret T) ''access'' now) (\<lambda>p.
     rbind (as_authentication
       (rbind (claim_uuid p ''sub'') (\<lambda>sub.
        rbind (claim_uuid p ''sid'') (\<lambda>sid.
        rbind (claim_uuid p ''jti'') (\<lambda>jti.
        rbind (claim_instant p ''iat'') (\<lambda>iat.
        rbind (claim_instant p ''exp'') (\<lambda>exp.
        Inr \<lparr>ac_admin = sub, ac_session = sid, ac_jti = jti, ac_issued = iat,
             ac_expires = exp\<rparr>))))))) (\<lambda>c.
     rbind (validate_time (ac_issued c) (ac_expires c) now) (\<lambda>_. Inr c)))"

definition decode_refresh ::
  "jwt_library \<Rightarrow> jwt_settings \<Rightarrow> string \<Rightarrow> instant \<Rightarrow> refresh_claims result" where
  "decode_refresh L T token now =
     rbind (decode_token L T token (jw_refresh_secret T) ''refresh'' now) (\<lambda>p.
     rbind (as_authentication
       (rbind (claim_uuid p ''sub'') (\<lambda>sub.
        rbind (claim_uuid p ''sid'') (\<lambda>sid.
        rbind (claim_uuid p ''fid'') (\<lambda>fid.
        rbind (claim_uuid p ''jti'') (\<lambda>jti.
        rbind (claim_instant p ''iat'') (\<lambda>iat.
        rbind (claim_instant p ''exp'') (\<lambda>exp.
        Inr \<lparr>rc_admin = sub, rc_session = sid, rc_family = fid, rc_jti = jti,
             rc_issued = iat, rc_expires = exp\<rparr>)))))))) (\<lambda>c.
     rbind (validate_time (rc_issued c) (rc_expires c) now) (\<lambda>_. Inr c)))"

section \<open>Round trip\<close>

text \<open>
  The documented behaviour of the library: a token verifies under the secret it was signed
  with, when the claims have different names, issuer and audience agree and every required claim is present.
\<close>

definition jwt_verifies :: "jwt_library \<Rightarrow> bool" where
  "jwt_verifies L \<longleftrightarrow> (\<forall>p secret aud iss req. distinct (map fst p) \<longrightarrow>
     map_of p ''aud'' = Some (JStr aud) \<longrightarrow> map_of p ''iss'' = Some (JStr iss) \<longrightarrow>
     (\<forall>k \<in> set req. map_of p k \<noteq> None) \<longrightarrow>
     jl_decode L (jl_encode L p secret) secret aud iss req = Some p)"

lemma to_seconds_bounds:
  assumes "0 \<le> t"
  shows "to_seconds t * microseconds \<le> t" and "t < to_seconds t * microseconds + microseconds"
proof -
  have e: "to_seconds t = t div microseconds" using assms by (simp add: to_seconds_def)
  have "t div microseconds * microseconds + t mod microseconds = t" by (rule div_mult_mod_eq)
  moreover have "0 \<le> t mod microseconds" "t mod microseconds < microseconds"
    by (simp_all add: microseconds_def)
  ultimately show "to_seconds t * microseconds \<le> t" "t < to_seconds t * microseconds + microseconds"
    unfolding e by linarith+
qed

lemma token_payload_claims [simp]:
  "map_of (token_payload T ty admin sid jti t x fid) ''iss'' = Some (JStr (jw_issuer T))"
  "map_of (token_payload T ty admin sid jti t x fid) ''aud'' = Some (JStr (jw_audience T))"
  "map_of (token_payload T ty admin sid jti t x fid) ''sub'' = Some (JStr (uuid_str admin))"
  "map_of (token_payload T ty admin sid jti t x fid) ''sid'' = Some (JStr (uuid_str sid))"
  "map_of (token_payload T ty admin sid jti t x fid) ''jti'' = Some (JStr (uuid_str jti))"
  "map_of (token_payload T ty admin sid jti t x fid) ''type'' = Some (JStr ty)"
  "map_of (token_payload T ty admin sid jti t x fid) ''iat'' = Some (JInt (to_seconds t))"
  "map_of (token_payload T ty admin sid jti t x fid) ''nbf'' = Some (JInt (to_seconds t))"
  "map_of (token_payload T ty admin sid jti t x fid) ''exp'' = Some (JInt (to_seconds x))"
  "map_of (token_payload T ty admin sid jti t x fid) ''fid'' = map_option (\<lambda>f. JStr (uuid_str f)) fid"
  by (simp_all add: token_payload_def split: option.split)

lemma jwt_verifies_token:
  assumes "jwt_verifies L"
  shows "jl_decode L (encode_token L T secret ty admin sid jti t x fid) secret
    (jw_audience T) (jw_issuer T) required_claims = Some (token_payload T ty admin sid jti t x fid)"
proof -
  let ?p = "token_payload T ty admin sid jti t x fid"
  have claims: "\<forall>k \<in> set required_claims. map_of ?p k \<noteq> None"
    by (simp add: required_claims_def)
  have dist: "distinct (map fst ?p)" by (simp add: token_payload_def split: option.split)
  show ?thesis unfolding encode_token_def
    by (rule assms [unfolded jwt_verifies_def, rule_format, OF dist token_payload_claims(2) token_payload_claims(1)])
      (use claims in blast)
qed

lemma decode_token_own:
  assumes L: "jwt_verifies L" and now: "0 \<le> issued" "issued \<le> now"
  shows "decode_token L T (encode_token L T secret ty admin sid jti issued expires fid) secret ty now =
    Inr (token_payload T ty admin sid jti issued expires fid)"
proof -
  have "to_seconds issued * microseconds \<le> now + leeway"
    using to_seconds_bounds(1) [OF now(1)] now(2) by (simp add: leeway_def microseconds_def)
  then show ?thesis
    by (simp add: decode_token_def jwt_verifies_token [OF L] claim_instant_def token_instant_def
        as_authentication_def)
qed

text \<open>A token of one kind is refused as the other, even under equal secrets.\<close>

lemma decode_token_wrong_type:
  assumes L: "jwt_verifies L" and "ty \<noteq> ty'"
  shows "decode_token L T (encode_token L T secret ty admin sid jti issued expires fid) secret ty' now =
    Inl AuthenticationFailed"
  using assms by (simp add: decode_token_def jwt_verifies_token [OF L] result_simps)

end
