(* ===== verification/Auth_Use_Cases.thy ===== *)
theory Auth_Use_Cases
  imports Auth_Repository Tokens Storage_Repository
begin

text \<open>
  The authentication use cases (\<open>app/application/use_cases/auth\<close>): login with lockout and
  audit, refresh-token rotation with reuse detection, access authentication with CSRF,
  logout, revocation, password change, bootstrap. A use case that commits before it raises
  returns the error together with the changed database.
\<close>

section \<open>Services and policy\<close>

record password_hasher =
  ph_hash :: "string \<Rightarrow> string"
  ph_verify :: "string \<Rightarrow> string \<Rightarrow> bool"
  ph_needs_rehash :: "string \<Rightarrow> bool"

text \<open>
  \<open>Argon2idPasswordHasher.verify\<close>: every exception of the library counts as a mismatch, so
  \<open>ph_verify\<close> is the library's answer with exceptions read as false.
\<close>

definition verify_password :: "password_hasher \<Rightarrow> string \<Rightarrow> string \<Rightarrow> bool \<times> bool" where
  "verify_password H password_hash password =
     (let valid = ph_verify H password_hash password
      in (valid, valid \<and> ph_needs_rehash H password_hash))"

record auth_services =
  av_unicode :: unicode
  av_secrets :: secret_provider
  av_hasher :: password_hasher
  av_jwt :: jwt_library
  av_tokens :: jwt_settings
  av_csrf :: string
  av_now :: instant
  av_ids :: "nat \<Rightarrow> uuid"

text \<open>\<open>av_csrf\<close> is what \<open>secrets.token_urlsafe(32)\<close> yields in the call.\<close>

record auth_policy =
  ap_refresh_ttl :: int
  ap_maximum_failed :: int
  ap_account_lock :: int
  ap_login_limit :: int
  ap_login_window :: int
  ap_login_block :: int
  ap_refresh_limit :: int
  ap_refresh_window :: int
  ap_refresh_block :: int
  ap_minimum_password :: nat

definition normalize_username :: "unicode \<Rightarrow> string \<Rightarrow> string" where
  "normalize_username U username = u_casefold U (py_strip (u_is_space U) (u_nfkc U username))"

definition create_security_event ::
  "auth_services \<Rightarrow> uuid \<Rightarrow> security_event_type \<Rightarrow> string \<Rightarrow> string \<Rightarrow> uuid option \<Rightarrow>
     uuid option \<Rightarrow> event_details \<Rightarrow> security_event" where
  "create_security_event A new_id event_type client_ip user_agent admin_id session_id details =
     \<lparr>se_id = new_id, se_type = event_type, se_occurred = av_now A, se_admin = admin_id,
      se_session = session_id, se_ip_hash = secret_fingerprint (av_secrets A) client_ip,
      se_user_agent_hash = secret_fingerprint (av_secrets A) user_agent,
      se_details = details\<rparr>"

record authentication_result =
  ar_access :: issued_token
  ar_refresh :: issued_token
  ar_csrf :: string
  ar_session :: uuid

section \<open>Login\<close>

record login_cmd =
  lg_username :: string
  lg_password :: string
  lg_client_ip :: string
  lg_user_agent :: string

definition reason_details :: "string \<Rightarrow> int option \<Rightarrow> event_details" where
  "reason_details reason failed_attempts =
     \<lparr>ed_reason = Some reason, ed_failed_attempts = failed_attempts, ed_revoked_sessions = None\<rparr>"

definition record_login_failure ::
  "auth_services \<Rightarrow> login_cmd \<Rightarrow> uuid option \<Rightarrow> string \<Rightarrow> int option \<Rightarrow> db \<Rightarrow> db result" where
  "record_login_failure A c account_id reason failed_attempts d =
     add_event (create_security_event A (av_ids A 1) LoginFailed (lg_client_ip c)
       (lg_user_agent c) account_id None (reason_details reason failed_attempts)) d"

definition new_session :: "auth_services \<Rightarrow> auth_policy \<Rightarrow> login_cmd \<Rightarrow> uuid \<Rightarrow> auth_session" where
  "new_session A policy c account_id =
     (let now = av_now A; K = av_secrets A; expires_at = now + ap_refresh_ttl policy * second;
          refresh = issue_refresh (av_jwt A) (av_tokens A) account_id (av_ids A 1) (av_ids A 2)
            (av_ids A 3) now expires_at
      in \<lparr>as_id = av_ids A 1, as_admin = account_id, as_family = av_ids A 2,
          as_refresh_jti = av_ids A 3, as_refresh_hash = secret_digest K (it_value refresh),
          as_csrf_hash = secret_digest K (av_csrf A), as_expires = expires_at,
          as_last_rotated = now, as_revoked_at = None, as_revoke_reason = None,
          as_ip_hash = secret_fingerprint K (lg_client_ip c),
          as_user_agent_hash = secret_fingerprint K (lg_user_agent c), as_created = now,
          as_updated = now, as_deleted = None\<rparr>)"

definition create_session ::
  "auth_services \<Rightarrow> auth_policy \<Rightarrow> login_cmd \<Rightarrow> uuid \<Rightarrow> db \<Rightarrow>
     (authentication_result \<times> db) result" where
  "create_session A policy c account_id d =
     (let session = new_session A policy c account_id;
          refresh = issue_refresh (av_jwt A) (av_tokens A) account_id (as_id session)
            (as_family session) (as_refresh_jti session) (av_now A) (as_expires session);
          access = issue_access (av_jwt A) (av_tokens A) account_id (as_id session) (av_ids A 4)
            (av_now A)
      in rbind (add_session session d) (\<lambda>d1.
         rbind (add_event (create_security_event A (av_ids A 5) LoginSucceeded (lg_client_ip c)
           (lg_user_agent c) (Some account_id) (Some (as_id session)) no_details) d1) (\<lambda>d2.
         Inr (\<lparr>ar_access = access, ar_refresh = refresh, ar_csrf = av_csrf A,
               ar_session = as_id session\<rparr>, d2))))"

definition locked_error :: "admin_account \<Rightarrow> instant \<Rightarrow> error" where
  "locked_error a now =
     AccountTemporarilyLocked (case aa_locked_until a of
        None \<Rightarrow> 1 | Some t \<Rightarrow> retry_after_seconds t now)"

text \<open>The transaction: it commits on every branch, the pending error is raised afterwards.\<close>

definition login_tx ::
  "auth_services \<Rightarrow> auth_policy \<Rightarrow> login_cmd \<Rightarrow> db \<Rightarrow>
     (authentication_result result \<times> db) result" where
  "login_tx A policy c d =
     (let now = av_now A
      in case get_by_normalized_username d (normalize_username (av_unicode A) (lg_username c)) of
           None \<Rightarrow>
             rbind (record_login_failure A c None ''invalid_credentials'' None d) (\<lambda>d1.
             Inr (Inl AuthenticationFailed, d1))
         | Some account \<Rightarrow>
             if account_is_locked account now
             then rbind (record_login_failure A c (Some (aa_id account)) ''account_locked'' None d)
                    (\<lambda>d1. Inr (Inl (locked_error account now), d1))
             else if \<not> aa_enabled account
             then rbind (record_login_failure A c (Some (aa_id account)) ''account_disabled'' None d)
                    (\<lambda>d1. Inr (Inl AccountDisabled, d1))
             else
               (case verify_password (av_hasher A) (aa_password_hash account) (lg_password c) of
                  (valid, needs_rehash) \<Rightarrow>
                    if \<not> valid
                    then
                      (let failed = register_failed_login account now (ap_maximum_failed policy)
                             (ap_account_lock policy * second)
                       in rbind (save_account failed d) (\<lambda>d1.
                          rbind (record_login_failure A c (Some (aa_id account))
                            ''invalid_credentials'' (Some (aa_failed_attempts failed)) d1) (\<lambda>d2.
                          Inr (Inl (if account_is_locked failed now then locked_error failed now
                                    else AuthenticationFailed), d2))))
                    else
                      (let fresh = (if needs_rehash
                             then account\<lparr>aa_password_hash := ph_hash (av_hasher A) (lg_password c)\<rparr>
                             else account);
                           ok = register_successful_login fresh now
                       in rbind (save_account ok d) (\<lambda>d1.
                          rbind (create_session A policy c (aa_id account) d1) (\<lambda>(res, d2).
                          Inr (Inr res, d2))))))"

definition commit_then_raise :: "(db \<Rightarrow> ('a result \<times> db) result) \<Rightarrow> db \<Rightarrow> 'a result \<times> db" where
  "commit_then_raise t d =
     (case t d of Inl e \<Rightarrow> (Inl e, d) | Inr (r, d') \<Rightarrow> (r, d'))"

definition login ::
  "auth_services \<Rightarrow> auth_policy \<Rightarrow> login_cmd \<Rightarrow> db \<Rightarrow> authentication_result result \<times> db" where
  "login A policy c d =
     (case enforce_rate_limit (av_secrets A) (av_ids A 0) ''auth.login''
         (lg_client_ip c @ ''|'' @ normalize_username (av_unicode A) (lg_username c)) (av_now A)
         (ap_login_limit policy) (ap_login_window policy) (ap_login_block policy) d of
        (Inl e, d1) \<Rightarrow> (Inl e, d1)
      | (Inr _, d1) \<Rightarrow> commit_then_raise (login_tx A policy c) d1)"

section \<open>Refresh\<close>

record refresh_cmd =
  rf_token :: string
  rf_client_ip :: string
  rf_user_agent :: string
  rf_csrf_cookie :: "string option"
  rf_csrf_header :: "string option"
  rf_used_cookie :: bool

definition csrf_ok :: "secret_provider \<Rightarrow> string option \<Rightarrow> string option \<Rightarrow> string \<Rightarrow> bool" where
  "csrf_ok K cookie header expected_digest \<longleftrightarrow>
     (case (cookie, header) of
        (Some c, Some h) \<Rightarrow> secret_matches K c expected_digest \<and> secret_matches K h expected_digest
      | _ \<Rightarrow> False)"

definition active_session :: "db \<Rightarrow> uuid \<Rightarrow> instant \<Rightarrow> auth_session result" where
  "active_session d session_id now =
     (case get_session d session_id of
        None \<Rightarrow> Inl SessionRevoked
      | Some s \<Rightarrow> if session_is_active s now then Inr s else Inl SessionRevoked)"

definition enabled_account :: "db \<Rightarrow> uuid \<Rightarrow> admin_account result" where
  "enabled_account d admin_id =
     (case get_single d of
        None \<Rightarrow> Inl SessionRevoked
      | Some a \<Rightarrow>
          if aa_id a \<noteq> admin_id then Inl SessionRevoked
          else if \<not> aa_enabled a then Inl AccountDisabled else Inr a)"

definition refresh_token_current ::
  "secret_provider \<Rightarrow> refresh_claims \<Rightarrow> string \<Rightarrow> auth_session \<Rightarrow> bool" where
  "refresh_token_current K claims token s \<longleftrightarrow>
     rc_jti claims = as_refresh_jti s \<and> rc_family claims = as_family s
     \<and> secret_matches K token (as_refresh_hash s)"

definition refresh_tx ::
  "auth_services \<Rightarrow> refresh_cmd \<Rightarrow> refresh_claims \<Rightarrow> db \<Rightarrow>
     (authentication_result result \<times> db) result" where
  "refresh_tx A c claims d =
     (let now = av_now A; K = av_secrets A
      in rbind (active_session d (rc_session claims) now) (\<lambda>session.
         rbind (enabled_account d (rc_admin claims)) (\<lambda>account.
         rbind (require (rf_used_cookie c \<longrightarrow>
             csrf_ok K (rf_csrf_cookie c) (rf_csrf_header c) (as_csrf_hash session))
           CsrfValidation) (\<lambda>_.
         (if \<not> refresh_token_current K claims (rf_token c) session
          then rbind (save_session (session_revoke session now RevRefreshReuse) d) (\<lambda>d1.
               rbind (add_event (create_security_event A (av_ids A 1) RefreshReuseDetected
                 (rf_client_ip c) (rf_user_agent c) (Some (aa_id account)) (Some (as_id session))
                 no_details) d1) (\<lambda>d2.
               Inr (Inl SessionRevoked, d2)))
          else
            (let refresh = issue_refresh (av_jwt A) (av_tokens A) (aa_id account) (as_id session)
                   (as_family session) (av_ids A 1) now (as_expires session);
                 access = issue_access (av_jwt A) (av_tokens A) (aa_id account) (as_id session)
                   (av_ids A 2) now;
                 rotated = session_rotate session (av_ids A 1)
                   (secret_digest K (it_value refresh)) (secret_digest K (av_csrf A)) now
             in rbind (save_session rotated d) (\<lambda>d1.
                rbind (add_event (create_security_event A (av_ids A 3) RefreshRotated
                  (rf_client_ip c) (rf_user_agent c) (Some (aa_id account)) (Some (as_id session))
                  no_details) d1) (\<lambda>d2.
                Inr (Inr \<lparr>ar_access = access, ar_refresh = refresh, ar_csrf = av_csrf A,
                          ar_session = as_id session\<rparr>, d2)))))))))"

definition refresh_session ::
  "auth_services \<Rightarrow> auth_policy \<Rightarrow> refresh_cmd \<Rightarrow> db \<Rightarrow> authentication_result result \<times> db" where
  "refresh_session A policy c d =
     (case enforce_rate_limit (av_secrets A) (av_ids A 0) ''auth.refresh'' (rf_client_ip c)
         (av_now A) (ap_refresh_limit policy) (ap_refresh_window policy) (ap_refresh_block policy) d of
        (Inl e, d1) \<Rightarrow> (Inl e, d1)
      | (Inr _, d1) \<Rightarrow>
          (case decode_refresh (av_jwt A) (av_tokens A) (rf_token c) (av_now A) of
             Inl e \<Rightarrow> (Inl e, d1)
           | Inr claims \<Rightarrow> commit_then_raise (refresh_tx A c claims) d1))"

section \<open>Authenticating a request\<close>

record principal =
  pr_admin :: uuid
  pr_session :: uuid
  pr_username :: string
  pr_via_cookie :: bool

record access_request =
  aq_token :: string
  aq_via_cookie :: bool
  aq_require_csrf :: bool
  aq_csrf_cookie :: "string option"
  aq_csrf_header :: "string option"

definition authenticate_access :: "auth_services \<Rightarrow> access_request \<Rightarrow> db \<Rightarrow> principal result" where
  "authenticate_access A q d =
     (let now = av_now A
      in rbind (decode_access (av_jwt A) (av_tokens A) (aq_token q) now) (\<lambda>claims.
         rbind (active_session d (ac_session claims) now) (\<lambda>session.
         rbind (enabled_account d (ac_admin claims)) (\<lambda>account.
         rbind (require (\<not> (aq_via_cookie q \<and> aq_require_csrf q
             \<and> \<not> csrf_ok (av_secrets A) (aq_csrf_cookie q) (aq_csrf_header q) (as_csrf_hash session)))
           CsrfValidation) (\<lambda>_.
         Inr \<lparr>pr_admin = aa_id account, pr_session = as_id session,
              pr_username = aa_username account, pr_via_cookie = aq_via_cookie q\<rparr>)))))"

section \<open>Logout and revocation\<close>

definition logout_tx ::
  "auth_services \<Rightarrow> principal \<Rightarrow> string \<Rightarrow> string \<Rightarrow> db \<Rightarrow> (unit \<times> db) result" where
  "logout_tx A p client_ip user_agent d =
     rbind (case get_session d (pr_session p) of
              None \<Rightarrow> Inr d
            | Some s \<Rightarrow> save_session (session_revoke s (av_now A) RevLogout) d) (\<lambda>d1.
     rbind (add_event (create_security_event A (av_ids A 0) LoggedOut client_ip user_agent
       (Some (pr_admin p)) (Some (pr_session p)) no_details) d1) (\<lambda>d2. Inr ((), d2)))"

definition logout ::
  "auth_services \<Rightarrow> principal \<Rightarrow> string \<Rightarrow> string \<Rightarrow> db \<Rightarrow> unit result \<times> db" where
  "logout A p client_ip user_agent = run_tx (logout_tx A p client_ip user_agent)"

definition revoked_details :: "nat \<Rightarrow> event_details" where
  "revoked_details n = \<lparr>ed_reason = None, ed_failed_attempts = None,
     ed_revoked_sessions = Some (int n)\<rparr>"

definition revoke_all_tx ::
  "auth_services \<Rightarrow> principal \<Rightarrow> string \<Rightarrow> string \<Rightarrow> db \<Rightarrow> (nat \<times> db) result" where
  "revoke_all_tx A p client_ip user_agent d =
     (let (n, d1) = revoke_all_active (pr_admin p) (av_now A) RevAdminAction d
      in rbind (add_event (create_security_event A (av_ids A 0) AllSessionsRevoked client_ip
           user_agent (Some (pr_admin p)) (Some (pr_session p)) (revoked_details n)) d1) (\<lambda>d2.
         Inr (n, d2)))"

definition revoke_all_sessions ::
  "auth_services \<Rightarrow> principal \<Rightarrow> string \<Rightarrow> string \<Rightarrow> db \<Rightarrow> nat result \<times> db" where
  "revoke_all_sessions A p client_ip user_agent = run_tx (revoke_all_tx A p client_ip user_agent)"

section \<open>Local administration\<close>

record credentials_cmd =
  cc_username :: string
  cc_password :: string

definition password_length_ok :: "auth_policy \<Rightarrow> string \<Rightarrow> bool" where
  "password_length_ok policy password \<longleftrightarrow>
     ap_minimum_password policy \<le> length password \<and> length password \<le> 1024"

definition change_password_tx ::
  "auth_services \<Rightarrow> auth_policy \<Rightarrow> credentials_cmd \<Rightarrow> db \<Rightarrow> (admin_account \<times> db) result" where
  "change_password_tx A policy c d =
     (let normalized = normalize_username (av_unicode A) (cc_username c); now = av_now A
      in rbind (require (normalized \<noteq> []) ApplicationValidation) (\<lambda>_.
         rbind (require (password_length_ok policy (cc_password c)) ApplicationValidation) (\<lambda>_.
         (case get_single d of
            None \<Rightarrow> Inl ResourceNotFound
          | Some account \<Rightarrow>
              if aa_normalized account \<noteq> normalized then Inl ResourceNotFound
              else
                (let changed = account_change_password account
                       (ph_hash (av_hasher A) (cc_password c)) now
                 in rbind (save_account changed d) (\<lambda>d1.
                    (let (n, d2) = revoke_all_active (aa_id account) now RevPasswordChanged d1
                     in rbind (add_event (create_security_event A (av_ids A 0) AdminPasswordChanged
                          ''local-administration'' ''cli'' (Some (aa_id account)) None
                          (revoked_details n)) d2) (\<lambda>d3. Inr (changed, d3))))))))) "

definition change_admin_password ::
  "auth_services \<Rightarrow> auth_policy \<Rightarrow> credentials_cmd \<Rightarrow> db \<Rightarrow> admin_account result \<times> db" where
  "change_admin_password A policy c = run_tx (change_password_tx A policy c)"

definition new_account :: "auth_services \<Rightarrow> credentials_cmd \<Rightarrow> admin_account" where
  "new_account A c =
     \<lparr>aa_id = av_ids A 0, aa_username = py_strip (u_is_space (av_unicode A)) (cc_username c),
      aa_normalized = normalize_username (av_unicode A) (cc_username c),
      aa_password_hash = ph_hash (av_hasher A) (cc_password c), aa_enabled = True,
      aa_failed_attempts = 0, aa_locked_until = None, aa_password_changed = av_now A,
      aa_last_login = None, aa_created = av_now A, aa_updated = av_now A, aa_deleted = None\<rparr>"

definition bootstrap_tx ::
  "auth_services \<Rightarrow> auth_policy \<Rightarrow> credentials_cmd \<Rightarrow> db \<Rightarrow> (admin_account \<times> db) result" where
  "bootstrap_tx A policy c d =
     (let normalized = normalize_username (av_unicode A) (cc_username c); account = new_account A c
      in rbind (require (normalized \<noteq> []) ApplicationValidation) (\<lambda>_.
         rbind (require (1 \<le> length normalized \<and> length normalized \<le> 100) ApplicationValidation) (\<lambda>_.
         rbind (require (password_length_ok policy (cc_password c)) ApplicationValidation) (\<lambda>_.
         rbind (require (get_single d = None) ConflictErr) (\<lambda>_.
         rbind (add_account account d) (\<lambda>d1.
         rbind (entry_name_create (av_unicode A) ''Drive'') (\<lambda>root_name.
         rbind (add_folder \<lparr>e_id = av_ids A 1, e_owner = aa_id account, e_parent = None,
             e_name = en_value root_name, e_normalized = en_normalized root_name,
             e_created = av_now A, e_updated = av_now A, e_deleted = None, e_kind = Folder\<rparr> d1) (\<lambda>d2.
         rbind (add_event (create_security_event A (av_ids A 2) AdminCreated ''local-bootstrap''
           ''cli'' (Some (aa_id account)) None no_details) d2) (\<lambda>d3.
         Inr (account, d3))))))))))"

definition bootstrap_admin ::
  "auth_services \<Rightarrow> auth_policy \<Rightarrow> credentials_cmd \<Rightarrow> db \<Rightarrow> admin_account result \<times> db" where
  "bootstrap_admin A policy c = run_tx (bootstrap_tx A policy c)"

end
