(* ===== verification/Auth_Safety.thy ===== *)
theory Auth_Safety
  imports Auth_Use_Cases
begin

text \<open>
  What authentication guarantees: who gets a session, what a failure records, when a lock
  holds, that a rotated refresh token is spent, and that revocation is immediate.
\<close>

section \<open>Reading and writing accounts and sessions\<close>

lemma find_Some_in: "find P xs = Some x \<Longrightarrow> x \<in> set xs \<and> P x"
  by (induction xs) (auto split: if_splits)

lemma get_session_D:
  "get_session d i = Some s \<Longrightarrow> s \<in> set (db_sessions d) \<and> as_id s = i \<and> as_deleted s = None"
  by (auto simp: get_session_def dest: find_Some_in)

lemma active_session_eq_Inr [result_simps]:
  "active_session d i now = Inr s \<longleftrightarrow> get_session d i = Some s \<and> session_is_active s now"
  by (auto simp: active_session_def split: option.splits)

lemma enabled_account_eq_Inr [result_simps]:
  "enabled_account d i = Inr a \<longleftrightarrow> get_single d = Some a \<and> aa_id a = i \<and> aa_enabled a"
  by (auto simp: enabled_account_def split: option.splits)

lemma get_session_update:
  assumes "\<And>r. as_id (f r) = as_id r"
    and "\<And>r. P r \<Longrightarrow> as_deleted (f r) = as_deleted r"
  shows "find (\<lambda>s. as_id s = i \<and> as_deleted s = None) (tbl_update P f tbl) =
    map_option (\<lambda>r. if P r then f r else r)
      (find (\<lambda>s. as_id s = i \<and> as_deleted s = None) tbl)"
  using assms by (induction tbl) auto

lemma find_tbl_update_id:
  assumes "distinct (map as_id tbl)" and "find (\<lambda>s. as_id s = as_id x \<and> as_deleted s = None) tbl = Some r"
    and "as_id x = as_id (f r)" "as_deleted (f r) = None"
  shows "find (\<lambda>s. as_id s = as_id x \<and> as_deleted s = None) (tbl_update (\<lambda>r. as_id r = as_id x) f tbl) =
    Some (f r)"
  using assms
proof (induction tbl)
  case (Cons a tbl)
  show ?case
  proof (cases "as_id a = as_id x")
    case True
    have "as_deleted a = None"
    proof (rule ccontr)
      assume "as_deleted a \<noteq> None"
      with True Cons.prems(2) have "r \<in> set tbl" "as_id r = as_id a" by (auto dest: find_Some_in)
      with Cons.prems(1) show False by (auto simp: image_iff)
    qed
    with True Cons.prems(2,3,4) show ?thesis by simp
  next
    case False
    with Cons show ?thesis by simp
  qed
qed simp

lemma find_append_last: "\<forall>x \<in> set xs. \<not> P x \<Longrightarrow> P s \<Longrightarrow> find P (xs @ [s]) = Some s"
  by (induction xs) auto

lemma save_session_D:
  assumes "save_session s d = Inr d'" and "get_session d (as_id s) = Some r"
    and "as_deleted s = None"
  shows "get_session d' (as_id s) =
      Some (s\<lparr>as_admin := as_admin r, as_family := as_family r, as_created := as_created r\<rparr>)"
    and "d' = d\<lparr>db_sessions := db_sessions d'\<rparr>"
proof -
  let ?f = "\<lambda>r. s\<lparr>as_admin := as_admin r, as_family := as_family r, as_created := as_created r\<rparr>"
  from assms(1) have d': "d' = d\<lparr>db_sessions := tbl_update (\<lambda>r. as_id r = as_id s) ?f (db_sessions d)\<rparr>"
    and dist: "distinct (map as_id (tbl_update (\<lambda>r. as_id r = as_id s) ?f (db_sessions d)))"
    by (auto simp: save_session_def result_simps split: if_splits)
  show "d' = d\<lparr>db_sessions := db_sessions d'\<rparr>" unfolding d' by simp
  have "map as_id (tbl_update (\<lambda>r. as_id r = as_id s) ?f tbl) = map as_id tbl" for tbl
    by (induction tbl) auto
  with dist have "distinct (map as_id (db_sessions d))" by simp
  note one = find_tbl_update_id [OF this, of s r ?f]
  have "find (\<lambda>x. as_id x = as_id s \<and> as_deleted x = None) (db_sessions d) = Some r"
    using assms(2) by (simp add: get_session_def)
  from one [OF this] assms(3) have "find (\<lambda>x. as_id x = as_id s \<and> as_deleted x = None)
      (tbl_update (\<lambda>r. as_id r = as_id s) ?f (db_sessions d)) = Some (?f r)" by simp
  then show "get_session d' (as_id s) = Some (?f r)" unfolding get_session_def d' by simp
qed

lemma add_session_D:
  assumes "add_session s d = Inr d'" and "as_deleted s = None"
  shows "get_session d' (as_id s) = Some s" and "d' = d\<lparr>db_sessions := db_sessions d @ [s]\<rparr>"
proof -
  from assms(1) have d': "d' = d\<lparr>db_sessions := db_sessions d @ [s]\<rparr>"
    and new: "as_id s \<notin> as_id ` set (db_sessions d)"
    by (auto simp: add_session_def result_simps)
  have "find (\<lambda>x. as_id x = as_id s \<and> as_deleted x = None) (db_sessions d @ [s]) = Some s"
  proof (rule find_append_last)
    show "\<forall>x \<in> set (db_sessions d). \<not> (as_id x = as_id s \<and> as_deleted x = None)"
      using new by (metis image_eqI)
  qed (simp add: assms(2))
  then show "get_session d' (as_id s) = Some s" by (simp add: get_session_def d')
  show "d' = d\<lparr>db_sessions := db_sessions d @ [s]\<rparr>" by (fact d')
qed

lemma save_account_D:
  assumes "save_account a d = Inr d'" and "a0 \<in> set (db_accounts d)" "aa_id a0 = aa_id a"
  shows "db_accounts d' = [a\<lparr>aa_created := aa_created a0\<rparr>]" and "db_accounts d = [a0]"
    and "d' = d\<lparr>db_accounts := db_accounts d'\<rparr>"
proof -
  let ?f = "\<lambda>r. a\<lparr>aa_created := aa_created r\<rparr>"
  from assms(1) have d': "d' = d\<lparr>db_accounts := tbl_update (\<lambda>r. aa_id r = aa_id a) ?f (db_accounts d)\<rparr>"
    and len: "length (db_accounts d) \<le> 1"
    by (auto simp: save_account_def result_simps accounts_ok_def split: if_splits)
  from len assms(2) show acc: "db_accounts d = [a0]"
    by (cases "db_accounts d") auto
  show "db_accounts d' = [a\<lparr>aa_created := aa_created a0\<rparr>]" using assms(3) by (simp add: d' acc)
  show "d' = d\<lparr>db_accounts := db_accounts d'\<rparr>" by (simp add: d')
qed

section \<open>Login\<close>

lemma commit_then_raise_Inr: "commit_then_raise t d = (Inr x, d') \<longleftrightarrow> t d = Inr (Inr x, d')"
  by (auto simp: commit_then_raise_def split: sum.splits)

text \<open>A session is opened only for the right password of an enabled, unlocked account.\<close>

lemma login_tx_success:
  assumes "login_tx A policy c d = Inr (Inr res, d')"
  shows "\<exists>a \<in> set (db_accounts d). aa_normalized a = normalize_username (av_unicode A) (lg_username c)
      \<and> aa_deleted a = None \<and> aa_enabled a \<and> \<not> account_is_locked a (av_now A)
      \<and> ph_verify (av_hasher A) (aa_password_hash a) (lg_password c)
      \<and> get_session d' (ar_session res) = Some (new_session A policy c (aa_id a))
      \<and> ar_access res = issue_access (av_jwt A) (av_tokens A) (aa_id a) (ar_session res) (av_ids A 4) (av_now A)
      \<and> (\<exists>a' \<in> set (db_accounts d'). aa_id a' = aa_id a \<and> aa_failed_attempts a' = 0
           \<and> aa_locked_until a' = None \<and> aa_enabled a' \<and> aa_deleted a' = None)
      \<and> length (db_accounts d') = 1"
proof -
  from assms obtain a valid rehash fresh d1 where
    find: "get_by_normalized_username d (normalize_username (av_unicode A) (lg_username c)) = Some a"
    and unlocked: "\<not> account_is_locked a (av_now A)" and en: "aa_enabled a"
    and ver: "verify_password (av_hasher A) (aa_password_hash a) (lg_password c) = (valid, rehash)" "valid"
    and fresh: "fresh = (if rehash then a\<lparr>aa_password_hash := ph_hash (av_hasher A) (lg_password c)\<rparr> else a)"
    and save: "save_account (register_successful_login fresh (av_now A)) d = Inr d1"
    and sess: "create_session A policy c (aa_id a) d1 = Inr (res, d')"
    by (auto simp: login_tx_def Let_def result_simps split: option.splits if_splits prod.splits)
  from find have a: "a \<in> set (db_accounts d)" "aa_deleted a = None"
    "aa_normalized a = normalize_username (av_unicode A) (lg_username c)"
    by (auto simp: get_by_normalized_username_def dest: find_Some_in)
  have fr: "aa_id fresh = aa_id a" "aa_enabled fresh = aa_enabled a" "aa_deleted fresh = aa_deleted a"
    by (simp_all add: fresh)
  have acc1: "db_accounts d1 = [(register_successful_login fresh (av_now A))\<lparr>aa_created := aa_created a\<rparr>]"
    using save_account_D(1) [OF save a(1)] fr by (simp add: register_successful_login_def)
  let ?s = "new_session A policy c (aa_id a)"
  from sess obtain d2 where add: "add_session ?s d1 = Inr d2"
    and ev: "add_event (create_security_event A (av_ids A 5) LoginSucceeded (lg_client_ip c)
           (lg_user_agent c) (Some (aa_id a)) (Some (as_id ?s)) no_details) d2 = Inr d'"
    and res: "ar_session res = as_id ?s"
      "ar_access res = issue_access (av_jwt A) (av_tokens A) (aa_id a) (as_id ?s) (av_ids A 4) (av_now A)"
    by (auto simp: create_session_def Let_def result_simps)
  have del: "as_deleted ?s = None" by (simp add: new_session_def Let_def)
  note s = add_session_D [OF add del]
  note d' = add_event_eq_Inr [OF ev]
  have "get_session d' (as_id ?s) = Some ?s" using s(1) by (simp add: d' get_session_def)
  moreover have "db_accounts d' = db_accounts d1" using s(2) d' by simp
  ultimately show ?thesis
    using a unlocked en ver acc1 res fr
    by (intro bexI [of _ a]) (auto simp: verify_password_def Let_def register_successful_login_def)
qed

lemma login_success:
  assumes "login A policy c d = (Inr res, d')"
  obtains d1 where "login_tx A policy c d1 = Inr (Inr res, d')" "db_accounts d1 = db_accounts d"
proof -
  let ?e = "enforce_rate_limit (av_secrets A) (av_ids A 0) ''auth.login''
         (lg_client_ip c @ ''|'' @ normalize_username (av_unicode A) (lg_username c)) (av_now A)
         (ap_login_limit policy) (ap_login_window policy) (ap_login_block policy) d"
  obtain r d1 where e: "?e = (r, d1)" by fastforce
  have "db_accounts d1 = db_accounts d"
    using e by (auto simp: enforce_rate_limit_def rate_consume_def Let_def
        split: sum.splits prod.splits option.splits if_splits)
  moreover have "login_tx A policy c d1 = Inr (Inr res, d')"
    using assms e by (auto simp: login_def commit_then_raise_Inr split: sum.splits)
  ultimately show thesis using that by blast
qed

text \<open>A failed login is audited and opens nothing.\<close>

lemma login_tx_failure:
  assumes "login_tx A policy c d = Inr (Inl e, d')"
  shows "db_sessions d' = db_sessions d"
    and "\<exists>ev. db_events d' = db_events d @ [ev] \<and> se_type ev = LoginFailed \<and> se_occurred ev = av_now A
      \<and> ed_reason (se_details ev) \<noteq> None \<and> se_session ev = None"
proof -
  have rec: "d2 = d1\<lparr>db_events := db_events d1 @ [create_security_event A (av_ids A 1) LoginFailed
      (lg_client_ip c) (lg_user_agent c) i None (reason_details r n)]\<rparr>"
    if "record_login_failure A c i r n d1 = Inr d2" for i r n d1 d2
    using that by (auto simp: record_login_failure_def dest: add_event_eq_Inr)
  have "\<exists>d1 i r n. record_login_failure A c i r n d1 = Inr d'
      \<and> (d1 = d \<or> (\<exists>a. save_account a d = Inr d1))"
    using assms
    by (auto simp: login_tx_def Let_def result_simps split: option.splits if_splits prod.splits)
  then obtain d1 i r n where run: "record_login_failure A c i r n d1 = Inr d'"
    and d1: "d1 = d \<or> (\<exists>a. save_account a d = Inr d1)" by blast
  note d' = rec [OF run]
  from d1 have same: "db_sessions d1 = db_sessions d" "db_events d1 = db_events d"
  proof safe
    fix a assume "save_account a d = Inr d1"
    then obtain tbl where "d1 = d\<lparr>db_accounts := tbl\<rparr>"
      by (auto simp: save_account_def result_simps split: if_splits)
    then show "db_sessions d1 = db_sessions d" "db_events d1 = db_events d" by simp_all
  qed
  show "db_sessions d' = db_sessions d" by (simp add: d' same)
  show "\<exists>ev. db_events d' = db_events d @ [ev] \<and> se_type ev = LoginFailed \<and> se_occurred ev = av_now A
      \<and> ed_reason (se_details ev) \<noteq> None \<and> se_session ev = None"
    by (simp add: d' same create_security_event_def reason_details_def)
qed

section \<open>Refresh\<close>

text \<open>
  The outcome of a refresh transaction: without a pending error the session carries the new
  token; a wrong token of a live session revokes it.
\<close>

lemma refresh_tx_rotates:
  assumes "refresh_tx A c claims d = Inr (Inr res, d')"
  obtains s a where "get_session d (rc_session claims) = Some s" "session_is_active s (av_now A)"
    and "get_single d = Some a" "aa_id a = rc_admin claims" "aa_enabled a"
    and "refresh_token_current (av_secrets A) claims (rf_token c) s"
    and "rf_used_cookie c \<longrightarrow> csrf_ok (av_secrets A) (rf_csrf_cookie c) (rf_csrf_header c) (as_csrf_hash s)"
    and "get_session d' (rc_session claims) = Some (session_rotate s (av_ids A 1)
      (secret_digest (av_secrets A) (it_value (ar_refresh res)))
      (secret_digest (av_secrets A) (av_csrf A)) (av_now A))"
    and "db_accounts d' = db_accounts d" "ar_session res = rc_session claims"
proof -
  let ?K = "av_secrets A"
  from assms obtain s a where s: "get_session d (rc_session claims) = Some s" "session_is_active s (av_now A)"
    and a: "get_single d = Some a" "aa_id a = rc_admin claims" "aa_enabled a"
    and csrf: "rf_used_cookie c \<longrightarrow> csrf_ok ?K (rf_csrf_cookie c) (rf_csrf_header c) (as_csrf_hash s)"
    and cur: "refresh_token_current ?K claims (rf_token c) s"
    by (auto simp: refresh_tx_def Let_def result_simps split: if_splits)
  let ?refresh = "issue_refresh (av_jwt A) (av_tokens A) (aa_id a) (as_id s) (as_family s)
    (av_ids A 1) (av_now A) (as_expires s)"
  let ?rot = "session_rotate s (av_ids A 1) (secret_digest ?K (it_value ?refresh))
    (secret_digest ?K (av_csrf A)) (av_now A)"
  from assms s a csrf cur obtain d1 ev where save: "save_session ?rot d = Inr d1"
    and ev: "add_event ev d1 = Inr d'" and res: "ar_refresh res = ?refresh" "ar_session res = as_id s"
    by (auto simp: refresh_tx_def active_session_def enabled_account_def Let_def result_simps
        split: if_splits)
  have sid: "as_id s = rc_session claims" "as_deleted s = None" using get_session_D [OF s(1)] by auto
  have "get_session d (as_id ?rot) = Some s" using s(1) sid by simp
  from save_session_D [OF save this] sid
  have d1: "get_session d1 (rc_session claims) = Some (?rot\<lparr>as_admin := as_admin s,
      as_family := as_family s, as_created := as_created s\<rparr>)" "d1 = d\<lparr>db_sessions := db_sessions d1\<rparr>"
    by simp_all
  have same: "?rot\<lparr>as_admin := as_admin s, as_family := as_family s, as_created := as_created s\<rparr> = ?rot"
    by (simp add: session_rotate_def)
  have acc: "db_accounts d1 = db_accounts d" by (subst d1(2)) simp
  note d1' = d1(1) [unfolded same]
  note d' = add_event_eq_Inr [OF ev]
  have sess: "get_session d' (rc_session claims) = Some (session_rotate s (av_ids A 1)
      (secret_digest ?K (it_value (ar_refresh res))) (secret_digest ?K (av_csrf A)) (av_now A))"
    using d1' unfolding d' get_session_def by (simp add: res)
  have acc': "db_accounts d' = db_accounts d" using acc by (simp add: d')
  have rs: "ar_session res = rc_session claims" using res sid by simp
  show thesis by (rule that [OF s a cur csrf sess acc' rs])
qed

lemma refresh_tx_reuse:
  assumes s: "get_session d (rc_session claims) = Some s" and "refresh_tx A c claims d = Inr (r, d')"
    and wrong: "\<not> refresh_token_current (av_secrets A) claims (rf_token c) s"
  shows "r = Inl SessionRevoked
    \<and> (\<exists>s'. get_session d' (rc_session claims) = Some s' \<and> as_revoked_at s' = Some (av_now A)
         \<and> as_revoke_reason s' = Some RevRefreshReuse)
    \<and> (\<exists>ev. db_events d' = db_events d @ [ev] \<and> se_type ev = RefreshReuseDetected
         \<and> se_session ev = Some (rc_session claims))"
proof -
  have sid: "as_id s = rc_session claims" "as_deleted s = None" using get_session_D [OF s] by auto
  let ?rev = "session_revoke s (av_now A) RevRefreshReuse"
  from assms sid obtain d1 where act: "session_is_active s (av_now A)"
    and save: "save_session ?rev d = Inr d1"
    and ev: "add_event (create_security_event A (av_ids A 1) RefreshReuseDetected
                 (rf_client_ip c) (rf_user_agent c) (Some (rc_admin claims)) (Some (as_id s)) no_details) d1 = Inr d'"
    and r: "r = Inl SessionRevoked"
    by (auto simp: refresh_tx_def Let_def result_simps)
  have "get_session d (as_id ?rev) = Some s" using s sid by simp
  from save_session_D [OF save this] sid
  have d1: "get_session d1 (rc_session claims) = Some (?rev\<lparr>as_admin := as_admin s,
      as_family := as_family s, as_created := as_created s\<rparr>)" "d1 = d\<lparr>db_sessions := db_sessions d1\<rparr>"
    by simp_all
  have "db_events d1 = db_events d" by (subst d1(2)) simp
  moreover have "as_revoked_at ?rev = Some (av_now A)" "as_revoke_reason ?rev = Some RevRefreshReuse"
    using act by (simp_all add: session_is_active_def session_revoke_def)
  ultimately show ?thesis
    using r d1(1) add_event_eq_Inr [OF ev] sid
    by (simp add: get_session_def create_security_event_def)
qed

section \<open>Revocation\<close>

lemma revoke_all_active_sessions:
  assumes "get_session (snd (revoke_all_active admin now reason d)) i = Some s" and "as_admin s = admin"
  shows "\<not> session_is_active s later"
proof -
  let ?P = "\<lambda>s. as_admin s = admin \<and> as_revoked_at s = None \<and> as_deleted s = None"
  let ?f = "\<lambda>s. s\<lparr>as_revoked_at := Some now, as_revoke_reason := Some reason, as_updated := now\<rparr>"
  have "s \<in> set (tbl_update ?P ?f (db_sessions d))"
    using get_session_D [OF assms(1)] by (simp add: revoke_all_active_def Let_def)
  then obtain r where s: "s = (if ?P r then ?f r else r)" unfolding set_tbl_update by (rule imageE)
  show ?thesis
  proof (cases "?P r")
    case True
    with s have "as_revoked_at s = Some now" by simp
    then show ?thesis by (simp add: session_is_active_def)
  next
    case False
    with s have "s = r" by simp
    with False assms(2) show ?thesis by (auto simp: session_is_active_def)
  qed
qed

text \<open>No token authenticates under an inactive session.\<close>

lemma authenticate_needs_active:
  assumes "authenticate_access A q d = Inr p"
  shows "\<exists>claims s a. decode_access (av_jwt A) (av_tokens A) (aq_token q) (av_now A) = Inr claims
    \<and> get_session d (ac_session claims) = Some s \<and> session_is_active s (av_now A)
    \<and> get_single d = Some a \<and> aa_id a = ac_admin claims \<and> aa_enabled a
    \<and> (aq_via_cookie q \<and> aq_require_csrf q \<longrightarrow>
        csrf_ok (av_secrets A) (aq_csrf_cookie q) (aq_csrf_header q) (as_csrf_hash s))
    \<and> p = \<lparr>pr_admin = aa_id a, pr_session = ac_session claims, pr_username = aa_username a,
           pr_via_cookie = aq_via_cookie q\<rparr>"
proof -
  from assms obtain claims s a where
    "decode_access (av_jwt A) (av_tokens A) (aq_token q) (av_now A) = Inr claims"
    "get_session d (ac_session claims) = Some s" "session_is_active s (av_now A)"
    "get_single d = Some a" "aa_id a = ac_admin claims" "aa_enabled a"
    "aq_via_cookie q \<and> aq_require_csrf q \<longrightarrow>
        csrf_ok (av_secrets A) (aq_csrf_cookie q) (aq_csrf_header q) (as_csrf_hash s)"
    "p = \<lparr>pr_admin = aa_id a, pr_session = as_id s, pr_username = aa_username a,
           pr_via_cookie = aq_via_cookie q\<rparr>"
    by (auto simp: authenticate_access_def Let_def result_simps)
  then show ?thesis by (intro exI conjI) (auto dest: get_session_D)
qed

section \<open>Issued tokens come back\<close>

lemma decode_access_own:
  assumes L: "jwt_verifies L" and ids: "admin < 2 ^ 128" "sid < 2 ^ 128" "jti < 2 ^ 128"
    and t: "0 \<le> issued" "issued \<le> now" "now < to_seconds (issued + jw_access_ttl T * microseconds) * microseconds"
  shows "decode_access L T (it_value (issue_access L T admin sid jti issued)) now =
    Inr \<lparr>ac_admin = admin, ac_session = sid, ac_jti = jti,
      ac_issued = to_seconds issued * microseconds,
      ac_expires = to_seconds (issued + jw_access_ttl T * microseconds) * microseconds\<rparr>"
proof -
  have "to_seconds issued * microseconds \<le> now + leeway"
    using to_seconds_bounds(1) [OF t(1)] t(2) by (simp add: leeway_def microseconds_def)
  then show ?thesis
    using t(3) by (simp add: decode_access_def issue_access_def Let_def decode_token_own [OF L t(1,2)]
        claim_uuid_def claim_instant_def token_instant_def uuid_parse_str [OF ids(1)]
        uuid_parse_str [OF ids(2)] uuid_parse_str [OF ids(3)] as_authentication_def
        validate_time_def)
qed

end
