(* ===== verification/Activity.thy ===== *)
theory Activity
  imports Storage_Actions Paging
begin

text \<open>
  Favourites and recent opens: \<open>SQLAlchemyActivityRepository\<close>
  (\<open>app/infrastructure/persistence/repositories/activity.py\<close>) and the use cases of
  \<open>app/application/use_cases/activity.py\<close>. Lists are paged with the typed cursor; its textual
  form is not represented.
\<close>

section \<open>The repository\<close>

definition favorite_entry_ids :: "db \<Rightarrow> uuid \<Rightarrow> uuid list \<Rightarrow> uuid set" where
  "favorite_entry_ids d owner ids =
     set (map fav_entry (filter (\<lambda>f. fav_owner f = owner \<and> fav_entry f \<in> set ids) (db_favorites d)))"

definition favorite_is :: "uuid \<Rightarrow> uuid \<Rightarrow> favorite_row \<Rightarrow> bool" where
  "favorite_is owner entry f \<longleftrightarrow> fav_owner f = owner \<and> fav_entry f = entry"

definition add_favorite :: "uuid \<Rightarrow> uuid \<Rightarrow> instant \<Rightarrow> db \<Rightarrow> (bool \<times> db) result" where
  "add_favorite owner entry created d =
     (if list_ex (favorite_is owner entry) (db_favorites d) then Inr (False, d)
      else if owner \<in> account_ids d \<and> entry \<in> entry_ids d
      then Inr (True, d\<lparr>db_favorites := db_favorites d
             @ [\<lparr>fav_owner = owner, fav_entry = entry, fav_created = created\<rparr>]\<rparr>)
      else Inl PersistenceFailure)"

definition remove_favorite :: "uuid \<Rightarrow> uuid \<Rightarrow> db \<Rightarrow> bool \<times> db" where
  "remove_favorite owner entry d =
     (list_ex (favorite_is owner entry) (db_favorites d),
      d\<lparr>db_favorites := tbl_delete (favorite_is owner entry) (db_favorites d)\<rparr>)"

definition recent_is :: "uuid \<Rightarrow> uuid \<Rightarrow> recent_row \<Rightarrow> bool" where
  "recent_is owner entry f \<longleftrightarrow> rec_owner f = owner \<and> rec_entry f = entry"

text \<open>An upsert; the counter is a 32-bit column.\<close>

definition record_recent_open :: "uuid \<Rightarrow> uuid \<Rightarrow> instant \<Rightarrow> db \<Rightarrow> db result" where
  "record_recent_open owner entry opened d =
     (case find (recent_is owner entry) (db_recents d) of
        Some r \<Rightarrow>
          if rec_count r + 1 < 2 ^ 31
          then Inr (d\<lparr>db_recents := tbl_update (recent_is owner entry)
                 (\<lambda>r. r\<lparr>rec_opened := opened, rec_count := rec_count r + 1\<rparr>) (db_recents d)\<rparr>)
          else Inl PersistenceFailure
      | None \<Rightarrow>
          if owner \<in> account_ids d \<and> entry \<in> entry_ids d
          then Inr (d\<lparr>db_recents := db_recents d
                 @ [\<lparr>rec_owner = owner, rec_entry = entry, rec_opened = opened, rec_count = 1\<rparr>]\<rparr>)
          else Inl PersistenceFailure)"

datatype activity_kind = Favorites | Recents

text \<open>The join: the source rows of the owner with the active entries the owner has.\<close>

definition activity_source :: "db \<Rightarrow> uuid \<Rightarrow> activity_kind \<Rightarrow> (uuid \<times> instant) list" where
  "activity_source d owner kind =
     (case kind of
        Favorites \<Rightarrow> map (\<lambda>f. (fav_entry f, fav_created f))
          (filter (\<lambda>f. fav_owner f = owner) (db_favorites d))
      | Recents \<Rightarrow> map (\<lambda>f. (rec_entry f, rec_opened f))
          (filter (\<lambda>f. rec_owner f = owner) (db_recents d)))"

definition activity_rows :: "db \<Rightarrow> uuid \<Rightarrow> activity_kind \<Rightarrow> (entry_row \<times> instant) list" where
  "activity_rows d owner kind =
     concat (map (\<lambda>r. map (\<lambda>x. (r, snd x))
         (filter (\<lambda>x. fst x = r_id r) (activity_source d owner kind)))
       (filter (\<lambda>r. r_owner r = owner \<and> r_deleted r = None) (db_entries d)))"

definition activity_key :: "entry_row \<times> instant \<Rightarrow> instant \<times> uuid" where
  "activity_key x = (snd x, r_id (fst x))"

definition fetch_activity ::
  "db \<times> uuid \<times> activity_kind \<Rightarrow> nat \<Rightarrow> (instant \<times> uuid) option \<Rightarrow> (entry_row \<times> instant) list \<times> bool" where
  "fetch_activity q limit cursor =
     (case q of (d, owner, kind) \<Rightarrow>
        keyset_page Desc activity_key limit cursor (activity_rows d owner kind))"

record activity_record =
  ar_entry :: storage_entry
  ar_occurred :: instant
  ar_is_favorite :: bool

definition activity_record_of ::
  "unicode \<Rightarrow> db \<Rightarrow> uuid \<Rightarrow> entry_row \<times> instant \<Rightarrow> activity_record result" where
  "activity_record_of U d owner x =
     rbind (to_entry U d (fst x)) (\<lambda>e. Inr
       \<lparr>ar_entry = e, ar_occurred = snd x,
        ar_is_favorite = list_ex (favorite_is owner (e_id e)) (db_favorites d)\<rparr>)"

fun collect :: "('a \<Rightarrow> 'b result) \<Rightarrow> 'a list \<Rightarrow> 'b list result" where
  "collect f [] = Inr []"
| "collect f (x # xs) = rbind (f x) (\<lambda>y. rbind (collect f xs) (\<lambda>ys. Inr (y # ys)))"

text \<open>
  What the driver can send to the database: instants of the years 1 to 9999 in UTC. Any other is refused
  as an error of the statement.
\<close>

definition first_instant :: instant where
  "first_instant = - 62135596800 * 1000000"

definition last_instant :: instant where
  "last_instant = 253402300800 * 1000000 - 1"

definition sendable_instant :: "instant \<Rightarrow> bool" where
  "sendable_instant t \<longleftrightarrow> first_instant \<le> t \<and> t \<le> last_instant"

definition sendable_mark :: "(instant \<times> uuid) option \<Rightarrow> bool" where
  "sendable_mark cursor \<longleftrightarrow> (case cursor of None \<Rightarrow> True | Some (t, _) \<Rightarrow> sendable_instant t)"

definition list_activity ::
  "unicode \<Rightarrow> db \<Rightarrow> uuid \<Rightarrow> activity_kind \<Rightarrow> nat \<Rightarrow> (instant \<times> uuid) option \<Rightarrow>
     (activity_record list \<times> bool) result" where
  "list_activity U d owner kind limit cursor =
     rbind (require (sendable_mark cursor) PersistenceFailure) (\<lambda>_.
     (let (rows, has_more) = fetch_activity (d, owner, kind) limit cursor
      in rbind (collect (activity_record_of U d owner) rows) (\<lambda>records. Inr (records, has_more))))"

section \<open>The use cases\<close>

definition set_favorite_tx :: "ports \<Rightarrow> uuid \<Rightarrow> uuid \<Rightarrow> db \<Rightarrow> (bool \<times> db) result" where
  "set_favorite_tx P owner entry d =
     rbind (get_entry (p_unicode P) d entry False) (\<lambda>oe.
     rbind (require_owned oe owner) (\<lambda>_.
     rbind (add_favorite owner entry (p_now P) d) (\<lambda>(_, d'). Inr (True, d'))))"

definition set_favorite :: "ports \<Rightarrow> uuid \<Rightarrow> uuid \<Rightarrow> db \<Rightarrow> bool result \<times> db" where
  "set_favorite P owner entry = run_tx (set_favorite_tx P owner entry)"

definition unset_favorite_tx :: "ports \<Rightarrow> uuid \<Rightarrow> uuid \<Rightarrow> db \<Rightarrow> (bool \<times> db) result" where
  "unset_favorite_tx P owner entry d =
     rbind (get_entry (p_unicode P) d entry False) (\<lambda>oe.
     rbind (require_owned oe owner) (\<lambda>_.
     Inr (False, snd (remove_favorite owner entry d))))"

definition unset_favorite :: "ports \<Rightarrow> uuid \<Rightarrow> uuid \<Rightarrow> db \<Rightarrow> bool result \<times> db" where
  "unset_favorite P owner entry = run_tx (unset_favorite_tx P owner entry)"

definition record_open_tx :: "ports \<Rightarrow> uuid \<Rightarrow> uuid \<Rightarrow> db \<Rightarrow> (unit \<times> db) result" where
  "record_open_tx P owner entry d =
     rbind (get_entry (p_unicode P) d entry False) (\<lambda>oe.
     rbind (require_owned oe owner) (\<lambda>_.
     rbind (record_recent_open owner entry (p_now P) d) (\<lambda>d'. Inr ((), d'))))"

definition record_open :: "ports \<Rightarrow> uuid \<Rightarrow> uuid \<Rightarrow> db \<Rightarrow> unit result \<times> db" where
  "record_open P owner entry = run_tx (record_open_tx P owner entry)"

record activity_entry_dto =
  ae_entry :: storage_entry_dto
  ae_occurred :: instant

definition page_limit_ok :: "int \<Rightarrow> bool" where
  "page_limit_ok limit \<longleftrightarrow> 1 \<le> limit \<and> limit \<le> 200"

text \<open>The page after the checks of \<open>ListActivityUseCase\<close>, with the typed cursors.\<close>

definition activity_page ::
  "unicode \<Rightarrow> uuid \<Rightarrow> activity_kind \<Rightarrow> nat \<Rightarrow> (instant \<times> uuid) option \<Rightarrow> db \<Rightarrow>
     (activity_entry_dto list \<times> (instant \<times> uuid) option) result" where
  "activity_page U owner kind limit cursor d =
     rbind (list_activity U d owner kind limit cursor) (\<lambda>(records, has_more).
     (let items = map (\<lambda>r. \<lparr>ae_entry = entry_to_dto (ar_entry r) (ar_is_favorite r),
                            ae_occurred = ar_occurred r\<rparr>) records
      in Inr (items,
           if has_more \<and> items \<noteq> []
           then Some (ae_occurred (last items), de_id (ae_entry (last items))) else None)))"

section \<open>Rows of the two tables\<close>

text \<open>Primary keys, foreign keys and the CHECK on the counter.\<close>

definition activity_ok :: "db \<Rightarrow> bool" where
  "activity_ok d \<longleftrightarrow>
     distinct (map (\<lambda>f. (fav_owner f, fav_entry f)) (db_favorites d))
     \<and> (\<forall>f \<in> set (db_favorites d). fav_owner f \<in> account_ids d \<and> fav_entry f \<in> entry_ids d)
     \<and> distinct (map (\<lambda>f. (rec_owner f, rec_entry f)) (db_recents d))
     \<and> (\<forall>f \<in> set (db_recents d). rec_owner f \<in> account_ids d \<and> rec_entry f \<in> entry_ids d
          \<and> 1 \<le> rec_count f \<and> rec_count f < 2 ^ 31)"

lemma find_SomeI: "x \<in> set xs \<Longrightarrow> P x \<Longrightarrow> \<exists>y. find P xs = Some y"
  by (induction xs) auto

lemma tbl_update_none: "\<forall>x \<in> set tbl. \<not> P x \<Longrightarrow> tbl_update P f tbl = tbl"
  by (induction tbl) auto

lemma activity_ok_add_favorite:
  assumes "activity_ok d" and "add_favorite owner entry t d = Inr (b, d')"
  shows "activity_ok d'"
    and "\<exists>f \<in> set (db_favorites d'). favorite_is owner entry f"
    and "d' = d\<lparr>db_favorites := db_favorites d'\<rparr>"
  using assms
  by (auto simp: add_favorite_def activity_ok_def favorite_is_def list_ex_iff split: if_splits)

lemma activity_ok_remove_favorite:
  assumes "activity_ok d"
  shows "activity_ok (snd (remove_favorite owner entry d))"
    and "\<forall>f \<in> set (db_favorites (snd (remove_favorite owner entry d))). \<not> favorite_is owner entry f"
  using assms
  by (auto simp: remove_favorite_def activity_ok_def set_tbl_delete intro: distinct_map_tbl_delete)

lemma map_key_recent_update:
  "map (\<lambda>f. (rec_owner f, rec_entry f)) (tbl_update P (\<lambda>r. r\<lparr>rec_opened := t, rec_count := g r\<rparr>) tbl) =
     map (\<lambda>f. (rec_owner f, rec_entry f)) tbl"
  by (induction tbl) auto

lemma activity_ok_record_recent:
  assumes ok: "activity_ok d" and "record_recent_open owner entry t d = Inr d'"
  shows "activity_ok d'" and "d' = d\<lparr>db_recents := db_recents d'\<rparr>"
proof -
  have "activity_ok d' \<and> d' = d\<lparr>db_recents := db_recents d'\<rparr>"
  proof (cases "find (recent_is owner entry) (db_recents d)")
    case None
    with assms(2) have d': "d' = d\<lparr>db_recents := db_recents d
        @ [\<lparr>rec_owner = owner, rec_entry = entry, rec_opened = t, rec_count = 1\<rparr>]\<rparr>"
      "owner \<in> account_ids d" "entry \<in> entry_ids d"
      by (auto simp: record_recent_open_def split: if_splits)
    have "(owner, entry) \<notin> (\<lambda>f. (rec_owner f, rec_entry f)) ` set (db_recents d)"
      using None by (auto simp: find_None_iff recent_is_def)
    with ok d' show ?thesis by (auto simp: activity_ok_def)
  next
    case (Some r)
    with assms(2) have d': "d' = d\<lparr>db_recents := tbl_update (recent_is owner entry)
        (\<lambda>r. r\<lparr>rec_opened := t, rec_count := rec_count r + 1\<rparr>) (db_recents d)\<rparr>"
      and c: "rec_count r + 1 < 2 ^ 31"
      by (auto simp: record_recent_open_def split: if_splits)
    have r: "r \<in> set (db_recents d)" "recent_is owner entry r"
      using Some by (auto simp: find_Some_iff)
    have same: "s = r" if "s \<in> set (db_recents d)" "recent_is owner entry s" for s
      using ok that r distinct_key_inject [of "\<lambda>f. (rec_owner f, rec_entry f)" "db_recents d" s r]
      by (simp add: activity_ok_def recent_is_def)
    have "rec_owner f \<in> account_ids d \<and> rec_entry f \<in> entry_ids d \<and> 1 \<le> rec_count f \<and> rec_count f < 2 ^ 31"
      if "f \<in> set (db_recents d')" for f
    proof -
      from that obtain g where g: "g \<in> set (db_recents d)"
        "f = (if recent_is owner entry g then g\<lparr>rec_opened := t, rec_count := rec_count g + 1\<rparr> else g)"
        by (auto simp: d' set_tbl_update)
      have "1 \<le> rec_count g" "rec_owner g \<in> account_ids d" "rec_entry g \<in> entry_ids d" "rec_count g < 2 ^ 31"
        using ok g(1) by (simp_all add: activity_ok_def)
      with g same [OF g(1)] c show ?thesis by (cases "recent_is owner entry g") auto
    qed
    with ok show ?thesis by (simp add: activity_ok_def d' map_key_recent_update)
  qed
  then show "activity_ok d'" "d' = d\<lparr>db_recents := db_recents d'\<rparr>" by blast+
qed

section \<open>Paging through the lists\<close>

lemma distinct_filter_key: "distinct (map fst src) \<Longrightarrow> length (filter (\<lambda>x. fst x = k) src) \<le> 1"
proof (induction src)
  case (Cons a src)
  then have "fst a = k \<Longrightarrow> filter (\<lambda>x. fst x = k) src = []"
    by (auto simp: filter_empty_conv rev_image_eqI)
  with Cons show ?case by simp
qed simp

lemma distinct_join:
  assumes "distinct (map r_id tbl)" and "distinct (map fst src)"
  shows "distinct (map (\<lambda>x. r_id (fst x)) (concat (map (\<lambda>r. map (\<lambda>x. (r, snd x))
    (filter (\<lambda>x. fst x = r_id r) src)) tbl)))"
  using assms(1)
proof (induction tbl)
  case (Cons r tbl)
  have "length (filter (\<lambda>x. fst x = r_id r) src) \<le> 1" by (rule distinct_filter_key [OF assms(2)])
  then have "distinct (map (\<lambda>x. r_id r) (filter (\<lambda>x. fst x = r_id r) src))"
    by (cases "filter (\<lambda>x. fst x = r_id r) src") auto
  with Cons show ?case by (auto simp: comp_def rev_image_eqI)
qed simp

lemma distinct_activity_source:
  "activity_ok d \<Longrightarrow> distinct (map fst (activity_source d owner kind))"
  by (cases kind)
    (auto simp: activity_source_def activity_ok_def distinct_map comp_def inj_on_def)

lemma distinct_activity_rows:
  assumes "activity_ok d" and "distinct (map r_id (db_entries d))"
  shows "distinct (map activity_key (activity_rows d owner kind))"
proof -
  have "distinct (map (\<lambda>x. r_id (fst x)) (activity_rows d owner kind))"
    unfolding activity_rows_def
    by (rule distinct_join) (simp_all add: assms distinct_map_filter distinct_activity_source)
  then have "distinct (map snd (map activity_key (activity_rows d owner kind)))"
    by (simp add: comp_def activity_key_def)
  then show ?thesis by (rule distinct_map [THEN iffD1, THEN conjunct1])
qed

definition activity_listing :: "db \<times> uuid \<times> activity_kind \<Rightarrow> (entry_row \<times> instant) list" where
  "activity_listing q =
     (case q of (d, owner, kind) \<Rightarrow> order_rows Desc activity_key (activity_rows d owner kind))"

interpretation activity_pages: paged_query
  "\<lambda>q. activity_ok (fst q) \<and> distinct (map r_id (db_entries (fst q)))"
  activity_listing fetch_activity activity_key
proof (unfold_locales, goal_cases)
  case (1 q n)
  then show ?case
    by (simp add: fetch_activity_def activity_listing_def keyset_page_first split: prod.split)
next
  case (2 q n pre r post)
  then show ?case
    by (auto simp: fetch_activity_def activity_listing_def
        intro!: keyset_page_next distinct_activity_rows split: prod.splits)
qed

end
