(* ===== verification/Account_Frames.thy ===== *)
theory Account_Frames
  imports Content_Description Auth_Safety Activity
begin

text \<open>
  What the authentication and activity use cases leave alone: the tables of the storage
  domain, the outbox and the set of accounts. The one exception is the bootstrap of the
  account, which creates the root folder.
\<close>

definition storage_part where
  "storage_part d = (account_ids d, db_entries d, db_meta d, db_objects d, db_versions d,
     db_thumbnails d, db_previews d, db_uploads d, db_trash d, db_outbox d)"

named_theorems frames \<open>writes outside the storage tables\<close>

lemma frame_add_event [frames]: "add_event ev d = Inr d' \<Longrightarrow> storage_part d' = storage_part d"
  by (auto simp: add_event_def storage_part_def split: if_splits)

lemma tbl_keys_update_at:
  "(\<And>r. P r \<Longrightarrow> key (f r) = key r) \<Longrightarrow> tbl_keys key (tbl_update P f tbl) = tbl_keys key tbl"
  by (induction tbl) (simp_all add: tbl_keys_def)

lemma frame_save_account [frames]: "save_account a d = Inr d' \<Longrightarrow> storage_part d' = storage_part d"
proof -
  let ?t = "tbl_update (\<lambda>r. aa_id r = aa_id a) (\<lambda>r. a\<lparr>aa_created := aa_created r\<rparr>) (db_accounts d)"
  assume "save_account a d = Inr d'"
  then have "d' = d\<lparr>db_accounts := ?t\<rparr>" by (auto simp: save_account_def result_simps split: if_splits)
  moreover have "tbl_keys aa_id ?t = account_ids d" by (rule tbl_keys_update_at) simp
  ultimately show ?thesis by (simp add: storage_part_def)
qed

lemma frame_sessions [frames]:
  "add_session s d = Inr d' \<Longrightarrow> storage_part d' = storage_part d"
  "save_session s d = Inr d' \<Longrightarrow> storage_part d' = storage_part d"
  by (auto simp: add_session_def save_session_def storage_part_def result_simps split: if_splits)

lemma frame_revoke_all: "storage_part (snd (revoke_all_active i now reason d)) = storage_part d"
  by (simp add: revoke_all_active_def Let_def storage_part_def)

lemma frame_rate_limit:
  "storage_part (snd (enforce_rate_limit K i sc su now limit window block d)) = storage_part d"
  by (auto simp: enforce_rate_limit_def rate_consume_def Let_def storage_part_def
      split: sum.splits option.splits prod.splits if_splits)

lemma frame_remove_favorite: "storage_part (snd (remove_favorite owner entry d)) = storage_part d"
  by (simp add: remove_favorite_def storage_part_def)

lemma frame_activity [frames]:
  "add_favorite owner entry t d = Inr (b, d') \<Longrightarrow> storage_part d' = storage_part d"
  "record_recent_open owner entry t d = Inr d' \<Longrightarrow> storage_part d' = storage_part d"
  by (auto simp: add_favorite_def record_recent_open_def storage_part_def
      split: if_splits option.splits)

lemma frame_login_failure [frames]:
  "record_login_failure A c i r n d = Inr d' \<Longrightarrow> storage_part d' = storage_part d"
  by (auto simp: record_login_failure_def dest: frames)

lemma frame_create_session [frames]:
  "create_session A policy c i d = Inr (res, d') \<Longrightarrow> storage_part d' = storage_part d"
  by (auto simp: create_session_def Let_def result_simps dest!: frames)

lemma frame_login_tx: "login_tx A policy c d = Inr (r, d') \<Longrightarrow> storage_part d' = storage_part d"
  by (auto simp: login_tx_def Let_def result_simps split: option.splits if_splits prod.splits dest!: frames)

lemma frame_refresh_tx: "refresh_tx A c claims d = Inr (r, d') \<Longrightarrow> storage_part d' = storage_part d"
  by (auto simp: refresh_tx_def Let_def result_simps split: if_splits dest!: frames)

lemma frame_commit_then_raise:
  "(\<And>r d'. t d = Inr (r, d') \<Longrightarrow> storage_part d' = storage_part d) \<Longrightarrow>
     storage_part (snd (commit_then_raise t d)) = storage_part d"
  by (auto simp: commit_then_raise_def split: sum.splits prod.splits)

lemma frame_run_tx:
  "(\<And>r d'. t d = Inr (r, d') \<Longrightarrow> storage_part d' = storage_part d) \<Longrightarrow>
     storage_part (snd (run_tx t d)) = storage_part d"
  by (rule run_tx_invariant) simp_all

section \<open>The commands\<close>

datatype account_command =
    Login login_cmd | Refresh refresh_cmd | Logout principal string string
  | RevokeAll principal string string | ChangePassword credentials_cmd

fun exec_account :: "auth_services \<Rightarrow> auth_policy \<Rightarrow> account_command \<Rightarrow> db \<Rightarrow> db" where
  "exec_account A policy (Login c) d = snd (login A policy c d)"
| "exec_account A policy (Refresh c) d = snd (refresh_session A policy c d)"
| "exec_account A policy (Logout p ip ua) d = snd (logout A p ip ua d)"
| "exec_account A policy (RevokeAll p ip ua) d = snd (revoke_all_sessions A p ip ua d)"
| "exec_account A policy (ChangePassword c) d = snd (change_admin_password A policy c d)"

lemma exec_account_frame: "storage_part (exec_account A policy c d) = storage_part d"
proof (cases c)
  case (Login c)
  obtain r d1 where lim: "enforce_rate_limit (av_secrets A) (av_ids A 0) ''auth.login''
      (lg_client_ip c @ ''|'' @ normalize_username (av_unicode A) (lg_username c)) (av_now A)
      (ap_login_limit policy) (ap_login_window policy) (ap_login_block policy) d = (r, d1)"
    by fastforce
  then have "storage_part d1 = storage_part d" by (metis frame_rate_limit snd_conv)
  moreover have "storage_part (snd (commit_then_raise (login_tx A policy c) d1)) = storage_part d1"
    by (rule frame_commit_then_raise) (rule frame_login_tx)
  ultimately show ?thesis using Login lim by (simp add: login_def split: sum.splits)
next
  case (Refresh c)
  obtain r d1 where lim: "enforce_rate_limit (av_secrets A) (av_ids A 0) ''auth.refresh'' (rf_client_ip c)
      (av_now A) (ap_refresh_limit policy) (ap_refresh_window policy) (ap_refresh_block policy) d = (r, d1)"
    by fastforce
  then have "storage_part d1 = storage_part d" by (metis frame_rate_limit snd_conv)
  moreover have "storage_part (snd (commit_then_raise (refresh_tx A c claims) d1)) = storage_part d1" for claims
    by (rule frame_commit_then_raise) (rule frame_refresh_tx)
  ultimately show ?thesis using Refresh lim by (simp add: refresh_session_def split: sum.splits)
next
  case (Logout p ip ua)
  then show ?thesis
    by (simp add: logout_def, intro frame_run_tx)
      (auto simp: logout_tx_def result_simps split: option.splits dest!: frames)
next
  case (RevokeAll p ip ua)
  then show ?thesis using frame_revoke_all [of "pr_admin p" "av_now A" RevAdminAction d]
    by (simp add: revoke_all_sessions_def, intro frame_run_tx)
      (auto simp: revoke_all_tx_def result_simps split: prod.splits dest!: frames)
next
  case (ChangePassword c)
  have "storage_part d' = storage_part d" if "change_password_tx A policy c d = Inr (a, d')" for a d'
  proof -
    from that obtain acc d1 ev where s: "save_account acc d = Inr d1"
      and e: "add_event ev (snd (revoke_all_active (aa_id acc) (av_now A) RevPasswordChanged d1)) = Inr d'"
      by (auto simp: change_password_tx_def Let_def result_simps case_prod_beta account_change_password_def
          split: option.splits if_splits)
    show ?thesis
      using frame_save_account [OF s] frame_add_event [OF e]
        frame_revoke_all [of "aa_id acc" "av_now A" RevPasswordChanged d1] by simp
  qed
  with ChangePassword show ?thesis by (simp add: change_admin_password_def frame_run_tx)
qed

datatype activity_command = SetFavorite uuid uuid | UnsetFavorite uuid uuid | RecordOpen uuid uuid

fun exec_activity :: "ports \<Rightarrow> activity_command \<Rightarrow> db \<Rightarrow> db" where
  "exec_activity P (SetFavorite owner entry) d = snd (set_favorite P owner entry d)"
| "exec_activity P (UnsetFavorite owner entry) d = snd (unset_favorite P owner entry d)"
| "exec_activity P (RecordOpen owner entry) d = snd (record_open P owner entry d)"

lemma exec_activity_frame: "storage_part (exec_activity P c d) = storage_part d"
proof (cases c)
  case (SetFavorite owner entry)
  then show ?thesis
    by (simp add: set_favorite_def, intro frame_run_tx)
      (auto simp: set_favorite_tx_def result_simps dest!: frames)
next
  case (UnsetFavorite owner entry)
  then show ?thesis using frame_remove_favorite [of owner entry d]
    by (simp add: unset_favorite_def, intro frame_run_tx)
      (auto simp: unset_favorite_tx_def result_simps split: prod.splits)
next
  case (RecordOpen owner entry)
  then show ?thesis
    by (simp add: record_open_def, intro frame_run_tx)
      (auto simp: record_open_tx_def result_simps dest!: frames)
qed

end
