(* ===== verification/Byte_Ranges.thy ===== *)
theory Byte_Ranges
  imports Header_Text "HOL-Library.Product_Lexorder"
begin

text \<open>
  The \<open>Range\<close> header: \<open>parse_ranges\<close> and \<open>_coalesce_ranges\<close> of
  \<open>app/presentation/file_delivery.py\<close>. \<open>None\<close> stands for \<open>RangeRequestError\<close>.
\<close>

section \<open>Ranges\<close>

record resolved_range =
  rr_start :: int
  rr_end :: int

definition range_length :: "resolved_range \<Rightarrow> int" where
  "range_length r = rr_end r - rr_start r + 1"

definition maximum_ranges :: nat where
  "maximum_ranges = 16"

text \<open>One member: an error, a member that selects nothing, or a range.\<close>

definition resolve_member :: "int \<Rightarrow> string \<Rightarrow> resolved_range option option" where
  "resolve_member size_bytes member =
     (case py_partition (CHR ''-'') (py_strip latin1_space member) of
        (first, separator, last_text) \<Rightarrow>
          if \<not> separator \<or> first = [] \<and> last_text = [] then None
          else if first = []
          then (case py_int last_text of
                  None \<Rightarrow> None
                | Some n \<Rightarrow> if n \<le> 0 then Some None
                    else Some (Some \<lparr>rr_start = max 0 (size_bytes - n), rr_end = size_bytes - 1\<rparr>))
          else (case py_int first of
                  None \<Rightarrow> None
                | Some a \<Rightarrow>
                    if a < 0 \<or> a \<ge> size_bytes then Some None
                    else if last_text = []
                    then Some (Some \<lparr>rr_start = a, rr_end = size_bytes - 1\<rparr>)
                    else (case py_int last_text of
                            None \<Rightarrow> None
                          | Some b \<Rightarrow>
                              (let e = min b (size_bytes - 1)
                               in if e < a then Some None
                                  else Some (Some \<lparr>rr_start = a, rr_end = e\<rparr>)))))"

fun resolve_members :: "int \<Rightarrow> string list \<Rightarrow> resolved_range list option" where
  "resolve_members size_bytes [] = Some []"
| "resolve_members size_bytes (m # ms) =
     (case resolve_member size_bytes m of
        None \<Rightarrow> None
      | Some r \<Rightarrow> map_option (\<lambda>rs. (case r of None \<Rightarrow> rs | Some x \<Rightarrow> x # rs))
                   (resolve_members size_bytes ms))"

definition merge_range :: "resolved_range list \<Rightarrow> resolved_range \<Rightarrow> resolved_range list" where
  "merge_range merged current =
     (if merged \<noteq> [] \<and> rr_start current \<le> rr_end (last merged) + 1
      then butlast merged @ [\<lparr>rr_start = rr_start (last merged),
             rr_end = max (rr_end (last merged)) (rr_end current)\<rparr>]
      else merged @ [current])"

definition coalesce_ranges :: "resolved_range list \<Rightarrow> resolved_range list" where
  "coalesce_ranges ranges = foldl merge_range [] (sort_key (\<lambda>r. (rr_start r, rr_end r)) ranges)"

definition parse_ranges :: "string option \<Rightarrow> int \<Rightarrow> resolved_range list option" where
  "parse_ranges header size_bytes =
     (case header of
        None \<Rightarrow> Some []
      | Some v \<Rightarrow>
          if \<not> py_startswith (map ascii_lower v) ''bytes='' then Some []
          else
            (let members = py_split (CHR '','') (drop 6 v)
             in if members = [] \<or> maximum_ranges < length members \<or> size_bytes = 0 then None
                else (case resolve_members size_bytes members of
                        None \<Rightarrow> None
                      | Some resolved \<Rightarrow>
                          if resolved = [] then None else Some (coalesce_ranges resolved))))"

section \<open>What the parser returns\<close>

definition range_within :: "int \<Rightarrow> resolved_range \<Rightarrow> bool" where
  "range_within size_bytes r \<longleftrightarrow> 0 \<le> rr_start r \<and> rr_start r \<le> rr_end r \<and> rr_end r < size_bytes"

definition range_bytes :: "resolved_range \<Rightarrow> int set" where
  "range_bytes r = {rr_start r..rr_end r}"

lemma resolve_member_within:
  "resolve_member n m = Some (Some r) \<Longrightarrow> 0 < n \<Longrightarrow> range_within n r"
  by (auto simp: resolve_member_def range_within_def Let_def min_def max_def
      split: prod.splits option.splits if_splits)

lemma resolve_members_within:
  "resolve_members n ms = Some rs \<Longrightarrow> 0 < n \<Longrightarrow> r \<in> set rs \<Longrightarrow> range_within n r"
  by (induction ms arbitrary: rs) (auto split: option.splits dest: resolve_member_within)

lemma length_resolve_members: "resolve_members n ms = Some rs \<Longrightarrow> length rs \<le> length ms"
  by (induction ms arbitrary: rs) (fastforce split: option.splits)+

section \<open>Merging\<close>

abbreviation separated :: "resolved_range list \<Rightarrow> bool" where
  "separated \<equiv> sorted_wrt (\<lambda>a b. rr_end a + 1 < rr_start b)"

lemma merge_range_step:
  assumes "separated merged" and "\<forall>r \<in> set merged. range_within n r" and "range_within n c"
    and "merged \<noteq> [] \<longrightarrow> rr_start (last merged) \<le> rr_start c"
  shows "separated (merge_range merged c)" and "\<forall>r \<in> set (merge_range merged c). range_within n r"
    and "rr_start (last (merge_range merged c)) \<le> rr_start c"
    and "\<Union> (range_bytes ` set (merge_range merged c)) = \<Union> (range_bytes ` set merged) \<union> range_bytes c"
proof -
  have "separated (merge_range merged c) \<and> (\<forall>r \<in> set (merge_range merged c). range_within n r)
    \<and> rr_start (last (merge_range merged c)) \<le> rr_start c
    \<and> \<Union> (range_bytes ` set (merge_range merged c)) = \<Union> (range_bytes ` set merged) \<union> range_bytes c"
  proof (cases merged rule: rev_cases)
    case Nil
    with assms show ?thesis by (simp add: merge_range_def)
  next
    case (snoc ms l)
    show ?thesis
    proof (cases "rr_start c \<le> rr_end l + 1")
      case True
      let ?m = "\<lparr>rr_start = rr_start l, rr_end = max (rr_end l) (rr_end c)\<rparr>"
      have e: "merge_range merged c = ms @ [?m]" using snoc True by (simp add: merge_range_def)
      have w: "range_within n l" "rr_start l \<le> rr_start c" using assms(2,4) snoc by auto
      have "range_within n ?m" using w(1) assms(3) by (auto simp: range_within_def)
      moreover have "range_bytes ?m = range_bytes l \<union> range_bytes c"
        using w True assms(3) by (auto simp: range_bytes_def range_within_def)
      moreover have "separated (ms @ [?m])" using assms(1) snoc by (simp add: sorted_wrt_append)
      ultimately show ?thesis unfolding e using assms(2) w(2) by (auto simp: snoc)
    next
      case False
      then have e: "merge_range merged c = merged @ [c]" using snoc by (simp add: merge_range_def)
      have "rr_end a + 1 < rr_start c" if "a \<in> set merged" for a
      proof -
        have "rr_end a \<le> rr_end l"
          using that assms(1,2) snoc by (auto simp: sorted_wrt_append range_within_def)
        with False show ?thesis by linarith
      qed
      with assms e show ?thesis by (auto simp: sorted_wrt_append)
    qed
  qed
  then show "separated (merge_range merged c)" "\<forall>r \<in> set (merge_range merged c). range_within n r"
    "rr_start (last (merge_range merged c)) \<le> rr_start c"
    "\<Union> (range_bytes ` set (merge_range merged c)) = \<Union> (range_bytes ` set merged) \<union> range_bytes c"
    by blast+
qed

lemma merge_range_nonempty [simp]: "merge_range merged c \<noteq> []"
  by (simp add: merge_range_def)

lemma foldl_merge:
  assumes "separated merged" and "\<forall>r \<in> set merged \<union> set rest. range_within n r"
    and "sorted (map rr_start rest)"
    and "merged \<noteq> [] \<longrightarrow> (\<forall>c \<in> set rest. rr_start (last merged) \<le> rr_start c)"
  shows "separated (foldl merge_range merged rest)
    \<and> (\<forall>r \<in> set (foldl merge_range merged rest). range_within n r)
    \<and> \<Union> (range_bytes ` set (foldl merge_range merged rest)) = \<Union> (range_bytes ` (set merged \<union> set rest))"
  using assms
proof (induction rest arbitrary: merged)
  case (Cons c rest)
  have c: "range_within n c" "\<forall>r \<in> set merged. range_within n r"
    "merged \<noteq> [] \<longrightarrow> rr_start (last merged) \<le> rr_start c" using Cons.prems by auto
  note step = merge_range_step [OF Cons.prems(1) c(2,1,3)]
  have "separated (foldl merge_range (merge_range merged c) rest)
    \<and> (\<forall>r \<in> set (foldl merge_range (merge_range merged c) rest). range_within n r)
    \<and> \<Union> (range_bytes ` set (foldl merge_range (merge_range merged c) rest))
      = \<Union> (range_bytes ` (set (merge_range merged c) \<union> set rest))"
    using Cons.prems step by (intro Cons.IH) auto
  moreover have "\<Union> (range_bytes ` (set (merge_range merged c) \<union> set rest)) =
      \<Union> (range_bytes ` (set merged \<union> set (c # rest)))"
    using step(4) by (simp add: image_Un Un_ac)
  ultimately show ?case by simp
qed auto

lemma coalesce_ranges_props:
  assumes "\<forall>r \<in> set ranges. range_within n r"
  shows "separated (coalesce_ranges ranges)" "\<forall>r \<in> set (coalesce_ranges ranges). range_within n r"
    "\<Union> (range_bytes ` set (coalesce_ranges ranges)) = \<Union> (range_bytes ` set ranges)"
proof -
  let ?s = "sort_key (\<lambda>r. (rr_start r, rr_end r)) ranges"
  have "sorted_wrt (\<lambda>a b. (rr_start a, rr_end a) \<le> (rr_start b, rr_end b)) ?s"
    using sorted_sort_key [of "\<lambda>r. (rr_start r, rr_end r)" ranges] by (simp add: sorted_map)
  then have "sorted_wrt (\<lambda>a b. rr_start a \<le> rr_start b) ?s"
    by (rule sorted_wrt_mono_rel [rotated]) (auto simp: less_eq_prod_def)
  then have "sorted (map rr_start ?s)" by (simp add: sorted_map)
  with foldl_merge [of "[]" ?s n] assms
  show "separated (coalesce_ranges ranges)" "\<forall>r \<in> set (coalesce_ranges ranges). range_within n r"
    "\<Union> (range_bytes ` set (coalesce_ranges ranges)) = \<Union> (range_bytes ` set ranges)"
    by (simp_all add: coalesce_ranges_def)
qed

lemma foldl_merge_length: "length (foldl merge_range merged rest) \<le> length merged + length rest"
proof (induction rest arbitrary: merged)
  case (Cons c rest)
  have "length (merge_range merged c) \<le> length merged + 1" by (simp add: merge_range_def)
  with Cons [of "merge_range merged c"] show ?case by simp
qed simp

lemma coalesce_ranges_length: "length (coalesce_ranges ranges) \<le> length ranges"
  using foldl_merge_length [of "[]" "sort_key (\<lambda>r. (rr_start r, rr_end r)) ranges"]
  by (simp add: coalesce_ranges_def)

lemma foldl_merge_nonempty: "rest \<noteq> [] \<or> merged \<noteq> [] \<Longrightarrow> foldl merge_range merged rest \<noteq> []"
  by (induction rest arbitrary: merged) auto

lemma coalesce_ranges_nonempty: "ranges \<noteq> [] \<Longrightarrow> coalesce_ranges ranges \<noteq> []"
  unfolding coalesce_ranges_def
  by (rule foldl_merge_nonempty) (metis length_0_conv length_sort)

end
