(* ===== verification/Downloads.thy ===== *)
theory Downloads
  imports Byte_Ranges File_Store Storage_Actions
begin

text \<open>
  Delivery of files: \<open>PrepareFileDownloadUseCase\<close>
  (\<open>app/application/use_cases/storage/downloads.py\<close>), conditional requests, headers and byte
  streams of \<open>app/presentation/file_delivery.py\<close>, and the route \<open>_download_response\<close> of
  \<open>app/presentation/api/v1/storage.py\<close>. Calendar texts, the floating-point timestamp and the
  NFKD tables are the record \<open>http_env\<close>.
\<close>

section \<open>Calendar and Unicode tables\<close>

record http_env =
  he_format :: "instant \<Rightarrow> string"
  he_parse :: "string \<Rightarrow> instant option"
  he_timestamp_us :: "instant \<Rightarrow> int"
  he_nfkd :: "string \<Rightarrow> string"

text \<open>
  \<open>he_format\<close> is \<open>format_datetime(t, usegmt=True)\<close>, \<open>he_parse\<close> is \<open>_parse_http_date\<close> and
  \<open>he_timestamp_us\<close> is \<open>int(t.timestamp() * 1_000_000)\<close>.
\<close>

section \<open>Preparing a download\<close>

record file_download =
  dl_id :: uuid
  dl_storage_key :: string
  dl_filename :: string
  dl_size :: int
  dl_mime_type :: string
  dl_checksum :: string
  dl_version_number :: int
  dl_updated :: instant

definition prepare_download ::
  "unicode \<Rightarrow> uuid \<Rightarrow> uuid \<Rightarrow> db \<Rightarrow> fs \<Rightarrow> file_download result" where
  "prepare_download U owner file_id d s =
     rbind (get_entry U d file_id False) (\<lambda>oe.
     (case oe of
        None \<Rightarrow> Inl StorageEntryNotFound
      | Some e \<Rightarrow>
          (case e_kind e of
             Folder \<Rightarrow> Inl StorageEntryNotFound
           | File fm \<Rightarrow>
               if e_owner e \<noteq> owner then Inl StorageEntryNotFound
               else
                 rbind (get_current_version U d (e_id e)) (\<lambda>ov.
                 rbind (some_or StorageEntryNotFound ov) (\<lambda>version.
                 rbind (get_storage_object U d (v_object version)) (\<lambda>oo.
                 rbind (some_or StorageEntryNotFound oo) (\<lambda>ob.
                 rbind (require (o_status ob = ObjReady \<and> o_deleted ob = None) StorageEntryNotFound) (\<lambda>_.
                 rbind (stat (o_storage_key ob) s) (\<lambda>physical.
                 rbind (require (case physical of None \<Rightarrow> False | Some p \<Rightarrow> so_size p = fm_size fm)
                   StorageEntryNotFound) (\<lambda>_.
                 Inr \<lparr>dl_id = e_id e, dl_storage_key = o_storage_key ob, dl_filename = e_name e,
                      dl_size = fm_size fm, dl_mime_type = fm_mime_type fm,
                      dl_checksum = fm_checksum fm, dl_version_number = fm_version_number fm,
                      dl_updated = e_updated e\<rparr>))))))))))"

section \<open>Conditional requests\<close>

definition file_etag :: "http_env \<Rightarrow> file_download \<Rightarrow> string" where
  "file_etag E f =
     dquote @ dl_checksum f @ ''-'' @ py_str (dl_version_number f) @ ''-''
       @ py_str (he_timestamp_us E (dl_updated f)) @ dquote"

definition tags :: "string \<Rightarrow> string list" where
  "tags v = map (py_strip latin1_space) (py_split (CHR '','') v)"

definition strong_match :: "string \<Rightarrow> string \<Rightarrow> bool" where
  "strong_match v etag = list_ex (\<lambda>c. c = ''*'' \<or> c = etag) (tags v)"

definition weak_match :: "string \<Rightarrow> string \<Rightarrow> bool" where
  "weak_match v etag =
     list_ex (\<lambda>c. c = ''*'' \<or> py_removeprefix c ''W/'' = py_removeprefix etag ''W/'') (tags v)"

record conditional =
  if_match :: "string option"
  if_none_match :: "string option"
  if_modified_since :: "string option"

definition whole_second :: "instant \<Rightarrow> instant" where
  "whole_second t = t - t mod 1000000"

definition evaluate_preconditions ::
  "http_env \<Rightarrow> string \<Rightarrow> conditional \<Rightarrow> string \<Rightarrow> instant \<Rightarrow> nat option" where
  "evaluate_preconditions E verb c etag last_modified =
     (if (case if_match c of None \<Rightarrow> False | Some v \<Rightarrow> \<not> strong_match v etag) then Some 412
      else
        (case if_none_match c of
           Some v \<Rightarrow>
             if weak_match v etag
             then Some (if verb \<in> {''GET'', ''HEAD''} then 304 else 412) else None
         | None \<Rightarrow>
             (case if_modified_since c of
                None \<Rightarrow> None
              | Some v \<Rightarrow>
                  (case he_parse E v of
                     None \<Rightarrow> None
                   | Some cached_at \<Rightarrow>
                       if whole_second last_modified \<le> cached_at then Some 304 else None))))"

section \<open>Headers\<close>

definition inline_media_types :: "string list" where
  "inline_media_types =
     [''application/pdf'', ''audio/aac'', ''audio/flac'', ''audio/m4a'', ''audio/mpeg'',
      ''audio/mp4'', ''audio/ogg'', ''audio/wav'', ''audio/webm'', ''image/avif'', ''image/gif'',
      ''image/jpeg'', ''image/png'', ''image/webp'', ''video/mp4'', ''video/ogg'',
      ''video/quicktime'', ''video/webm'']"

definition is_inline_media_type :: "unicode \<Rightarrow> string \<Rightarrow> bool" where
  "is_inline_media_type U mime_type \<longleftrightarrow> u_casefold U mime_type \<in> set inline_media_types"

definition safe_header_char :: "char \<Rightarrow> bool" where
  "safe_header_char c \<longleftrightarrow> 32 \<le> char_code c \<and> char_code c < 127 \<and> c \<noteq> CHR 0x22 \<and> c \<noteq> CHR 0x5C"

definition fallback_name :: "http_env \<Rightarrow> string \<Rightarrow> string" where
  "fallback_name E filename =
     (let ascii = filter (\<lambda>c. char_code c < 128) (he_nfkd E filename);
          cleaned = py_strip latin1_space
            (map (\<lambda>c. if safe_header_char c then c else CHR ''_'') ascii)
      in if cleaned = [] then ''download'' else cleaned)"

definition content_disposition :: "http_env \<Rightarrow> string \<Rightarrow> string \<Rightarrow> string" where
  "content_disposition E filename disposition =
     disposition @ ''; filename='' @ dquote @ fallback_name E filename @ dquote
       @ ''; filename*=UTF-8'' @ [CHR 0x27, CHR 0x27] @ quote filename"

type_synonym headers = "(string \<times> string) list"

definition base_download_headers :: "http_env \<Rightarrow> file_download \<Rightarrow> string \<Rightarrow> string \<Rightarrow> headers" where
  "base_download_headers E f etag disposition =
     [(''Accept-Ranges'', ''bytes''), (''ETag'', etag),
      (''Last-Modified'', he_format E (dl_updated f)),
      (''Cache-Control'', ''private, max-age=0, must-revalidate''),
      (''X-Content-Type-Options'', ''nosniff''),
      (''Content-Disposition'', content_disposition E (dl_filename f) disposition)]"

section \<open>Bodies\<close>

definition multipart_boundary :: "string \<Rightarrow> string" where
  "multipart_boundary etag =
     ''drivempvd-'' @ take 32 (py_strip (\<lambda>c. c = CHR 0x22) etag)"

definition content_range :: "resolved_range \<Rightarrow> int \<Rightarrow> string" where
  "content_range r total_size =
     ''bytes '' @ py_str (rr_start r) @ ''-'' @ py_str (rr_end r) @ ''/'' @ py_str total_size"

definition part_header :: "resolved_range \<Rightarrow> string \<Rightarrow> string \<Rightarrow> int \<Rightarrow> bytes" where
  "part_header r boundary mime_type total_size =
     ''--'' @ boundary @ crlf @ ''Content-Type: '' @ mime_type @ crlf
       @ ''Content-Range: '' @ content_range r total_size @ crlf @ crlf"

definition closing_boundary :: "string \<Rightarrow> bytes" where
  "closing_boundary boundary = ''--'' @ boundary @ ''--'' @ crlf"

definition multipart_length :: "resolved_range list \<Rightarrow> string \<Rightarrow> string \<Rightarrow> int \<Rightarrow> int" where
  "multipart_length ranges boundary mime_type total_size =
     sum_list (map (\<lambda>r. int (length (part_header r boundary mime_type total_size))
                         + (range_length r + 2)) ranges)
       + int (length (closing_boundary boundary))"

definition selected :: "resolved_range \<Rightarrow> byte_range" where
  "selected r = \<lparr>br_start = rr_start r, br_end = rr_end r\<rparr>"

text \<open>
  The generator: the chunks it has yielded when it ends and the error it ends with, if any.
\<close>

fun stream_parts ::
  "nat \<Rightarrow> fs \<Rightarrow> file_download \<Rightarrow> string \<Rightarrow> resolved_range list \<Rightarrow> bytes list \<times> error option" where
  "stream_parts block s f boundary [] = ([closing_boundary boundary], None)"
| "stream_parts block s f boundary (r # rs) =
     (let header = part_header r boundary (dl_mime_type f) (dl_size f)
      in case stream_object block (dl_storage_key f) (Some (selected r)) s of
           Inl e \<Rightarrow> ([header], Some e)
         | Inr chunks \<Rightarrow>
             (case stream_parts block s f boundary rs of
                (rest, e) \<Rightarrow> (header # chunks @ crlf # rest, e)))"

definition stream_download ::
  "nat \<Rightarrow> fs \<Rightarrow> file_download \<Rightarrow> resolved_range list \<Rightarrow> string \<Rightarrow> bytes list \<times> error option" where
  "stream_download block s f ranges boundary =
     (case ranges of
        [] \<Rightarrow> (case stream_object block (dl_storage_key f) None s of
                 Inl e \<Rightarrow> ([], Some e) | Inr chunks \<Rightarrow> (chunks, None))
      | [r] \<Rightarrow> (case stream_object block (dl_storage_key f) (Some (selected r)) s of
                 Inl e \<Rightarrow> ([], Some e) | Inr chunks \<Rightarrow> (chunks, None))
      | _ \<Rightarrow> stream_parts block s f boundary ranges)"

section \<open>The response\<close>

datatype response_body = NoBody | ErrorBody string | StreamBody "bytes list" "error option"

record response =
  rs_status :: nat
  rs_headers :: headers
  rs_body :: response_body

record download_request =
  dr_owner :: uuid
  dr_file :: uuid
  dr_head_only :: bool
  dr_inline :: bool
  dr_conditional :: conditional
  dr_range :: "string option"

definition range_headers ::
  "string \<Rightarrow> file_download \<Rightarrow> resolved_range list \<Rightarrow> nat \<times> headers" where
  "range_headers boundary f ranges =
     (case ranges of
        [] \<Rightarrow> (200, [(''Content-Length'', py_str (dl_size f)), (''Content-Type'', dl_mime_type f)])
      | [r] \<Rightarrow> (206, [(''Content-Range'', content_range r (dl_size f)),
                      (''Content-Length'', py_str (range_length r)),
                      (''Content-Type'', dl_mime_type f)])
      | _ \<Rightarrow> (206, [(''Content-Length'',
                     py_str (multipart_length ranges boundary (dl_mime_type f) (dl_size f))),
                    (''Content-Type'', ''multipart/byteranges; boundary='' @ boundary)]))"

definition download_response ::
  "unicode \<Rightarrow> http_env \<Rightarrow> (string \<Rightarrow> string option) \<Rightarrow> nat \<Rightarrow> download_request \<Rightarrow> db \<Rightarrow> fs \<Rightarrow>
     response result" where
  "download_response U E redirect block q d s =
     rbind (prepare_download U (dr_owner q) (dr_file q) d s) (\<lambda>f.
     (let etag = file_etag E f;
          disposition = (if dr_inline q \<and> is_inline_media_type U (dl_mime_type f)
                         then ''inline'' else ''attachment'');
          headers = base_download_headers E f etag disposition;
          boundary = multipart_boundary etag
      in case evaluate_preconditions E (if dr_head_only q then ''HEAD'' else ''GET'')
                (dr_conditional q) etag (dl_updated f) of
           Some status \<Rightarrow>
             Inr \<lparr>rs_status = status, rs_headers = headers,
                  rs_body = (if status = 304 then NoBody
                             else ErrorBody ''http.precondition_failed'')\<rparr>
         | None \<Rightarrow>
             (case parse_ranges (dr_range q) (dl_size f) of
                None \<Rightarrow>
                  Inr \<lparr>rs_status = 416,
                       rs_headers = headers @ [(''Content-Range'', ''bytes */'' @ py_str (dl_size f))],
                       rs_body = ErrorBody ''http.range_not_satisfiable''\<rparr>
              | Some ranges \<Rightarrow>
                  (case range_headers boundary f ranges of
                     (status, extra) \<Rightarrow>
                       (case redirect (dl_storage_key f) of
                          Some uri \<Rightarrow>
                            Inr \<lparr>rs_status = status,
                                 rs_headers = headers @ extra @ [(''X-Accel-Redirect'', uri)],
                                 rs_body = NoBody\<rparr>
                        | None \<Rightarrow>
                            Inr \<lparr>rs_status = status, rs_headers = headers @ extra,
                                 rs_body =
                                   (if dr_head_only q then NoBody
                                    else (case stream_download block s f ranges boundary of
                                            (chunks, e) \<Rightarrow> StreamBody chunks e))\<rparr>)))))"

text \<open>\<open>ApplicationStreamDeliveryProvider\<close> never redirects.\<close>

definition no_redirect :: "string \<Rightarrow> string option" where
  "no_redirect key = None"

section \<open>What is streamed\<close>

definition range_slice :: "bytes \<Rightarrow> resolved_range \<Rightarrow> bytes" where
  "range_slice c r = take (nat (range_length r)) (drop (nat (rr_start r)) c)"

definition multipart_body :: "bytes \<Rightarrow> file_download \<Rightarrow> string \<Rightarrow> resolved_range list \<Rightarrow> bytes" where
  "multipart_body c f boundary ranges =
     concat (map (\<lambda>r. part_header r boundary (dl_mime_type f) (dl_size f) @ range_slice c r @ crlf) ranges)
       @ closing_boundary boundary"

definition expected_body :: "bytes \<Rightarrow> file_download \<Rightarrow> string \<Rightarrow> resolved_range list \<Rightarrow> bytes" where
  "expected_body c f boundary ranges =
     (case ranges of [] \<Rightarrow> c | [r] \<Rightarrow> range_slice c r | _ \<Rightarrow> multipart_body c f boundary ranges)"

lemma stream_object_all:
  assumes "object_content s key = Some c" and "0 < block"
  shows "\<exists>chunks. stream_object block key None s = Inr chunks \<and> concat chunks = c"
  using assms read_blocks_concat [OF assms(2), of None c]
  by (auto simp: object_content_def stream_object_def stream_path_def split: sum.splits)

lemma stream_object_range:
  assumes "object_content s key = Some c" and "0 < block" and "range_within n r"
  shows "\<exists>chunks. stream_object block key (Some (selected r)) s = Inr chunks \<and> concat chunks = range_slice c r"
  using assms
    read_blocks_concat [OF assms(2), of "Some (nat (range_length r))" "drop (nat (rr_start r)) c"]
  by (auto simp: object_content_def stream_object_def stream_path_def selected_def range_slice_def
      range_within_def range_length_def split: sum.splits)

lemma stream_parts_content:
  assumes "object_content s (dl_storage_key f) = Some c" and "0 < block"
    and "\<forall>r \<in> set ranges. range_within n r"
  shows "\<exists>chunks. stream_parts block s f boundary ranges = (chunks, None)
    \<and> concat chunks = multipart_body c f boundary ranges"
  using assms(3)
proof (induction ranges)
  case Nil
  then show ?case by (simp add: multipart_body_def)
next
  case (Cons r rs)
  then obtain chunks where "stream_parts block s f boundary rs = (chunks, None)"
    "concat chunks = multipart_body c f boundary rs" by auto
  moreover obtain part where "stream_object block (dl_storage_key f) (Some (selected r)) s = Inr part"
    "concat part = range_slice c r"
    using stream_object_range [OF assms(1,2), of n r] Cons.prems by auto
  ultimately show ?case by (simp add: multipart_body_def Let_def)
qed

lemma stream_download_content:
  assumes "object_content s (dl_storage_key f) = Some c" and "0 < block"
    and "\<forall>r \<in> set ranges. range_within n r"
  shows "\<exists>chunks. stream_download block s f ranges boundary = (chunks, None)
    \<and> concat chunks = expected_body c f boundary ranges"
proof -
  consider "ranges = []" | r where "ranges = [r]" | r q rs where "ranges = r # q # rs"
    by (metis neq_Nil_conv)
  then show ?thesis
  proof cases
    case 1
    with stream_object_all [OF assms(1,2)] show ?thesis
      by (auto simp: stream_download_def expected_body_def)
  next
    case 2
    with stream_object_range [OF assms(1,2), of n r] assms(3) show ?thesis
      by (auto simp: stream_download_def expected_body_def)
  next
    case 3
    with stream_parts_content [OF assms] show ?thesis
      by (auto simp: stream_download_def expected_body_def simp del: stream_parts.simps)
  qed
qed

lemma length_range_slice:
  "range_within (int (length c)) r \<Longrightarrow> int (length (range_slice c r)) = range_length r"
  by (auto simp: range_slice_def range_within_def range_length_def)

lemma length_crlf [simp]: "length crlf = 2"
  by (simp add: crlf_def)

lemma length_multipart_body:
  assumes "\<forall>r \<in> set ranges. range_within (int (length c)) r"
  shows "int (length (multipart_body c f boundary ranges)) =
    multipart_length ranges boundary (dl_mime_type f) (dl_size f)"
  using assms
proof (induction ranges)
  case (Cons r rs)
  with length_range_slice [of c r] show ?case
    by (simp add: multipart_body_def multipart_length_def)
qed (simp add: multipart_body_def multipart_length_def)

lemma range_headers_length:
  assumes "\<forall>r \<in> set ranges. range_within (int (length c)) r" and "dl_size f = int (length c)"
    and "range_headers boundary f ranges = (status, extra)"
  shows "(''Content-Length'', py_str (int (length (expected_body c f boundary ranges)))) \<in> set extra"
proof -
  consider "ranges = []" | r where "ranges = [r]" | r q rs where "ranges = r # q # rs"
    by (metis neq_Nil_conv)
  then show ?thesis
  proof cases
    case 1
    with assms show ?thesis by (auto simp: range_headers_def expected_body_def)
  next
    case 2
    with assms length_range_slice [of c r] show ?thesis
      by (auto simp: range_headers_def expected_body_def)
  next
    case 3
    with assms length_multipart_body [OF assms(1), of f boundary] show ?thesis
      by (auto simp: range_headers_def expected_body_def)
  qed
qed

lemma parse_ranges_D:
  assumes "parse_ranges h n = Some rs" and "0 \<le> n"
  shows "\<forall>r \<in> set rs. range_within n r" and "separated rs" and "length rs \<le> 16"
    and "rs \<noteq> [] \<Longrightarrow> \<exists>v resolved. h = Some v \<and> resolve_members n (py_split (CHR '','') (drop 6 v)) = Some resolved
        \<and> \<Union> (range_bytes ` set rs) = \<Union> (range_bytes ` set resolved)"
proof -
  have "rs = [] \<or> (\<exists>v ms resolved. h = Some v \<and> ms = py_split (CHR '','') (drop 6 v) \<and> length ms \<le> 16 \<and> 0 < n
      \<and> resolve_members n ms = Some resolved \<and> rs = coalesce_ranges resolved)"
    using assms by (auto simp: parse_ranges_def Let_def maximum_ranges_def split: option.splits if_splits)
  then have "(\<forall>r \<in> set rs. range_within n r) \<and> separated rs \<and> length rs \<le> 16
    \<and> (rs \<noteq> [] \<longrightarrow> (\<exists>v resolved. h = Some v \<and> resolve_members n (py_split (CHR '','') (drop 6 v)) = Some resolved
        \<and> \<Union> (range_bytes ` set rs) = \<Union> (range_bytes ` set resolved)))"
  proof
    assume "\<exists>v ms resolved. h = Some v \<and> ms = py_split (CHR '','') (drop 6 v) \<and> length ms \<le> 16 \<and> 0 < n
      \<and> resolve_members n ms = Some resolved \<and> rs = coalesce_ranges resolved"
    then obtain v ms resolved where h: "h = Some v" "ms = py_split (CHR '','') (drop 6 v)"
      and ms: "length ms \<le> 16" "0 < n" "resolve_members n ms = Some resolved"
      and rs: "rs = coalesce_ranges resolved" by blast
    have "\<forall>r \<in> set resolved. range_within n r" using resolve_members_within [OF ms(3,2)] by blast
    note P = coalesce_ranges_props [OF this]
    have "length rs \<le> 16"
      using coalesce_ranges_length [of resolved] length_resolve_members [OF ms(3)] ms(1) by (simp add: rs)
    with P h ms rs show ?thesis by auto
  qed simp
  then show "\<forall>r \<in> set rs. range_within n r" "separated rs" "length rs \<le> 16"
    "rs \<noteq> [] \<Longrightarrow> \<exists>v resolved. h = Some v \<and> resolve_members n (py_split (CHR '','') (drop 6 v)) = Some resolved
        \<and> \<Union> (range_bytes ` set rs) = \<Union> (range_bytes ` set resolved)"
    by blast+
qed

lemma prepare_download_D:
  assumes "prepare_download U owner i d s = Inr f"
  shows "\<exists>e fm v ob. get_entry U d i False = Inr (Some e) \<and> e_kind e = File fm \<and> e_owner e = owner
    \<and> get_current_version U d (e_id e) = Inr (Some v)
    \<and> get_storage_object U d (v_object v) = Inr (Some ob) \<and> o_status ob = ObjReady \<and> o_deleted ob = None
    \<and> (\<exists>p. stat (o_storage_key ob) s = Inr (Some p) \<and> so_size p = fm_size fm)
    \<and> dl_storage_key f = o_storage_key ob \<and> dl_size f = fm_size fm \<and> dl_checksum f = fm_checksum fm
    \<and> dl_id f = e_id e \<and> dl_updated f = e_updated e"
proof -
  from assms obtain oe where g: "get_entry U d i False = Inr oe" and oe: "oe \<noteq> None"
    by (auto simp: prepare_download_def rbind_eq_Inr split: option.splits)
  from oe obtain e where e: "oe = Some e" by blast
  with assms g obtain fm where fm: "e_kind e = File fm"
    by (cases "e_kind e") (simp_all add: prepare_download_def)
  with assms g e show ?thesis
    by (auto simp: prepare_download_def result_simps some_or_eq_Inr split: if_splits option.splits)
qed

lemma stat_object_content:
  assumes "stat key s = Inr (Some p)" and "object_content s key = Some c" and "is_object_key key"
  shows "so_size p = int (length c)"
proof -
  from assms(3) obtain q where q: "key_path key = Inr q" "q \<noteq> []"
    by (auto simp: is_object_key_def object_key_path)
  with assms show ?thesis
    by (auto simp: stat_def object_content_def is_dir_def fs_file_def result_simps
        split: option.splits fs_node.splits if_splits)
qed

section \<open>Validators\<close>

lemma dec_plain: "c \<in> set (dec n) \<Longrightarrow> c \<notin> {CHR '','', CHR ''-''} \<and> \<not> latin1_space c"
  using dec_digits [of c n] by (auto simp: latin1_space_def Let_def)

lemma py_str_plain: "c \<in> set (py_str n) \<Longrightarrow> c \<noteq> CHR '','' \<and> \<not> latin1_space c"
  by (auto simp: py_str_def latin1_space_def Let_def dest: dec_plain split: if_splits)

lemma hex_plain: "c \<in> set hex_digits \<Longrightarrow> c \<noteq> CHR '','' \<and> \<not> latin1_space c"
  by (auto simp: hex_digits_def latin1_space_def Let_def)

lemma etag_plain:
  assumes "valid_sha256 (dl_checksum f)" and "c \<in> set (file_etag E f)"
  shows "c \<noteq> CHR '','' \<and> \<not> latin1_space c"
proof -
  have "c \<in> set (dl_checksum f) \<Longrightarrow> c \<in> set hex_digits"
    using assms(1) by (auto simp: valid_sha256_def)
  moreover have "c = CHR 0x22 \<or> c = CHR ''-'' \<or> c \<in> set (dl_checksum f)
      \<or> c \<in> set (py_str (dl_version_number f)) \<or> c \<in> set (py_str (he_timestamp_us E (dl_updated f)))"
    using assms(2) by (auto simp: file_etag_def dquote_def)
  ultimately show ?thesis
    using hex_plain py_str_plain by (auto simp: latin1_space_def Let_def)
qed

lemma tags_etag: "valid_sha256 (dl_checksum f) \<Longrightarrow> tags (file_etag E f) = [file_etag E f]"
proof -
  assume v: "valid_sha256 (dl_checksum f)"
  have "CHR '','' \<notin> set (file_etag E f)" using etag_plain [OF v] by blast
  moreover have "py_strip latin1_space (file_etag E f) = file_etag E f"
    using etag_plain [OF v] by (intro strip_latin1) blast
  ultimately show ?thesis by (simp add: tags_def py_split_single)
qed

lemma dec_inject: "dec m = dec n \<Longrightarrow> m = n"
  using py_digits_dec [of 0 False m "[]"] py_digits_dec [of 0 False n "[]"] by simp

lemma takeWhile_dec: "takeWhile (\<lambda>c. c \<noteq> CHR ''-'') (dec n @ CHR ''-'' # rest) = dec n"
  using dec_plain [of _ n] by (subst takeWhile_append2) auto

lemma etag_inject:
  assumes "file_etag E f = file_etag E g" and "valid_sha256 (dl_checksum f)" "valid_sha256 (dl_checksum g)"
    and "0 \<le> dl_version_number f" "0 \<le> dl_version_number g"
  shows "dl_checksum f = dl_checksum g \<and> dl_version_number f = dl_version_number g"
proof -
  have "length (dl_checksum f) = length (dl_checksum g)" using assms(2,3) by (simp add: valid_sha256_def)
  with assms(1) have sum: "dl_checksum f = dl_checksum g"
    and rest: "py_str (dl_version_number f) @ ''-'' @ py_str (he_timestamp_us E (dl_updated f)) @ dquote =
      py_str (dl_version_number g) @ ''-'' @ py_str (he_timestamp_us E (dl_updated g)) @ dquote"
    by (auto simp: file_etag_def)
  from rest assms(4,5) have "dec (nat (dl_version_number f)) = dec (nat (dl_version_number g))"
    using takeWhile_dec by (simp add: py_str_def) metis
  with assms(4,5) dec_inject show ?thesis using sum by (metis eq_nat_nat_iff)
qed

text \<open>
  The validator a download hands out works when it comes back. With the current entity tag
  in If-None-Match a GET or HEAD is answered 304 whatever the date header says; the tag in
  If-Match lets the request through to the remaining conditions; and the tag of a file with
  another checksum or version number in If-Match is refused with 412.
\<close>

theorem etag_revalidation:
  assumes "valid_sha256 (dl_checksum f)" and "0 \<le> dl_version_number f"
    and "valid_sha256 (dl_checksum g)" and "0 \<le> dl_version_number g"
    and "dl_checksum g \<noteq> dl_checksum f \<or> dl_version_number g \<noteq> dl_version_number f"
  shows "evaluate_preconditions E ''GET'' \<lparr>if_match = None, if_none_match = Some (file_etag E f),
            if_modified_since = date\<rparr> (file_etag E f) updated = Some 304
    \<and> evaluate_preconditions E verb \<lparr>if_match = Some (file_etag E f), if_none_match = None,
            if_modified_since = None\<rparr> (file_etag E f) updated = None
    \<and> evaluate_preconditions E verb \<lparr>if_match = Some (file_etag E g), if_none_match = inm,
            if_modified_since = date\<rparr> (file_etag E f) updated = Some 412"
proof -
  have "file_etag E g \<noteq> file_etag E f" using etag_inject [of E g f] assms by blast
  moreover have "hd (file_etag E g) = CHR 0x22" by (simp add: file_etag_def dquote_def)
  then have "file_etag E g \<noteq> ''*''" by auto
  ultimately show ?thesis
    using tags_etag [OF assms(1), of E] tags_etag [OF assms(3), of E]
    by (simp add: evaluate_preconditions_def strong_match_def weak_match_def)
qed

definition sample_env :: http_env where
  "sample_env = \<lparr>he_format = (\<lambda>t. py_str (t div 1000000)), he_parse = (\<lambda>v. map_option (\<lambda>n. n * 1000000) (py_int v)),
     he_timestamp_us = (\<lambda>t. t), he_nfkd = (\<lambda>v. v)\<rparr>"

definition sample_download :: "int \<Rightarrow> file_download" where
  "sample_download n = \<lparr>dl_id = 1, dl_storage_key = ''objects/00/01'', dl_filename = ''a.txt'', dl_size = 5,
     dl_mime_type = ''text/plain'', dl_checksum = replicate 64 (CHR ''a''), dl_version_number = n,
     dl_updated = 7\<rparr>"

theorem etag_revalidation_witness:
  "evaluate_preconditions sample_env ''GET'' \<lparr>if_match = None,
      if_none_match = Some (file_etag sample_env (sample_download 1)), if_modified_since = Some ''0''\<rparr>
      (file_etag sample_env (sample_download 1)) 7 = Some 304
    \<and> evaluate_preconditions sample_env ''GET'' \<lparr>if_match = Some (file_etag sample_env (sample_download 2)),
      if_none_match = None, if_modified_since = Some ''0''\<rparr> (file_etag sample_env (sample_download 1)) 7 = Some 412"
proof -
  have "valid_sha256 (dl_checksum (sample_download n))" for n
    by (simp add: sample_download_def valid_sha256_def hex_digits_def)
  then show ?thesis
    using etag_revalidation [of "sample_download 1" "sample_download 2" sample_env "Some ''0''" 7 "''GET''" None]
    by (simp add: sample_download_def)
qed

section \<open>Delivery\<close>

text \<open>
  What a successful GET streams is exactly what its headers announce. The ranges parsed from
  the request lie inside the file, are in ascending order and apart from each other; the
  streamed chunks concatenate to the whole content, the single slice, or the multipart body of
  the slices, without an error; and Content-Length is the length of that body.
\<close>

theorem download_delivers:
  assumes "prepare_download U (dr_owner q) (dr_file q) d s = Inr f"
    and "object_content s (dl_storage_key f) = Some c" and "is_object_key (dl_storage_key f)"
    and "0 < block" and "\<not> dr_head_only q"
    and "download_response U E no_redirect block q d s = Inr resp" and "rs_status resp \<in> {200, 206}"
  shows "\<exists>ranges chunks. parse_ranges (dr_range q) (int (length c)) = Some ranges
    \<and> separated ranges \<and> (\<forall>r \<in> set ranges. range_within (int (length c)) r)
    \<and> rs_body resp = StreamBody chunks None
    \<and> concat chunks = expected_body c f (multipart_boundary (file_etag E f)) ranges
    \<and> (''Content-Length'', py_str (int (length (concat chunks)))) \<in> set (rs_headers resp)"
proof -
  let ?b = "multipart_boundary (file_etag E f)"
  from prepare_download_D [OF assms(1)] stat_object_content [OF _ assms(2,3)]
  have size: "dl_size f = int (length c)" by fastforce
  from assms(1,5,6,7) obtain ranges where ranges: "parse_ranges (dr_range q) (dl_size f) = Some ranges"
    and resp: "rs_headers resp = base_download_headers E f (file_etag E f)
          (if dr_inline q \<and> is_inline_media_type U (dl_mime_type f) then ''inline'' else ''attachment'')
        @ snd (range_headers ?b f ranges)"
      "rs_body resp = (case stream_download block s f ranges ?b of (chunks, e) \<Rightarrow> StreamBody chunks e)"
    by (auto simp: download_response_def Let_def no_redirect_def evaluate_preconditions_def
        split: option.splits prod.splits if_splits)
  note P = parse_ranges_D [OF ranges [unfolded size], simplified]
  obtain chunks where chunks: "stream_download block s f ranges ?b = (chunks, None)"
    "concat chunks = expected_body c f ?b ranges"
    using stream_download_content [OF assms(2,4) P(1)] by blast
  have "(''Content-Length'', py_str (int (length (concat chunks)))) \<in> set (rs_headers resp)"
    using range_headers_length [OF P(1) size, of ?b "fst (range_headers ?b f ranges)"
        "snd (range_headers ?b f ranges)"] by (simp add: chunks(2) resp(1))
  with ranges size P(1,2) chunks resp(2) show ?thesis by auto
qed

text \<open>
  C30: a Range header never makes the server send a byte twice or one that was not asked for.
  The parsed ranges are within the file, ascending with a gap between neighbours, at most 16,
  and together they cover exactly the bytes of the satisfiable members of the header.
\<close>

theorem parse_ranges_exact:
  assumes "parse_ranges (Some v) n = Some ranges" and "0 \<le> n" and "ranges \<noteq> []"
  shows "\<exists>members. resolve_members n (py_split (CHR '','') (drop 6 v)) = Some members
    \<and> \<Union> (range_bytes ` set ranges) = \<Union> (range_bytes ` set members)
    \<and> separated ranges \<and> (\<forall>r \<in> set ranges. range_within n r) \<and> length ranges \<le> 16"
  using parse_ranges_D [OF assms(1,2)] assms(3) by auto

lemma parse_ranges_exact_witness:
  "\<exists>members. resolve_members 10 [''0-2'', '' 2-5'', ''-1''] = Some members
    \<and> \<Union> (range_bytes ` set [\<lparr>rr_start = 0, rr_end = 5\<rparr>, \<lparr>rr_start = 9, rr_end = 9\<rparr>]) =
        \<Union> (range_bytes ` set members)"
proof -
  have "parse_ranges (Some ''Bytes=0-2, 2-5,-1'') 10 =
      Some [\<lparr>rr_start = 0, rr_end = 5\<rparr>, \<lparr>rr_start = 9, rr_end = 9\<rparr>]"
    by code_simp
  moreover have "py_split (CHR '','') (drop 6 ''Bytes=0-2, 2-5,-1'') = [''0-2'', '' 2-5'', ''-1'']"
    by code_simp
  ultimately show ?thesis
    using parse_ranges_exact [of "''Bytes=0-2, 2-5,-1''" 10] by auto
qed

end
