(* ===== verification/System.thy ===== *)
theory System
  imports Account_Frames Downloads
begin

text \<open>
  The whole drive: every use case as a step on the database and the file store, the states
  that can be reached from an empty installation, and what holds in all of them.
\<close>

section \<open>Steps outside the storage domain\<close>

lemma same_part_system_ok:
  assumes "storage_part d' = storage_part d" and "system_ok sha d s"
  shows "system_ok sha d' s"
  using assms
  by (auto simp: storage_part_def system_ok_def store_ok_def storage_ok_def rows_ok_def table_ok_defs
      version_check_def upload_check_def trash_check_def files_ok_def assets_ok_def bytes_ok_def
      live_keys_def pending_deletes_def integrity_def uploads_fresh_def)

lemma same_part_described: "storage_part d' = storage_part d \<Longrightarrow> described d \<Longrightarrow> described d'"
  by (simp add: storage_part_def described_def versions_described_def files_described_def)

text \<open>The account is created on a drive without entries.\<close>

lemma no_account_no_rows:
  assumes "storage_ok d" and "db_accounts d = []"
  shows "db_entries d = []" and "db_meta d = []" and "db_versions d = []" and "db_uploads d = []"
    and "db_trash d = []"
proof -
  have none: "account_ids d = {}" using assms(2) by (simp add: tbl_keys_def)
  have "\<forall>r \<in> set (db_entries d). r_owner r \<in> account_ids d"
    using storage_okD(5) [OF assms(1)] by (simp add: entries_ok_def entry_row_check_def)
  then show ent: "db_entries d = []" unfolding none by (cases "db_entries d") auto
  have "\<forall>m \<in> set (db_meta d). m_entry m \<in> entry_ids d"
    using storage_okD(8) [OF assms(1)] by (simp add: meta_ok_def)
  then show "db_meta d = []" by (cases "db_meta d") (auto simp: ent tbl_keys_def)
  have "\<forall>v \<in> set (db_versions d). v_created_by v \<in> account_ids d"
    using storage_okD(9) [OF assms(1)] by (simp add: versions_ok_def version_check_def)
  then show "db_versions d = []" unfolding none by (cases "db_versions d") auto
  have "\<forall>u \<in> set (db_uploads d). us_owner u \<in> account_ids d"
    using storage_okD(11) [OF assms(1)] by (simp add: uploads_ok_def upload_check_def)
  then show "db_uploads d = []" unfolding none by (cases "db_uploads d") auto
  have "\<forall>t \<in> set (db_trash d). ti_deleted_by t \<in> account_ids d"
    using storage_okD(12) [OF assms(1)] by (simp add: trash_ok_def trash_check_def)
  then show "db_trash d = []" unfolding none by (cases "db_trash d") auto
qed

lemma bootstrap_tx_D:
  assumes "bootstrap_tx A policy c d = Inr (a, d')"
  obtains e ev where "db_accounts d = []" "e_kind e = Folder" "e_parent e = None" "e_deleted e = None"
    "entries_ok {aa_id a} (db_entries d @ [entry_model e])" "e_owner e = aa_id a"
    "d' = d\<lparr>db_accounts := [a], db_entries := db_entries d @ [entry_model e], db_events := db_events d @ [ev]\<rparr>"
proof -
  from assms obtain e d1 d2 where
    add: "add_account a d = Inr d1" "add_folder e d1 = Inr d2"
    and e: "e_kind e = Folder" "e_parent e = None" "e_deleted e = None" "e_owner e = aa_id a"
    and ev: "add_event (create_security_event A (av_ids A 2) AdminCreated ''local-bootstrap'' ''cli''
      (Some (aa_id a)) None no_details) d2 = Inr d'"
    by (auto simp: bootstrap_tx_def Let_def result_simps new_account_def)
  from add(1) have d1: "db_accounts d = []" "d1 = d\<lparr>db_accounts := [a]\<rparr>"
    by (auto simp: add_account_def result_simps accounts_ok_def)
  from add(2) have d2: "d2 = d1\<lparr>db_entries := db_entries d1 @ [entry_model e]\<rparr>"
    "entries_ok (account_ids d1) (db_entries d1 @ [entry_model e])"
    by (auto simp: add_folder_def add_entry_row_def result_simps)
  have "account_ids d1 = {aa_id a}" by (simp add: d1 tbl_keys_def)
  with that [OF d1(1) e(1,2,3) _ e(4)] d1 d2 add_event_eq_Inr [OF ev] show ?thesis by simp
qed

lemma bootstrap_ok:
  assumes ok: "system_ok sha d s" and run: "bootstrap_tx A policy c d = Inr (a, d')"
  shows "system_ok sha d' s" and "described d'"
proof -
  from run obtain e ev where none: "db_accounts d = []"
    and e: "e_kind e = Folder" "e_parent e = None" "e_deleted e = None"
    and ent: "entries_ok {aa_id a} (db_entries d @ [entry_model e])"
    and d': "d' = d\<lparr>db_accounts := [a], db_entries := db_entries d @ [entry_model e],
      db_events := db_events d @ [ev]\<rparr>"
    by (rule bootstrap_tx_D)
  have st: "storage_ok d" "assets_ok d" "bytes_ok object_content is_object_key d s" "integrity sha d s"
    using ok by (simp_all add: system_ok_def store_ok_def)
  note empty = no_account_no_rows [OF st(1) none]
  have "tree_wf ([] @ [entry_model e])" by (rule tree_wf_insert) (simp_all add: e tbl_keys_def)
  then have "storage_ok d'"
    using storage_okD(10) [OF st(1)] ent e empty
    by (simp add: storage_ok_def rows_ok_def table_ok_defs d' files_ok_def trash_covers_def tbl_keys_def)
  moreover have "assets_ok d'" "bytes_ok object_content is_object_key d' s" "integrity sha d' s"
    using st(2,3,4)
    by (simp_all add: assets_ok_def bytes_ok_def integrity_def live_keys_def pending_deletes_def d')
  moreover have "uploads_fresh d'" by (simp add: uploads_fresh_def d' empty)
  ultimately show "system_ok sha d' s" by (simp add: system_ok_def store_ok_def)
  show "described d'"
    by (simp add: described_def versions_described_def files_described_def d' empty)
qed

section \<open>The system as a transition relation\<close>

text \<open>
  A step is one call of one use case, whatever its arguments and whether it succeeds or not.
  An upload starts under an identifier that no object and no deletion request has used
  before, which is what the identifier generator provides.
\<close>

inductive drive_step :: "(bytes \<Rightarrow> string) \<Rightarrow> db \<times> fs \<Rightarrow> db \<times> fs \<Rightarrow> bool" for sha where
  Bootstrap: "drive_step sha (d, s) (snd (bootstrap_admin A ap cr d), s)"
| Account: "drive_step sha (d, s) (exec_account A ap ac d, s)"
| Favourites: "drive_step sha (d, s) (exec_activity P fc d, s)"
| Tree: "drive_step sha (d, s) (exec_tree P tc d, s)"
| Start: "p_ids P 0 < 2 ^ 128 \<Longrightarrow> object_key (p_ids P 0) \<notin> live_keys d \<union> pending_deletes d \<Longrightarrow>
     start_upload P policy su d s = (r1, d', s') \<Longrightarrow> drive_step sha (d, s) (d', s')"
| Append: "append_upload P S policy au d s = (r2, d', s') \<Longrightarrow> drive_step sha (d, s) (d', s')"
| Complete: "sv_sha256 S = sha \<Longrightarrow> 0 < sv_block_size S \<Longrightarrow>
     complete_upload P S policy ou d s = (r3, d', s') \<Longrightarrow> drive_step sha (d, s) (d', s')"
| Cancel: "cancel_upload P ou d s = (r4, d', s') \<Longrightarrow> drive_step sha (d, s) (d', s')"
| Cleanup: "process_storage_outbox delete_object P locked pc d s = (r5, n, d', s') \<Longrightarrow>
     drive_step sha (d, s) (d', s')"

definition drive_ok :: "(bytes \<Rightarrow> string) \<Rightarrow> db \<Rightarrow> fs \<Rightarrow> bool" where
  "drive_ok sha d s \<longleftrightarrow> system_ok sha d s \<and> described d"

lemma shrinks_uploads:
  "insert_upload u d = Inr d' \<Longrightarrow> shrinks_files d d'"
  "save_upload_session u d = Inr d' \<Longrightarrow> shrinks_files d d'"
  by (auto simp: insert_upload_def save_upload_session_def Let_def shrinks_files_def split: if_splits)

lemma described_start: "start_upload P policy c d s = (r, d', s') \<Longrightarrow> described d \<Longrightarrow> described d'"
  by (auto simp: start_upload_def Let_def split: sum.splits prod.splits
      intro: described_shrink shrinks_uploads)

lemma described_append: "append_upload P S policy c d s = (r, d', s') \<Longrightarrow> described d \<Longrightarrow> described d'"
  by (auto simp: append_upload_def record_chunk_def Let_def result_simps split: sum.splits prod.splits
      intro: described_shrink shrinks_uploads)

lemma described_cancel: "cancel_upload P c d s = (r, d', s') \<Longrightarrow> described d \<Longrightarrow> described d'"
  by (auto simp: cancel_upload_def cancel_tx_def Let_def result_simps split: sum.splits prod.splits
      intro: described_shrink shrinks_uploads)

lemma described_complete:
  "complete_upload P S policy c d s = (r, d', s') \<Longrightarrow> described d \<Longrightarrow> storage_ok d \<Longrightarrow> described d'"
  by (auto simp: complete_upload_def split: sum.splits prod.splits intro: record_completion_described)

lemma drive_step_ok:
  assumes "drive_step sha x y" and "drive_ok sha (fst x) (snd x)"
  shows "drive_ok sha (fst y) (snd y)"
  using assms
proof (induction rule: drive_step.induct)
  case (Bootstrap d s A ap cr)
  then show ?case
    by (auto simp: drive_ok_def bootstrap_admin_def run_tx_def split: sum.splits intro: bootstrap_ok)
next
  case (Account d s A ap ac)
  then show ?case
    using same_part_system_ok same_part_described exec_account_frame by (simp add: drive_ok_def)
next
  case (Favourites d s P fc)
  then show ?case
    using same_part_system_ok same_part_described exec_activity_frame by (simp add: drive_ok_def)
next
  case (Tree d s P tc)
  then show ?case
    using system_ok_tree [of sha d s P tc] exec_tree_described [of d P tc]
    by (simp add: drive_ok_def system_ok_def store_ok_def)
next
  case (Complete S P policy ou d s r3 d' s')
  then have "storage_ok d" by (simp add: drive_ok_def system_ok_def store_ok_def)
  with Complete show ?case
    by (auto simp: drive_ok_def intro: described_complete) (metis system_ok_complete)
next
  case (Cleanup P locked pc d s r5 n d' s')
  then show ?case
    using system_ok_cleanup [of sha d s P locked pc r5 n d' s'] only_detaches_described
    by (auto simp: drive_ok_def)
qed (auto simp: drive_ok_def intro: system_ok_start system_ok_append system_ok_cancel
    described_start described_append described_cancel)

inductive drive_reachable :: "(bytes \<Rightarrow> string) \<Rightarrow> db \<times> fs \<Rightarrow> bool" for sha where
  Installed: "drive_reachable sha (empty_db, \<lparr>fs_nodes = [], fs_dir_size = n\<rparr>)"
| Step: "drive_reachable sha x \<Longrightarrow> drive_step sha x y \<Longrightarrow> drive_reachable sha y"

lemma drive_ok_empty: "drive_ok sha empty_db s"
  using storage_ok_empty [of "[]"]
  by (simp add: drive_ok_def system_ok_def store_ok_def described_def)
    (simp add: assets_ok_def bytes_ok_def integrity_def uploads_fresh_def live_keys_def
      pending_deletes_def empty_db_def tbl_keys_def versions_described_def files_described_def)

lemma drive_reachable_ok: "drive_reachable sha x \<Longrightarrow> drive_ok sha (fst x) (snd x)"
  by (induction rule: drive_reachable.induct) (simp_all add: drive_ok_empty drive_step_ok)

section \<open>Objects never change\<close>

lemma drive_step_content:
  assumes "drive_step sha (d, s) (d', s')" and "drive_ok sha d s"
    and "k \<in> live_keys d" and "k \<in> live_keys d'"
  shows "object_content s' k = object_content s k"
proof -
  have ok: "system_ok sha d s" and valid: "is_object_key k"
    using assms(2,3) by (simp_all add: drive_ok_def system_ok_def store_ok_def bytes_ok_def)
  from assms(1) show ?thesis
  proof (cases rule: drive_step.cases)
    case (Start P policy su r1)
    from start_same_objects [OF Start(3)] valid show ?thesis by (simp add: same_objects_def)
  next
    case (Append P S policy au r2)
    from append_same_objects [OF Append] valid show ?thesis by (simp add: same_objects_def)
  next
    case (Complete S P policy ou r3)
    from complete_upload_content [OF ok Complete(2,3) assms(3)] show ?thesis .
  next
    case (Cancel P ou r4)
    from cancel_same_objects [OF Cancel] valid show ?thesis by (simp add: same_objects_def)
  next
    case (Cleanup P locked pc r5 n)
    from system_ok_cleanup(2) [OF ok Cleanup assms(4)] show ?thesis .
  qed simp_all
qed

end
