(* ===== verification/Samples.thy ===== *)
theory Samples
  imports System
begin

text \<open>
  A concrete drive: the parameters of the model instantiated by small functions, and a run
  from the empty installation to a folder with one uploaded file. The witnesses of the
  properties use its states.
\<close>

section \<open>Parameters\<close>

definition sample_ports :: "nat \<Rightarrow> ports" where
  "sample_ports k = \<lparr>p_unicode = ascii_unicode, p_now = int k, p_db_now = int k,
     p_ids = (\<lambda>n. sample_id (10 * k + n))\<rparr>"

text \<open>A digest that depends on the content: its length in unary, padded.\<close>

definition sample_sha :: "bytes \<Rightarrow> string" where
  "sample_sha content = take 64 (replicate (length content) (CHR ''1'') @ replicate 64 (CHR ''0''))"

definition sample_upload_services :: upload_services where
  "sample_upload_services = \<lparr>sv_sha256 = sample_sha, sv_guess_type = (\<lambda>_. None), sv_virus_scan = None,
     sv_write_buffer = 4, sv_block_size = 2, sv_faults = no_faults\<rparr>"

definition sample_upload_policy :: upload_policy where
  "sample_upload_policy = \<lparr>up_maximum_file_size = 100, up_maximum_chunk_size = 50,
     up_maximum_logical_path_length = 500, up_session_ttl = 1000, up_allowed_extensions = [],
     up_blocked_extensions = [''exe''], up_allowed_mime_types = []\<rparr>"

definition sample_hasher :: password_hasher where
  "sample_hasher = \<lparr>ph_hash = (\<lambda>p. ''h'' @ p), ph_verify = (\<lambda>h p. h = ''h'' @ p), ph_needs_rehash = (\<lambda>_. False)\<rparr>"

definition sample_jwt_settings :: jwt_settings where
  "sample_jwt_settings = \<lparr>jw_access_secret = ''a'', jw_refresh_secret = ''r'', jw_issuer = ''drive'',
     jw_audience = ''web'', jw_access_ttl = 900\<rparr>"

definition sample_auth :: "nat \<Rightarrow> auth_services" where
  "sample_auth k = \<lparr>av_unicode = ascii_unicode, av_secrets = \<lparr>sc_hmac = (\<lambda>key m. take 64 (key @ m)), sc_key = ''k''\<rparr>,
     av_hasher = sample_hasher, av_jwt = \<lparr>jl_encode = (\<lambda>p s. s), jl_decode = (\<lambda>_ _ _ _ _. None)\<rparr>,
     av_tokens = sample_jwt_settings, av_csrf = ''csrf'', av_now = int k, av_ids = (\<lambda>n. sample_id (10 * k + n))\<rparr>"

definition sample_auth_policy :: auth_policy where
  "sample_auth_policy = \<lparr>ap_refresh_ttl = 1000, ap_maximum_failed = 3, ap_account_lock = 60, ap_login_limit = 5,
     ap_login_window = 60, ap_login_block = 120, ap_refresh_limit = 5, ap_refresh_window = 60,
     ap_refresh_block = 120, ap_minimum_password = 4\<rparr>"

section \<open>The run\<close>

named_theorems run_defs \<open>definitions unfolded to run the sample\<close>

lemmas [run_defs] = rbind_def require_def some_or_def Let_def run_tx_def tbl_keys_def
  sample_ports_def sample_auth_def sample_auth_policy_def sample_upload_policy_def

lemma sample_texts [run_defs]:
  "entry_name_create ascii_unicode ''Drive'' = Inr \<lparr>en_value = ''Drive'', en_normalized = ''drive''\<rparr>"
  "entry_name_create ascii_unicode ''Docs'' = Inr \<lparr>en_value = ''Docs'', en_normalized = ''docs''\<rparr>"
  "entry_name_create ascii_unicode ''a.txt'' = Inr \<lparr>en_value = ''a.txt'', en_normalized = ''a.txt''\<rparr>"
  "entry_name_extension ascii_unicode \<lparr>en_value = ''a.txt'', en_normalized = ''a.txt''\<rparr> = ''txt''"
  "canonical_mime ascii_unicode ''text/plain'' = Inr ''text/plain''"
  "normalize_username ascii_unicode ''Ann'' = ''ann''"
  "py_strip (u_is_space ascii_unicode) ''Ann'' = ''Ann''"
  "ph_hash sample_hasher ''secret'' = ''hsecret''"
  "sample_sha ''hello'' = ''1111100000000000000000000000000000000000000000000000000000000000''"
  "detect_mime (\<lambda>_. None) ''hello'' ''a.txt'' = ''text/plain''"
  "sha256_create ascii_unicode ''1111100000000000000000000000000000000000000000000000000000000000'' =
    Inr ''1111100000000000000000000000000000000000000000000000000000000000''"
  "valid_sha256 ''1111100000000000000000000000000000000000000000000000000000000000''"
  "coalesced 4 \<lparr>bs_chunks = [''hel'', ''lo''], bs_error = None\<rparr> = [''hell'', ''o'']"
  "read_blocks 2 None ''hello'' = [''he'', ''ll'', ''o'']"
  by code_simp+

lemma sample_services_simps [run_defs]:
  "sv_sha256 sample_upload_services = sample_sha" "sv_guess_type sample_upload_services = (\<lambda>_. None)"
  "sv_virus_scan sample_upload_services = None" "sv_write_buffer sample_upload_services = 4"
  "sv_block_size sample_upload_services = 2" "sv_faults sample_upload_services = no_faults"
  by (simp_all add: sample_upload_services_def)

lemma sample_inspect [run_defs]:
  "inspect_stream sample_upload_services [''he'', ''ll'', ''o''] = (sample_sha ''hello'', 5, ''hello'')"
  by (simp add: inspect_stream_def inspection_prefix_size_def sample_upload_services_def)

subsection \<open>The account and its root folder\<close>

definition sample_credentials :: credentials_cmd where
  "sample_credentials = \<lparr>cc_username = ''Ann'', cc_password = ''secret''\<rparr>"

definition sample_account :: admin_account where
  "sample_account = new_account (sample_auth 1) sample_credentials"

definition sample_event :: security_event where
  "sample_event = create_security_event (sample_auth 1) (sample_id 12) AdminCreated ''local-bootstrap'' ''cli''
     (Some (sample_id 10)) None no_details"

definition folder_row :: "nat \<Rightarrow> nat option \<Rightarrow> string \<Rightarrow> string \<Rightarrow> instant \<Rightarrow> entry_row" where
  "folder_row i p name norm t = \<lparr>r_id = sample_id i, r_owner = sample_id 10, r_parent = map_option sample_id p,
     r_type = FolderType, r_name = name, r_normalized = norm, r_created = t, r_updated = t, r_deleted = None\<rparr>"

definition db1 :: db where
  "db1 = empty_db\<lparr>db_accounts := [sample_account], db_events := [sample_event],
     db_entries := [folder_row 11 None ''Drive'' ''drive'' 1]\<rparr>"

lemmas [run_defs] = sample_account_def sample_event_def folder_row_def empty_db_def sample_credentials_def
  new_account_def password_length_ok_def get_single_def add_account_def write_accounts_def accounts_ok_def
  account_check_def add_folder_def add_entry_row_def write_entries_def entry_model_def entries_ok_def
  entry_row_check_def sibling_keys_def root_owners_def add_event_def create_security_event_def
  secret_fingerprint_def no_details_def

lemma sample_bootstrap:
  "bootstrap_admin (sample_auth 1) sample_auth_policy sample_credentials empty_db = (Inr sample_account, db1)"
  by (simp add: bootstrap_admin_def bootstrap_tx_def db1_def run_defs)

subsection \<open>A folder\<close>

definition db2 :: db where
  "db2 = db1\<lparr>db_entries := [folder_row 11 None ''Drive'' ''drive'' 1, folder_row 20 (Some 11) ''Docs'' ''docs'' 2]\<rparr>"

lemmas [run_defs] = get_folder_def get_entry_def to_entry_def storage_entry_from_models_def require_folder_def
  require_owned_def ensure_name_available_def name_exists_def new_folder_def

lemma sample_create_folder:
  "exec_tree (sample_ports 2) (CreateFolder \<lparr>cf_owner = sample_id 10, cf_parent = sample_id 11, cf_name = ''Docs''\<rparr>) db1 = db2"
  by (simp add: create_folder_def create_folder_tx_def db1_def db2_def run_defs)

subsection \<open>An upload\<close>

definition fs0 :: fs where
  "fs0 = \<lparr>fs_nodes = [], fs_dir_size = 4096\<rparr>"

definition sample_start :: start_cmd where
  "sample_start = \<lparr>su_owner = sample_id 10, su_parent = sample_id 20, su_filename = ''a.txt'', su_expected_size = 5,
     su_declared_mime = ''text/plain''\<rparr>"

definition upload_row :: "int \<Rightarrow> upload_status \<Rightarrow> string option \<Rightarrow> instant \<Rightarrow> upload_session" where
  "upload_row n st digest t = \<lparr>us_id = sample_id 30, us_owner = sample_id 10, us_parent = sample_id 20,
     us_original_name = ''a.txt'', us_internal_name = uuid_str (sample_id 30) @ ''.txt'', us_expected_size = 5,
     us_uploaded_bytes = n, us_mime_type = Some ''text/plain'', us_extension = ''txt'', us_checksum = digest,
     us_staging_key = uuid_str (sample_id 30), us_status = st, us_expires = 1003, us_created = 3, us_updated = t\<rparr>"

definition db3 :: db where
  "db3 = db2\<lparr>db_uploads := [upload_row 0 Created None 3]\<rparr>"

definition fs3 :: fs where
  "fs3 = \<lparr>fs_nodes = [(staging_path (sample_id 30), RegFile [] 3), ([''objects''], DirNode), ([''staging''], DirNode)],
     fs_dir_size = 4096\<rparr>"

lemmas [run_defs] = start_upload_def start_checks_def sample_start_def validate_start_policy_def
  logical_path_length_def ancestor_cte_def new_upload_def create_upload_def mkdirs_def fs_get_def fs_put_def
  staging_path_def fs0_def insert_upload_def upload_check_def bigint_def upload_row_def upload_dto_def length_uuid_str

lemma sample_start_upload:
  "start_upload (sample_ports 3) sample_upload_policy sample_start db2 fs0 =
    (Inr (upload_dto (upload_row 0 Created None 3)), db3, fs3)"
  by (simp add: db1_def db2_def db3_def fs3_def run_defs)

definition sample_append :: append_cmd where
  "sample_append = \<lparr>au_owner = sample_id 10, au_upload = sample_id 30, au_offset = 0,
     au_body = \<lparr>bs_chunks = [''hel'', ''lo''], bs_error = None\<rparr>\<rparr>"

definition db4 :: db where
  "db4 = db2\<lparr>db_uploads := [upload_row 5 Uploading None 4]\<rparr>"

definition fs4 :: fs where
  "fs4 = \<lparr>fs_nodes = [(staging_path (sample_id 30), RegFile ''hello'' 4), ([''objects''], DirNode), ([''staging''], DirNode)],
     fs_dir_size = 4096\<rparr>"

lemmas [run_defs] = append_upload_def append_checks_def require_upload_def require_writable_def get_upload_session_def tbl_count_def
  sample_append_def append_chunk_def fs_file_def no_faults_def record_chunk_def record_progress_def save_upload_session_def
  bounded_stream_def

lemma sample_append_upload:
  "append_upload (sample_ports 4) sample_upload_services sample_upload_policy sample_append db3 fs3 =
    (Inr \<lparr>cr_upload = sample_id 30, cr_offset = 5, cr_received = 5, cr_sha256 = sample_sha ''hello''\<rparr>, db4, fs4)"
  by (simp add: db1_def db2_def db3_def fs3_def db4_def fs4_def run_defs)

definition sample_complete :: owned_upload_cmd where
  "sample_complete = \<lparr>ou_owner = sample_id 10, ou_upload = sample_id 30\<rparr>"

definition sample_digest :: string where
  "sample_digest = sample_sha ''hello''"

definition sample_metadata :: file_metadata where
  "sample_metadata = \<lparr>fm_original_name = ''a.txt'', fm_internal_name = uuid_str (sample_id 30) @ ''.txt'', fm_size = 5,
     fm_mime_type = ''text/plain'', fm_extension = ''txt'', fm_checksum = sample_digest, fm_version_number = 1\<rparr>"

definition sample_object :: storage_object where
  "sample_object = \<lparr>o_id = sample_id 51, o_storage_key = object_key (sample_id 30), o_size = 5, o_mime_type = ''text/plain'',
     o_checksum = sample_digest, o_status = ObjReady, o_created = 5, o_updated = 5, o_deleted = None\<rparr>"

definition file_row :: entry_row where
  "file_row = \<lparr>r_id = sample_id 50, r_owner = sample_id 10, r_parent = Some (sample_id 20), r_type = FileType,
     r_name = ''a.txt'', r_normalized = ''a.txt'', r_created = 5, r_updated = 5, r_deleted = None\<rparr>"

definition sample_version :: file_version where
  "sample_version = \<lparr>v_id = sample_id 52, v_file = sample_id 50, v_object = sample_id 51, v_number = 1,
      v_original_name = ''a.txt'', v_size = 5, v_mime_type = ''text/plain'', v_extension = ''txt'',
      v_checksum = sample_digest, v_created_by = sample_id 10, v_created = 5\<rparr>"

definition db5 :: db where
  "db5 = db2\<lparr>db_uploads := [upload_row 5 Completed (Some sample_digest) 5],
     db_entries := db_entries db2 @ [file_row], db_meta := [\<lparr>m_entry = sample_id 50, m_data = sample_metadata\<rparr>],
     db_objects := [sample_object], db_versions := [sample_version]\<rparr>"

definition object_path :: path where
  "object_path = [''objects'', take 2 (uuid_hex (sample_id 30)), take 2 (drop 2 (uuid_hex (sample_id 30))), uuid_str (sample_id 30)]"

definition fs5 :: fs where
  "fs5 = \<lparr>fs_nodes = [(object_path, RegFile ''hello'' 4), (take 3 object_path, DirNode), (take 2 object_path, DirNode),
      ([''objects''], DirNode), ([''staging''], DirNode)], fs_dir_size = 4096\<rparr>"

lemma sample_key_path [run_defs]: "key_path (object_key (sample_id 30)) = Inr object_path"
  using object_key_path [of "sample_id 30"] by (simp add: object_path_def)

lemmas [run_defs] = complete_checks_def stream_upload_def stream_path_def upload_size_def validate_mime_def

lemma sample_complete_checks:
  "complete_checks (sample_ports 5) sample_upload_services sample_upload_policy sample_complete db4 fs4 =
    Inr \<lparr>in_upload = upload_row 5 Uploading None 4, in_checksum = sample_digest, in_size = 5,
          in_mime = ''text/plain'', in_name = \<lparr>en_value = ''a.txt'', en_normalized = ''a.txt''\<rparr>\<rparr>"
  by (simp add: db1_def db2_def db4_def fs4_def sample_complete_def sample_digest_def run_defs)

lemmas [run_defs] = complete_upload_def publish_upload_def is_dir_def os_replace_def fs_remove_def
  record_completion_def upload_complete_def insert_object_def object_check_def add_file_def insert_meta_def
  meta_row_check_def insert_version_def version_check_def completed_object_def completed_file_def
  completed_metadata_def completed_version_def storage_object_post_init_def file_post_init_def file_version_post_init_def

lemma length_object_key [run_defs]: "length (object_key u) = 50"
  by (simp add: object_key_def Let_def length_uuid_hex length_uuid_str)

lemma object_key_nonempty [run_defs]: "object_key u \<noteq> []"
  by (simp add: object_key_def Let_def)

lemma sample_complete_upload:
  "complete_upload (sample_ports 5) sample_upload_services sample_upload_policy sample_complete db4 fs4 =
    (Inr (entry_to_dto \<lparr>e_id = sample_id 50, e_owner = sample_id 10, e_parent = Some (sample_id 20), e_name = ''a.txt'',
        e_normalized = ''a.txt'', e_created = 5, e_updated = 5, e_deleted = None, e_kind = File sample_metadata\<rparr> False),
     db5, fs5)"
  unfolding complete_upload_def sample_complete_checks
  by (auto simp: db1_def db2_def db4_def db5_def fs4_def fs5_def sample_digest_def sample_metadata_def file_row_def
    sample_object_def sample_version_def object_path_def run_defs)

subsection \<open>Trash, purge\<close>

definition trash_row :: trash_item where
  "trash_row = \<lparr>ti_id = sample_id 60, ti_entry = sample_id 20, ti_original_parent = sample_id 11,
     ti_deleted_by = sample_id 10, ti_trashed_at = 6\<rparr>"

definition db6 :: db where
  "db6 = db5\<lparr>db_entries := [folder_row 11 None ''Drive'' ''drive'' 1,
      (folder_row 20 (Some 11) ''Docs'' ''docs'' 2)\<lparr>r_deleted := Some 6\<rparr>, file_row\<lparr>r_deleted := Some 6\<rparr>],
      db_trash := [trash_row]\<rparr>"

definition sample_trash :: trash_cmd where
  "sample_trash = \<lparr>tr_owner = sample_id 10, tr_entry = sample_id 20\<rparr>"

lemmas [run_defs] = sample_digest_def sample_metadata_def sample_object_def file_row_def sample_version_def
  trash_row_def sample_trash_def soft_delete_subtree_def update_subtree_deletion_def subtree_cte_def child_ids_def
  insert_trash_def trash_check_def get_trash_item_def get_trash_item_by_entry_def trash_to_dto_def
  entry_move_to_trash_def

lemma sample_trash_entry: "trash_entry (sample_ports 6) sample_trash db5 = (Inr (trash_to_dto trash_row), db6)"
  by (auto simp: trash_entry_def trash_entry_tx_def db1_def db2_def db5_def db6_def run_defs)

definition sample_purge :: purge_cmd where
  "sample_purge = \<lparr>pg_owner = sample_id 10, pg_trash_item = sample_id 60\<rparr>"

definition sweep_event :: outbox_row where
  "sweep_event = \<lparr>ob_id = sample_id 70, ob_aggregate_id = sample_id 20, ob_aggregate_type = ''storage.entry'',
     ob_event_type = orphan_sweep_requested, ob_occurred = 7,
     ob_payload = [(''purged_entry_id'', JStr (uuid_str (sample_id 20)))], ob_processed = None, ob_attempts = 0,
     ob_last_error = None, ob_created = 7, ob_updated = 7, ob_deleted = None\<rparr>"

definition db7 :: db where
  "db7 = db1\<lparr>db_objects := [sample_object], db_outbox := [sweep_event]\<rparr>"

lemmas [run_defs] = sample_purge_def sweep_event_def hard_delete_subtree_def cascade_entries_def remove_trash_item_def
  outbox_add_def insert_outbox_def outbox_check_def orphan_sweep_requested_def object_delete_requested_def

lemma sample_permanently_delete: "permanently_delete (sample_ports 7) sample_purge db6 = (Inr 2, db7)"
  by (auto simp: permanently_delete_def permanently_delete_tx_def db1_def db2_def db5_def db6_def db7_def run_defs)

section \<open>The run is a run of the drive\<close>

lemma sample_id_range: "k < 2 ^ 76 \<Longrightarrow> sample_id k < 2 ^ 128"
  by (simp add: sample_id_def)

lemma sample_reachable:
  shows "drive_reachable sample_sha (db2, fs0)" and "drive_reachable sample_sha (db4, fs4)"
    and "drive_reachable sample_sha (db5, fs5)" and "drive_reachable sample_sha (db6, fs5)"
    and "drive_reachable sample_sha (db7, fs5)" and "drive_reachable sample_sha (db3, fs3)"
proof -
  have r0: "drive_reachable sample_sha (empty_db, fs0)" unfolding fs0_def by (rule Installed)
  have r1: "drive_reachable sample_sha (db1, fs0)"
    using drive_reachable.Step [OF r0 Bootstrap [of sample_sha empty_db fs0 "sample_auth 1" sample_auth_policy sample_credentials]]
    unfolding sample_bootstrap by simp
  show r2: "drive_reachable sample_sha (db2, fs0)"
    using drive_reachable.Step [OF r1 Tree] by (metis sample_create_folder)
  have "object_key (p_ids (sample_ports 3) 0) \<notin> live_keys db2 \<union> pending_deletes db2"
    by (simp add: db2_def db1_def empty_db_def live_keys_def pending_deletes_def tbl_keys_def)
  moreover have "p_ids (sample_ports 3) 0 < 2 ^ 128" by (simp add: sample_ports_def sample_id_def)
  ultimately show r3: "drive_reachable sample_sha (db3, fs3)"
    using drive_reachable.Step [OF r2 Start [OF _ _ sample_start_upload]] by blast
  show r4: "drive_reachable sample_sha (db4, fs4)"
    by (rule drive_reachable.Step [OF r3 Append [OF sample_append_upload]])
  show r5: "drive_reachable sample_sha (db5, fs5)"
    by (rule drive_reachable.Step [OF r4 Complete [OF _ _ sample_complete_upload]])
      (simp_all add: sample_services_simps)
  show r6: "drive_reachable sample_sha (db6, fs5)"
    using drive_reachable.Step [OF r5 Tree [where P = "sample_ports 6" and tc = "MoveToTrash sample_trash"]]
    by (simp add: sample_trash_entry)
  show "drive_reachable sample_sha (db7, fs5)"
    using drive_reachable.Step [OF r6 Tree [where P = "sample_ports 7" and tc = "Purge sample_purge"]]
    by (simp add: sample_permanently_delete)
qed

end
