(* ===== verification/Drive_Properties.thy ===== *)
theory Drive_Properties
  imports Samples
begin

text \<open>
  What holds of the drive as a whole, in every state that can be reached from an empty
  installation by any calls in any order.
\<close>

lemma reachable_parts:
  assumes "drive_reachable sha (d, s)"
  shows "storage_ok d" "described d" "system_ok sha d s" "integrity sha d s"
    "bytes_ok object_content is_object_key d s"
  using drive_reachable_ok [OF assms] by (simp_all add: drive_ok_def system_ok_def store_ok_def)

text \<open>What the invariant says of a version and of a file.\<close>

lemma ok_version_bytes:
  assumes "drive_ok sha d s" and "current_of d x fm v"
  shows "\<exists>ob \<in> set (db_objects d). o_id ob = v_object v
    \<and> (\<exists>c. object_content s (o_storage_key ob) = Some c \<and> fm_size fm = int (length c) \<and> fm_checksum fm = sha c)"
proof -
  have ok: "system_ok sha d s" "described d" using assms(1) by (simp_all add: drive_ok_def)
  have "v \<in> set (db_versions d)" using assms(2) by (simp add: current_of_def)
  from version_bytes [OF ok(1) this] obtain ob c where ob: "ob \<in> set (db_objects d)" "o_id ob = v_object v"
    and c: "object_content s (o_storage_key ob) = Some c" "o_size ob = int (length c)" "o_checksum ob = sha c"
    by blast
  from described_current(3) [OF ok(2) assms(2) ob] c ob show ?thesis by auto
qed

lemma ok_file_bytes:
  assumes "drive_ok sha d s" and "r \<in> set (db_entries d)" and "r_type r = FileType"
  shows "\<exists>fm v ob c. current_of d (r_id r) fm v \<and> ob \<in> set (db_objects d) \<and> o_id ob = v_object v
    \<and> object_content s (o_storage_key ob) = Some c \<and> fm_size fm = int (length c) \<and> fm_checksum fm = sha c"
proof -
  have "storage_ok d" using assms(1) by (simp add: drive_ok_def system_ok_def store_ok_def)
  then have "files_ok d" by (rule storage_okD(3))
  with assms(2,3) have "r_id r \<in> tbl_keys m_entry (db_meta d)"
    and refs: "\<forall>m \<in> set (db_meta d). (m_entry m, fm_version_number (m_data m))
      \<in> tbl_keys (\<lambda>v. (v_file v, v_number v)) (db_versions d)"
    by (simp_all add: files_ok_def)
  then obtain m where m: "m \<in> set (db_meta d)" "m_entry m = r_id r" by (auto simp: tbl_keys_def)
  with refs obtain v where "v \<in> set (db_versions d)" "v_file v = r_id r" "v_number v = fm_version_number (m_data m)"
    by (force simp: tbl_keys_def)
  moreover have "m = \<lparr>m_entry = r_id r, m_data = m_data m\<rparr>" using m(2) by (cases m) simp
  ultimately have "current_of d (r_id r) (m_data m) v" using m(1) by (simp add: current_of_def)
  with ok_version_bytes [OF assms(1) this] show ?thesis by blast
qed

section \<open>The tree\<close>

text \<open>
  C1: the tree is sound in every reachable state. Parents never form a cycle; every entry that is
  not the root hangs below an existing folder of its owner, an active one below an active one;
  no two active siblings have the same normalized name; and every deleted entry lies at or below
  a deleted entry that has a tombstone, so it can be found again.
\<close>

theorem reachable_tree_sound:
  assumes "drive_reachable sha (d, s)"
  shows "acyclic (parent_rel (db_entries d))
    \<and> (\<forall>r \<in> set (db_entries d). \<forall>p. r_parent r = Some p \<longrightarrow>
         (\<exists>q \<in> set (db_entries d). r_id q = p \<and> r_type q = FolderType \<and> r_owner q = r_owner r
            \<and> (r_deleted r = None \<longrightarrow> r_deleted q = None)))
    \<and> distinct (sibling_keys (db_entries d))
    \<and> trash_covers (db_entries d) (db_trash d)"
  using storage_okD(2,4,5) [OF reachable_parts(1) [OF assms]]
  by (simp add: tree_wf_def entries_ok_def)

theorem reachable_tree_sound_witness:
  "acyclic (parent_rel (db_entries db5)) \<and> trash_covers (db_entries db5) (db_trash db5)"
  using reachable_tree_sound [OF sample_reachable(3)] by simp

lemma ancestor_rows_above:
  "ancestor_rows n tbl x = Some rows \<Longrightarrow> r \<in> set rows \<Longrightarrow> r \<in> set tbl \<and> (x, r_id r) \<in> (parent_rel tbl)\<^sup>*"
proof (induction n tbl x arbitrary: rows rule: ancestor_rows.induct)
  case (2 n tbl x)
  show ?case
  proof (cases "tbl_find r_id x tbl")
    case None
    with "2.prems" show ?thesis by simp
  next
    case (Some q)
    then have q: "q \<in> set tbl" "r_id q = x" by (auto dest: tbl_find_Some_D)
    show ?thesis
    proof (cases "r_parent q")
      case None
      with "2.prems" Some q show ?thesis by auto
    next
      case p: (Some p)
      with "2.prems"(1) Some obtain more_rows where up: "ancestor_rows n tbl p = Some more_rows" "rows = q # more_rows" by auto
      have "(x, p) \<in> parent_rel tbl" using q p by (auto simp: parent_rel_def)
      with "2.IH" [OF Some p up(1)] "2.prems"(2) up(2) q show ?thesis
        by (auto intro: converse_rtrancl_into_rtrancl)
    qed
  qed
qed simp

text \<open>
  C28: the recursive queries end. In every reachable state the subtree query returns within as many
  rounds as there are entries and one more, with exactly the entries at or below its start, and the
  upward query returns rows above its start; so no move, copy, trash, restore or purge can hang on
  the tree.
\<close>

theorem tree_queries_end:
  assumes "drive_reachable sha (d, s)"
  shows "(\<exists>l. subtree_cte (db_entries d) x = Some l \<and> fst ` set l = descendants (db_entries d) x)
    \<and> (\<exists>rows. ancestor_cte (db_entries d) x = Some rows
         \<and> (\<forall>r \<in> set rows. r \<in> set (db_entries d) \<and> (x, r_id r) \<in> (parent_rel (db_entries d))\<^sup>*))"
proof -
  have ac: "acyclic (parent_rel (db_entries d))"
    using storage_okD(2) [OF reachable_parts(1) [OF assms]] by (rule tree_wfD)
  obtain l where l: "subtree_cte (db_entries d) x = Some l" using subtree_cte_terminates [OF ac] by blast
  have "ancestor_count (db_entries d) x < Suc (length (db_entries d))"
    using ancestor_count_le by (simp add: less_Suc_eq_le)
  from ancestor_rows_terminates [OF ac this] obtain rows where rows: "ancestor_cte (db_entries d) x = Some rows"
    by (auto simp: ancestor_cte_def)
  have "\<forall>r \<in> set rows. r \<in> set (db_entries d) \<and> (x, r_id r) \<in> (parent_rel (db_entries d))\<^sup>*"
    using rows [unfolded ancestor_cte_def] ancestor_rows_above by blast
  with l subtree_cte_set [OF l] rows show ?thesis by blast
qed

theorem tree_queries_end_witness:
  "\<exists>l. subtree_cte (db_entries db5) (sample_id 20) = Some l \<and> fst ` set l = descendants (db_entries db5) (sample_id 20)"
  using tree_queries_end [OF sample_reachable(3), of "sample_id 20"] by blast

section \<open>Files and their bytes\<close>

text \<open>
  C2: no file is ever lost. For every file entry of a reachable state, active or in the trash, the
  metadata, the current version and the object it names exist, the bytes of the object are in
  the store, and their length and SHA-256 are the ones the metadata shows to the user.
\<close>

theorem reachable_files_intact:
  assumes "drive_reachable sha (d, s)" and "r \<in> set (db_entries d)" and "r_type r = FileType"
  shows "\<exists>fm v ob c. current_of d (r_id r) fm v \<and> ob \<in> set (db_objects d) \<and> o_id ob = v_object v
    \<and> object_content s (o_storage_key ob) = Some c \<and> fm_size fm = int (length c) \<and> fm_checksum fm = sha c"
  using ok_file_bytes [OF _ assms(2,3)] drive_reachable_ok [OF assms(1)] by simp

theorem reachable_files_intact_witness:
  "\<exists>fm v ob c. current_of db5 (sample_id 50) fm v \<and> ob \<in> set (db_objects db5) \<and> o_id ob = v_object v
    \<and> object_content fs5 (o_storage_key ob) = Some c \<and> fm_size fm = int (length c) \<and> fm_checksum fm = sample_sha c"
proof -
  have "file_row \<in> set (db_entries db5)" "r_type file_row = FileType" "r_id file_row = sample_id 50"
    by (simp_all add: db5_def file_row_def)
  with reachable_files_intact [OF sample_reachable(3), of file_row] show ?thesis by simp
qed

text \<open>
  C3: bytes are immutable. No call of any use case changes the content of an object that exists
  before and after it, whether the call succeeds or fails.
\<close>

theorem objects_immutable:
  assumes "drive_reachable sha (d, s)" and "drive_step sha (d, s) (d', s')"
    and "k \<in> live_keys d" and "k \<in> live_keys d'"
  shows "object_content s' k = object_content s k \<and> object_content s k \<noteq> None"
  using drive_step_content [OF assms(2) _ assms(3,4)] drive_reachable_ok [OF assms(1)]
    reachable_parts(5) [OF assms(1)] assms(3)
  by (simp add: bytes_ok_def)

theorem objects_immutable_witness:
  "object_content fs5 (object_key (sample_id 30)) \<noteq> None
    \<and> object_key (sample_id 30) \<in> live_keys (exec_tree (sample_ports 6)
        (MoveToTrash \<lparr>tr_owner = sample_id 10, tr_entry = sample_id 50\<rparr>) db5)"
proof -
  let ?d = "exec_tree (sample_ports 6) (MoveToTrash \<lparr>tr_owner = sample_id 10, tr_entry = sample_id 50\<rparr>) db5"
  have live: "object_key (sample_id 30) \<in> live_keys db5"
    by (simp add: live_keys_def tbl_keys_def db5_def sample_object_def)
  moreover have "live_keys ?d = live_keys db5"
    using exec_tree_keeps [OF reachable_parts(1) [OF sample_reachable(3)]]
    by (simp add: keeps_objects_def live_keys_def del: exec_tree.simps)
  ultimately show ?thesis
    using objects_immutable [OF sample_reachable(3) Tree, of "object_key (sample_id 30)"] by blast
qed

section \<open>Downloads\<close>

text \<open>
  C5: a download delivers the file. In every reachable state, a GET that is answered 200 or 206
  streams, without an error, the whole content, the requested slice or the multipart body of
  the requested slices of bytes whose SHA-256 and length are those of the metadata; the ranges lie
  inside the file and apart from each other, and Content-Length is the length of what is sent.
\<close>

theorem download_delivers_the_file:
  assumes "drive_reachable sha (d, s)"
    and "prepare_download U (dr_owner q) (dr_file q) d s = Inr f" and "0 < block" and "\<not> dr_head_only q"
    and "download_response U E no_redirect block q d s = Inr resp" and "rs_status resp \<in> {200, 206}"
  shows "\<exists>c ranges chunks. sha c = dl_checksum f \<and> int (length c) = dl_size f
    \<and> parse_ranges (dr_range q) (int (length c)) = Some ranges
    \<and> separated ranges \<and> (\<forall>r \<in> set ranges. range_within (int (length c)) r)
    \<and> rs_body resp = StreamBody chunks None
    \<and> concat chunks = expected_body c f (multipart_boundary (file_etag E f)) ranges
    \<and> (''Content-Length'', py_str (int (length (concat chunks)))) \<in> set (rs_headers resp)"
proof -
  from prepare_download_D [OF assms(2)] obtain e fm v ob where
    get: "get_entry U d (dr_file q) False = Inr (Some e)" "e_kind e = File fm"
    and ver: "get_current_version U d (e_id e) = Inr (Some v)"
    and ob: "get_storage_object U d (v_object v) = Inr (Some ob)"
    and f: "dl_storage_key f = o_storage_key ob" "dl_size f = fm_size fm" "dl_checksum f = fm_checksum fm"
    by blast
  have cur: "current_of d (e_id e) fm v"
    by (rule get_current_version_current [OF ver get_entry_meta [OF get]])
  have "tbl_find o_id (v_object v) (db_objects d) = Some ob"
    using ob by (auto simp: get_storage_object_def to_storage_object_def result_simps split: option.splits)
  then have ob_in: "ob \<in> set (db_objects d)" "o_id ob = v_object v"
    using tbl_find_in tbl_find_Some_D by metis+
  note ok = reachable_parts [OF assms(1)]
  from drive_reachable_ok [OF assms(1)] have "drive_ok sha d s" by simp
  from ok_version_bytes [OF this cur] obtain ob' c where ob': "ob' \<in> set (db_objects d)" "o_id ob' = v_object v"
    and c: "object_content s (o_storage_key ob') = Some c" "fm_size fm = int (length c)" "fm_checksum fm = sha c"
    by auto
  have "ob' = ob"
    using storage_okD(10) [OF ok(1)] distinct_key_inject [of o_id "db_objects d" ob' ob] ob' ob_in
    by (simp add: objects_ok_def)
  then have content: "object_content s (dl_storage_key f) = Some c" using c(1) f(1) by simp
  have key: "is_object_key (dl_storage_key f)"
    using ok(5) ob_in(1) f(1) by (auto simp: bytes_ok_def live_keys_def tbl_keys_def)
  from download_delivers [OF assms(2) content key assms(3,4,5,6)] c f show ?thesis by auto
qed

definition sample_request :: download_request where
  "sample_request = \<lparr>dr_owner = sample_id 10, dr_file = sample_id 50, dr_head_only = False, dr_inline = False,
     dr_conditional = \<lparr>if_match = None, if_none_match = None, if_modified_since = None\<rparr>, dr_range = Some ''bytes=1-3''\<rparr>"

definition sample_file :: file_download where
  "sample_file = \<lparr>dl_id = sample_id 50, dl_storage_key = object_key (sample_id 30), dl_filename = ''a.txt'', dl_size = 5,
     dl_mime_type = ''text/plain'', dl_checksum = sample_digest, dl_version_number = 1, dl_updated = 5\<rparr>"

lemma sample_prepare:
  "prepare_download ascii_unicode (sample_id 10) (sample_id 50) db5 fs5 = Inr sample_file"
  by (simp add: prepare_download_def get_current_version_def current_version_rows_def to_version_def
      get_storage_object_def to_storage_object_def stat_def db5_def db2_def db1_def fs5_def sample_file_def
      sample_object_def sample_version_def sample_metadata_def file_row_def sample_digest_def object_path_def run_defs)

lemma sample_response:
  "\<exists>resp. download_response ascii_unicode sample_env no_redirect 2 sample_request db5 fs5 = Inr resp
    \<and> rs_status resp = 206"
proof -
  have "parse_ranges (Some ''bytes=1-3'') 5 = Some [\<lparr>rr_start = 1, rr_end = 3\<rparr>]" by code_simp
  then show ?thesis
    by (simp add: download_response_def sample_request_def sample_prepare evaluate_preconditions_def sample_file_def
        range_headers_def no_redirect_def Let_def rbind_def split: prod.split)
qed

theorem download_delivers_the_file_witness:
  "\<exists>resp chunks c. download_response ascii_unicode sample_env no_redirect 2 sample_request db5 fs5 = Inr resp
    \<and> rs_body resp = StreamBody chunks None \<and> sample_sha c = sample_digest \<and> length c = 5"
proof -
  obtain resp where resp: "download_response ascii_unicode sample_env no_redirect 2 sample_request db5 fs5 = Inr resp"
    "rs_status resp = 206" using sample_response by blast
  have "prepare_download ascii_unicode (dr_owner sample_request) (dr_file sample_request) db5 fs5 = Inr sample_file"
    by (simp add: sample_request_def sample_prepare)
  from download_delivers_the_file [OF sample_reachable(3) this _ _ resp(1)] resp show ?thesis
    by (auto simp: sample_request_def sample_file_def)
qed

end
