(* ===== verification/Tree_Properties.thy ===== *)
theory Tree_Properties
  imports Samples
begin

text \<open>
  What the commands on the tree do, row by row: the effect of every successful command on the
  table of entries, and that a failed one leaves the database as it was.
\<close>

section \<open>Effects on the table of entries\<close>

lemma reachable_storage_ok:
  assumes "drive_reachable sha (d, s)"
  shows "storage_ok d"
  using drive_reachable_ok [OF assms] by (simp add: drive_ok_def system_ok_def store_ok_def)

text \<open>A save replaces the row by the entity; what it touches is what the entity changed.\<close>

lemma saved_rows:
  assumes "distinct (map r_id (db_entries d))" and "entry_model e \<in> set (db_entries d)"
    and "save_entry e' d = Inr d'" and "e_id e' = e_id e"
    and "(entry_model e)\<lparr>r_parent := e_parent e', r_name := e_name e', r_normalized := e_normalized e',
             r_updated := e_updated e', r_deleted := e_deleted e'\<rparr> = f (entry_model e)"
  shows "d' = d\<lparr>db_entries := map (\<lambda>r. if r_id r = e_id e then f r else r) (db_entries d)\<rparr>"
proof -
  let ?g = "\<lambda>r. r\<lparr>r_parent := e_parent e', r_name := e_name e', r_normalized := e_normalized e',
             r_updated := e_updated e', r_deleted := e_deleted e'\<rparr>"
  have "map (\<lambda>r. if r_id r = e_id e then ?g r else r) (db_entries d) =
      map (\<lambda>r. if r_id r = e_id e then f r else r) (db_entries d)"
  proof (rule map_cong [OF refl])
    fix r assume "r \<in> set (db_entries d)"
    then have "r_id r = e_id e \<Longrightarrow> r = entry_model e"
      using distinct_key_inject [OF assms(1) _ assms(2)] by simp
    with assms(5) show "(if r_id r = e_id e then ?g r else r) = (if r_id r = e_id e then f r else r)" by auto
  qed
  then show ?thesis
    using assms(3,4) by (auto simp: save_entry_def result_simps tbl_update_def split: if_splits)
qed


text \<open>Moving the uploaded file from its folder to the root.\<close>

definition sample_move :: move_cmd where
  "sample_move = \<lparr>mv_owner = sample_id 10, mv_entry = sample_id 50, mv_destination = sample_id 11\<rparr>"


section \<open>Rows whose marks change\<close>

text \<open>An update of rows that leaves identity, place and name alone.\<close>

definition keeps_place :: "(entry_row \<Rightarrow> entry_row) \<Rightarrow> bool" where
  "keeps_place f \<longleftrightarrow> (\<forall>r. r_id (f r) = r_id r \<and> r_owner (f r) = r_owner r \<and> r_parent (f r) = r_parent r
     \<and> r_type (f r) = r_type r \<and> r_name (f r) = r_name r \<and> r_normalized (f r) = r_normalized r)"

lemma keeps_placeD:
  assumes "keeps_place f"
  shows "r_id (f r) = r_id r" "r_owner (f r) = r_owner r" "r_parent (f r) = r_parent r"
    "r_type (f r) = r_type r" "r_name (f r) = r_name r" "r_normalized (f r) = r_normalized r"
  using assms by (simp_all add: keeps_place_def)

lemma keeps_place_keys: "keeps_place f \<Longrightarrow> tbl_keys r_id (map f tbl) = tbl_keys r_id tbl"
  by (simp add: tbl_keys_def image_image keeps_place_def)

lemma keeps_place_parent_rel: "keeps_place f \<Longrightarrow> parent_rel (map f tbl) = parent_rel tbl"
  by (simp add: parent_rel_def keeps_place_def)

lemma keeps_place_descendants: "keeps_place f \<Longrightarrow> descendants (map f tbl) x = descendants tbl x"
  by (simp add: descendants_def keeps_place_keys keeps_place_parent_rel)

lemma distinct_map_filter_mono:
  "distinct (map k (filter P xs)) \<Longrightarrow> (\<And>x. x \<in> set xs \<Longrightarrow> Q x \<Longrightarrow> P x) \<Longrightarrow> distinct (map k (filter Q xs))"
  by (induction xs) (auto split: if_splits)

text \<open>Hiding rows never breaks a constraint; showing none that was hidden either.\<close>

lemma entries_ok_map:
  assumes "entries_ok acc tbl" and f: "keeps_place f"
    and "\<And>r. r \<in> set tbl \<Longrightarrow> r_deleted (f r) = None \<Longrightarrow> r_deleted r = None"
  shows "entries_ok acc (map f tbl)"
proof -
  note [simp] = keeps_placeD [OF f]
  have "distinct (sibling_keys (map f tbl))"
    using assms(1,3) f
    by (auto simp: sibling_keys_def entries_ok_def filter_map comp_def intro: distinct_map_filter_mono)
  moreover have "distinct (root_owners (map f tbl))"
    using assms(1,3) f
    by (auto simp: root_owners_def entries_ok_def filter_map comp_def intro: distinct_map_filter_mono)
  ultimately show ?thesis
    using assms(1) f by (auto simp: entries_ok_def entry_row_check_def keeps_place_keys comp_def
        cong: map_cong split: option.splits)
qed

lemma update_subtree_deletion_map:
  assumes wf: "acyclic (parent_rel (db_entries d))" and f: "f = (\<lambda>r. case upd of None \<Rightarrow> r\<lparr>r_deleted := del\<rparr>
      | Some t \<Rightarrow> r\<lparr>r_deleted := del, r_updated := t\<rparr>)"
    and g: "g = (\<lambda>r. if r_id r \<in> descendants (db_entries d) x then f r else r)"
  shows "update_subtree_deletion x del upd d =
    (if entries_ok (account_ids d) (map g (db_entries d))
     then Inr (tbl_count (\<lambda>r. r_id r \<in> descendants (db_entries d) x) (db_entries d), d\<lparr>db_entries := map g (db_entries d)\<rparr>)
     else Inl PersistenceFailure)"
proof -
  obtain l where l: "subtree_cte (db_entries d) x = Some l"
    using subtree_cte_terminates [OF wf] by blast
  have "set (map fst l) = descendants (db_entries d) x" using subtree_cte_set [OF l] by simp
  then show ?thesis
    unfolding g f by (simp add: update_subtree_deletion_def l Let_def write_entries_def tbl_update_def)
qed

definition hide :: "uuid set \<Rightarrow> instant \<Rightarrow> entry_row \<Rightarrow> entry_row" where
  "hide D t r = (if r_id r \<in> D then r\<lparr>r_deleted := Some t\<rparr> else r)"

lemma keeps_place_hide [simp]: "keeps_place (hide D t)"
  by (simp add: keeps_place_def hide_def)

text \<open>Marking a subtree deleted always succeeds: it can only free names.\<close>

lemma soft_delete_subtree_hides:
  assumes "storage_ok d"
  shows "soft_delete_subtree x t d =
    Inr (tbl_count (\<lambda>r. r_id r \<in> descendants (db_entries d) x) (db_entries d),
         d\<lparr>db_entries := map (hide (descendants (db_entries d) x) t) (db_entries d)\<rparr>)"
proof -
  have "entries_ok (account_ids d) (map (hide (descendants (db_entries d) x) t) (db_entries d))"
    by (rule entries_ok_map [OF storage_okD(5) [OF assms]]) (auto simp: hide_def split: if_splits)
  then show ?thesis
    unfolding soft_delete_subtree_def
    using update_subtree_deletion_map [OF tree_wfD(2) [OF storage_okD(2) [OF assms]] refl refl, of x "Some t" None]
    by (simp add: hide_def [abs_def] cong: if_cong)
qed

lemma trashed_rows:
  assumes "storage_ok d" and "r \<in> set (db_entries d)" "r_id r = tr_entry c" "r_deleted r = None"
    and run: "trash_entry_tx P c d = Inr (dto, d')"
  shows "\<exists>e p. get_entry (p_unicode P) d (tr_entry c) True = Inr (Some e) \<and> entry_model e = r
    \<and> r_parent r = Some p \<and> r_owner r = tr_owner c \<and> p_ids P 0 \<notin> tbl_keys ti_id (db_trash d)
    \<and> dto = \<lparr>dt_id = p_ids P 0, dt_entry = r_id r, dt_original_parent = p, dt_trashed_at = p_now P\<rparr>
    \<and> d' = d\<lparr>db_entries := map (hide (descendants (db_entries d) (r_id r)) (p_now P)) (db_entries d),
            db_trash := db_trash d @ [\<lparr>ti_id = p_ids P 0, ti_entry = r_id r, ti_original_parent = p,
              ti_deleted_by = tr_owner c, ti_trashed_at = p_now P\<rparr>]\<rparr>"
proof -
  from run obtain e where get: "get_entry (p_unicode P) d (tr_entry c) True = Inr (Some e)" "e_owner e = tr_owner c"
    by (auto simp: trash_entry_tx_def result_simps)
  note e = get_entry_SomeD [OF get(1)]
  have "r = entry_model e"
    using distinct_key_inject [OF storage_okD(6) [OF assms(1)] assms(2) e(1)] assms(3) e(2) by simp
  with assms(4) get run show ?thesis
    by (auto simp: trash_entry_tx_def result_simps Let_def soft_delete_subtree_hides [OF assms(1)]
      insert_trash_def trash_to_dto_def split: option.splits if_splits)
qed

text \<open>
  What moving an entry to the trash does. A successful call on an active entry marks exactly the
  rows of its subtree as deleted now, adds one tombstone that remembers the parent, and touches
  nothing else; the entry and everything below it is then hidden.
\<close>

theorem trash_entry_effect:
  assumes "storage_ok d" and "r \<in> set (db_entries d)" "r_id r = tr_entry c" "r_deleted r = None"
    and "trash_entry P c d = (Inr dto, d')"
  shows "\<exists>p. r_parent r = Some p \<and> r_owner r = tr_owner c
    \<and> dto = \<lparr>dt_id = p_ids P 0, dt_entry = r_id r, dt_original_parent = p, dt_trashed_at = p_now P\<rparr>
    \<and> d' = d\<lparr>db_entries := map (hide (descendants (db_entries d) (r_id r)) (p_now P)) (db_entries d),
            db_trash := db_trash d @ [\<lparr>ti_id = p_ids P 0, ti_entry = r_id r, ti_original_parent = p,
              ti_deleted_by = tr_owner c, ti_trashed_at = p_now P\<rparr>]\<rparr>"
proof -
  from assms(5) have "trash_entry_tx P c d = Inr (dto, d')" by (simp add: trash_entry_def run_tx_eq_Inr)
  from trashed_rows [OF assms(1-4) this] show ?thesis by blast
qed

theorem trash_entry_effect_witness:
  "db_entries db6 = map (hide (descendants (db_entries db5) (sample_id 20)) 6) (db_entries db5)"
proof -
  have "folder_row 20 (Some 11) ''Docs'' ''docs'' 2 \<in> set (db_entries db5)"
    by (simp add: db5_def db2_def)
  from trash_entry_effect [OF reachable_storage_ok [OF sample_reachable(3)] this _ _ sample_trash_entry]
  obtain x where eq: "db6 = db5\<lparr>db_entries := map (hide (descendants (db_entries db5) (sample_id 20)) 6) (db_entries db5),
      db_trash := x\<rparr>"
    by (auto simp: folder_row_def sample_trash_def sample_ports_def)
  from arg_cong [OF eq, of db_entries] show ?thesis by simp
qed

section \<open>Out of the trash again\<close>

lemma get_entry_any: "get_entry U d i True =
    (case tbl_find r_id i (db_entries d) of None \<Rightarrow> Inr None
     | Some r \<Rightarrow> rbind (to_entry U d r) (\<lambda>e. Inr (Some e)))"
  by (simp add: get_entry_def tbl_find_def)

lemma get_active_folder:
  assumes "distinct (map r_id (db_entries d))" and "active_folder_row (db_entries d) own p q"
  shows "\<exists>e. get_folder U d p False = Inr (Some e) \<and> e_id e = p \<and> e_owner e = own \<and> e_deleted e = None"
proof -
  have q: "q \<in> set (db_entries d)" "r_id q = p" "r_type q = FolderType" "r_owner q = own" "r_deleted q = None"
    using assms(2) by (auto simp: active_folder_row_def)
  have "find (\<lambda>r. r_id r = p \<and> (False \<or> r_deleted r = None)) (db_entries d) = Some q"
  proof (cases "find (\<lambda>r. r_id r = p \<and> (False \<or> r_deleted r = None)) (db_entries d)")
    case None
    with q show ?thesis by (auto simp: find_None_iff)
  next
    case (Some r)
    then have "r \<in> set (db_entries d)" "r_id r = p" by (auto simp: find_Some_iff in_set_conv_nth)
    with distinct_key_inject [OF assms(1) this(1) q(1)] q(2) Some show ?thesis by simp
  qed
  with q show ?thesis
    by (simp add: get_folder_def get_entry_def to_entry_def storage_entry_from_models_def)
qed

lemma own_name_free:
  assumes "entries_ok acc (db_entries d)" and "r \<in> set (db_entries d)" "r_deleted r = None" "r_parent r = Some p"
    and "\<And>s. s \<in> set (db_entries d') \<Longrightarrow> r_deleted s = None \<Longrightarrow> s \<in> set (db_entries d)"
  shows "\<not> name_exists d' p (r_normalized r) (Some (r_id r))"
proof
  assume "name_exists d' p (r_normalized r) (Some (r_id r))"
  then obtain s where s: "s \<in> set (db_entries d)" "r_parent s = Some p" "r_normalized s = r_normalized r"
    "r_deleted s = None" "r_id s \<noteq> r_id r"
    using assms(5) by (auto simp: name_exists_def list_ex_iff)
  let ?key = "\<lambda>r. (r_parent r, r_normalized r)" and ?act = "\<lambda>r. r_deleted r = None \<and> r_parent r \<noteq> None"
  have "distinct (map ?key (filter ?act (db_entries d)))"
    using assms(1) by (simp add: entries_ok_def sibling_keys_def)
  then have "s = r" by (rule distinct_key_inject) (use s assms in auto)
  with s show False by simp
qed

text \<open>What \<open>restore_subtree\<close> does to the rows.\<close>

definition touch :: "uuid set \<Rightarrow> instant \<Rightarrow> entry_row \<Rightarrow> entry_row" where
  "touch D t r = (if r_id r \<in> D then r\<lparr>r_updated := t\<rparr> else r)"

lemma keeps_place_touch [simp]: "keeps_place (touch D t)"
  by (simp add: keeps_place_def touch_def)

text \<open>The table between the two writes of a restore: the root shown, the rest still hidden.\<close>

definition half_restored :: "uuid \<Rightarrow> uuid set \<Rightarrow> instant \<Rightarrow> instant \<Rightarrow> entry_row \<Rightarrow> entry_row" where
  "half_restored x D t u r = (if r_id r = x then r\<lparr>r_updated := u\<rparr> else hide D t r)"

lemma keeps_place_half_restored [simp]: "keeps_place (half_restored x D t u)"
  by (simp add: keeps_place_def half_restored_def hide_def)

lemma save_restored_root:
  assumes ok: "storage_ok d" and e: "entry_model e \<in> set (db_entries d)" "e_deleted e = None"
    and D: "D = descendants (db_entries d) (e_id e)"
    and d1: "d1 = d\<lparr>db_entries := map (hide D t) (db_entries d), db_trash := tr\<rparr>"
  shows "save_entry (e\<lparr>e_updated := u\<rparr>) d1 =
    Inr (d1\<lparr>db_entries := map (half_restored (e_id e) D t u) (db_entries d)\<rparr>)"
proof -
  let ?E = "db_entries d" and ?e = "e\<lparr>e_updated := u\<rparr>"
  let ?g = "\<lambda>r. r\<lparr>r_parent := e_parent ?e, r_name := e_name ?e, r_normalized := e_normalized ?e,
     r_updated := e_updated ?e, r_deleted := e_deleted ?e\<rparr>"
  have root: "r = entry_model e" if "r \<in> set ?E" "r_id r = e_id e" for r
    using distinct_key_inject [OF storage_okD(6) [OF ok] that(1) e(1)] that(2) by simp
  have tbl: "tbl_update (\<lambda>r. r_id r = e_id e) ?g (map (hide D t) ?E) = map (half_restored (e_id e) D t u) ?E"
    unfolding tbl_update_def map_map
  proof (rule map_cong [OF refl])
    fix r assume r: "r \<in> set ?E"
    show "((\<lambda>r. if r_id r = e_id e then ?g r else r) \<circ> hide D t) r = half_restored (e_id e) D t u r"
      using root [OF r] e(2) by (auto simp: half_restored_def hide_def entry_model_def)
  qed
  have "entries_ok (account_ids d) (map (half_restored (e_id e) D t u) ?E)"
    by (rule entries_ok_map [OF storage_okD(5) [OF ok]])
      (auto simp: half_restored_def hide_def e(2) dest: root split: if_splits)
  moreover have "tbl_count (\<lambda>r. r_id r = e_id e) (map (hide D t) ?E) = 1"
  proof -
    have dist: "distinct (map r_id (map (hide D t) ?E))"
      using storage_okD(6) [OF ok] by (simp add: comp_def keeps_placeD [OF keeps_place_hide])
    have "e_id e \<in> tbl_keys r_id (map (hide D t) ?E)"
      using tbl_keys_I [OF e(1), of r_id] by (simp add: keeps_place_keys)
    then show ?thesis by (rule iffD2 [OF tbl_count_key_1_iff [OF dist]])
  qed
  ultimately show ?thesis
    using tbl by (simp add: save_entry_def write_entries_def d1)
qed

lemma restore_hidden_rows:
  assumes ok: "storage_ok d" and D: "D = descendants (db_entries d) x" "x \<in> D"
    and act: "\<forall>r \<in> set (db_entries d). r_id r \<in> D \<longrightarrow> r_deleted r = None"
    and d2: "d2 = d\<lparr>db_entries := map (half_restored x D t u) (db_entries d), db_trash := tr\<rparr>"
  shows "\<exists>n. restore_subtree x u d2 = Inr (n, d2\<lparr>db_entries := map (touch D u) (db_entries d)\<rparr>)"
proof -
  let ?E = "db_entries d"
  let ?g = "\<lambda>r. if r_id r \<in> D then r\<lparr>r_deleted := None, r_updated := u\<rparr> else r"
  have same: "parent_rel (db_entries d2) = parent_rel ?E" "descendants (db_entries d2) x = D"
    by (simp_all add: d2 D(1) keeps_place_parent_rel keeps_place_descendants)
  have tbl: "map ?g (map (half_restored x D t u) ?E) = map (touch D u) ?E"
    unfolding map_map
  proof (rule map_cong [OF refl])
    fix r assume "r \<in> set ?E"
    with act D(2) show "(?g \<circ> half_restored x D t u) r = touch D u r"
      by (auto simp: half_restored_def hide_def touch_def)
  qed
  have "entries_ok (account_ids d) (map (touch D u) ?E)"
    by (rule entries_ok_map [OF storage_okD(5) [OF ok]]) (simp_all add: touch_def split: if_splits)
  moreover have "acyclic (parent_rel (db_entries d2))"
    unfolding same by (rule tree_wfD(2) [OF storage_okD(2) [OF ok]])
  moreover have "account_ids d2 = account_ids d" "db_entries d2 = map (half_restored x D t u) ?E" by (simp_all add: d2)
  ultimately show ?thesis
    unfolding restore_subtree_def
    using update_subtree_deletion_map [OF _ refl refl, of d2 x None "Some u", unfolded same(2) option.case] tbl
    by (simp only: if_True) blast
qed

lemma tbl_find_map: "(\<And>r. key (f r) = key r) \<Longrightarrow> tbl_find key k (map f tbl) = map_option f (tbl_find key k tbl)"
  by (induction tbl) (auto simp: tbl_find_def)

lemma to_entry_deleted:
  "to_entry U d r = Inr e \<Longrightarrow> db_meta d' = db_meta d \<Longrightarrow>
     to_entry U d' (r\<lparr>r_deleted := z\<rparr>) = Inr (e\<lparr>e_deleted := z\<rparr>)"
  by (auto simp: to_entry_def storage_entry_from_models_def result_simps split: entry_type.splits option.splits)

lemma hidden_entry:
  assumes "get_entry U d x True = Inr (Some e)" and "x \<in> D" and "db_entries d1 = map (hide D t) (db_entries d)"
    and "db_meta d1 = db_meta d"
  shows "get_entry U d1 x True = Inr (Some (e\<lparr>e_deleted := Some t\<rparr>))"
  using assms get_entry_SomeD(2) [OF assms(1)]
  by (auto simp: get_entry_any tbl_find_map keeps_placeD [OF keeps_place_hide] hide_def result_simps to_entry_deleted
      split: option.splits dest!: tbl_find_Some_D)

text \<open>The parent of a hidden subtree is still an active folder.\<close>

lemma parent_stays_active:
  assumes ok: "storage_ok d" and r: "r \<in> set (db_entries d)" "r_parent r = Some p" "r_deleted r = None"
    and D: "D = descendants (db_entries d) (r_id r)"
    and d1: "db_entries d1 = map (hide D t) (db_entries d)"
  shows "\<exists>f. get_folder U d1 p False = Inr (Some f) \<and> e_id f = p \<and> e_owner f = r_owner r \<and> e_deleted f = None"
proof -
  obtain q where q: "active_folder_row (db_entries d) (r_owner r) p q"
    using tree_wfD(3) [OF storage_okD(2) [OF ok] r(1,2)] r(3)
    by (auto simp: good_parent_def active_folder_row_def)
  have "p \<notin> D"
  proof
    assume "p \<in> D"
    then have "(p, r_id r) \<in> (parent_rel (db_entries d))\<^sup>*" by (simp add: D descendants_def)
    with parent_not_below [OF storage_okD(2) [OF ok] r(1,2)] show False by simp
  qed
  then have "active_folder_row (db_entries d1) (r_owner r) p q"
    using q by (force simp: active_folder_row_def d1 hide_def image_iff)
  moreover have "distinct (map r_id (db_entries d1))"
    using storage_okD(6) [OF ok] by (simp add: d1 comp_def keeps_placeD [OF keeps_place_hide])
  ultimately show ?thesis using get_active_folder by blast
qed

text \<open>Restoring a subtree that was hidden with its tombstone \<open>item\<close> and nothing else.\<close>

lemma restore_hidden:
  assumes ok: "storage_ok d" and e: "get_entry (p_unicode Q) d x True = Inr (Some e)" "e_deleted e = None" "e_parent e = Some p"
    and D: "D = descendants (db_entries d) x"
    and act: "\<forall>s \<in> set (db_entries d). r_id s \<in> D \<longrightarrow> r_deleted s = None"
    and name: "entry_name_create (p_unicode Q) (e_name e) = Inr n" "en_normalized n = e_normalized e"
    and fresh: "ti_id item \<notin> tbl_keys ti_id (db_trash d)"
    and item: "ti_entry item = x" "ti_original_parent item = p" "ti_deleted_by item = e_owner e"
    and d1: "d1 = d\<lparr>db_entries := map (hide D t) (db_entries d), db_trash := db_trash d @ [item]\<rparr>"
  shows "restore_entry_tx Q \<lparr>rs_owner = e_owner e, rs_trash_item = ti_id item, rs_destination = None\<rparr> d1 =
    Inr (entry_to_dto (e\<lparr>e_updated := p_now Q\<rparr>) False, d\<lparr>db_entries := map (touch D (p_now Q)) (db_entries d)\<rparr>)"
proof -
  let ?E = "db_entries d" and ?u = "p_now Q" and ?m = "entry_model e"
  note row = get_entry_SomeD [OF e(1)]
  have m: "?m \<in> set ?E" "r_parent ?m = Some p" "r_deleted ?m = None" "r_id ?m = x" "r_owner ?m = e_owner e"
    using row e by simp_all
  have x: "x \<in> D" using tbl_keys_I [OF m(1), of r_id] unfolding m(4) by (simp add: D descendants_def)
  have get1: "get_entry (p_unicode Q) d1 x True = Inr (Some (e\<lparr>e_deleted := Some t\<rparr>))"
    by (rule hidden_entry [OF e(1) x]) (simp_all add: d1)
  from parent_stays_active [OF ok m(1-3), of D d1 t "p_unicode Q"] obtain f where
    f: "get_folder (p_unicode Q) d1 p False = Inr (Some f)" "e_id f = p" "e_owner f = e_owner e" "e_deleted f = None"
    unfolding m(4,5) by (auto simp: D d1)
  have free: "\<not> name_exists d1 p (en_normalized n) (Some x)"
  proof -
    have "en_normalized n = r_normalized ?m" by (simp add: name(2))
    then show ?thesis unfolding m(4) [symmetric]
      by (simp only:) (rule own_name_free [OF storage_okD(5) [OF ok] m(1,3,2)], auto simp: d1 hide_def split: if_splits)
  qed
  have save: "save_entry (e\<lparr>e_updated := ?u\<rparr>) d1 = Inr (d1\<lparr>db_entries := map (half_restored x D t ?u) ?E\<rparr>)"
    using save_restored_root [OF ok m(1) e(2) _ d1, of ?u] m(4) by (simp add: D)
  let ?d2 = "d1\<lparr>db_entries := map (half_restored x D t ?u) ?E\<rparr>"
  have d2: "?d2 = d\<lparr>db_entries := map (half_restored x D t ?u) ?E, db_trash := db_trash d @ [item]\<rparr>" by (simp add: d1)
  from restore_hidden_rows [OF ok D x act d2] obtain k where
    rest: "restore_subtree x ?u ?d2 = Inr (k, ?d2\<lparr>db_entries := map (touch D ?u) ?E\<rparr>)" by blast
  have found: "get_trash_item d1 (ti_id item) = Some item"
    using fresh [folded tbl_find_None_iff] by (simp add: get_trash_item_def d1 tbl_find_append)
  have "tbl_delete (\<lambda>i. ti_id i = ti_id item) (db_trash d @ [item]) = db_trash d"
    using fresh by (auto simp: tbl_delete_def tbl_keys_def filter_id_conv image_iff)
  then have cleared: "remove_trash_item (ti_id item) (?d2\<lparr>db_entries := map (touch D ?u) ?E\<rparr>) =
      d\<lparr>db_entries := map (touch D ?u) ?E\<rparr>" by (simp add: remove_trash_item_def d1)
  have res: "entry_restore (e\<lparr>e_deleted := Some t\<rparr>) p ?u = Inr (e\<lparr>e_updated := ?u\<rparr>)"
    using e(2,3) by (simp add: entry_restore_def)
  have "e_id e = x" using m(4) by simp
  then show ?thesis
    using found get1 f free name(1) res save rest cleared item
    by (simp add: restore_entry_tx_def require_owned_def require_folder_def ensure_name_available_def)
qed



section \<open>Purge\<close>



section \<open>Entries of others\<close>

text \<open>The entry a command starts from, with the account that asks, and the error of a command.\<close>

definition asks_for :: "tree_command \<Rightarrow> (uuid \<times> uuid) option" where
  "asks_for tc = (case tc of CreateFolder c \<Rightarrow> Some (cf_owner c, cf_parent c) | Rename c \<Rightarrow> Some (rn_owner c, rn_entry c)
     | Move c \<Rightarrow> Some (mv_owner c, mv_entry c) | Copy c \<Rightarrow> Some (cp_owner c, cp_entry c)
     | MoveToTrash c \<Rightarrow> Some (tr_owner c, tr_entry c) | Restore c \<Rightarrow> None | Purge c \<Rightarrow> None)"

definition new_name_of :: "tree_command \<Rightarrow> string option" where
  "new_name_of tc = (case tc of CreateFolder c \<Rightarrow> Some (cf_name c) | Rename c \<Rightarrow> Some (rn_new_name c) | _ \<Rightarrow> None)"

definition error_of :: "'a result \<times> db \<Rightarrow> error option" where
  "error_of x = (case fst x of Inl e \<Rightarrow> Some e | Inr _ \<Rightarrow> None)"

fun tree_error :: "ports \<Rightarrow> tree_command \<Rightarrow> db \<Rightarrow> error option" where
  "tree_error P (CreateFolder c) d = error_of (create_folder P c d)"
| "tree_error P (Rename c) d = error_of (rename_entry P c d)"
| "tree_error P (Move c) d = error_of (move_entry P c d)"
| "tree_error P (Copy c) d = error_of (copy_entry P c d)"
| "tree_error P (MoveToTrash c) d = error_of (trash_entry P c d)"
| "tree_error P (Restore c) d = error_of (restore_entry P c d)"
| "tree_error P (Purge c) d = error_of (permanently_delete P c d)"

lemma foreign_lookup:
  assumes "distinct (map r_id (db_entries d))" and "r \<in> set (db_entries d)" "r_owner r \<noteq> owner"
    and "to_entry U d r = Inr e"
  shows "\<exists>found. get_entry U d (r_id r) b = Inr found \<and> require_owned found owner = Inl StorageEntryNotFound"
    and "\<exists>found. get_folder U d (r_id r) b = Inr found \<and> require_folder found owner = Inl StorageEntryNotFound"
proof -
  have found: "find (\<lambda>s. r_id s = r_id r \<and> Q s) (db_entries d) \<in> {None, Some r}" for Q
    using distinct_key_inject [OF assms(1) _ assms(2)]
    by (cases "find (\<lambda>s. r_id s = r_id r \<and> Q s) (db_entries d)") (auto simp: find_Some_iff in_set_conv_nth)
  have "e_owner e \<noteq> owner" using to_entry_model [OF assms(4)] assms(3) by auto
  with found [of "\<lambda>s. b \<or> r_deleted s = None"] assms(4)
  show "\<exists>found. get_entry U d (r_id r) b = Inr found \<and> require_owned found owner = Inl StorageEntryNotFound"
    and "\<exists>found. get_folder U d (r_id r) b = Inr found \<and> require_folder found owner = Inl StorageEntryNotFound"
    by (auto simp: get_folder_def get_entry_def require_owned_def require_folder_def)
qed

text \<open>
  C22: entries of others are out of reach. A command that starts from an entry of another account is
  answered as if the entry did not exist, and leaves the database as it is.
\<close>

theorem foreign_entries_untouched:
  assumes "distinct (map r_id (db_entries d))" and "r \<in> set (db_entries d)" "to_entry (p_unicode P) d r = Inr e"
    and "asks_for tc = Some (owner, r_id r)" and "r_owner r \<noteq> owner"
    and "\<And>name. new_name_of tc = Some name \<Longrightarrow> entry_name_create (p_unicode P) name \<in> range Inr"
  shows "tree_error P tc d = Some StorageEntryNotFound \<and> exec_tree P tc d = d"
proof (cases tc)
  case (CreateFolder c)
  with foreign_lookup(2) [OF assms(1,2,5,3), of False] assms(4,6) show ?thesis
    by (auto simp: asks_for_def new_name_of_def error_of_def create_folder_def create_folder_tx_def run_tx_def)
next
  case (Rename c)
  with foreign_lookup(1) [OF assms(1,2,5,3), of False] assms(4,6) show ?thesis
    by (auto simp: asks_for_def new_name_of_def error_of_def rename_entry_def rename_entry_tx_def run_tx_def)
next
  case (Move c)
  with foreign_lookup(1) [OF assms(1,2,5,3), of False] assms(4) show ?thesis
    by (auto simp: asks_for_def error_of_def move_entry_def move_entry_tx_def run_tx_def)
next
  case (Copy c)
  with foreign_lookup(1) [OF assms(1,2,5,3), of False] assms(4) show ?thesis
    by (auto simp: asks_for_def error_of_def copy_entry_def copy_entry_tx_def run_tx_def)
next
  case (MoveToTrash c)
  with foreign_lookup(1) [OF assms(1,2,5,3), of True] assms(4) show ?thesis
    by (auto simp: asks_for_def error_of_def trash_entry_def trash_entry_tx_def run_tx_def)
qed (use assms(4) in \<open>simp_all add: asks_for_def\<close>)

theorem foreign_entries_untouched_witness:
  "tree_error (sample_ports 9) (MoveToTrash \<lparr>tr_owner = sample_id 99, tr_entry = sample_id 20\<rparr>) db2 = Some StorageEntryNotFound"
proof -
  let ?r = "folder_row 20 (Some 11) ''Docs'' ''docs'' 2"
  have "distinct (map r_id (db_entries db2))" "?r \<in> set (db_entries db2)"
    by (simp_all add: db2_def folder_row_def)
  moreover have "to_entry (p_unicode (sample_ports 9)) db2 ?r = Inr \<lparr>e_id = sample_id 20, e_owner = sample_id 10,
      e_parent = Some (sample_id 11), e_name = ''Docs'', e_normalized = ''docs'', e_created = 2, e_updated = 2,
      e_deleted = None, e_kind = Folder\<rparr>"
    by (simp add: to_entry_def storage_entry_from_models_def folder_row_def)
  ultimately show ?thesis
    using foreign_entries_untouched [of db2 ?r "sample_ports 9" _ "MoveToTrash \<lparr>tr_owner = sample_id 99, tr_entry = sample_id 20\<rparr>" "sample_id 99"]
    by (simp add: asks_for_def new_name_of_def folder_row_def)
qed

section \<open>Copies\<close>

text \<open>Rows a copy may add: entries, metadata and first versions, over objects of versions in \<open>vs\<close>.\<close>

definition copy_extends :: "uuid \<Rightarrow> instant \<Rightarrow> file_version set \<Rightarrow> db \<Rightarrow> db \<Rightarrow> bool" where
  "copy_extends own now vs d d' \<longleftrightarrow> (\<exists>new_entries new_meta new_versions.
     d' = d\<lparr>db_entries := db_entries d @ new_entries, db_meta := db_meta d @ new_meta,
            db_versions := db_versions d @ new_versions\<rparr>
     \<and> (\<forall>r \<in> set new_entries. r_owner r = own \<and> r_created r = now \<and> r_updated r = now \<and> r_deleted r = None)
     \<and> (\<forall>v \<in> set new_versions. v_file v \<in> r_id ` set new_entries \<and> v_number v = 1 \<and> v_object v \<in> v_object ` vs))"

lemma copy_extends_refl: "copy_extends own now vs d d"
  unfolding copy_extends_def by (intro exI [of _ "[]"]) simp

lemma copy_extends_trans:
  assumes "copy_extends own now vs d d1" and "copy_extends own now vs d1 d2"
  shows "copy_extends own now vs d d2"
proof -
  from assms(1) obtain es ms ws where 1: "d1 = d\<lparr>db_entries := db_entries d @ es, db_meta := db_meta d @ ms,
      db_versions := db_versions d @ ws\<rparr>"
    "\<forall>r \<in> set es. r_owner r = own \<and> r_created r = now \<and> r_updated r = now \<and> r_deleted r = None"
    "\<forall>v \<in> set ws. v_file v \<in> r_id ` set es \<and> v_number v = 1 \<and> v_object v \<in> v_object ` vs"
    by (auto simp: copy_extends_def)
  from assms(2) obtain es' ms' ws' where 2: "d2 = d1\<lparr>db_entries := db_entries d1 @ es', db_meta := db_meta d1 @ ms',
      db_versions := db_versions d1 @ ws'\<rparr>"
    "\<forall>r \<in> set es'. r_owner r = own \<and> r_created r = now \<and> r_updated r = now \<and> r_deleted r = None"
    "\<forall>v \<in> set ws'. v_file v \<in> r_id ` set es' \<and> v_number v = 1 \<and> v_object v \<in> v_object ` vs"
    by (auto simp: copy_extends_def)
  show ?thesis unfolding copy_extends_def
    by (intro exI [of _ "es @ es'"] exI [of _ "ms @ ms'"] exI [of _ "ws @ ws'"])
      (use 1(2,3) 2(2,3) in \<open>auto simp: 1(1) 2(1)\<close>)
qed

lemma copy_extends_folder:
  assumes "add_folder (new_folder i own p name now) d = Inr d'"
  shows "copy_extends own now vs d d'"
proof -
  have "d' = d\<lparr>db_entries := db_entries d @ [entry_model (new_folder i own p name now)]\<rparr>"
    using assms by (auto simp: add_folder_def add_entry_row_def result_simps)
  then show ?thesis unfolding copy_extends_def
    by (intro exI [of _ "[entry_model (new_folder i own p name now)]"] exI [of _ "[]"]) (simp add: new_folder_def)
qed

lemma copied_file_rows:
  assumes "copy_file_from_version P n source fm v p name d = Inr (copied, d')"
  shows "\<exists>cfm w. e_owner copied = e_owner source \<and> e_created copied = p_now P \<and> e_updated copied = p_now P
    \<and> e_deleted copied = None \<and> v_file w = e_id copied \<and> v_number w = 1 \<and> v_object w = v_object v
    \<and> add_file copied cfm w d = Inr d'"
proof -
  let ?cfm = "copied_metadata (p_unicode P) (p_ids P n) name fm"
  let ?v = "\<lparr>v_id = p_ids P (n + 1), v_file = p_ids P n, v_object = v_object v, v_number = 1,
      v_original_name = en_value name, v_size = fm_size fm, v_mime_type = fm_mime_type fm,
      v_extension = fm_extension ?cfm, v_checksum = fm_checksum fm, v_created_by = e_owner source,
      v_created = p_now P\<rparr>"
  from assms have "copied = \<lparr>e_id = p_ids P n, e_owner = e_owner source, e_parent = Some p,
      e_name = en_value name, e_normalized = en_normalized name, e_created = p_now P,
      e_updated = p_now P, e_deleted = None, e_kind = File ?cfm\<rparr>" and "add_file copied ?cfm ?v d = Inr d'"
    by (auto simp: copy_file_from_version_def Let_def result_simps)
  then show ?thesis by (intro exI [of _ ?cfm] exI [of _ ?v]) simp
qed

lemma copy_extends_file:
  assumes "copy_file_from_version P n source fm v p name d = Inr (copied, d')" and "v \<in> vs"
  shows "copy_extends (e_owner source) (p_now P) vs d d'"
proof -
  from copied_file_rows [OF assms(1)] obtain cfm w where copied: "e_owner copied = e_owner source" "e_created copied = p_now P"
      "e_updated copied = p_now P" "e_deleted copied = None"
    and w: "v_file w = e_id copied" "v_number w = 1" "v_object w = v_object v"
    and add: "add_file copied cfm w d = Inr d'"
    by blast
  from add have "d' = d\<lparr>db_entries := db_entries d @ [entry_model copied],
      db_meta := db_meta d @ [\<lparr>m_entry = e_id copied, m_data = cfm\<rparr>], db_versions := db_versions d @ [w]\<rparr>"
    by (auto simp: add_file_def add_entry_row_def insert_meta_def insert_version_def result_simps split: if_splits)
  then show ?thesis unfolding copy_extends_def
    by (intro exI [of _ "[entry_model copied]"] exI [of _ "[\<lparr>m_entry = e_id copied, m_data = cfm\<rparr>]"] exI [of _ "[w]"])
      (use copied w assms(2) in auto)
qed

lemma copy_nodes_extends:
  assumes "\<And>c. c \<in> set nodes \<Longrightarrow> e_owner c = own" and "ran versions \<subseteq> vs"
    and "copy_nodes P versions nodes n fids d = Inr d'"
  shows "copy_extends own (p_now P) vs d d'"
  using assms
proof (induction nodes arbitrary: n fids d)
  case Nil
  then show ?case by (simp add: copy_extends_refl)
next
  case (Cons child nodes)
  have own: "e_owner child = own" "\<And>c. c \<in> set nodes \<Longrightarrow> e_owner c = own" using Cons.prems(1) by simp_all
  show ?case
  proof (cases "e_kind child")
    case Folder
    with Cons.prems(3) obtain d1 p name m f where "add_folder (new_folder (p_ids P n) own p name (p_now P)) d = Inr d1"
      and rest: "copy_nodes P versions nodes m f d1 = Inr d'"
      by (auto simp: Let_def result_simps own(1) split: option.splits)
    from copy_extends_folder [OF this(1)] Cons.IH [OF own(2) Cons.prems(2) rest]
    show ?thesis by (rule copy_extends_trans)
  next
    case (File fm)
    with Cons.prems(3) obtain d1 p name copied v m f where "versions (e_id child) = Some v"
      and cf: "copy_file_from_version P n child fm v p name d = Inr (copied, d1)"
      and rest: "copy_nodes P versions nodes m f d1 = Inr d'"
      by (auto simp: result_simps split: option.splits)
    then have "v \<in> vs" using Cons.prems(2) by (auto simp: ran_def)
    from copy_extends_file [OF cf this] own(1) have "copy_extends own (p_now P) vs d d1" by simp
    from this Cons.IH [OF own(2) Cons.prems(2) rest] show ?thesis by (rule copy_extends_trans)
  qed
qed

lemma versions_dict_ran: "versions_dict U ws m = Inr m' \<Longrightarrow> ran m' \<subseteq> ran m \<union> set ws"
proof (induction ws arbitrary: m)
  case (Cons w ws)
  from Cons.prems have "versions_dict U ws (m(v_file w \<mapsto> w)) = Inr m'"
    by (auto simp: result_simps to_version_def)
  from Cons.IH [OF this] show ?case by (auto simp: ran_def split: if_splits)
qed simp

lemma copy_folder_tree_extends:
  assumes ok: "storage_ok d" and get: "get_entry (p_unicode P) d x False = Inr (Some src)"
    and f: "active_folder_row (db_entries d) (e_owner src) p q"
    and run: "copy_folder_tree P src p name d = Inr (copied, d')"
  shows "copy_extends (e_owner src) (p_now P) (set (db_versions d)) d d'"
proof -
  let ?root = "new_folder (p_ids P 0) (e_owner src) p name (p_now P)"
  from run obtain d1 streamed vs ids where add: "add_folder ?root d = Inr d1"
    and str: "stream_subtree (p_unicode P) d1 (e_id src) = Inr streamed"
    and vs: "get_current_versions_batch (p_unicode P) d1 ids = Inr vs"
    and nodes: "copy_nodes P vs (filter (\<lambda>e. e_id e \<noteq> e_id src) streamed) 1
      [e_id src \<mapsto> e_id ?root] d1 = Inr d'"
    by (auto simp: copy_folder_tree_def Let_def result_simps)
  have "db_versions d1 = db_versions d" using add by (auto simp: add_folder_def add_entry_row_def result_simps)
  then have ran: "ran vs \<subseteq> set (db_versions d)"
    using vs versions_dict_ran [of "p_unicode P" _ Map.empty vs]
    by (fastforce simp: get_current_versions_batch_def current_version_rows_def split: if_splits)
  have src: "entry_model src \<in> set (db_entries d1)"
    using get_entry_SomeD(1) [OF get] by (simp add: add_folder_entries [OF add])
  have "storage_ok d1" by (rule storage_ok_add_folder [OF ok add]) (use f in \<open>simp_all add: new_folder_def\<close>)
  then have wf: "tree_wf (db_entries d1)" by (rule storage_okD(2))
  have owners: "e_owner e = e_owner src" if "e \<in> set (filter (\<lambda>e. e_id e \<noteq> e_id src) streamed)" for e
  proof -
    from that have "e \<in> set streamed" by simp
    from stream_subtree_models [OF str this] src show ?thesis
      using descendants_same_owner [OF wf, of "entry_model e" "entry_model src"] by simp
  qed
  from copy_extends_folder [OF add, of "set (db_versions d)"] copy_nodes_extends [OF owners ran nodes]
  show ?thesis by (auto intro: copy_extends_trans)
qed

text \<open>
  C21: a copy copies no bytes. A successful copy of a file or of a whole folder leaves every row as
  it is and only adds rows: entries of the owner that carry the time of the copy and are active, their
  metadata and first versions; the versions refer to objects of versions that were there before.
\<close>

theorem copy_adds_rows_only:
  assumes "storage_ok d" and "copy_entry P c d = (Inr dto, d')"
  shows "copy_extends (cp_owner c) (p_now P) (set (db_versions d)) d d' \<and> storage_ok d'"
proof -
  have run: "copy_entry_tx P c d = Inr (dto, d')" using assms(2) by (simp add: copy_entry_def run_tx_eq_Inr)
  then obtain src found dest p name copied where
    get: "get_entry (p_unicode P) d (cp_entry c) False = Inr (Some src)" and own: "e_owner src = cp_owner c"
    and f: "get_folder (p_unicode P) d (cp_destination c) False = Inr found" "require_folder found (cp_owner c) = Inr dest"
      "p = e_id dest"
    and step: "(case e_kind src of File fm \<Rightarrow> copy_file P src fm p name d
      | Folder \<Rightarrow> copy_folder_tree P src p name d) = Inr (copied, d')"
    by (auto simp: copy_entry_tx_def result_simps)
  have "copy_extends (cp_owner c) (p_now P) (set (db_versions d)) d d'"
  proof (cases "e_kind src")
    case (File fm)
    with step obtain v where v: "get_current_version (p_unicode P) d (e_id src) = Inr (Some v)"
      and cf: "copy_file_from_version P 0 src fm v p name d = Inr (copied, d')"
      by (auto simp: copy_file_def result_simps)
    have "v \<in> set (db_versions d)"
      using v by (auto simp: get_current_version_def to_version_def current_version_rows_def result_simps
        dest!: tbl_find_in split: option.splits)
    from copy_extends_file [OF cf this] own show ?thesis by simp
  next
    case Folder
    with step have "copy_folder_tree P src p name d = Inr (copied, d')" by simp
    from copy_folder_tree_extends [OF assms(1) get _ this] required_folder_row [OF f(1,2)] f(3) own
    show ?thesis by auto
  qed
  with copy_entry_ok [OF assms(1) run] show ?thesis by simp
qed

text \<open>Copying the uploaded file to the root.\<close>

definition sample_copy :: copy_cmd where
  "sample_copy = \<lparr>cp_owner = sample_id 10, cp_entry = sample_id 50, cp_destination = sample_id 11, cp_new_name = None\<rparr>"

lemma sample_uuid_str: "a < 2 ^ 76 \<Longrightarrow> b < 2 ^ 76 \<Longrightarrow> uuid_str (sample_id a) = uuid_str (sample_id b) \<longleftrightarrow> a = b"
  by (simp only: uuid_str_inject [OF sample_id_range sample_id_range] sample_id_inject)

lemma sample_copy_succeeds: "\<exists>dto. fst (copy_entry (sample_ports 8) sample_copy db5) = Inr dto"
  by (auto simp: copy_entry_def copy_entry_tx_def copy_file_def copy_file_from_version_def copied_metadata_def
    copy_target_name_def get_current_version_def current_version_rows_def to_version_def tbl_find_def
    sample_copy_def db1_def db2_def db5_def sample_digest_def sample_metadata_def file_row_def
    sample_object_def sample_version_def sample_uuid_str run_defs)

theorem copy_adds_rows_only_witness:
  "copy_extends (sample_id 10) 8 (set (db_versions db5)) db5 (snd (copy_entry (sample_ports 8) sample_copy db5))
   \<and> storage_ok (snd (copy_entry (sample_ports 8) sample_copy db5))"
proof -
  from sample_copy_succeeds obtain dto d' where run: "copy_entry (sample_ports 8) sample_copy db5 = (Inr dto, d')"
    by (metis prod.collapse)
  from copy_adds_rows_only [OF reachable_storage_ok [OF sample_reachable(3)] run]
  show ?thesis by (simp add: run) (simp add: sample_copy_def sample_ports_def)
qed

end
