(* ===== verification/Upload_Properties.thy ===== *)
theory Upload_Properties
  imports Samples
begin

text \<open>
  What an upload promises to its client, call by call: which uploads are accepted, that valid
  chunks go through, what a failed call leaves behind, and what a completed upload publishes.
\<close>

lemma reachable_storage:
  assumes "drive_reachable sha (d, s)"
  shows "storage_ok d" "system_ok sha d s"
  using drive_reachable_ok [OF assms] by (simp_all add: drive_ok_def system_ok_def store_ok_def)

section \<open>Chunks\<close>



lemma append_chunk_keeps_prefix:
  assumes "append_chunk wb F now u n b s = (r, s1)" and "fs_file s (staging_path u) = Some c" and "n \<le> length c"
  shows "\<exists>new. fs_file s1 (staging_path u) = Some new \<and> take n new = take n c \<and> n \<le> length new"
proof -
  obtain c' ok where w: "write_blocks (of_writes F) c (coalesced wb b) = (c', ok)" by fastforce
  then obtain p where "c' = c @ p" using write_blocks_prefix by blast
  with assms w show ?thesis
    by (auto simp: append_chunk_def Let_def truncated_def split: option.splits if_splits)
qed

text \<open>
  C18: a failed append costs nothing that was confirmed. The database stays as it is, and when the
  staging file holds at least the confirmed bytes, it begins with the same bytes afterwards, so that
  the next append can go on from the confirmed offset.
\<close>

theorem append_failure_keeps_confirmed:
  assumes "append_upload P S policy c d s = (Inl e, d', s')"
    and "get_upload_session d (au_upload c) = Some u"
    and "fs_file s (staging_path (au_upload c)) = Some old" and "nat (us_uploaded_bytes u) \<le> length old"
  shows "d' = d \<and> (\<exists>new. fs_file s' (staging_path (au_upload c)) = Some new
    \<and> take (nat (us_uploaded_bytes u)) new = take (nat (us_uploaded_bytes u)) old)"
proof (cases "append_checks P c d")
  case (Inl e')
  with assms show ?thesis by (simp add: append_upload_def)
next
  case (Inr u')
  have u': "u' = u" and id: "us_id u = au_upload c" using append_checks_D [OF Inr] assms(2) by simp_all
  let ?n = "nat (us_uploaded_bytes u)"
  obtain b sz where b: "bounded_stream (up_maximum_chunk_size policy)
      (us_expected_size u - us_uploaded_bytes u) (au_body c) = (b, sz)" by fastforce
  obtain r s1 where app: "append_chunk (sv_write_buffer S) (sv_faults S) (p_now P) (us_id u) ?n b s = (r, s1)"
    by fastforce
  obtain new where new: "fs_file s1 (staging_path (us_id u)) = Some new" "take ?n new = take ?n old" "?n \<le> length new"
    using append_chunk_keeps_prefix [OF app assms(3) [folded id] assms(4)] by blast
  show ?thesis
  proof (cases "s' = s1")
    case True
    with new assms(1) Inr u' b app show ?thesis
      by (auto simp: append_upload_def Let_def id split: sum.splits prod.splits)
  next
    case False
    with assms(1) Inr u' b app have d': "d' = d" and s': "s' = snd (truncate_upload (p_now P) (us_id u) ?n s1)"
      by (auto simp: append_upload_def Let_def split: sum.splits prod.splits)
    from new have "fs_file s' (staging_path (us_id u)) = Some (take ?n new)"
      by (simp add: s' truncate_upload_def truncated_def)
    with new(2) d' show ?thesis by (simp add: id)
  qed
qed

text \<open>A run where the failure leaves extra bytes behind: the body breaks the declared size in its second chunk.\<close>

definition oversized_append :: append_cmd where
  "oversized_append = \<lparr>au_owner = sample_id 10, au_upload = sample_id 30, au_offset = 0,
     au_body = \<lparr>bs_chunks = [''hell'', ''owing''], bs_error = None\<rparr>\<rparr>"

lemma oversized_blocks: "coalesced 4 \<lparr>bs_chunks = [''hell''], bs_error = Some UploadValidation\<rparr> = [''hell'']"
  by code_simp

theorem append_failure_keeps_confirmed_witness:
  "fst (snd (append_upload (sample_ports 4) sample_upload_services sample_upload_policy oversized_append db3 fs3)) = db3
   \<and> fst (append_upload (sample_ports 4) sample_upload_services sample_upload_policy oversized_append db3 fs3) = Inl UploadValidation"
proof -
  have e: "fst (append_upload (sample_ports 4) sample_upload_services sample_upload_policy oversized_append db3 fs3)
      = Inl UploadValidation"
    by (simp add: oversized_append_def db1_def db2_def db3_def fs3_def oversized_blocks run_defs)
  then obtain d' s' where run: "append_upload (sample_ports 4) sample_upload_services sample_upload_policy
      oversized_append db3 fs3 = (Inl UploadValidation, d', s')" by (metis prod.collapse)
  have "get_upload_session db3 (au_upload oversized_append) = Some (upload_row 0 Created None 3)"
    "fs_file fs3 (staging_path (au_upload oversized_append)) = Some []"
    by (simp_all add: oversized_append_def db3_def get_upload_session_def tbl_find_def upload_row_def
      fs3_def fs_file_def fs_get_def)
  from append_failure_keeps_confirmed [OF run this] e run show ?thesis by (simp add: upload_row_def)
qed

section \<open>Valid chunks go through\<close>

definition piece_ok :: "upload_policy \<Rightarrow> upload_session \<Rightarrow> ports \<times> body_stream \<Rightarrow> bool" where
  "piece_ok policy u = (\<lambda>(P, b). p_now P < us_expires u \<and> bs_error b = None \<and> concat (bs_chunks b) \<noteq> []
     \<and> int (length (concat (bs_chunks b))) \<le> up_maximum_chunk_size policy)"

lemma bounded_chunks_all:
  "sz + int (length (concat cs)) \<le> m \<Longrightarrow> sz + int (length (concat cs)) \<le> rem \<Longrightarrow>
     bounded_chunks m rem sz err cs = (cs, err, sz + int (length (concat cs)))"
  by (induction cs arbitrary: sz) (auto simp: Let_def)

lemma append_chunk_no_faults:
  assumes "fs_file s (staging_path u) = Some c" and "bs_error b = None" and "0 < wb"
  shows "append_chunk wb no_faults now u (length c) b s =
    (Inr (int (length c + length (concat (bs_chunks b)))),
     fs_put (staging_path u) (RegFile (c @ concat (bs_chunks b)) now) s)"
  using assms by (simp add: append_chunk_def no_faults_def write_blocks_no_faults coalesced_concat)

lemma save_upload_session_succeeds:
  assumes "storage_ok d" and "get_upload_session d i = Some u"
    and "us_uploaded_bytes u \<le> n" "n \<le> us_expected_size u"
  shows "\<exists>d'. save_upload_session (u\<lparr>us_uploaded_bytes := n, us_status := Uploading, us_updated := t\<rparr>) d = Inr d'"
proof -
  have ok: "distinct (map us_id (db_uploads d))" "\<forall>r \<in> set (db_uploads d). upload_check d r"
    using storage_okD(11) [OF assms(1)] by (simp_all add: uploads_ok_def)
  have u: "u \<in> set (db_uploads d)" "us_id u = i"
    using assms(2) by (auto simp: get_upload_session_def dest: tbl_find_Some_D)
  have "tbl_count (\<lambda>r. us_id r = us_id u) (db_uploads d) = 1"
    using tbl_count_key_1_iff [OF ok(1), of "us_id u"] u(1) by blast
  moreover have "upload_check d (r\<lparr>us_uploaded_bytes := n, us_checksum := us_checksum u, us_status := Uploading,
      us_updated := t\<rparr>)" if "r \<in> set (db_uploads d)" "us_id r = us_id u" for r
  proof -
    have "r = u" using distinct_key_inject [OF ok(1) that(1) u(1) that(2)] .
    with ok(2) u(1) assms(3,4) show ?thesis by (auto simp: upload_check_def)
  qed
  ultimately show ?thesis
    using ok(2) by (auto simp: save_upload_session_def Let_def set_tbl_update)
qed

lemma append_goes_through:
  assumes "storage_ok d" and "sv_faults S = no_faults" and "0 < sv_write_buffer S"
    and u: "get_upload_session d i = Some u" "us_owner u = own" "us_status u \<in> {Created, Uploading}"
    and stg: "fs_file s (staging_path i) = Some old" "us_uploaded_bytes u = int (length old)"
    and piece: "piece_ok policy u (P, b)" "int (length old + length (concat (bs_chunks b))) \<le> us_expected_size u"
  shows "\<exists>r d' s'. append_upload P S policy \<lparr>au_owner = own, au_upload = i, au_offset = int (length old), au_body = b\<rparr> d s
      = (Inr r, d', s') \<and> cr_offset r = int (length (old @ concat (bs_chunks b)))"
proof -
  let ?c = "\<lparr>au_owner = own, au_upload = i, au_offset = int (length old), au_body = b\<rparr>"
  let ?n = "int (length old + length (concat (bs_chunks b)))"
  have id: "us_id u = i" using u(1) by (auto simp: get_upload_session_def dest: tbl_find_Some_D)
  have chk: "append_checks P ?c d = Inr u"
    using u stg(2) piece(1) by (simp add: append_checks_def require_upload_def require_writable_def piece_ok_def)
  have "bounded_stream (up_maximum_chunk_size policy) (us_expected_size u - us_uploaded_bytes u) b =
      (b, int (length (concat (bs_chunks b))))"
    using bounded_chunks_all [of 0 "bs_chunks b" "up_maximum_chunk_size policy"
        "us_expected_size u - us_uploaded_bytes u" None] piece stg(2)
    by (auto simp: bounded_stream_def piece_ok_def)
  moreover obtain d' where "save_upload_session (u\<lparr>us_uploaded_bytes := ?n, us_status := Uploading, us_updated := p_now P\<rparr>) d = Inr d'"
    using save_upload_session_succeeds [OF assms(1) u(1), of ?n] stg(2) piece(2) by fastforce
  then have "record_chunk P u (int (length (concat (bs_chunks b)))) ?n d = Inr d'"
    using piece u(3) stg(2) by (auto simp: record_chunk_def record_progress_def piece_ok_def rbind_def require_def)
  moreover have "append_chunk (sv_write_buffer S) (sv_faults S) (p_now P) (us_id u) (nat (us_uploaded_bytes u)) b s =
      (Inr ?n, fs_put (staging_path i) (RegFile (old @ concat (bs_chunks b)) (p_now P)) s)"
    using append_chunk_no_faults [OF stg(1) _ assms(3)] piece(1) stg(2) id assms(2) by (simp add: piece_ok_def)
  ultimately show ?thesis using chk by (simp add: append_upload_def)
qed

text \<open>A client that sends a content in pieces, each from the offset of the last reply.\<close>

fun send_pieces ::
  "upload_services \<Rightarrow> upload_policy \<Rightarrow> uuid \<Rightarrow> uuid \<Rightarrow> (ports \<times> body_stream) list \<Rightarrow> int \<Rightarrow> db \<Rightarrow> fs \<Rightarrow>
     (int \<times> db \<times> fs) result" where
  "send_pieces S policy own i [] offset d s = Inr (offset, d, s)"
| "send_pieces S policy own i ((P, b) # ps) offset d s =
     (case append_upload P S policy \<lparr>au_owner = own, au_upload = i, au_offset = offset, au_body = b\<rparr> d s of
        (Inl e, _, _) \<Rightarrow> Inl e
      | (Inr r, d', s') \<Rightarrow> send_pieces S policy own i ps (cr_offset r) d' s')"

definition content_of :: "(ports \<times> body_stream) list \<Rightarrow> bytes" where
  "content_of ps = concat (map (\<lambda>(P, b). concat (bs_chunks b)) ps)"

lemma content_of_simps [simp]:
  "content_of [] = []" "content_of ((P, b) # ps) = concat (bs_chunks b) @ content_of ps"
  by (simp_all add: content_of_def)

text \<open>
  C16: an upload in pieces arrives. While the file system does not fail, pieces that are not empty,
  respect the chunk limit, come before the expiry and together do not exceed the declared size
  are all accepted, one after the other, however the content is cut; then the staging
  file is the old content followed by all pieces and the session confirms its length.
\<close>

theorem pieces_arrive:
  assumes "storage_ok d" and "sv_faults S = no_faults" and "0 < sv_write_buffer S"
    and "get_upload_session d i = Some u" "us_owner u = own" "us_status u \<in> {Created, Uploading}"
    and "fs_file s (staging_path i) = Some old" "us_uploaded_bytes u = int (length old)"
    and "\<forall>p \<in> set ps. piece_ok policy u p" and "int (length (old @ content_of ps)) \<le> us_expected_size u"
  shows "\<exists>d' s' u'. send_pieces S policy own i ps (int (length old)) d s = Inr (int (length (old @ content_of ps)), d', s')
    \<and> fs_file s' (staging_path i) = Some (old @ content_of ps) \<and> storage_ok d'
    \<and> get_upload_session d' i = Some u' \<and> us_uploaded_bytes u' = int (length (old @ content_of ps))
    \<and> us_status u' \<in> {Created, Uploading} \<and> us_expected_size u' = us_expected_size u"
  using assms
proof (induction ps arbitrary: d s u old)
  case Nil
  then show ?case by simp
next
  case (Cons p ps)
  obtain P b where p: "p = (P, b)" by fastforce
  let ?piece = "concat (bs_chunks b)"
  let ?u = "u\<lparr>us_uploaded_bytes := us_uploaded_bytes u + int (length ?piece), us_status := Uploading, us_updated := p_now P\<rparr>"
  have one: "piece_ok policy u (P, b)" and le: "int (length old + length ?piece) \<le> us_expected_size u"
    using Cons.prems(9,10) by (simp_all add: p)
  from append_goes_through [OF Cons.prems(1-8) this] obtain r d1 s1 where
    run: "append_upload P S policy \<lparr>au_owner = own, au_upload = i, au_offset = int (length old), au_body = b\<rparr> d s
      = (Inr r, d1, s1)" and r: "cr_offset r = int (length (old @ ?piece))" by blast
  from append_upload_success [OF Cons.prems(1,3) run] Cons.prems(4,7)
  have s1: "fs_file s1 (staging_path i) = Some (old @ ?piece)" and u1: "get_upload_session d1 i = Some ?u" by auto
  have "storage_ok d1" by (rule append_upload_ok [OF Cons.prems(1) run])
  from Cons.IH [OF this Cons.prems(2,3) u1 _ _ s1] Cons.prems(5,8-10) obtain d' s' u' where
    "send_pieces S policy own i ps (int (length (old @ ?piece))) d1 s1
      = Inr (int (length ((old @ ?piece) @ content_of ps)), d', s')"
    "fs_file s' (staging_path i) = Some ((old @ ?piece) @ content_of ps)" "storage_ok d'"
    "get_upload_session d' i = Some u'" "us_uploaded_bytes u' = int (length ((old @ ?piece) @ content_of ps))"
    "us_status u' \<in> {Created, Uploading}" "us_expected_size u' = us_expected_size u"
    by (auto simp: piece_ok_def p)
  with run r show ?case by (auto simp: p)
qed

theorem pieces_arrive_witness:
  "\<exists>d' s'. send_pieces sample_upload_services sample_upload_policy (sample_id 10) (sample_id 30)
      [(sample_ports 4, \<lparr>bs_chunks = [''he''], bs_error = None\<rparr>), (sample_ports 5, \<lparr>bs_chunks = [''l'', ''lo''], bs_error = None\<rparr>)]
      0 db3 fs3 = Inr (5, d', s') \<and> fs_file s' (staging_path (sample_id 30)) = Some ''hello''"
proof -
  let ?ps = "[(sample_ports 4, \<lparr>bs_chunks = [''he''], bs_error = None\<rparr>), (sample_ports 5, \<lparr>bs_chunks = [''l'', ''lo''], bs_error = None\<rparr>)]"
  have "get_upload_session db3 (sample_id 30) = Some (upload_row 0 Created None 3)"
    "fs_file fs3 (staging_path (sample_id 30)) = Some []"
    by (simp_all add: db3_def get_upload_session_def tbl_find_def upload_row_def fs3_def fs_file_def fs_get_def)
  from pieces_arrive [OF reachable_storage(1) [OF sample_reachable(6)] _ _ this(1) _ _ this(2),
      of sample_upload_services "sample_id 10" ?ps sample_upload_policy]
  show ?thesis
    by (auto simp: sample_services_simps upload_row_def piece_ok_def sample_ports_def sample_upload_policy_def)
qed

section \<open>Completion\<close>

text \<open>
  C15: a completed upload is the file. When a completion succeeds, the staged bytes have exactly the
  declared size; they leave the staging area and become the content of a new object; the
  new file entry in the target folder is active, its current version names that object, and its
  metadata show the length, the SHA-256 and the detected type of these bytes; the
  declared type was compatible with the detected one; and the session is completed.
\<close>

theorem complete_publishes_the_upload:
  assumes "drive_reachable (sv_sha256 S) (d, s)" and "0 < sv_block_size S"
    and "complete_upload P S policy c d s = (Inr dto, d', s')"
  shows "\<exists>u content fm v ob r. get_upload_session d (ou_upload c) = Some u \<and> us_owner u = ou_owner c
    \<and> fs_file s (staging_path (us_id u)) = Some content \<and> us_expected_size u = int (length content)
    \<and> fs_file s' (staging_path (us_id u)) = None
    \<and> db_entries d' = db_entries d @ [r] \<and> r_parent r = Some (us_parent u) \<and> r_owner r = us_owner u
    \<and> r_type r = FileType \<and> r_deleted r = None
    \<and> current_of d' (r_id r) fm v \<and> ob \<in> set (db_objects d') \<and> o_id ob = v_object v
    \<and> object_content s' (o_storage_key ob) = Some content
    \<and> fm_size fm = int (length content) \<and> fm_checksum fm = sv_sha256 S content
    \<and> fm_mime_type fm = detect_mime (sv_guess_type S) (take inspection_prefix_size content) (us_original_name u)
    \<and> validate_mime (us_mime_type u) (fm_mime_type fm) policy = Inr ()
    \<and> (\<exists>w \<in> set (db_uploads d'). us_id w = us_id u \<and> us_status w = Completed)"
proof -
  note ok = reachable_storage [OF assms(1)]
  from assms(3) obtain i stored where chk: "complete_checks P S policy c d s = Inr i"
    and pub: "publish_upload (us_id (in_upload i)) (in_size i) s = (Inr stored, s')"
    and rec: "record_completion P i stored d = Inr d'"
    by (auto simp: complete_upload_def split: sum.splits prod.splits)
  let ?u = "in_upload i"
  note D = complete_checks_D [OF chk] and comp = completing [OF ok(2) assms(2) chk]
  obtain content where c: "fs_file s (staging_path (us_id ?u)) = Some content"
    "in_checksum i = sv_sha256 S content" "in_size i = int (length content)" using comp(6) by blast
  obtain blocks where b: "stream_upload (sv_block_size S) (us_id ?u) s = Inr blocks"
    "in_mime i = detect_mime (sv_guess_type S) (take inspection_prefix_size (concat blocks)) (us_original_name ?u)"
    using D(8) by blast
  have mime: "in_mime i = detect_mime (sv_guess_type S) (take inspection_prefix_size content) (us_original_name ?u)"
    using stream_upload_content [OF b(1) assms(2)] c(1) b(2) by simp
  have declared: "validate_mime (us_mime_type ?u) (in_mime i) policy = Inr ()"
    using chk by (auto simp: complete_checks_def Let_def result_simps inspect_stream_content)
  note P = publish_upload_success [OF pub c(1)]
  obtain fo where fo: "active_folder_row (db_entries d) (us_owner ?u) (us_parent ?u) fo" using D(6) by blast
  note F = record_completion_frame [OF rec ok(1) fo]
  let ?r = "entry_model (completed_file P i stored)" and ?fm = "completed_metadata i stored"
  have r: "r_id ?r = p_ids P 0" "r_parent ?r = Some (us_parent ?u)" "r_owner ?r = us_owner ?u"
    "r_type ?r = FileType" "r_deleted ?r = None"
    by (simp_all add: completed_file_def)
  have cur: "current_of d' (r_id ?r) ?fm (completed_version P i stored)"
    by (simp add: current_of_def F(8,9)) (simp add: completed_version_def completed_metadata_def completed_file_def)
  have ob: "completed_object P i stored \<in> set (db_objects d')"
    "o_id (completed_object P i stored) = v_object (completed_version P i stored)"
    "object_content s' (o_storage_key (completed_object P i stored)) = Some content"
    using P(1,4) by (simp_all add: F(1)) (simp_all add: completed_object_def completed_version_def)
  have fm: "fm_size ?fm = int (length content)" "fm_checksum ?fm = sv_sha256 S content" "fm_mime_type ?fm = in_mime i"
    using P(2,3) c by (simp_all add: completed_metadata_def)
  show ?thesis
    by (rule exI [of _ ?u], rule exI [of _ content], rule exI [of _ ?fm], rule exI [of _ "completed_version P i stored"],
      rule exI [of _ "completed_object P i stored"], rule exI [of _ ?r], intro conjI)
      (use D(1,2,5) c P(6) r ob cur F(7) fm mime declared record_completion_marks [OF rec ok(1) comp(1)]
        in \<open>simp_all only: simp_thms\<close>)
qed

theorem complete_publishes_the_upload_witness:
  "\<exists>content fm v ob. current_of db5 (sample_id 50) fm v \<and> ob \<in> set (db_objects db5) \<and> o_id ob = v_object v
     \<and> object_content fs5 (o_storage_key ob) = Some content \<and> fm_checksum fm = sample_sha content"
proof -
  have "drive_reachable (sv_sha256 sample_upload_services) (db4, fs4)" "0 < sv_block_size sample_upload_services"
    using sample_reachable(2) by (simp_all add: sample_services_simps)
  from complete_publishes_the_upload [OF this sample_complete_upload] obtain content fm v ob r where
    r: "db_entries db5 = db_entries db4 @ [r]" and
    x: "current_of db5 (r_id r) fm v" "ob \<in> set (db_objects db5)" "o_id ob = v_object v"
    "object_content fs5 (o_storage_key ob) = Some content" "fm_checksum fm = sample_sha content"
    unfolding sample_services_simps by blast
  have "r_id r = sample_id 50" using r by (auto simp: db4_def db5_def file_row_def)
  with x show ?thesis by auto
qed

text \<open>
  A failed completion publishes nothing. The database stays as it is, the content of every
  existing object stays the same, and when a check refuses the upload the files stay too,
  so that the client can try again.
\<close>

theorem complete_failure_publishes_nothing:
  assumes "drive_reachable sha (d, s)" and "0 < sv_block_size S"
    and "complete_upload P S policy c d s = (Inl e, d', s')"
  shows "d' = d \<and> (\<forall>k \<in> live_keys d. object_content s' k = object_content s k)
    \<and> (\<forall>e'. complete_checks P S policy c d s = Inl e' \<longrightarrow> e = e' \<and> s' = s)"
proof (intro conjI ballI allI impI)
  show "d' = d" using assms(3) by (auto simp: complete_upload_def split: sum.splits prod.splits)
next
  fix k assume "k \<in> live_keys d"
  then show "object_content s' k = object_content s k"
    by (rule complete_upload_content [OF reachable_storage(2) [OF assms(1)] assms(2,3)])
next
  fix e' assume "complete_checks P S policy c d s = Inl e'"
  with assms(3) show "e = e'" "s' = s" by (simp_all add: complete_upload_def)
qed

text \<open>Completing the upload before its bytes have come.\<close>

theorem complete_failure_publishes_nothing_witness:
  "complete_upload (sample_ports 5) sample_upload_services sample_upload_policy sample_complete db3 fs3
     = (Inl UploadStateConflict, db3, fs3)"
proof -
  have chk: "complete_checks (sample_ports 5) sample_upload_services sample_upload_policy sample_complete db3 fs3
      = Inl UploadStateConflict"
    by (simp add: db1_def db2_def db3_def fs3_def sample_complete_def run_defs)
  obtain e d' s' where run: "complete_upload (sample_ports 5) sample_upload_services sample_upload_policy sample_complete db3 fs3
      = (Inl e, d', s')" by (auto simp: complete_upload_def chk)
  have "0 < sv_block_size sample_upload_services" by (simp add: sample_services_simps)
  from complete_failure_publishes_nothing [OF sample_reachable(6) this run] chk run show ?thesis by simp
qed

section \<open>Accepted uploads\<close>

text \<open>
  What an accepted upload has passed. When a start succeeds, the declared size, the extension and
  the declared type respect the policy, the folder is an active folder of the owner with no
  entry of that name, and the logical path fits; exactly one session in its first state was added, which expires
  after the configured time, and its staging file is empty.
\<close>

theorem start_respects_the_policy:
  assumes "start_upload P policy c d s = (Inr dto, d', s')"
  shows "\<exists>name mime q. entry_name_create (p_unicode P) (su_filename c) = Inr name
    \<and> canonical_mime (p_unicode P) (su_declared_mime c) = Inr mime
    \<and> 0 \<le> su_expected_size c \<and> su_expected_size c \<le> up_maximum_file_size policy
    \<and> entry_name_extension (p_unicode P) name \<notin> set (up_blocked_extensions policy)
    \<and> (up_allowed_extensions policy = [] \<or> entry_name_extension (p_unicode P) name \<in> set (up_allowed_extensions policy))
    \<and> (up_allowed_mime_types policy = [] \<or> mime \<in> set (up_allowed_mime_types policy))
    \<and> active_folder_row (db_entries d) (su_owner c) (su_parent c) q
    \<and> \<not> name_exists d (su_parent c) (en_normalized name) None
    \<and> (\<exists>n. logical_path_length d (su_parent c) = Inr n
         \<and> n + int (length (en_value name)) \<le> up_maximum_logical_path_length policy)
    \<and> d' = d\<lparr>db_uploads := db_uploads d @ [new_upload (p_ids P 0) c name (entry_name_extension (p_unicode P) name)
         mime (su_parent c) (p_now P) policy]\<rparr>
    \<and> fs_file s' (staging_path (p_ids P 0)) = Some []"
proof -
  from assms obtain name mime folder where chk: "start_checks P policy c d = Inr (name, mime, folder)"
    and create: "create_upload (p_now P) (p_ids P 0) s = (Inr (), s')"
    and ins: "insert_upload (new_upload (p_ids P 0) c name (entry_name_extension (p_unicode P) name) mime
      (e_id folder) (p_now P) policy) d = Inr d'"
    by (auto simp: start_upload_def Let_def split: sum.splits prod.splits)
  from chk obtain found n where get: "get_folder (p_unicode P) d (su_parent c) False = Inr found"
    and own: "require_owned found (su_owner c) = Inr folder"
    and path: "logical_path_length d (e_id folder) = Inr n" "n + int (length (en_value name)) \<le> up_maximum_logical_path_length policy"
    and rest: "entry_name_create (p_unicode P) (su_filename c) = Inr name"
      "canonical_mime (p_unicode P) (su_declared_mime c) = Inr mime"
      "validate_start_policy (su_expected_size c) (entry_name_extension (p_unicode P) name) mime policy = Inr ()"
      "\<not> name_exists d (e_id folder) (en_normalized name) None"
    by (auto simp: start_checks_def Let_def result_simps)
  have f: "get_folder (p_unicode P) d (su_parent c) False = Inr (Some folder)" "e_owner folder = su_owner c"
    using get own by (auto simp: result_simps)
  note F = get_folder_SomeD [OF f(1)]
  have q: "active_folder_row (db_entries d) (su_owner c) (su_parent c) (entry_model folder)"
    using F f(2) by (auto simp: active_folder_row_def simp del: is_folder.simps)
  have d': "d' = d\<lparr>db_uploads := db_uploads d @ [new_upload (p_ids P 0) c name (entry_name_extension (p_unicode P) name) mime
      (su_parent c) (p_now P) policy]\<rparr>"
    using ins F(2) by (auto simp: insert_upload_def split: if_splits)
  have "fs_file s' (staging_path (p_ids P 0)) = Some []"
    using create by (auto simp: create_upload_def Let_def split: sum.splits if_splits option.splits)
  with rest path q d' F(2) show ?thesis by (auto simp: validate_start_policy_def result_simps)
qed

theorem start_respects_the_policy_witness:
  "fs_file fs3 (staging_path (sample_id 30)) = Some [] \<and> length (db_uploads db3) = Suc (length (db_uploads db2))"
proof -
  from start_respects_the_policy [OF sample_start_upload] obtain x where
    "db3 = db2\<lparr>db_uploads := db_uploads db2 @ [x]\<rparr>" and stg: "fs_file fs3 (staging_path (p_ids (sample_ports 3) 0)) = Some []"
    by blast
  from arg_cong [OF this(1), of db_uploads] have "db_uploads db3 = db_uploads db2 @ [x]" by simp
  with stg show ?thesis by (simp add: sample_ports_def)
qed

end
