(* ===== verification/Outbox_Properties.thy ===== *)
theory Outbox_Properties
  imports Samples
begin

text \<open>
  Reclaiming storage: what one run of the outbox consumer does to the drive.
\<close>

definition ready_orphan :: "db \<Rightarrow> storage_object \<Rightarrow> bool" where
  "ready_orphan d ob \<longleftrightarrow> o_status ob = ObjReady \<and> orphan_condition d (o_id ob)"

definition same_references :: "db \<Rightarrow> db \<Rightarrow> bool" where
  "same_references d d' \<longleftrightarrow> db_versions d' = db_versions d \<and> db_thumbnails d' = db_thumbnails d
     \<and> db_previews d' = db_previews d"

lemma ready_orphan_same: "same_references d d' \<Longrightarrow> ready_orphan d' ob \<longleftrightarrow> ready_orphan d ob"
  by (simp add: ready_orphan_def orphan_condition_def same_references_def)

lemma detach_one_orphan:
  assumes "distinct (map o_id (db_objects d))" and "ob \<in> set (db_objects d)" and "ready_orphan d ob"
  shows "\<exists>d1. delete_claimed_orphan_storage_object (o_id ob) d = (True, d1)
    \<and> set (db_objects d1) = set (db_objects d) - {ob} \<and> same_references d d1
    \<and> distinct (map o_id (db_objects d1)) \<and> db_outbox d1 = db_outbox d"
proof -
  let ?P = "\<lambda>x. o_id x = o_id ob \<and> o_status x = ObjReady \<and> orphan_condition d (o_id ob)"
  have only: "?P x \<longleftrightarrow> x = ob" if "x \<in> set (db_objects d)" for x
    using distinct_key_inject [OF assms(1) that assms(2)] assms(3) by (auto simp: ready_orphan_def)
  have "0 < tbl_count ?P (db_objects d)"
    using assms(2) only by (auto simp: tbl_count_pos_iff)
  moreover have "set (tbl_delete ?P (db_objects d)) = set (db_objects d) - {ob}"
    using only by (auto simp: set_tbl_delete)
  moreover have "distinct (map o_id (tbl_delete ?P (db_objects d)))"
    by (rule distinct_map_tbl_delete [OF assms(1)])
  ultimately show ?thesis
    by (simp add: delete_claimed_orphan_storage_object_def Let_def same_references_def)
qed

lemma detach_orphans_all:
  assumes "detach_orphans P obs n c d = Inr (c', n', d')"
    and "distinct obs" "set obs \<subseteq> set (db_objects d)" "\<forall>ob \<in> set obs. ready_orphan d ob"
    and "distinct (map o_id (db_objects d))"
  shows "set (db_objects d') = set (db_objects d) - set obs \<and> c' = c + int (length obs)
    \<and> same_references d d' \<and> pending_deletes d' = pending_deletes d \<union> o_storage_key ` set obs
    \<and> (\<exists>rows. db_outbox d' = db_outbox d @ rows
          \<and> (\<forall>r \<in> set rows. ob_id r \<notin> tbl_keys ob_id (db_outbox d)))"
  using assms
proof (induction obs arbitrary: n c d)
  case (Cons ob obs)
  from detach_one_orphan [of d ob] Cons.prems obtain d1 where
    d1: "delete_claimed_orphan_storage_object (o_id ob) d = (True, d1)"
      "set (db_objects d1) = set (db_objects d) - {ob}" "same_references d d1"
      "distinct (map o_id (db_objects d1))" "db_outbox d1 = db_outbox d" by auto
  from Cons.prems(1) d1(1) obtain row d2 where
    add: "outbox_add (p_ids P n) (p_db_now P)
         \<lparr>nm_aggregate_id = o_id ob, nm_aggregate_type = ''storage.object'',
          nm_event_type = object_delete_requested, nm_occurred = p_now P,
          nm_payload = [(''storage_key'', JStr (o_storage_key ob))]\<rparr> d1 = Inr (row, d2)"
    and rest: "detach_orphans P obs (n + 1) (c + 1) d2 = Inr (c', n', d')"
    by (auto simp: result_simps)
  note row = outbox_add_eq_Inr [OF add]
  have d2: "d2 = d1\<lparr>db_outbox := db_outbox d1 @ [row]\<rparr>" by (rule row(1))
  have same: "same_references d d2" using d1(3) by (simp add: d2 same_references_def)
  have pd: "pending_deletes d2 = insert (o_storage_key ob) (pending_deletes d)"
    using row(3,4,5) by (auto simp: d2 d1(5) pending_deletes_def payload_key_def)
  have "set (db_objects d') = set (db_objects d2) - set obs \<and> c' = c + 1 + int (length obs)
    \<and> same_references d2 d' \<and> pending_deletes d' = pending_deletes d2 \<union> o_storage_key ` set obs
    \<and> (\<exists>rows. db_outbox d' = db_outbox d2 @ rows
          \<and> (\<forall>r \<in> set rows. ob_id r \<notin> tbl_keys ob_id (db_outbox d2)))"
    by (rule Cons.IH [OF rest])
      (use Cons.prems d1 ready_orphan_same [OF same] in \<open>auto simp: d2\<close>)
  moreover from this obtain rows where "db_outbox d' = db_outbox d @ row # rows"
    "\<forall>r \<in> set rows. ob_id r \<notin> tbl_keys ob_id (db_outbox d @ [row])"
    by (auto simp: d2 d1(5))
  then have "\<exists>rows. db_outbox d' = db_outbox d @ rows
          \<and> (\<forall>r \<in> set rows. ob_id r \<notin> tbl_keys ob_id (db_outbox d))"
    using row(2,8) by (intro exI [of _ "row # rows"]) (auto simp: d1(5) tbl_keys_def)
  ultimately show ?case using same pd d1(2) by (auto simp: d2 same_references_def)
qed (auto simp: same_references_def)

lemma pending_deletes_mark_sweep:
  assumes "distinct (map ob_id (db_outbox d))" and "m \<in> set (db_outbox d)"
    and "ob_event_type m = orphan_sweep_requested"
    and "db_outbox d1 = db_outbox d @ rows" "\<forall>r \<in> set rows. ob_id r \<notin> tbl_keys ob_id (db_outbox d)"
  shows "pending_deletes (snd (mark_processed (ob_id m) t d1)) = pending_deletes d1"
proof -
  have "ob_id r \<noteq> ob_id m" if "r \<in> set (db_outbox d1)" "ob_event_type r = object_delete_requested" for r
  proof
    assume eq: "ob_id r = ob_id m"
    have "ob_id r \<in> tbl_keys ob_id (db_outbox d)" using assms(2) eq by (auto simp: tbl_keys_def)
    with that(1) assms(4,5) have "r \<in> set (db_outbox d)" by auto
    from distinct_key_inject [OF assms(1) this assms(2) eq] that(2) assms(3) show False by simp
  qed
  then show ?thesis
    using mark_processed_pending [of "ob_id m" t d1] unfolding pending_deletes_def by blast
qed


lemma sample_sweep:
  "\<exists>out n' d'. process_orphan_sweep (sample_ports 8) sweep_event 10 0 db7 = Inr (out, n', d') \<and> \<not> eo_deferred out"
  by (simp add: process_orphan_sweep_def claim_orphan_storage_objects_def to_storage_object_def orphan_condition_def
      delete_claimed_orphan_storage_object_def mark_processed_def pending_def unclaimed_def db7_def db1_def run_defs)


section \<open>A cycle of the consumer\<close>

lemma event_outcome_one:
  assumes "process_message remove P locked m k n d s = (out, n', d', s')" and "eo_claimed out"
  shows "of_bool (eo_processed out) + of_bool (eo_deferred out) + of_bool (eo_failed out) = (1 :: int)"
  using assms
  by (auto simp: process_message_def process_leased_def process_orphan_sweep_def process_object_delete_def Let_def
      unclaimed_def result_simps split: option.splits sum.splits prod.splits if_splits)

lemma outbox_cycle_counts:
  assumes "outbox_cycle remove P locked orphans k n r d s = (r', n', d', s')"
  shows "pr_seen r \<le> pr_seen r' \<and> pr_seen r' \<le> pr_seen r + int k
    \<and> pr_failed r \<le> pr_failed r' \<and> pr_failed r' \<le> pr_failed r + 1
    \<and> pr_processed r' + pr_deferred r' + pr_failed r' - pr_seen r' =
        pr_processed r + pr_deferred r + pr_failed r - pr_seen r"
  using assms
proof (induction k arbitrary: n r d s)
  case (Suc k)
  show ?case
  proof (cases "next_pending_message d")
    case (Some m)
    obtain out n1 d1 s1 where pm: "process_message remove P locked m orphans n d s = (out, n1, d1, s1)"
      by (metis prod_cases4)
    note one = event_outcome_one [OF pm]
    consider "\<not> eo_claimed out" | "eo_claimed out" "eo_failed out" | "eo_claimed out" "\<not> eo_failed out" by blast
    then show ?thesis
    proof cases
      case 3
      then have "outbox_cycle remove P locked orphans k n1 (add_outcome out r) d1 s1 = (r', n', d', s')"
        using Suc.prems Some pm by simp
      from Suc.IH [OF this] one [OF 3(1)] 3 show ?thesis by (auto simp: add_outcome_def)
    qed (use Suc.prems Some pm one in \<open>auto simp: add_outcome_def\<close>)
  qed (use Suc.prems in simp)
qed simp

text \<open>
  One run of the consumer is bounded. It looks at no more events than its batch size, each is
  counted exactly once as processed, deferred or failed, and the run stops at the first failure.
\<close>

theorem process_outbox_bounded:
  "case process_storage_outbox remove P locked c d s of (r, n, d', s') \<Rightarrow>
     0 \<le> pr_seen r \<and> pr_seen r \<le> int (pc_event_batch c) \<and> pr_failed r \<in> {0, 1}
     \<and> pr_processed r + pr_deferred r + pr_failed r = pr_seen r"
proof -
  obtain r n d' s' where run: "process_storage_outbox remove P locked c d s = (r, n, d', s')"
    by (metis prod_cases4)
  from outbox_cycle_counts [OF run [unfolded process_storage_outbox_def]] show ?thesis
    by (auto simp: run process_zero_def)
qed

text \<open>
  C10: cleaning up takes nothing anybody can see. A run of the consumer on a reachable drive leaves
  entries, metadata, versions, uploads and tombstones alone, only removes objects, and afterwards
  every version still has its object with the same bytes as before.
\<close>

theorem cleanup_keeps_files:
  assumes "drive_reachable sha (d, s)"
    and "process_storage_outbox delete_object P locked c d s = (r, n, d', s')"
  shows "db_entries d' = db_entries d \<and> db_meta d' = db_meta d \<and> db_versions d' = db_versions d
    \<and> db_uploads d' = db_uploads d \<and> db_trash d' = db_trash d
    \<and> set (db_objects d') \<subseteq> set (db_objects d)
    \<and> (\<forall>v \<in> set (db_versions d). \<exists>ob \<in> set (db_objects d'). o_id ob = v_object v
         \<and> object_content s' (o_storage_key ob) = object_content s (o_storage_key ob)
         \<and> object_content s (o_storage_key ob) \<noteq> None)"
proof -
  have ok: "system_ok sha d s" using drive_reachable_ok [OF assms(1)] by (simp add: drive_ok_def)
  note C = system_ok_cleanup [OF ok assms(2)]
  have det: "db_entries d' = db_entries d" "db_meta d' = db_meta d" "db_versions d' = db_versions d"
    "db_uploads d' = db_uploads d" "db_trash d' = db_trash d" "set (db_objects d') \<subseteq> set (db_objects d)"
    using C(3) by (simp_all add: only_detaches_def)
  have "\<exists>ob \<in> set (db_objects d'). o_id ob = v_object v
         \<and> object_content s' (o_storage_key ob) = object_content s (o_storage_key ob)
         \<and> object_content s (o_storage_key ob) \<noteq> None" if "v \<in> set (db_versions d)" for v
  proof -
    from version_bytes [OF C(1), of v] that det(3) obtain ob c where ob: "ob \<in> set (db_objects d')" "o_id ob = v_object v"
      and c: "object_content s' (o_storage_key ob) = Some c" by auto
    have "o_storage_key ob \<in> live_keys d'" using ob(1) by (auto simp: live_keys_def tbl_keys_def)
    from C(2) [OF this] have "object_content s (o_storage_key ob) = object_content s' (o_storage_key ob)" by simp
    then show ?thesis using c ob by (intro bexI [OF _ ob(1)]) simp
  qed
  with det show ?thesis by simp
qed

theorem cleanup_keeps_files_witness:
  "\<exists>r n d' s'. process_storage_outbox delete_object (sample_ports 8) {} \<lparr>pc_event_batch = 5, pc_orphan_batch = 5\<rparr> db5 fs5 =
      (r, n, d', s') \<and> db_entries d' = db_entries db5"
proof -
  obtain r n d' s' where run: "process_storage_outbox delete_object (sample_ports 8) {}
      \<lparr>pc_event_batch = 5, pc_orphan_batch = 5\<rparr> db5 fs5 = (r, n, d', s')" by (metis prod_cases4)
  with cleanup_keeps_files [OF sample_reachable(3) run] show ?thesis by blast
qed

end
