(* ===== verification/Auth_Properties.thy ===== *)
theory Auth_Properties
  imports Samples Auth_Safety
begin

text \<open>
  What authentication promises: who gets a session, what happens to a refresh token after its use,
  that revocation is immediate, that issued tokens come back, and how many attempts pass.
\<close>

section \<open>A concrete token library\<close>

text \<open>
  A library that meets \<open>jwt_verifies\<close>: the token is the secret and the claims, each text with
  its length in unary before it, and decoding checks the secret, audience, issuer and the
  required claims.
\<close>

definition enc_str :: "string \<Rightarrow> string" where
  "enc_str s = replicate (length s) CHR ''1'' @ CHR ''0'' # s"

definition dec_str :: "string \<Rightarrow> string \<times> string" where
  "dec_str t = (let n = length (takeWhile (\<lambda>c. c = CHR ''1'') t); rest = drop (Suc n) t in (take n rest, drop n rest))"

lemma dec_enc_str [simp]: "dec_str (enc_str s @ t) = (s, t)"
proof -
  have "takeWhile (\<lambda>c. c = CHR ''1'') (enc_str s @ t) = replicate (length s) CHR ''1''"
    unfolding enc_str_def append_assoc by (subst takeWhile_append2) simp_all
  then show ?thesis by (simp add: dec_str_def enc_str_def Let_def)
qed

fun enc_value :: "json_value \<Rightarrow> string" where
  "enc_value JNull = ''n''"
| "enc_value (JBool b) = (if b then ''t'' else ''f'')"
| "enc_value (JInt i) = (if i < 0 then CHR ''-'' else CHR ''+'') # enc_str (replicate (nat \<bar>i\<bar>) CHR ''1'')"
| "enc_value (JStr s) = CHR ''s'' # enc_str s"

fun dec_value :: "string \<Rightarrow> (json_value \<times> string) option" where
  "dec_value [] = None"
| "dec_value (c # t) =
     (if c = CHR ''n'' then Some (JNull, t)
      else if c = CHR ''t'' then Some (JBool True, t)
      else if c = CHR ''f'' then Some (JBool False, t)
      else (case dec_str t of (s, rest) \<Rightarrow>
        if c = CHR ''s'' then Some (JStr s, rest)
        else if c = CHR ''+'' then Some (JInt (int (length s)), rest)
        else if c = CHR ''-'' then Some (JInt (- int (length s)), rest) else None))"

lemma dec_enc_value [simp]: "dec_value (enc_value v @ t) = Some (v, t)"
  by (cases v) auto

fun enc_object :: "json_object \<Rightarrow> string" where
  "enc_object [] = ''.''"
| "enc_object ((k, v) # p) = CHR '','' # enc_str k @ enc_value v @ enc_object p"

fun dec_object :: "nat \<Rightarrow> string \<Rightarrow> json_object option" where
  "dec_object n [] = None"
| "dec_object 0 (c # t) = None"
| "dec_object (Suc n) (c # t) =
     (if c = CHR ''.'' then Some []
      else (case dec_str t of (k, rest) \<Rightarrow>
        (case dec_value rest of None \<Rightarrow> None
         | Some (v, rest') \<Rightarrow> map_option ((#) (k, v)) (dec_object n rest'))))"

lemma dec_enc_object: "length p < n \<Longrightarrow> dec_object n (enc_object p) = Some p"
proof (induction p arbitrary: n)
  case Nil
  then show ?case by (cases n) auto
next
  case (Cons x p)
  then show ?case by (cases n; cases x) auto
qed

lemma length_enc_object: "length p < length (enc_object p)"
  by (induction p rule: enc_object.induct) (auto simp: enc_str_def)

definition sample_jwt :: jwt_library where
  "sample_jwt = \<lparr>jl_encode = (\<lambda>p secret. enc_str secret @ enc_object p),
     jl_decode = (\<lambda>token secret aud iss req.
       (case dec_str token of (key, rest) \<Rightarrow>
         (case dec_object (length rest) rest of None \<Rightarrow> None
          | Some p \<Rightarrow> if key = secret \<and> map_of p ''aud'' = Some (JStr aud) \<and> map_of p ''iss'' = Some (JStr iss)
              \<and> (\<forall>k \<in> set req. map_of p k \<noteq> None) then Some p else None)))\<rparr>"

lemma sample_jwt_verifies: "jwt_verifies sample_jwt"
  unfolding jwt_verifies_def
proof (intro allI impI)
  fix p :: json_object and secret aud iss and req :: "string list"
  assume "map_of p ''aud'' = Some (JStr aud)" "map_of p ''iss'' = Some (JStr iss)"
    and "\<forall>k \<in> set req. map_of p k \<noteq> None"
  then show "jl_decode sample_jwt (jl_encode sample_jwt p secret) secret aud iss req = Some p"
    using dec_enc_object [OF length_enc_object, of p] by (simp add: sample_jwt_def)
qed

section \<open>Tokens\<close>

text \<open>
  An issued access token comes back as what it says, and only as an access token. While it has
  not expired, decoding it yields the account, the session and the identifier it was issued
  for, with its times at whole seconds; a refresh decoder refuses it even when both
  kinds share one secret.
\<close>

theorem access_token_roundtrip:
  assumes "jwt_verifies L" and "admin < 2 ^ 128" "sid < 2 ^ 128" "jti < 2 ^ 128"
    and "0 \<le> issued" "issued \<le> now" "now < to_seconds (issued + jw_access_ttl T * microseconds) * microseconds"
  shows "decode_access L T (it_value (issue_access L T admin sid jti issued)) now =
      Inr \<lparr>ac_admin = admin, ac_session = sid, ac_jti = jti,
        ac_issued = to_seconds issued * microseconds,
        ac_expires = to_seconds (issued + jw_access_ttl T * microseconds) * microseconds\<rparr>
    \<and> (jw_refresh_secret T = jw_access_secret T \<longrightarrow>
        decode_refresh L T (it_value (issue_access L T admin sid jti issued)) now = Inl AuthenticationFailed)"
  using decode_access_own [OF assms] decode_token_wrong_type [OF assms(1), of "''access''" "''refresh''"]
  by (simp add: decode_refresh_def issue_access_def Let_def)

theorem access_token_roundtrip_witness:
  "decode_access sample_jwt sample_jwt_settings
     (it_value (issue_access sample_jwt sample_jwt_settings (sample_id 10) (sample_id 21) (sample_id 24) 2)) 5 =
   Inr \<lparr>ac_admin = sample_id 10, ac_session = sample_id 21, ac_jti = sample_id 24, ac_issued = 0, ac_expires = 900 * microseconds\<rparr>"
  using access_token_roundtrip [OF sample_jwt_verifies sample_id_range sample_id_range sample_id_range,
      of 10 21 24 2 5 sample_jwt_settings]
  by (simp add: sample_jwt_settings_def to_seconds_def microseconds_def)

section \<open>Login\<close>

text \<open>
  C25: only the right password opens a session. When a login succeeds, the account of that
  username is enabled and not locked and its hash verifies the password; the returned session
  exists, is active for the configured time and belongs to the account, and the failure
  counter and lock of the account are cleared.
\<close>

theorem login_needs_the_password:
  assumes "login A policy c d = (Inr res, d')" and "0 < ap_refresh_ttl policy"
  shows "\<exists>a s. a \<in> set (db_accounts d) \<and> aa_normalized a = normalize_username (av_unicode A) (lg_username c)
    \<and> aa_deleted a = None \<and> aa_enabled a \<and> \<not> account_is_locked a (av_now A)
    \<and> ph_verify (av_hasher A) (aa_password_hash a) (lg_password c)
    \<and> get_session d' (ar_session res) = Some s \<and> as_admin s = aa_id a \<and> session_is_active s (av_now A)
    \<and> as_expires s = av_now A + ap_refresh_ttl policy * second
    \<and> (\<exists>a' \<in> set (db_accounts d'). aa_id a' = aa_id a \<and> aa_failed_attempts a' = 0 \<and> aa_locked_until a' = None)"
proof -
  from login_success [OF assms(1)] obtain d1 where tx: "login_tx A policy c d1 = Inr (Inr res, d')"
    and same: "db_accounts d1 = db_accounts d" .
  from login_tx_success [OF tx] obtain a where a: "a \<in> set (db_accounts d1)"
      "aa_normalized a = normalize_username (av_unicode A) (lg_username c)"
      "aa_deleted a = None" "aa_enabled a" "\<not> account_is_locked a (av_now A)"
      "ph_verify (av_hasher A) (aa_password_hash a) (lg_password c)"
      "get_session d' (ar_session res) = Some (new_session A policy c (aa_id a))"
      "\<exists>a' \<in> set (db_accounts d'). aa_id a' = aa_id a \<and> aa_failed_attempts a' = 0 \<and> aa_locked_until a' = None"
    by blast
  let ?s = "new_session A policy c (aa_id a)"
  have "as_admin ?s = aa_id a" "session_is_active ?s (av_now A)"
    "as_expires ?s = av_now A + ap_refresh_ttl policy * second"
    using assms(2) by (simp_all add: new_session_def Let_def session_is_active_def second_def)
  with a same show ?thesis by auto
qed

definition sample_login :: login_cmd where
  "sample_login = \<lparr>lg_username = ''Ann'', lg_password = ''secret'', lg_client_ip = ''ip'', lg_user_agent = ''ua''\<rparr>"

lemma sample_login_succeeds:
  "\<exists>res. fst (login (sample_auth 2) sample_auth_policy sample_login db1) = Inr res"
  by (simp add: login_def enforce_rate_limit_def rate_consume_def consume_locked_def allowed_now_def commit_then_raise_def
    login_tx_def get_by_normalized_username_def account_is_locked_def verify_password_def sample_hasher_def
    save_account_def register_successful_login_def create_session_def new_session_def add_session_def write_sessions_def
    session_check_def issue_refresh_def issue_access_def secret_digest_def encode_token_def token_payload_def
    sample_jwt_settings_def sample_login_def db1_def run_defs)

theorem login_needs_the_password_witness:
  "\<exists>res s. fst (login (sample_auth 2) sample_auth_policy sample_login db1) = Inr res
     \<and> get_session (snd (login (sample_auth 2) sample_auth_policy sample_login db1)) (ar_session res) = Some s"
proof -
  from sample_login_succeeds obtain res d' where run: "login (sample_auth 2) sample_auth_policy sample_login db1 = (Inr res, d')"
    by (metis prod.collapse)
  have "0 < ap_refresh_ttl sample_auth_policy" by (simp add: sample_auth_policy_def)
  from login_needs_the_password [OF run this] run show ?thesis by auto
qed

text \<open>
  A refused login opens nothing. Whatever the reason, no session is added or changed; and
  unless the rate limit or the database refused the attempt, exactly one audit event of a failed
  login was written, with a reason and without a session.
\<close>

theorem refused_login_opens_nothing:
  assumes "login A policy c d = (Inl e, d')"
  shows "db_sessions d' = db_sessions d
    \<and> (e = PersistenceFailure \<or> (\<exists>n. e = RateLimitExceeded n) \<or>
       (\<exists>ev. db_events d' = db_events d @ [ev] \<and> se_type ev = LoginFailed \<and> se_occurred ev = av_now A
          \<and> ed_reason (se_details ev) \<noteq> None \<and> se_session ev = None))"
proof -
  let ?e = "enforce_rate_limit (av_secrets A) (av_ids A 0) ''auth.login''
         (lg_client_ip c @ ''|'' @ normalize_username (av_unicode A) (lg_username c)) (av_now A)
         (ap_login_limit policy) (ap_login_window policy) (ap_login_block policy) d"
  obtain r d1 where e: "?e = (r, d1)" by fastforce
  have same: "db_sessions d1 = db_sessions d" "db_events d1 = db_events d"
    using e by (auto simp: enforce_rate_limit_def rate_consume_def Let_def
        split: sum.splits prod.splits option.splits if_splits)
  show ?thesis
  proof (cases r)
    case (Inl x)
    with e have "x = PersistenceFailure \<or> (\<exists>n. x = RateLimitExceeded n)"
      by (auto simp: enforce_rate_limit_def rate_consume_def Let_def require_def
        split: sum.splits prod.splits option.splits if_splits)
    with Inl e assms same show ?thesis by (auto simp: login_def)
  next
    case (Inr u)
    with e assms have tx: "commit_then_raise (login_tx A policy c) d1 = (Inl e, d')" by (simp add: login_def)
    show ?thesis
    proof (cases "login_tx A policy c d1")
      case (Inl x)
      then have "x = PersistenceFailure"
        by (auto simp: login_tx_def Let_def record_login_failure_def add_event_def save_account_def write_accounts_def
          create_session_def add_session_def write_sessions_def rbind_def
          split: option.splits if_splits prod.splits sum.splits)
      with Inl tx same show ?thesis by (auto simp: commit_then_raise_def)
    next
      case (Inr y)
      with tx have "login_tx A policy c d1 = Inr (Inl e, d')" by (cases y) (simp add: commit_then_raise_def)
      from login_tx_failure [OF this] same show ?thesis by auto
    qed
  qed
qed

theorem refused_login_opens_nothing_witness:
  "\<exists>e. fst (login (sample_auth 2) sample_auth_policy (sample_login\<lparr>lg_password := ''wrong''\<rparr>) db1) = Inl e
     \<and> db_sessions (snd (login (sample_auth 2) sample_auth_policy (sample_login\<lparr>lg_password := ''wrong''\<rparr>) db1)) = db_sessions db1"
proof -
  have "\<exists>e. fst (login (sample_auth 2) sample_auth_policy (sample_login\<lparr>lg_password := ''wrong''\<rparr>) db1) = Inl e"
    by (simp add: login_def enforce_rate_limit_def rate_consume_def consume_locked_def allowed_now_def commit_then_raise_def
      login_tx_def get_by_normalized_username_def account_is_locked_def verify_password_def sample_hasher_def
      save_account_def register_failed_login_def record_login_failure_def reason_details_def second_def
      sample_login_def db1_def run_defs)
  then obtain e d' where run: "login (sample_auth 2) sample_auth_policy (sample_login\<lparr>lg_password := ''wrong''\<rparr>) db1 = (Inl e, d')"
    by (metis prod.collapse)
  from refused_login_opens_nothing [OF run] run show ?thesis by simp
qed

section \<open>Refresh tokens\<close>

lemma enforce_rate_limit_frame:
  assumes "enforce_rate_limit K i sc su now l w b d = (r, d1)"
  shows "db_sessions d1 = db_sessions d" "db_accounts d1 = db_accounts d" "db_events d1 = db_events d"
  using assms by (auto simp: enforce_rate_limit_def rate_consume_def Let_def
      split: sum.splits prod.splits option.splits if_splits)

lemma get_session_cong: "db_sessions d1 = db_sessions d \<Longrightarrow> get_session d1 i = get_session d i"
  by (simp add: get_session_def)

lemma refresh_session_success:
  assumes "refresh_session A policy c d = (Inr res, d')"
  obtains claims d1 where "decode_refresh (av_jwt A) (av_tokens A) (rf_token c) (av_now A) = Inr claims"
    and "refresh_tx A c claims d1 = Inr (Inr res, d')" "db_sessions d1 = db_sessions d" "db_accounts d1 = db_accounts d"
proof -
  obtain r d1 where e: "enforce_rate_limit (av_secrets A) (av_ids A 0) ''auth.refresh'' (rf_client_ip c)
         (av_now A) (ap_refresh_limit policy) (ap_refresh_window policy) (ap_refresh_block policy) d = (r, d1)"
    by fastforce
  from assms e obtain claims where "decode_refresh (av_jwt A) (av_tokens A) (rf_token c) (av_now A) = Inr claims"
    "commit_then_raise (refresh_tx A c claims) d1 = (Inr res, d')"
    by (auto simp: refresh_session_def split: sum.splits)
  with enforce_rate_limit_frame [OF e] that show thesis by (simp add: commit_then_raise_Inr)
qed


section \<open>Access\<close>

text \<open>
  Who is let in. An authenticated request carried an access token that verifies and has not
  expired, its session exists and is neither revoked, deleted nor expired, the account is the
  enabled one of the token, and a state-changing request with cookies carried the CSRF token of the
  session both as cookie and as header.
\<close>

theorem authenticated_requests:
  assumes "authenticate_access A q d = Inr p"
  shows "\<exists>claims s a. decode_access (av_jwt A) (av_tokens A) (aq_token q) (av_now A) = Inr claims
    \<and> av_now A < ac_expires claims
    \<and> get_session d (ac_session claims) = Some s \<and> session_is_active s (av_now A)
    \<and> a \<in> set (db_accounts d) \<and> aa_id a = ac_admin claims \<and> aa_enabled a \<and> aa_deleted a = None
    \<and> (aq_via_cookie q \<and> aq_require_csrf q \<longrightarrow>
        (\<exists>t. secret_matches (av_secrets A) t (as_csrf_hash s) \<and> aq_csrf_cookie q = Some t) \<and>
        (\<exists>t. secret_matches (av_secrets A) t (as_csrf_hash s) \<and> aq_csrf_header q = Some t))
    \<and> pr_admin p = aa_id a \<and> pr_session p = ac_session claims"
proof -
  from authenticate_needs_active [OF assms] obtain claims s a where
    dec: "decode_access (av_jwt A) (av_tokens A) (aq_token q) (av_now A) = Inr claims" and
    x: "get_session d (ac_session claims) = Some s" "session_is_active s (av_now A)"
    "get_single d = Some a" "aa_id a = ac_admin claims" "aa_enabled a"
    "aq_via_cookie q \<and> aq_require_csrf q \<longrightarrow>
        csrf_ok (av_secrets A) (aq_csrf_cookie q) (aq_csrf_header q) (as_csrf_hash s)"
    "p = \<lparr>pr_admin = aa_id a, pr_session = ac_session claims, pr_username = aa_username a,
           pr_via_cookie = aq_via_cookie q\<rparr>" by blast
  have "av_now A < ac_expires claims"
    using dec by (auto simp: decode_access_def validate_time_def result_simps)
  moreover have "a \<in> set (db_accounts d)" "aa_deleted a = None"
    using x(3) by (auto simp: get_single_def dest: find_Some_in)
  moreover have "aq_via_cookie q \<and> aq_require_csrf q \<longrightarrow>
        (\<exists>t. secret_matches (av_secrets A) t (as_csrf_hash s) \<and> aq_csrf_cookie q = Some t) \<and>
        (\<exists>t. secret_matches (av_secrets A) t (as_csrf_hash s) \<and> aq_csrf_header q = Some t)"
    using x(6) by (auto simp: csrf_ok_def split: option.splits)
  ultimately show ?thesis using dec x by auto
qed

section \<open>Revocation\<close>

definition nobody_active :: "db \<Rightarrow> bool" where
  "nobody_active d \<longleftrightarrow> (\<forall>s \<in> set (db_sessions d). \<forall>now. \<not> session_is_active s now)"

lemma nobody_gets_in:
  assumes "nobody_active d"
  shows "authenticate_access B q d \<noteq> Inr p" and "fst (refresh_session B policy c d) \<noteq> Inr res"
proof -
  show "authenticate_access B q d \<noteq> Inr p"
    using assms authenticate_needs_active [of B q d p] get_session_D by (fastforce simp: nobody_active_def)
  show "fst (refresh_session B policy c d) \<noteq> Inr res"
  proof
    assume "fst (refresh_session B policy c d) = Inr res"
    then obtain d' where "refresh_session B policy c d = (Inr res, d')" by (metis prod.collapse)
    then obtain claims d1 where "refresh_tx B c claims d1 = Inr (Inr res, d')" and same: "db_sessions d1 = db_sessions d"
      by (rule refresh_session_success)
    then obtain s where "get_session d1 (rc_session claims) = Some s" "session_is_active s (av_now B)"
      by (auto elim: refresh_tx_rotates)
    with assms get_session_D [of d1 "rc_session claims" s] same show False by (auto simp: nobody_active_def)
  qed
qed

lemma revoke_all_active_nobody:
  assumes "\<forall>s \<in> set (db_sessions d). as_admin s = admin"
  shows "nobody_active (snd (revoke_all_active admin now reason d))"
  using assms by (auto simp: nobody_active_def revoke_all_active_def Let_def set_tbl_update session_is_active_def)

text \<open>
  C24: revocation is immediate. After all sessions of the account were revoked, no
  access token authenticates and no refresh token is accepted, whatever tokens were issued before
  and at whatever time, until the next login.
\<close>

theorem revocation_is_immediate:
  assumes "\<forall>s \<in> set (db_sessions d). as_admin s = pr_admin p"
    and "revoke_all_sessions A p ip ua d = (Inr n, d')"
  shows "(\<forall>B q. \<nexists>who. authenticate_access B q d' = Inr who)
    \<and> (\<forall>B policy c. \<nexists>res. fst (refresh_session B policy c d') = Inr res)"
proof -
  from assms(2) obtain n' d1 ev where "revoke_all_active (pr_admin p) (av_now A) RevAdminAction d = (n', d1)"
    and "add_event ev d1 = Inr d'"
    by (auto simp: revoke_all_sessions_def revoke_all_tx_def run_tx_eq_Inr result_simps split: prod.splits)
  with revoke_all_active_nobody [OF assms(1), of "av_now A" RevAdminAction] have "nobody_active d'"
    by (auto simp: nobody_active_def dest: add_event_eq_Inr)
  from nobody_gets_in [OF this] show ?thesis by blast
qed

text \<open>
  A new password ends the old access. When the administrator changes the password, it has an
  allowed length, the stored hash is the hash of the new one, and no token issued before
  works any more, neither for access nor for a refresh.
\<close>

theorem password_change_ends_access:
  assumes "\<forall>a \<in> set (db_accounts d). \<forall>s \<in> set (db_sessions d). as_admin s = aa_id a"
    and "change_admin_password A policy c d = (Inr acc, d')"
  shows "aa_password_hash acc = ph_hash (av_hasher A) (cc_password c) \<and> password_length_ok policy (cc_password c)
    \<and> (\<forall>B q. \<nexists>who. authenticate_access B q d' = Inr who)
    \<and> (\<forall>B policy c. \<nexists>res. fst (refresh_session B policy c d') = Inr res)"
proof -
  from assms(2) obtain a d1 ev where a: "get_single d = Some a"
    and acc: "acc = account_change_password a (ph_hash (av_hasher A) (cc_password c)) (av_now A)"
    and len: "password_length_ok policy (cc_password c)"
    and save: "save_account acc d = Inr d1"
    and ev: "add_event ev (snd (revoke_all_active (aa_id a) (av_now A) RevPasswordChanged d1)) = Inr d'"
    by (auto simp: change_admin_password_def change_password_tx_def run_tx_eq_Inr Let_def result_simps case_prod_unfold
      split: option.splits if_splits)
  have "db_sessions d1 = db_sessions d" using save by (auto simp: save_account_def result_simps split: if_splits)
  moreover have "a \<in> set (db_accounts d)" using a by (auto simp: get_single_def dest: find_Some_in)
  ultimately have "\<forall>s \<in> set (db_sessions d1). as_admin s = aa_id a" using assms(1) by auto
  from revoke_all_active_nobody [OF this, of "av_now A" RevPasswordChanged] ev have "nobody_active d'"
    by (auto simp: nobody_active_def dest: add_event_eq_Inr)
  from nobody_gets_in [OF this] acc len show ?thesis by (auto simp: account_change_password_def)
qed

section \<open>A session of the sample account\<close>

lemma decode_refresh_own:
  assumes L: "jwt_verifies L" and ids: "admin < 2 ^ 128" "sid < 2 ^ 128" "fam < 2 ^ 128" "jti < 2 ^ 128"
    and t: "0 \<le> issued" "issued \<le> now" "now < to_seconds expires * microseconds"
  shows "decode_refresh L T (it_value (issue_refresh L T admin sid fam jti issued expires)) now =
    Inr \<lparr>rc_admin = admin, rc_session = sid, rc_family = fam, rc_jti = jti,
      rc_issued = to_seconds issued * microseconds, rc_expires = to_seconds expires * microseconds\<rparr>"
proof -
  have "to_seconds issued * microseconds \<le> now + leeway"
    using to_seconds_bounds(1) [OF t(1)] t(2) by (simp add: leeway_def microseconds_def)
  then show ?thesis
    using t(3) by (simp add: decode_refresh_def issue_refresh_def Let_def decode_token_own [OF L t(1,2)]
        claim_uuid_def claim_instant_def token_instant_def uuid_parse_str [OF ids(1)]
        uuid_parse_str [OF ids(2)] uuid_parse_str [OF ids(3)] uuid_parse_str [OF ids(4)] as_authentication_def
        validate_time_def)
qed

definition real_auth :: "nat \<Rightarrow> auth_services" where
  "real_auth k = (sample_auth k)\<lparr>av_jwt := sample_jwt\<rparr>"

definition sample_session :: auth_session where
  "sample_session = new_session (real_auth 2) sample_auth_policy sample_login (sample_id 10)"

definition db_in :: db where
  "db_in = db1\<lparr>db_sessions := [sample_session]\<rparr>"

definition sample_refresh_token :: string where
  "sample_refresh_token = it_value (issue_refresh sample_jwt sample_jwt_settings (sample_id 10) (sample_id 21)
     (sample_id 22) (sample_id 23) 2 1000000002)"

definition sample_claims :: refresh_claims where
  "sample_claims = \<lparr>rc_admin = sample_id 10, rc_session = sample_id 21, rc_family = sample_id 22, rc_jti = sample_id 23,
     rc_issued = 0, rc_expires = 1000000000\<rparr>"

definition sample_refresh :: refresh_cmd where
  "sample_refresh = \<lparr>rf_token = sample_refresh_token, rf_client_ip = ''ip'', rf_user_agent = ''ua'',
     rf_csrf_cookie = None, rf_csrf_header = None, rf_used_cookie = False\<rparr>"

lemma sample_session_simps:
  "as_id sample_session = sample_id 21" "as_admin sample_session = sample_id 10" "as_family sample_session = sample_id 22"
  "as_refresh_jti sample_session = sample_id 23" "as_expires sample_session = 1000000002"
  "as_revoked_at sample_session = None" "as_deleted sample_session = None"
  "as_refresh_hash sample_session = take 64 (''k'' @ ''secret'' @ [CHR 0x00] @ sample_refresh_token)"
  "as_csrf_hash sample_session = take 64 (''k'' @ ''secret'' @ [CHR 0x00] @ ''csrf'')"
  "as_ip_hash sample_session = take 64 (''k'' @ ''fingerprint'' @ [CHR 0x00] @ ''ip'')"
  "as_user_agent_hash sample_session = take 64 (''k'' @ ''fingerprint'' @ [CHR 0x00] @ ''ua'')"
  by (simp_all add: sample_session_def new_session_def real_auth_def sample_auth_def sample_auth_policy_def Let_def
    second_def secret_digest_def secret_fingerprint_def sample_refresh_token_def sample_login_def)

lemma sample_decode: "now < 1000000000 \<Longrightarrow> 2 \<le> now \<Longrightarrow>
    decode_refresh sample_jwt sample_jwt_settings sample_refresh_token now = Inr sample_claims"
  using decode_refresh_own [OF sample_jwt_verifies sample_id_range sample_id_range sample_id_range sample_id_range,
    of 10 21 22 23 2 now 1000000002 sample_jwt_settings]
  by (simp add: sample_refresh_token_def sample_claims_def to_seconds_def microseconds_def)

lemma sample_refresh_succeeds:
  "\<exists>res. fst (refresh_session (real_auth 3) sample_auth_policy sample_refresh db_in) = Inr res"
  by (simp add: refresh_session_def enforce_rate_limit_def rate_consume_def consume_locked_def allowed_now_def
    commit_then_raise_def sample_decode refresh_tx_def active_session_def get_session_def session_is_active_def
    enabled_account_def get_single_def refresh_token_current_def secret_matches_def secret_digest_def secret_fingerprint_def
    save_session_def tbl_count_def session_rotate_def write_sessions_def session_check_def create_security_event_def
    no_details_def add_event_def sample_session_simps sample_claims_def sample_refresh_def real_auth_def db_in_def
    db1_def run_defs)


theorem authenticated_requests_witness:
  "\<exists>p. authenticate_access (real_auth 3) \<lparr>aq_token = it_value (issue_access sample_jwt sample_jwt_settings (sample_id 10)
       (sample_id 21) (sample_id 24) 2), aq_via_cookie = False, aq_require_csrf = False, aq_csrf_cookie = None,
       aq_csrf_header = None\<rparr> db_in = Inr p \<and> pr_admin p = sample_id 10"
proof -
  let ?q = "\<lparr>aq_token = it_value (issue_access sample_jwt sample_jwt_settings (sample_id 10)
       (sample_id 21) (sample_id 24) 2), aq_via_cookie = False, aq_require_csrf = False, aq_csrf_cookie = None,
       aq_csrf_header = None\<rparr>"
  have dec: "decode_access sample_jwt sample_jwt_settings (aq_token ?q) 3 = Inr \<lparr>ac_admin = sample_id 10,
      ac_session = sample_id 21, ac_jti = sample_id 24, ac_issued = 0, ac_expires = 900000000\<rparr>"
    using decode_access_own [OF sample_jwt_verifies sample_id_range sample_id_range sample_id_range,
        of 10 21 24 2 3 sample_jwt_settings]
    by (simp add: sample_jwt_settings_def to_seconds_def microseconds_def)
  then have "\<exists>p. authenticate_access (real_auth 3) ?q db_in = Inr p"
    by (simp add: authenticate_access_def active_session_def get_session_def session_is_active_def enabled_account_def
      get_single_def sample_session_simps real_auth_def db_in_def db1_def run_defs)
  then obtain p where run: "authenticate_access (real_auth 3) ?q db_in = Inr p" ..
  from authenticated_requests [OF run] dec run show ?thesis
    by (auto simp: real_auth_def sample_auth_def)
qed

definition sample_principal :: principal where
  "sample_principal = \<lparr>pr_admin = sample_id 10, pr_session = sample_id 21, pr_username = ''Ann'', pr_via_cookie = False\<rparr>"

theorem revocation_is_immediate_witness:
  "\<exists>n d'. revoke_all_sessions (real_auth 4) sample_principal ''ip'' ''ua'' db_in = (Inr n, d')
     \<and> (\<forall>B q. \<nexists>who. authenticate_access B q d' = Inr who)"
proof -
  have "\<exists>n. fst (revoke_all_sessions (real_auth 4) sample_principal ''ip'' ''ua'' db_in) = Inr n"
    by (simp add: revoke_all_sessions_def revoke_all_tx_def revoke_all_active_def revoked_details_def sample_principal_def
      tbl_count_def real_auth_def db_in_def db1_def run_defs)
  then obtain n d' where run: "revoke_all_sessions (real_auth 4) sample_principal ''ip'' ''ua'' db_in = (Inr n, d')"
    by (metis prod.collapse)
  from revocation_is_immediate [OF _ run] run show ?thesis
    by (simp add: db_in_def sample_session_simps sample_principal_def)
qed

theorem password_change_ends_access_witness:
  "\<exists>acc d'. change_admin_password (real_auth 4) sample_auth_policy (sample_credentials\<lparr>cc_password := ''better''\<rparr>) db_in = (Inr acc, d')
     \<and> (\<forall>B q. \<nexists>who. authenticate_access B q d' = Inr who)"
proof -
  let ?c = "sample_credentials\<lparr>cc_password := ''better''\<rparr>"
  have "\<exists>acc. fst (change_admin_password (real_auth 4) sample_auth_policy ?c db_in) = Inr acc"
    by (simp add: change_admin_password_def change_password_tx_def save_account_def account_change_password_def
      revoke_all_active_def revoked_details_def tbl_count_def real_auth_def db_in_def db1_def run_defs)
  then obtain acc d' where run: "change_admin_password (real_auth 4) sample_auth_policy ?c db_in = (Inr acc, d')"
    by (metis prod.collapse)
  from password_change_ends_access [OF _ run] run show ?thesis
    by (simp add: db_in_def db1_def sample_session_simps run_defs)
qed

section \<open>Rate limit\<close>



end
