(* ===== verification/Listing.thy ===== *)
theory Listing
  imports Activity "HOL-Library.List_Lexorder" "HOL-Library.Sublist"
begin

text \<open>
  Reading the tree: the paged queries \<open>list_children\<close> and \<open>list_trash\<close> of
  \<open>SQLAlchemyStorageRepository\<close> and the use cases of
  \<open>app/application/use_cases/storage/queries.py\<close>. A cursor is the typed value behind the
  opaque text; \<open>Cursor_Text\<close> holds the texts and the use cases that read and write them.
\<close>

section \<open>Filters and order\<close>

record list_filters =
  lf_name_contains :: "string option"
  lf_kind :: "entry_type option"
  lf_extension :: "string option"
  lf_minimum_size :: "int option"
  lf_maximum_size :: "int option"
  lf_modified_from :: "instant option"
  lf_modified_to :: "instant option"

datatype sort_field = SortName | SortDate | SortSize | SortType

definition none_if_empty :: "string \<Rightarrow> string option" where
  "none_if_empty s = (if s = [] then None else Some s)"

definition normalized_filters :: "unicode \<Rightarrow> list_filters \<Rightarrow> list_filters" where
  "normalized_filters U fs =
     fs\<lparr>lf_name_contains := Option.bind (lf_name_contains fs) (\<lambda>s.
          if s = [] then None
          else none_if_empty (u_casefold U (py_strip (u_is_space U) (u_nfkc U s)))),
        lf_extension := Option.bind (lf_extension fs) (\<lambda>s.
          if s = [] then None
          else none_if_empty (u_casefold U (py_removeprefix (py_strip (u_is_space U) s) ''.'')))\<rparr>"

definition both :: "('a \<Rightarrow> 'a \<Rightarrow> bool) \<Rightarrow> 'a option \<Rightarrow> 'a option \<Rightarrow> bool" where
  "both P x y = (case (x, y) of (Some a, Some b) \<Rightarrow> P a b | _ \<Rightarrow> True)"

definition validate_filters :: "list_filters \<Rightarrow> unit result" where
  "validate_filters fs =
     rbind (require (case lf_minimum_size fs of None \<Rightarrow> True | Some n \<Rightarrow> 0 \<le> n) ApplicationValidation) (\<lambda>_.
     rbind (require (case lf_maximum_size fs of None \<Rightarrow> True | Some n \<Rightarrow> 0 \<le> n) ApplicationValidation) (\<lambda>_.
     rbind (require (both (\<le>) (lf_minimum_size fs) (lf_maximum_size fs)) ApplicationValidation) (\<lambda>_.
     require (both (\<le>) (lf_modified_from fs) (lf_modified_to fs)) ApplicationValidation)))"

text \<open>
  A listed row is the entry with its metadata. A comparison with a missing size or extension is
  unknown in SQL and drops the row.
\<close>

type_synonym listed = "entry_row \<times> meta_row option"

definition row_matches :: "list_filters \<Rightarrow> listed \<Rightarrow> bool" where
  "row_matches fs x = (case x of (r, fm) \<Rightarrow>
     (case lf_name_contains fs of None \<Rightarrow> True | Some s \<Rightarrow> sublist s (r_normalized r))
     \<and> (case lf_kind fs of None \<Rightarrow> True | Some k \<Rightarrow> r_type r = k)
     \<and> (case lf_extension fs of None \<Rightarrow> True
         | Some e \<Rightarrow> (case fm of None \<Rightarrow> False | Some m \<Rightarrow> fm_extension (m_data m) = e))
     \<and> (case lf_minimum_size fs of None \<Rightarrow> True
         | Some n \<Rightarrow> (case fm of None \<Rightarrow> False | Some m \<Rightarrow> fm_size (m_data m) \<ge> n))
     \<and> (case lf_maximum_size fs of None \<Rightarrow> True
         | Some n \<Rightarrow> (case fm of None \<Rightarrow> False | Some m \<Rightarrow> fm_size (m_data m) \<le> n))
     \<and> (case lf_modified_from fs of None \<Rightarrow> True | Some t \<Rightarrow> r_updated r \<ge> t)
     \<and> (case lf_modified_to fs of None \<Rightarrow> True | Some t \<Rightarrow> r_updated r \<le> t))"

text \<open>
  The database compares text by the sort keys of its collation; \<open>C\<close> maps a text to its key.
\<close>

datatype sort_value = TextKey string | InstantKey instant | SizeKey int

fun sort_rank :: "(string \<Rightarrow> int list) \<Rightarrow> sort_value \<Rightarrow> int list" where
  "sort_rank C (TextKey s) = C s"
| "sort_rank C (InstantKey t) = [t]"
| "sort_rank C (SizeKey n) = [n]"

definition kind_text :: "entry_type \<Rightarrow> string" where
  "kind_text k = (case k of FolderType \<Rightarrow> ''folder'' | FileType \<Rightarrow> ''file'')"

definition list_sort_expression :: "sort_field \<Rightarrow> listed \<Rightarrow> sort_value" where
  "list_sort_expression by_field x =
     (case by_field of
        SortName \<Rightarrow> TextKey (r_normalized (fst x))
      | SortDate \<Rightarrow> InstantKey (r_updated (fst x))
      | SortSize \<Rightarrow> SizeKey (case snd x of None \<Rightarrow> - 1 | Some m \<Rightarrow> fm_size (m_data m))
      | SortType \<Rightarrow> TextKey (kind_text (r_type (fst x))))"

definition listed_cursor :: "sort_field \<Rightarrow> listed \<Rightarrow> sort_value \<times> uuid" where
  "listed_cursor by_field x = (list_sort_expression by_field x, r_id (fst x))"

definition cursor_rank :: "(string \<Rightarrow> int list) \<Rightarrow> sort_value \<times> uuid \<Rightarrow> int list \<times> uuid" where
  "cursor_rank C c = (sort_rank C (fst c), snd c)"

section \<open>Children of a folder\<close>

record children_query =
  cq_owner :: uuid
  cq_parent :: uuid
  cq_filters :: list_filters
  cq_sort :: sort_field
  cq_direction :: sort_direction

definition child_rows :: "db \<Rightarrow> children_query \<Rightarrow> listed list" where
  "child_rows d q =
     filter (row_matches (cq_filters q))
       (map (\<lambda>r. (r, tbl_find m_entry (r_id r) (db_meta d)))
         (filter (\<lambda>r. r_owner r = cq_owner q \<and> r_parent r = Some (cq_parent q) \<and> r_deleted r = None)
           (db_entries d)))"

definition fetch_children ::
  "(string \<Rightarrow> int list) \<Rightarrow> db \<times> children_query \<Rightarrow> nat \<Rightarrow> (sort_value \<times> uuid) option \<Rightarrow>
     listed list \<times> bool" where
  "fetch_children C s limit cursor =
     (case s of (d, q) \<Rightarrow>
        keyset_page (cq_direction q) (\<lambda>x. cursor_rank C (listed_cursor (cq_sort q) x)) limit
          (map_option (cursor_rank C) cursor) (child_rows d q))"

text \<open>
  What the driver can send: integers of 64 bits, text without NUL, instants in its range. The statement
  fails on any other value.
\<close>

definition sendable_text :: "string \<Rightarrow> bool" where
  "sendable_text s \<longleftrightarrow> CHR 0x00 \<notin> set s"

definition sendable_int :: "int \<Rightarrow> bool" where
  "sendable_int n \<longleftrightarrow> - (2 ^ 63) \<le> n \<and> n < 2 ^ 63"

fun sendable_key :: "sort_value \<Rightarrow> bool" where
  "sendable_key (TextKey s) = sendable_text s"
| "sendable_key (InstantKey t) = sendable_instant t"
| "sendable_key (SizeKey n) = sendable_int n"

definition sendable_filters :: "list_filters \<Rightarrow> bool" where
  "sendable_filters fs \<longleftrightarrow>
     pred_option sendable_text (lf_name_contains fs) \<and> pred_option sendable_text (lf_extension fs)
     \<and> pred_option sendable_int (lf_minimum_size fs) \<and> pred_option sendable_int (lf_maximum_size fs)
     \<and> pred_option sendable_instant (lf_modified_from fs) \<and> pred_option sendable_instant (lf_modified_to fs)"

definition list_children ::
  "unicode \<Rightarrow> (string \<Rightarrow> int list) \<Rightarrow> db \<Rightarrow> children_query \<Rightarrow> nat \<Rightarrow> (sort_value \<times> uuid) option \<Rightarrow>
     (storage_entry list \<times> bool) result" where
  "list_children U C d q limit cursor =
     rbind (require (sendable_filters (cq_filters q) \<and> pred_option (\<lambda>c. sendable_key (fst c)) cursor)
       PersistenceFailure) (\<lambda>_.
     (let (rows, has_more) = fetch_children C (d, q) limit cursor
      in rbind (collect (\<lambda>(r, fm). storage_entry_from_models U r fm) rows)
           (\<lambda>entries. Inr (entries, has_more))))"

definition entry_sort_value :: "unicode \<Rightarrow> storage_entry_dto \<Rightarrow> sort_field \<Rightarrow> sort_value result" where
  "entry_sort_value U e by_field =
     (case by_field of
        SortName \<Rightarrow> rbind (entry_name_create U (de_name e)) (\<lambda>n. Inr (TextKey (en_normalized n)))
      | SortDate \<Rightarrow> Inr (InstantKey (de_updated e))
      | SortSize \<Rightarrow> Inr (SizeKey (case de_size e of None \<Rightarrow> - 1 | Some n \<Rightarrow> n))
      | SortType \<Rightarrow> Inr (TextKey (kind_text (de_kind e))))"

text \<open>The page after the checks of \<open>ListFolderEntriesUseCase\<close>: the filters of \<open>q\<close> are normalized.\<close>

definition folder_entries_page ::
  "unicode \<Rightarrow> (string \<Rightarrow> int list) \<Rightarrow> children_query \<Rightarrow> nat \<Rightarrow> (sort_value \<times> uuid) option \<Rightarrow> db \<Rightarrow>
     (storage_entry_dto list \<times> (sort_value \<times> uuid) option) result" where
  "folder_entries_page U C q limit cursor d =
     rbind (get_folder U d (cq_parent q) False) (\<lambda>folder.
     rbind (require (case folder of None \<Rightarrow> False | Some f \<Rightarrow> e_owner f = cq_owner q)
       StorageEntryNotFound) (\<lambda>_.
     rbind (list_children U C d q limit cursor) (\<lambda>(entries, has_more).
     (let favorites = favorite_entry_ids d (cq_owner q) (map e_id entries);
          items = map (\<lambda>e. entry_to_dto e (e_id e \<in> favorites)) entries
      in if has_more \<and> items \<noteq> []
         then rbind (entry_sort_value U (last items) (cq_sort q)) (\<lambda>v.
              Inr (items, Some (v, de_id (last items))))
         else Inr (items, None)))))"

section \<open>The trash\<close>

definition trash_rows :: "db \<Rightarrow> uuid \<Rightarrow> (trash_item \<times> entry_row) list" where
  "trash_rows d owner =
     concat (map (\<lambda>t. map (\<lambda>r. (t, r))
         (filter (\<lambda>r. r_id r = ti_entry t \<and> r_owner r = owner \<and> r_deleted r \<noteq> None) (db_entries d)))
       (filter (\<lambda>t. ti_deleted_by t = owner) (db_trash d)))"

definition trash_key :: "trash_item \<times> entry_row \<Rightarrow> instant \<times> uuid" where
  "trash_key x = (ti_trashed_at (fst x), ti_id (fst x))"

definition fetch_trash ::
  "db \<times> uuid \<Rightarrow> nat \<Rightarrow> (instant \<times> uuid) option \<Rightarrow> (trash_item \<times> entry_row) list \<times> bool" where
  "fetch_trash s limit cursor =
     (case s of (d, owner) \<Rightarrow> keyset_page Desc trash_key limit cursor (trash_rows d owner))"

definition list_trash ::
  "unicode \<Rightarrow> db \<Rightarrow> uuid \<Rightarrow> nat \<Rightarrow> (instant \<times> uuid) option \<Rightarrow>
     ((trash_item \<times> storage_entry) list \<times> bool) result" where
  "list_trash U d owner limit cursor =
     rbind (require (sendable_mark cursor) PersistenceFailure) (\<lambda>_.
     (let (rows, has_more) = fetch_trash (d, owner) limit cursor
      in rbind (collect (\<lambda>(t, r). rbind (to_entry U d r) (\<lambda>e. Inr (t, e))) rows)
           (\<lambda>records. Inr (records, has_more))))"

definition trash_page ::
  "unicode \<Rightarrow> uuid \<Rightarrow> nat \<Rightarrow> (instant \<times> uuid) option \<Rightarrow> db \<Rightarrow>
     ((trash_item_dto \<times> storage_entry_dto) list \<times> (instant \<times> uuid) option) result" where
  "trash_page U owner limit cursor d =
     rbind (list_trash U d owner limit cursor) (\<lambda>(records, has_more).
     (let items = map (\<lambda>(t, e). (trash_to_dto t, entry_to_dto e False)) records
      in Inr (items,
           if has_more \<and> items \<noteq> []
           then Some (dt_trashed_at (fst (last items)), dt_id (fst (last items))) else None)))"

section \<open>Single entries\<close>

definition get_file_details :: "unicode \<Rightarrow> uuid \<Rightarrow> uuid \<Rightarrow> db \<Rightarrow> file_details_dto result" where
  "get_file_details U owner file_id d =
     rbind (get_entry U d file_id False) (\<lambda>oe.
     (case oe of
        None \<Rightarrow> Inl StorageEntryNotFound
      | Some e \<Rightarrow>
          (case e_kind e of
             Folder \<Rightarrow> Inl StorageEntryNotFound
           | File fm \<Rightarrow> if e_owner e \<noteq> owner then Inl StorageEntryNotFound
                       else file_to_details_dto e fm)))"

definition get_folder_navigation ::
  "unicode \<Rightarrow> uuid \<Rightarrow> uuid option \<Rightarrow> db \<Rightarrow> storage_entry_dto list result" where
  "get_folder_navigation U owner folder_id d =
     rbind (get_folder_path U d owner folder_id) (\<lambda>path.
     if path = [] then Inl StorageEntryNotFound
     else Inr (map (\<lambda>e. entry_to_dto e False) path))"

section \<open>Paging\<close>

definition children_listing :: "(string \<Rightarrow> int list) \<Rightarrow> db \<times> children_query \<Rightarrow> listed list" where
  "children_listing C s =
     (case s of (d, q) \<Rightarrow>
        order_rows (cq_direction q) (\<lambda>x. cursor_rank C (listed_cursor (cq_sort q) x)) (child_rows d q))"

lemma distinct_child_rows:
  assumes "distinct (map r_id (db_entries d))"
  shows "distinct (map (\<lambda>x. cursor_rank C (listed_cursor f x)) (child_rows d q))"
proof -
  let ?rows = "filter (\<lambda>r. r_owner r = cq_owner q \<and> r_parent r = Some (cq_parent q) \<and> r_deleted r = None)
    (db_entries d)"
  have "distinct (map (\<lambda>x. r_id (fst x)) (map (\<lambda>r. (r, tbl_find m_entry (r_id r) (db_meta d))) ?rows))"
    using assms by (simp add: comp_def distinct_map_filter)
  then have "distinct (map (\<lambda>x. r_id (fst x)) (child_rows d q))"
    unfolding child_rows_def by (rule distinct_map_filter)
  then have "distinct (map snd (map (\<lambda>x. cursor_rank C (listed_cursor f x)) (child_rows d q)))"
    by (simp add: comp_def cursor_rank_def listed_cursor_def)
  then show ?thesis by (rule distinct_map [THEN iffD1, THEN conjunct1])
qed

interpretation children_pages: paged_query
  "\<lambda>d. distinct (map r_id (db_entries d))"
  "\<lambda>d. children_listing C (d, q)" "\<lambda>d. fetch_children C (d, q)" "listed_cursor (cq_sort q)"
  for C q
proof (unfold_locales, goal_cases)
  case (1 d n)
  then show ?case by (simp add: fetch_children_def children_listing_def keyset_page_first)
next
  case (2 d n pre x post)
  from keyset_page_next [OF distinct_child_rows [OF 2(1), of C "cq_sort q" q], of "cq_direction q" pre x post n]
    2(3)
  show ?case by (simp add: fetch_children_def children_listing_def)
qed

definition trash_listing :: "db \<times> uuid \<Rightarrow> (trash_item \<times> entry_row) list" where
  "trash_listing s = (case s of (d, owner) \<Rightarrow> order_rows Desc trash_key (trash_rows d owner))"

lemma length_filter_key: "distinct (map key tbl) \<Longrightarrow> length (filter (\<lambda>r. key r = k \<and> P r) tbl) \<le> 1"
proof (induction tbl)
  case (Cons a tbl)
  have "key a = k \<Longrightarrow> filter (\<lambda>r. key r = k \<and> P r) tbl = []"
    using Cons.prems by (auto simp: filter_empty_conv rev_image_eqI)
  with Cons show ?case by simp
qed simp

lemma distinct_trash_rows:
  assumes "distinct (map r_id (db_entries d))" and "distinct (map ti_id (db_trash d))"
  shows "distinct (map trash_key (trash_rows d owner))"
proof -
  let ?hits = "\<lambda>t. filter (\<lambda>r. r_id r = ti_entry t \<and> r_owner r = owner \<and> r_deleted r \<noteq> None) (db_entries d)"
  have one: "distinct (map (\<lambda>x. ti_id t) (?hits t))" for t
  proof -
    have "length (?hits t) \<le> 1"
      using length_filter_key [OF assms(1), of "ti_entry t" "\<lambda>r. r_owner r = owner \<and> r_deleted r \<noteq> None"]
      by simp
    then show ?thesis by (cases "?hits t") auto
  qed
  have "distinct (map (\<lambda>x. ti_id (fst x)) (concat (map (\<lambda>t. map (\<lambda>r. (t, r)) (?hits t)) ts)))"
    if "distinct (map ti_id ts)" for ts
    using that
  proof (induction ts)
    case (Cons t ts)
    with one [of t] show ?case by (auto simp: comp_def rev_image_eqI)
  qed simp
  from this [OF distinct_map_filter [OF assms(2), of "\<lambda>t. ti_deleted_by t = owner"]]
  have "distinct (map snd (map trash_key (trash_rows d owner)))"
    by (simp add: trash_rows_def comp_def trash_key_def)
  then show ?thesis by (rule distinct_map [THEN iffD1, THEN conjunct1])
qed

interpretation trash_pages: paged_query
  "\<lambda>s. distinct (map r_id (db_entries (fst s))) \<and> distinct (map ti_id (db_trash (fst s)))"
  trash_listing fetch_trash trash_key
proof (unfold_locales, goal_cases)
  case (1 s n)
  then show ?case by (simp add: fetch_trash_def trash_listing_def keyset_page_first split: prod.split)
next
  case (2 s n pre x post)
  then show ?case
    by (auto simp: fetch_trash_def trash_listing_def
        intro!: keyset_page_next distinct_trash_rows split: prod.splits)
qed

end
