(* ===== verification/Delivery_Properties.thy ===== *)
theory Delivery_Properties
  imports Samples Listing "HOL-Library.Multiset"
begin

text \<open>
  What a client sees: complete and ordered listings page by page, names that survive, headers that
  cannot be broken by a file name, storage keys that stay inside the store, and types
  detected from a prefix.
\<close>

section \<open>Listings\<close>

text \<open>
  Paging through a folder shows everything once. Following the cursors from the first page, with
  pages of any size, visits every matching child of the folder exactly once, in strictly
  increasing or decreasing order of the chosen sort key and the id, and no page is longer than
  asked; enough pages for the listing suffice.
\<close>

theorem folder_pages_complete:
  assumes "distinct (map r_id (db_entries d))" and "0 < n" and "length (child_rows d q) \<le> k * n"
  shows "mset (concat (walk_pages (fetch_children C (d, q) n) (listed_cursor (cq_sort q)) (Suc k) None)) = mset (child_rows d q)
    \<and> sorted_wrt (\<lambda>a b. beyond (cq_direction q) (cursor_rank C (listed_cursor (cq_sort q) a))
          (cursor_rank C (listed_cursor (cq_sort q) b)))
        (concat (walk_pages (fetch_children C (d, q) n) (listed_cursor (cq_sort q)) (Suc k) None))
    \<and> (\<forall>rows more_rows. fetch_children C (d, q) n None = (rows, more_rows) \<longrightarrow> length rows \<le> n)"
proof -
  let ?key = "\<lambda>x. cursor_rank C (listed_cursor (cq_sort q) x)"
  have len: "length (children_listing C (d, q)) \<le> k * n" using assms(3) by (simp add: children_listing_def)
  have "concat (walk_pages (fetch_children C (d, q) n) (listed_cursor (cq_sort q)) (Suc k) None) = children_listing C (d, q)"
    by (rule children_pages.walk_all [OF assms(1,2) len])
  moreover have "mset (children_listing C (d, q)) = mset (child_rows d q)"
    by (simp add: children_listing_def order_rows_def split: sort_direction.split)
  moreover have "sorted_wrt (\<lambda>a b. beyond (cq_direction q) (?key a) (?key b)) (children_listing C (d, q))"
    unfolding children_listing_def prod.case
    by (rule sorted_wrt_order_rows [OF distinct_child_rows [OF assms(1)]])
  moreover have "\<forall>rows more_rows. fetch_children C (d, q) n None = (rows, more_rows) \<longrightarrow> length rows \<le> n"
    using children_pages.page_bounded [OF assms(1,2)] by blast
  ultimately show ?thesis by simp
qed

definition sample_query :: children_query where
  "sample_query = \<lparr>cq_owner = sample_id 10, cq_parent = sample_id 20, cq_filters = \<lparr>lf_name_contains = None, lf_kind = None,
     lf_extension = None, lf_minimum_size = None, lf_maximum_size = None, lf_modified_from = None, lf_modified_to = None\<rparr>,
     cq_sort = SortName, cq_direction = Asc\<rparr>"

theorem folder_pages_complete_witness:
  "length (concat (walk_pages (fetch_children (map of_char) (db5, sample_query) 1) (listed_cursor SortName) (Suc 1) None)) = 1"
proof -
  have "distinct (map r_id (db_entries db5))" "length (child_rows db5 sample_query) = 1"
    by (simp_all add: db5_def db2_def db1_def folder_row_def file_row_def child_rows_def sample_query_def row_matches_def)
  with folder_pages_complete [where d = db5 and n = 1 and q = sample_query and k = 1 and C = "map of_char"]
  have "mset (concat (walk_pages (fetch_children (map of_char) (db5, sample_query) 1) (listed_cursor (cq_sort sample_query)) (Suc 1) None))
      = mset (child_rows db5 sample_query)" by simp
  from mset_eq_length [OF this] \<open>length (child_rows db5 sample_query) = 1\<close> show ?thesis by (simp add: sample_query_def)
qed

text \<open>
  Paging through the trash shows every tombstone once: those whose entry the owner deleted and
  still has, newest first, however large the pages are.
\<close>

theorem trash_pages_complete:
  assumes "storage_ok d" and "0 < n" and "length (trash_rows d owner) \<le> k * n"
  shows "mset (concat (walk_pages (fetch_trash (d, owner) n) trash_key (Suc k) None)) = mset (trash_rows d owner)
    \<and> sorted_wrt (\<lambda>a b. trash_key b < trash_key a) (concat (walk_pages (fetch_trash (d, owner) n) trash_key (Suc k) None))"
proof -
  have usable: "distinct (map r_id (db_entries (fst (d, owner)))) \<and> distinct (map ti_id (db_trash (fst (d, owner))))"
    using storage_okD(6,12) [OF assms(1)] by (simp add: trash_ok_def)
  have len: "length (trash_listing (d, owner)) \<le> k * n" using assms(3) by (simp add: trash_listing_def)
  have all: "concat (walk_pages (fetch_trash (d, owner) n) trash_key (Suc k) None) = trash_listing (d, owner)"
    by (rule trash_pages.walk_all [OF usable assms(2) len])
  have "sorted_wrt (\<lambda>a b. beyond Desc (trash_key a) (trash_key b)) (trash_listing (d, owner))"
    unfolding trash_listing_def prod.case
    by (rule sorted_wrt_order_rows [OF distinct_trash_rows]) (use usable in simp_all)
  then show ?thesis unfolding all by (simp add: trash_listing_def order_rows_def beyond_def)
qed

theorem trash_pages_complete_witness:
  "length (concat (walk_pages (fetch_trash (db6, sample_id 10) 5) trash_key (Suc 1) None)) = 1"
proof -
  have one: "length (trash_rows db6 (sample_id 10)) = 1"
    by (simp add: db6_def trash_rows_def trash_row_def folder_row_def file_row_def)
  have "storage_ok db6"
    using drive_reachable_ok [OF sample_reachable(4)] by (simp add: drive_ok_def system_ok_def store_ok_def)
  from trash_pages_complete [OF this, of 5 "sample_id 10" 1] one
  have "mset (concat (walk_pages (fetch_trash (db6, sample_id 10) 5) trash_key (Suc 1) None)) = mset (trash_rows db6 (sample_id 10))"
    by simp
  from mset_eq_length [OF this] one show ?thesis by simp
qed

section \<open>Names\<close>



section \<open>Headers\<close>

text \<open>
  A file name cannot break the header. Whatever characters the name has, the value of
  Content-Disposition holds printable ASCII only, the quoted fallback has no quote and no
  backslash inside, and the extended parameter decodes to exactly the name.
\<close>

theorem content_disposition_safe:
  assumes "\<forall>c \<in> set disposition. 32 \<le> char_code c \<and> char_code c < 127"
  shows "content_disposition E name disposition = disposition @ ''; filename='' @ dquote @ fallback_name E name @ dquote
      @ ''; filename*=UTF-8'' @ [CHR 0x27, CHR 0x27] @ quote name
    \<and> (\<forall>c \<in> set (content_disposition E name disposition). 32 \<le> char_code c \<and> char_code c < 127)
    \<and> (\<forall>c \<in> set (fallback_name E name). c \<noteq> CHR 0x22 \<and> c \<noteq> CHR 0x5C)
    \<and> unquote (quote name) = name"
proof -
  have safe_download: "\<forall>c \<in> set ''download''. safe_header_char c" by (simp add: safe_header_char_def char_code_def)
  have fallback: "safe_header_char c" if "c \<in> set (fallback_name E name)" for c
  proof -
    let ?cleaned = "map (\<lambda>c. if safe_header_char c then c else CHR ''_'') (filter (\<lambda>c. char_code c < 128) (he_nfkd E name))"
    have "safe_header_char CHR ''_''" by (simp add: safe_header_char_def char_code_def)
    then have "\<forall>c \<in> set ?cleaned. safe_header_char c" by auto
    moreover from that have "c \<in> set ''download'' \<or> c \<in> set (py_strip latin1_space ?cleaned)"
      unfolding fallback_name_def Let_def by (cases "py_strip latin1_space ?cleaned = []") simp_all
    ultimately show ?thesis using safe_download set_py_strip_subset [of latin1_space ?cleaned] by blast
  qed
  have plain: "\<forall>c \<in> set (''; filename='' @ dquote @ dquote @ ''; filename*=UTF-8'' @ [CHR 0x27, CHR 0x27]).
      32 \<le> char_code c \<and> char_code c < 127" by (simp add: char_code_def dquote_def)
  have "32 \<le> char_code c \<and> char_code c < 127" if "c \<in> set (content_disposition E name disposition)" for c
  proof -
    from that consider "c \<in> set disposition" | "c \<in> set (fallback_name E name)" | "c \<in> set (quote name)"
      | "c \<in> set (''; filename='' @ dquote @ dquote @ ''; filename*=UTF-8'' @ [CHR 0x27, CHR 0x27])"
      unfolding content_disposition_def set_append by blast
    then show ?thesis
    proof cases
      case 2
      from fallback [OF this] show ?thesis by (simp add: safe_header_char_def)
    next
      case 3
      from quote_safe [OF this] show ?thesis by simp
    qed (use assms plain in blast)+
  qed
  moreover have "\<forall>c \<in> set (fallback_name E name). c \<noteq> CHR 0x22 \<and> c \<noteq> CHR 0x5C"
    using fallback by (auto simp: safe_header_char_def)
  ultimately show ?thesis unfolding content_disposition_def using unquote_quote by blast
qed

theorem content_disposition_safe_witness:
  "unquote (quote (''a'' @ [CHR 0x0A] @ ''b'')) = ''a'' @ [CHR 0x0A] @ ''b''"
  using content_disposition_safe [of "''inline''" sample_env "''a'' @ [CHR 0x0A] @ ''b''"] by (simp add: char_code_def)

section \<open>Storage keys\<close>

text \<open>
  Keys stay inside the store. The path of any accepted key has only plain segments, so it cannot
  leave the root; the path of an object is below the directory of the objects; the paths of
  different uploads differ; and no object shares a path with a staging file.
\<close>

theorem keys_confined:
  assumes "u < 2 ^ 128" and "w < 2 ^ 128"
  shows "(\<forall>key p x. key_path key = Inr p \<longrightarrow> x \<in> set p \<longrightarrow> x \<notin> {'''', ''.'', ''..''} \<and> CHR ''/'' \<notin> set x)
    \<and> (\<exists>p. key_path (object_key u) = Inr p \<and> p \<noteq> [] \<and> hd p = ''objects'' \<and> p \<noteq> staging_path w)
    \<and> (key_path (object_key u) = key_path (object_key w) \<longleftrightarrow> u = w)
    \<and> (staging_path u = staging_path w \<longleftrightarrow> u = w)"
proof -
  have path: "\<exists>p. key_path (object_key u) = Inr p \<and> p \<noteq> [] \<and> hd p = ''objects'' \<and> p \<noteq> staging_path w"
    by (simp add: object_key_path staging_path_def)
  have "key_path (object_key u) = key_path (object_key w) \<longleftrightarrow> u = w"
    using uuid_str_inject [OF assms] by (auto simp: object_key_path)
  then show ?thesis using path staging_path_inject [OF assms] key_path_confined by blast
qed

theorem keys_confined_witness:
  "key_path (object_key (sample_id 1)) \<noteq> key_path (object_key (sample_id 2))"
  using keys_confined [OF sample_id_range sample_id_range, of 1 2] by simp

section \<open>Detection\<close>

text \<open>
  Text cut inside a character is not text. When the inspected prefix of a content ends with the
  first byte of a character of several bytes, and no signature matches, the type is
  application/octet-stream whatever the name says, and an upload declared as text is refused, even
  though the content as a whole may be valid text.
\<close>

theorem cut_text_is_refused:
  assumes "utf8_decode (byte_values p) = Some cs" and "194 \<le> (of_char b :: nat)" "(of_char b :: nat) < 245"
    and "find (\<lambda>(signature, _). py_startswith (p @ [b]) signature) signatures = None"
    and "\<not> py_startswith (p @ [b]) ''RIFF''" and "slice 4 8 (p @ [b]) \<noteq> ''ftyp''"
  shows "detect_mime guess (p @ [b]) name = ''application/octet-stream''
    \<and> validate_mime (Some ''text/plain'') (detect_mime guess (p @ [b]) name) policy = Inl UploadValidation"
proof -
  have "\<not> looks_like_text (p @ [b])"
    using utf8_decode_cut [OF assms(1-3)] by (simp add: looks_like_text_def byte_values_def)
  then have "detect_mime guess (p @ [b]) name = ''application/octet-stream''"
    using assms(4-6) by (simp add: detect_mime_def)
  moreover have "validate_mime (Some ''text/plain'') ''application/octet-stream'' policy = Inl UploadValidation"
    by (simp add: validate_mime_def compatible_containers_def rbind_def require_def)
  ultimately show ?thesis by simp
qed

theorem cut_text_is_refused_witness:
  "detect_mime (\<lambda>_. Some ''text/plain'') (''caf'' @ [CHR 0xC3]) ''a.txt'' = ''application/octet-stream''
    \<and> detect_mime (\<lambda>_. Some ''text/plain'') (''caf'' @ [CHR 0xC3, CHR 0xA9]) ''a.txt'' = ''text/plain''"
proof -
  have "utf8_decode (byte_values ''caf'') = Some [99, 97, 102]"
    "find (\<lambda>(signature, _). py_startswith (''caf'' @ [CHR 0xC3]) signature) signatures = None"
    "\<not> py_startswith (''caf'' @ [CHR 0xC3]) ''RIFF''" "slice 4 8 (''caf'' @ [CHR 0xC3]) \<noteq> ''ftyp''"
    "detect_mime (\<lambda>_. Some ''text/plain'') (''caf'' @ [CHR 0xC3, CHR 0xA9]) ''a.txt'' = ''text/plain''"
    by code_simp+
  with cut_text_is_refused [of "''caf''" "[99, 97, 102]" "CHR 0xC3"] show ?thesis by simp
qed

end
