(* ===== verification/Uuid7.thy ===== *)
theory Uuid7
  imports Prelude
begin

text \<open>
  \<open>Uuid7Generator\<close> (\<open>app/infrastructure/persistence/identifiers.py\<close>): RFC 9562 version 7
  identifiers, ordered within one process. The clock reading and the random bits of a call are
  its arguments; the lock makes calls sequential.
\<close>

unbundle bit_operations_syntax

record uuid7_state =
  u7_last_timestamp :: int
  u7_last_random :: int

definition uuid7_initial :: uuid7_state where
  "uuid7_initial = \<lparr>u7_last_timestamp = - 1, u7_last_random = - 1\<rparr>"

definition random_bits :: nat where
  "random_bits = 74"

definition random_mask :: int where
  "random_mask = push_bit random_bits 1 - 1"

definition timestamp_mask :: int where
  "timestamp_mask = push_bit 48 1 - 1"

definition uuid7_value :: "int \<Rightarrow> int \<Rightarrow> int" where
  "uuid7_value timestamp random_value =
     (let random_a = drop_bit 62 random_value;
          random_b = random_value AND (push_bit 62 1 - 1)
      in push_bit 80 timestamp OR push_bit 76 7 OR push_bit 64 random_a OR push_bit 62 2 OR random_b)"

definition uuid7_new :: "int \<Rightarrow> int \<Rightarrow> uuid7_state \<Rightarrow> uuid result \<times> uuid7_state" where
  "uuid7_new clock_ms drawn st =
     (let timestamp = max clock_ms (u7_last_timestamp st)
      in if timestamp > timestamp_mask then (Inl PyOverflowError, st)
         else
           (let (timestamp', random_value) =
                  (if timestamp = u7_last_timestamp st
                   then (let r = (u7_last_random st + 1) AND random_mask
                         in if r = 0 then (timestamp + 1, drawn) else (timestamp, r))
                   else (timestamp, drawn));
                st' = \<lparr>u7_last_timestamp = timestamp', u7_last_random = random_value\<rparr>;
                v = uuid7_value timestamp' random_value
            in (if 0 \<le> v \<and> v < 2 ^ 128 then Inr (nat v) else Inl PyValueError, st')))"

text \<open>A sequence of calls; calls that raise yield no identifier.\<close>

fun uuid7_run :: "(int \<times> int) list \<Rightarrow> uuid7_state \<Rightarrow> uuid list" where
  "uuid7_run [] st = []"
| "uuid7_run ((clock, drawn) # calls) st =
     (case uuid7_new clock drawn st of
        (Inl _, st') \<Rightarrow> uuid7_run calls st'
      | (Inr u, st') \<Rightarrow> u # uuid7_run calls st')"

section \<open>The value as a sum\<close>

text \<open>The random value in its two parts, as plain numbers.\<close>

lemma random_parts:
  assumes "0 \<le> r" "r < 2 ^ 74"
  obtains h l :: int where "r div 2 ^ 62 = h" "r mod 2 ^ 62 = l" "r = 4611686018427387904 * h + l"
    "0 \<le> h" "h < 4096" "0 \<le> l" "l < 4611686018427387904"
proof (rule that [OF refl refl])
  show "r = 4611686018427387904 * (r div 2 ^ 62) + r mod 2 ^ 62"
    using mult_div_mod_eq [of "2 ^ 62" r] by simp
  show "0 \<le> r div 2 ^ 62" "r div 2 ^ 62 < 4096"
    using assms by (simp_all add: div_less_iff_less_mult pos_imp_zdiv_nonneg_iff)
qed simp_all

lemma or_push_bit: "0 \<le> b \<Longrightarrow> b < 2 ^ k \<Longrightarrow> push_bit k a OR b = 2 ^ k * a + (b :: int)"
proof -
  assume b: "0 \<le> b" "b < 2 ^ k"
  have "take_bit k b = b" using b by (simp add: take_bit_int_eq_self)
  then have "\<not> bit b n" if "k \<le> n" for n
    using that by (metis bit_take_bit_iff not_le)
  then have "push_bit k a AND b = 0"
    by (intro bit_eqI) (auto simp: bit_and_iff bit_push_bit_iff)
  then have "push_bit k a OR b = push_bit k a + b"
    by (simp add: disjunctive_add_eq_or)
  then show ?thesis by (simp add: push_bit_eq_mult mult.commute)
qed

definition random_ok :: "int \<Rightarrow> bool" where
  "random_ok r \<longleftrightarrow> 0 \<le> r \<and> r < 2 ^ 74"

lemma uuid7_value_eq:
  assumes "random_ok r"
  shows "uuid7_value t r = 2 ^ 80 * t + 7 * 2 ^ 76 + 2 ^ 64 * (r div 2 ^ 62) + 2 * 2 ^ 62 + r mod 2 ^ 62"
proof -
  have mask: "r AND (push_bit 62 1 - 1) = r mod 2 ^ 62"
    using take_bit_eq_mask [of 62 r] take_bit_eq_mod [of 62 r]
    by (simp only: push_bit_eq_mult mult_1_left mask_eq_exp_minus_1)
  have a: "0 \<le> r div 2 ^ 62" "r div 2 ^ 62 < 2 ^ 12" and b: "0 \<le> r mod 2 ^ 62" "r mod 2 ^ 62 < 2 ^ 62"
    using assms by (auto simp: random_ok_def div_less_iff_less_mult)
  have "push_bit 62 (2 :: int) OR r mod 2 ^ 62 = 2 ^ 62 * 2 + r mod 2 ^ 62"
    by (rule or_push_bit [OF b])
  moreover have "push_bit 64 (r div 2 ^ 62) OR (2 ^ 62 * 2 + r mod 2 ^ 62) =
      2 ^ 64 * (r div 2 ^ 62) + (2 ^ 62 * 2 + r mod 2 ^ 62)"
    using b by (intro or_push_bit) auto
  moreover have "push_bit 76 (7 :: int) OR (2 ^ 64 * (r div 2 ^ 62) + (2 ^ 62 * 2 + r mod 2 ^ 62)) =
      2 ^ 76 * 7 + (2 ^ 64 * (r div 2 ^ 62) + (2 ^ 62 * 2 + r mod 2 ^ 62))"
    using a b by (intro or_push_bit) auto
  moreover have "push_bit 80 t OR (2 ^ 76 * 7 + (2 ^ 64 * (r div 2 ^ 62) + (2 ^ 62 * 2 + r mod 2 ^ 62))) =
      2 ^ 80 * t + (2 ^ 76 * 7 + (2 ^ 64 * (r div 2 ^ 62) + (2 ^ 62 * 2 + r mod 2 ^ 62)))"
    using a b by (intro or_push_bit) auto
  ultimately show ?thesis
    unfolding uuid7_value_def Let_def mask drop_bit_eq_div or.assoc
    by (simp only: add.assoc mult.commute [of "2 ^ 76"] mult.commute [of "2 ^ 62" 2])
qed

lemma random_ok_mask: "r AND random_mask = r mod 2 ^ 74"
  using take_bit_eq_mask [of 74 r] take_bit_eq_mod [of 74 r]
  by (simp only: random_mask_def random_bits_def push_bit_eq_mult mult_1_left mask_eq_exp_minus_1)

lemma timestamp_mask_eq: "timestamp_mask = 2 ^ 48 - 1"
  by (simp add: timestamp_mask_def push_bit_eq_mult)

text \<open>The part below the timestamp orders like the random value.\<close>

definition uuid7_low :: "int \<Rightarrow> int" where
  "uuid7_low r = 7 * 2 ^ 76 + 2 ^ 64 * (r div 2 ^ 62) + 2 * 2 ^ 62 + r mod 2 ^ 62"

lemma uuid7_low_bounds:
  assumes "random_ok r"
  shows "7 * 2 ^ 76 \<le> uuid7_low r" and "uuid7_low r < 8 * 2 ^ 76"
proof -
  obtain h l where hl: "r div 2 ^ 62 = h" "r mod 2 ^ 62 = l" "0 \<le> h" "h < 4096" "0 \<le> l"
    "l < 4611686018427387904"
    using random_parts [of r] assms unfolding random_ok_def by metis
  show "7 * 2 ^ 76 \<le> uuid7_low r" "uuid7_low r < 8 * 2 ^ 76"
    unfolding uuid7_low_def hl(1,2) using hl(3-6) by simp_all
qed

lemma uuid7_low_mono:
  assumes "random_ok r" "random_ok q" "r < q"
  shows "uuid7_low r < uuid7_low q"
proof -
  obtain h l where r: "r div 2 ^ 62 = h" "r mod 2 ^ 62 = l" "r = 4611686018427387904 * h + l" "0 \<le> l"
    "l < 4611686018427387904"
    using random_parts [of r] assms(1) unfolding random_ok_def by metis
  obtain g k where q: "q div 2 ^ 62 = g" "q mod 2 ^ 62 = k" "q = 4611686018427387904 * g + k" "0 \<le> k"
    "k < 4611686018427387904"
    using random_parts [of q] assms(2) unfolding random_ok_def by metis
  have "h \<le> g" using assms(3) r(3-5) q(3-5) by linarith
  then consider "h = g" | "h + 1 \<le> g" by linarith
  then have "18446744073709551616 * h + l < 18446744073709551616 * g + k"
    using assms(3) r(3-5) q(3-5) by cases linarith+
  then show ?thesis unfolding uuid7_low_def r(1,2) q(1,2) by simp
qed

lemma uuid7_value_low: "random_ok r \<Longrightarrow> uuid7_value t r = 2 ^ 80 * t + uuid7_low r"
  by (simp add: uuid7_value_eq uuid7_low_def)

section \<open>One call\<close>

definition drawn_ok :: "int \<times> int \<Rightarrow> bool" where
  "drawn_ok call \<longleftrightarrow> random_ok (snd call)"

definition state_ok :: "uuid7_state \<Rightarrow> bool" where
  "state_ok st \<longleftrightarrow> st = uuid7_initial \<or> 0 \<le> u7_last_timestamp st \<and> random_ok (u7_last_random st)"

text \<open>The bound below every later identifier.\<close>

definition state_bound :: "uuid7_state \<Rightarrow> int" where
  "state_bound st =
     (if st = uuid7_initial then - 1 else uuid7_value (u7_last_timestamp st) (u7_last_random st))"

lemma uuid7_new_step:
  assumes "state_ok st" and "random_ok drawn" and "0 \<le> clock"
    and "uuid7_new clock drawn st = (r, st')"
  shows "r = Inl PyOverflowError \<and> st' = st
    \<or> state_ok st' \<and> state_bound st < state_bound st'
      \<and> (r = Inl PyValueError \<or> r = Inr (nat (state_bound st')) \<and> 0 \<le> state_bound st' \<and> state_bound st' < 2 ^ 128)"
proof (cases "max clock (u7_last_timestamp st) > timestamp_mask")
  case True
  with assms(4) show ?thesis by (simp add: uuid7_new_def Let_def)
next
  case False
  define ts where "ts = max clock (u7_last_timestamp st)"
  define q where "q = (u7_last_random st + 1) mod 2 ^ 74"
  obtain t' r' where new: "(if ts = u7_last_timestamp st then (if q = 0 then (ts + 1, drawn) else (ts, q))
      else (ts, drawn)) = (t', r')" by fastforce
  let ?st = "\<lparr>u7_last_timestamp = t', u7_last_random = r'\<rparr>"
  let ?v = "uuid7_value t' r'"
  have run: "st' = ?st" "r = (if 0 \<le> ?v \<and> ?v < 2 ^ 128 then Inr (nat ?v) else Inl PyValueError)"
    using assms(4) False new
    by (auto simp: uuid7_new_def Let_def random_ok_mask ts_def q_def split: if_splits prod.splits)
  have "0 \<le> q" "q < 2 ^ 74" by (simp_all add: q_def)
  then have r': "random_ok r'" using new assms(2) by (auto simp: random_ok_def split: if_splits)
  have t': "0 \<le> t'" "u7_last_timestamp st \<le> t'" using new assms(3) by (auto simp: ts_def split: if_splits)
  have ne: "?st \<noteq> uuid7_initial" using t'(1) by (auto simp: uuid7_initial_def)
  have bound': "state_bound ?st = 2 ^ 80 * t' + uuid7_low r'"
    using ne r' by (simp add: state_bound_def uuid7_value_low)
  have "state_bound st < state_bound ?st"
  proof (cases "st = uuid7_initial")
    case True
    then show ?thesis unfolding bound' using uuid7_low_bounds [OF r'] t'(1) by (simp add: state_bound_def)
  next
    case False
    then have st: "random_ok (u7_last_random st)" using assms(1) by (simp add: state_ok_def)
    have bst: "state_bound st = 2 ^ 80 * u7_last_timestamp st + uuid7_low (u7_last_random st)"
      using False st by (simp add: state_bound_def uuid7_value_low)
    consider "u7_last_timestamp st + 1 \<le> t'" | "t' = u7_last_timestamp st" "r' = q" "q \<noteq> 0"
      using new t' by (auto simp: ts_def split: if_splits)
    then show ?thesis
    proof cases
      case 1
      then show ?thesis unfolding bound' bst
        using uuid7_low_bounds [OF r'] uuid7_low_bounds [OF st] by simp
    next
      case 2
      have "u7_last_random st + 1 \<noteq> 2 ^ 74" using 2(3) by (auto simp: q_def)
      with st have "q = u7_last_random st + 1" by (simp add: q_def random_ok_def)
      with 2 uuid7_low_mono [OF st r'] show ?thesis unfolding bound' bst by simp
    qed
  qed
  moreover have "state_ok ?st" using t'(1) r' by (simp add: state_ok_def)
  moreover have "?v = state_bound ?st" using bound' r' by (simp add: uuid7_value_low)
  ultimately show ?thesis using run by auto
qed

lemma div_pos_geq_unique:
  assumes "v = 2 ^ 80 * t + 7 * 2 ^ 76 + 2 ^ 64 * h + 2 * 2 ^ 62 + (l :: int)"
    and "0 \<le> h" "h < 4096" "0 \<le> l" "l < 4611686018427387904"
  shows "v div 2 ^ 76 = 16 * t + 7"
proof -
  have "v = (16 * t + 7) * 2 ^ 76 + (2 ^ 64 * h + 2 * 2 ^ 62 + l)" using assms(1) by simp
  moreover have "0 \<le> 2 ^ 64 * h + 2 * 2 ^ 62 + l" "2 ^ 64 * h + 2 * 2 ^ 62 + l < 2 ^ 76"
    using assms(2-5) by simp_all
  ultimately show ?thesis by (intro int_div_pos_eq [where r = "2 ^ 64 * h + 2 * 2 ^ 62 + l"]) (simp_all add: mult.commute)
qed

lemma div_pos_unique62:
  assumes "v = 2 ^ 80 * t + 7 * 2 ^ 76 + 2 ^ 64 * h + 2 * 2 ^ 62 + (l :: int)"
    and "0 \<le> h" "h < 4096" "0 \<le> l" "l < 4611686018427387904"
  shows "v div 2 ^ 62 = 4 * (2 ^ 16 * t + 7 * 2 ^ 12 + h) + 2"
  by (rule int_div_pos_eq [where r = l]) (use assms in simp_all)

lemma uuid7_value_shape:
  assumes "random_ok r" and "0 \<le> t" and "uuid7_value t r < 2 ^ 128"
  shows "uuid7_check (nat (uuid7_value t r))" and "nat (uuid7_value t r) div 2 ^ 62 mod 4 = 2"
proof -
  let ?v = "uuid7_value t r"
  obtain h l where hl: "r div 2 ^ 62 = h" "r mod 2 ^ 62 = l" "0 \<le> h" "h < 4096" "0 \<le> l"
    "l < 4611686018427387904"
    using random_parts [of r] assms(1) unfolding random_ok_def by metis
  have v: "?v = 2 ^ 80 * t + 7 * 2 ^ 76 + 2 ^ 64 * h + 2 * 2 ^ 62 + l"
    using uuid7_value_eq [OF assms(1)] hl(1,2) by simp
  have pos: "0 \<le> ?v" unfolding v using assms(2) hl(3-6) by simp
  have "?v div 2 ^ 76 = 16 * t + 7"
    by (rule div_pos_geq_unique [OF v hl(3-6)])
  then have "?v div 2 ^ 76 mod 16 = 7" by simp
  then have "nat (?v div 2 ^ 76 mod 16) = 7" by simp
  then show "uuid7_check (nat ?v)"
    by (simp add: uuid7_check_alt nat_mod_distrib nat_div_distrib pos pos_imp_zdiv_nonneg_iff)
  have "?v div 2 ^ 62 = 4 * (2 ^ 16 * t + 7 * 2 ^ 12 + h) + 2"
    by (rule div_pos_unique62 [OF v hl(3-6)])
  then have "?v div 2 ^ 62 mod 4 = 2" by (simp only: mod_mult_self4) simp
  then have "nat (?v div 2 ^ 62 mod 4) = 2" by simp
  then show "nat ?v div 2 ^ 62 mod 4 = 2"
    by (simp add: nat_mod_distrib nat_div_distrib pos pos_imp_zdiv_nonneg_iff)
qed

lemma uuid7_new_ok:
  assumes "state_ok st" "random_ok drawn" "0 \<le> clock" "uuid7_new clock drawn st = (Inr u, st')"
  shows "state_ok st'" and "int u = state_bound st'" "state_bound st < state_bound st'"
    and "uuid7_check u" "u div 2 ^ 62 mod 4 = 2" "u < 2 ^ 128"
proof -
  from uuid7_new_step [OF assms] have st: "state_ok st'" "state_bound st < state_bound st'"
    "u = nat (state_bound st')" "0 \<le> state_bound st'" "state_bound st' < 2 ^ 128" by auto
  then show "state_ok st'" "int u = state_bound st'" "state_bound st < state_bound st'" "u < 2 ^ 128"
    by (simp_all add: nat_less_iff)
  from st have "st' \<noteq> uuid7_initial" by (auto simp: state_bound_def)
  with st uuid7_value_shape [of "u7_last_random st'" "u7_last_timestamp st'"]
  show "uuid7_check u" "u div 2 ^ 62 mod 4 = 2" by (auto simp: state_ok_def state_bound_def)
qed

lemma uuid7_run_above:
  assumes "state_ok st" and "\<forall>call \<in> set calls. 0 \<le> fst call \<and> random_ok (snd call)"
  shows "sorted_wrt (<) (uuid7_run calls st)
    \<and> (\<forall>u \<in> set (uuid7_run calls st). state_bound st < int u \<and> u < 2 ^ 128 \<and> uuid7_check u
         \<and> u div 2 ^ 62 mod 4 = 2)"
  using assms
proof (induction calls st rule: uuid7_run.induct)
  case (2 clock drawn calls st)
  obtain r st' where new: "uuid7_new clock drawn st = (r, st')" by fastforce
  have drawn: "random_ok drawn" "0 \<le> clock" using "2.prems" by auto
  from uuid7_new_step [OF 2(3) drawn new] "2.prems"(1)
  have st': "state_ok st'" "state_bound st \<le> state_bound st'" by auto
  show ?case
  proof (cases r)
    case (Inl e)
    have "sorted_wrt (<) (uuid7_run calls st')
      \<and> (\<forall>u \<in> set (uuid7_run calls st'). state_bound st' < int u \<and> u < 2 ^ 128 \<and> uuid7_check u
         \<and> u div 2 ^ 62 mod 4 = 2)"
      using "2.IH"(1) [OF new [symmetric] Inl st'(1)] "2.prems" by simp
    with st'(2) new Inl show ?thesis by fastforce
  next
    case (Inr u)
    note u = uuid7_new_ok [OF "2.prems"(1) drawn new [unfolded Inr]]
    have "sorted_wrt (<) (uuid7_run calls st')
      \<and> (\<forall>u \<in> set (uuid7_run calls st'). state_bound st' < int u \<and> u < 2 ^ 128 \<and> uuid7_check u
         \<and> u div 2 ^ 62 mod 4 = 2)"
      using "2.IH"(2) [OF new [symmetric] Inr st'(1)] "2.prems" by simp
    moreover from this u(2) have "\<forall>w \<in> set (uuid7_run calls st'). u < w"
      by (metis of_nat_less_iff)
    moreover from calculation u(3) have "\<forall>w \<in> set (uuid7_run calls st'). state_bound st < int w"
      by fastforce
    moreover have "uuid7_run ((clock, drawn) # calls) st = u # uuid7_run calls st'"
      using new Inr by simp
    ultimately show ?thesis using u(2-6) by simp
  qed
qed simp

text \<open>
  C29: whatever the clock does, also when it stands still or jumps back, the identifiers one
  process draws are strictly increasing, fit into 128 bits, and carry version 7 and the RFC
  variant, which is what every primary-key CHECK of the schema asks for.
\<close>

theorem uuid7_monotonic:
  assumes "\<forall>call \<in> set calls. 0 \<le> fst call \<and> random_ok (snd call)"
  shows "sorted_wrt (<) (uuid7_run calls uuid7_initial)
    \<and> (\<forall>u \<in> set (uuid7_run calls uuid7_initial). u < 2 ^ 128 \<and> uuid7_check u \<and> u div 2 ^ 62 mod 4 = 2)"
  using uuid7_run_above [of uuid7_initial calls] assms by (simp add: state_ok_def)

theorem uuid7_monotonic_witness:
  "sorted_wrt (<) (uuid7_run [(5, 2 ^ 74 - 1), (5, 3), (1, 9)] uuid7_initial)"
  using uuid7_monotonic [of "[(5, 2 ^ 74 - 1), (5, 3), (1, 9)]"] by (simp add: random_ok_def)

end
