(* ===== verification/Unit_Of_Work.thy ===== *)
theory Unit_Of_Work
  imports Database
begin

text \<open>
  \<open>SQLAlchemyUnitOfWork\<close> (\<open>app/infrastructure/persistence/unit_of_work.py\<close>): the life cycle of
  the one session and one transaction a use case works in. Whether the driver's begin, commit
  and rollback calls succeed is an argument of each step. The working copy stands for what the
  open transaction sees; committing publishes it.
\<close>

record uow =
  uw_session :: "db option"
  uw_repositories :: bool
  uw_completed :: bool

definition uow_new :: uow where
  "uow_new = \<lparr>uw_session = None, uw_repositories = False, uw_completed = False\<rparr>"

section \<open>Operations\<close>

definition require_session :: "uow \<Rightarrow> db result" where
  "require_session u = some_or UnitOfWorkState (uw_session u)"

definition require_active_session :: "uow \<Rightarrow> db result" where
  "require_active_session u =
     rbind (require_session u) (\<lambda>w. if uw_completed u then Inl UnitOfWorkState else Inr w)"

definition uow_enter :: "bool \<Rightarrow> uow \<times> db \<Rightarrow> unit result \<times> uow \<times> db" where
  "uow_enter begin_ok s =
     (case s of (u, committed) \<Rightarrow>
        if uw_session u \<noteq> None then (Inl UnitOfWorkState, u, committed)
        else if \<not> begin_ok then (Inl PersistenceFailure, u\<lparr>uw_session := None\<rparr>, committed)
        else (Inr (), u\<lparr>uw_session := Some committed, uw_repositories := True\<rparr>, committed))"

text \<open>A repository of the open transaction, and what a call on it does to the working copy.\<close>

definition uow_repository :: "(db \<Rightarrow> ('a \<times> db) result) \<Rightarrow> uow \<times> db \<Rightarrow> 'a result \<times> uow \<times> db" where
  "uow_repository call s =
     (case s of (u, committed) \<Rightarrow>
        if \<not> uw_repositories u \<or> uw_completed u then (Inl UnitOfWorkState, u, committed)
        else (case uw_session u of
                None \<Rightarrow> (Inl UnitOfWorkState, u, committed)
              | Some w \<Rightarrow>
                  (case call w of
                     Inl e \<Rightarrow> (Inl e, u, committed)
                   | Inr (x, w') \<Rightarrow> (Inr x, u\<lparr>uw_session := Some w'\<rparr>, committed))))"

definition uow_commit :: "bool \<Rightarrow> uow \<times> db \<Rightarrow> unit result \<times> uow \<times> db" where
  "uow_commit commit_ok s =
     (case s of (u, committed) \<Rightarrow>
        (case require_active_session u of
           Inl e \<Rightarrow> (Inl e, u, committed)
         | Inr w \<Rightarrow>
             if commit_ok then (Inr (), u\<lparr>uw_completed := True\<rparr>, w)
             else (Inl PersistenceFailure, u\<lparr>uw_session := Some committed, uw_completed := True\<rparr>, committed)))"

definition uow_rollback :: "bool \<Rightarrow> uow \<times> db \<Rightarrow> unit result \<times> uow \<times> db" where
  "uow_rollback rollback_ok s =
     (case s of (u, committed) \<Rightarrow>
        (case require_active_session u of
           Inl e \<Rightarrow> (Inl e, u, committed)
         | Inr w \<Rightarrow>
             (if rollback_ok then Inr () else Inl PersistenceFailure,
              u\<lparr>uw_session := Some committed, uw_completed := True\<rparr>, committed)))"

definition uow_exit :: "uow \<times> db \<Rightarrow> unit result \<times> uow \<times> db" where
  "uow_exit s =
     (case s of (u, committed) \<Rightarrow>
        (case require_session u of
           Inl e \<Rightarrow> (Inl e, u, committed)
         | Inr w \<Rightarrow>
             (Inr (), \<lparr>uw_session = None, uw_repositories = False, uw_completed = True\<rparr>, committed)))"

section \<open>Runs\<close>

datatype uow_op =
    Enter bool
  | Write "db \<Rightarrow> (unit \<times> db) result"
  | Commit bool
  | Rollback bool
  | Exit

fun uow_step :: "uow_op \<Rightarrow> uow \<times> db \<Rightarrow> unit result \<times> uow \<times> db" where
  "uow_step (Enter b) s = uow_enter b s"
| "uow_step (Write f) s = uow_repository f s"
| "uow_step (Commit b) s = uow_commit b s"
| "uow_step (Rollback b) s = uow_rollback b s"
| "uow_step Exit s = uow_exit s"

fun uow_run :: "uow_op list \<Rightarrow> uow \<times> db \<Rightarrow> uow \<times> db" where
  "uow_run [] s = s"
| "uow_run (x # xs) s = uow_run xs (snd (uow_step x s))"

lemmas uow_defs =
  uow_enter_def uow_repository_def uow_commit_def uow_rollback_def uow_exit_def
  require_session_def require_active_session_def

text \<open>\<open>async with factory() as uow: body; await uow.commit()\<close>.\<close>

definition with_uow ::
  "bool \<Rightarrow> bool \<Rightarrow> (db \<Rightarrow> ('a \<times> db) result) \<Rightarrow> db \<Rightarrow> 'a result \<times> db" where
  "with_uow begin_ok commit_ok body d =
     (case uow_enter begin_ok (uow_new, d) of
        (Inl e, s) \<Rightarrow> (Inl e, snd s)
      | (Inr _, s1) \<Rightarrow>
          (case uow_repository body s1 of
             (Inl e, s2) \<Rightarrow> (Inl e, snd (snd (uow_exit s2)))
           | (Inr x, s2) \<Rightarrow>
               (case uow_commit commit_ok s2 of
                  (Inl e, s3) \<Rightarrow> (Inl e, snd (snd (uow_exit s3)))
                | (Inr _, s3) \<Rightarrow> (Inr x, snd (snd (uow_exit s3))))))"

section \<open>Properties\<close>

lemma uow_step_completed:
  "uw_completed u \<Longrightarrow> snd (uow_step x (u, d)) = (u', d') \<Longrightarrow> uw_completed u' \<and> d' = d"
  by (cases x)
    (auto simp: uow_defs rbind_eq_Inr some_or_eq_Inr split: option.splits sum.splits if_splits)

lemma uow_run_completed:
  "uw_completed (fst s) \<Longrightarrow> uw_completed (fst (uow_run xs s)) \<and> snd (uow_run xs s) = snd s"
proof (induction xs arbitrary: s)
  case (Cons x xs)
  obtain u d u' d' where s: "s = (u, d)" "snd (uow_step x (u, d)) = (u', d')"
    by (cases s; cases "snd (uow_step x s)") auto
  with Cons.prems uow_step_completed [of u x d u' d'] Cons.IH [of "(u', d')"] show ?case by simp
qed simp

lemma uow_step_effect:
  assumes "snd (uow_step x (u, d)) = (u', d')"
  shows "d' = d \<or> x = Commit True \<and> uw_session u = Some d' \<and> \<not> uw_completed u \<and> uw_completed u'"
  using assms
  by (cases x) (auto simp: uow_defs rbind_eq_Inr some_or_eq_Inr split: option.splits sum.splits if_splits)

text \<open>
  A unit of work publishes at most once and all at once. Whatever calls are made, in
  whatever order and with whatever driver failures, the committed database at the end is the
  one at the beginning or the working copy of the transaction at one successful commit; after
  that commit every further call leaves the database alone.
\<close>

theorem uow_all_or_nothing:
  shows "snd (uow_run ops (uow_new, d)) = d
    \<or> (\<exists>pre post w. ops = pre @ Commit True # post
         \<and> uow_run pre (uow_new, d) = (w, d) \<and> \<not> uw_completed w
         \<and> uw_session w = Some (snd (uow_run ops (uow_new, d))))"
proof -
  have "snd (uow_run ops (u, d)) = d
    \<or> (\<exists>pre post w. ops = pre @ Commit True # post \<and> uow_run pre (u, d) = (w, d)
         \<and> \<not> uw_completed w \<and> uw_session w = Some (snd (uow_run ops (u, d))))" for u
  proof (induction ops arbitrary: u)
    case (Cons x xs)
    obtain u' d' where step: "snd (uow_step x (u, d)) = (u', d')" by (cases "snd (uow_step x (u, d))")
    from uow_step_effect [OF step] consider "d' = d"
      | "x = Commit True" "uw_session u = Some d'" "\<not> uw_completed u" "uw_completed u'" by blast
    then show ?case
    proof cases
      case 1
      from Cons.IH [of u'] show ?thesis
      proof
        assume "snd (uow_run xs (u', d)) = d"
        with step 1 show ?thesis by simp
      next
        assume "\<exists>pre post w. xs = pre @ Commit True # post \<and> uow_run pre (u', d) = (w, d)
         \<and> \<not> uw_completed w \<and> uw_session w = Some (snd (uow_run xs (u', d)))"
        then obtain pre post w where p: "xs = pre @ Commit True # post" "uow_run pre (u', d) = (w, d)"
          "\<not> uw_completed w" "uw_session w = Some (snd (uow_run xs (u', d)))" by blast
        show ?thesis
          by (rule disjI2, rule exI [of _ "x # pre"], rule exI [of _ post], rule exI [of _ w])
            (use p step 1 in simp)
      qed
    next
      case 2
      with uow_run_completed [of "(u', d')" xs] step
      have "snd (uow_run (x # xs) (u, d)) = d'" by simp
      with 2 show ?thesis
        by (intro disjI2 exI [of _ "[]"] exI [of _ xs] exI [of _ u]) simp
    qed
  qed simp
  then show ?thesis .
qed


end
