(* ===== verification/Http_Errors.thy ===== *)
theory Http_Errors
  imports Header_Text
begin

text \<open>
  The translation of exceptions into responses (\<open>app/presentation/errors/handlers.py\<close>): status,
  stable code and extra headers. The class hierarchy of \<open>app/application/exceptions.py\<close>,
  \<open>app/domain\<close> and \<open>app/infrastructure/exceptions.py\<close> is written out as membership of the
  constructors of \<open>error\<close>.
\<close>

section \<open>Classes\<close>

datatype error_layer = DomainLayer | ApplicationLayer | InfrastructureLayer | Unexpected

fun error_layer_of :: "error \<Rightarrow> error_layer" where
  "error_layer_of InvalidEntryName = DomainLayer"
| "error_layer_of InvalidMove = DomainLayer"
| "error_layer_of InvalidChecksum = DomainLayer"
| "error_layer_of InvalidStateTransition = DomainLayer"
| "error_layer_of PersistenceFailure = InfrastructureLayer"
| "error_layer_of UnitOfWorkState = InfrastructureLayer"
| "error_layer_of FileStorageFailure = InfrastructureLayer"
| "error_layer_of PyTypeError = Unexpected"
| "error_layer_of PyValueError = Unexpected"
| "error_layer_of PyOverflowError = Unexpected"
| "error_layer_of PyOSError = Unexpected"
| "error_layer_of _ = ApplicationLayer"

definition is_not_found :: "error \<Rightarrow> bool" where
  "is_not_found e \<longleftrightarrow> e \<in> {ResourceNotFound, StorageEntryNotFound, UploadSessionNotFound}"

definition is_conflict :: "error \<Rightarrow> bool" where
  "is_conflict e \<longleftrightarrow> e \<in> {ConflictErr, StorageNameConflict, UploadStateConflict}
     \<or> (case e of UploadOffsetMismatch _ \<Rightarrow> True | _ \<Rightarrow> False)"

definition is_validation :: "error \<Rightarrow> bool" where
  "is_validation e \<longleftrightarrow> e \<in> {ApplicationValidation, UploadValidation}"

definition is_dependency :: "error \<Rightarrow> bool" where
  "is_dependency e \<longleftrightarrow> e \<in> {DependencyUnavailable, OutboxProcessing}"

definition is_authentication :: "error \<Rightarrow> bool" where
  "is_authentication e \<longleftrightarrow> e \<in> {AuthenticationFailed, SessionRevoked, AuthenticationRequired}"

definition is_rate_limit :: "error \<Rightarrow> int option" where
  "is_rate_limit e =
     (case e of RateLimitExceeded n \<Rightarrow> Some n | AccountTemporarilyLocked n \<Rightarrow> Some n | _ \<Rightarrow> None)"

fun error_code :: "error \<Rightarrow> string" where
  "error_code InvalidEntryName = ''storage.invalid_entry_name''"
| "error_code InvalidMove = ''storage.invalid_move''"
| "error_code InvalidChecksum = ''storage.invalid_checksum''"
| "error_code InvalidStateTransition = ''storage.invalid_state_transition''"
| "error_code ResourceNotFound = ''application.resource_not_found''"
| "error_code StorageEntryNotFound = ''storage.entry_not_found''"
| "error_code UploadSessionNotFound = ''storage.upload_not_found''"
| "error_code ConflictErr = ''application.conflict''"
| "error_code StorageNameConflict = ''storage.name_conflict''"
| "error_code (UploadOffsetMismatch _) = ''storage.upload_offset_mismatch''"
| "error_code UploadStateConflict = ''storage.upload_state_conflict''"
| "error_code ApplicationValidation = ''application.validation_error''"
| "error_code UploadValidation = ''storage.upload_validation_error''"
| "error_code DependencyUnavailable = ''application.dependency_unavailable''"
| "error_code OutboxProcessing = ''system.outbox_processing_failed''"
| "error_code AuthenticationFailed = ''auth.invalid_credentials''"
| "error_code SessionRevoked = ''auth.session_revoked''"
| "error_code AuthenticationRequired = ''auth.authentication_required''"
| "error_code CsrfValidation = ''auth.csrf_validation_failed''"
| "error_code AccountDisabled = ''auth.account_disabled''"
| "error_code (RateLimitExceeded _) = ''auth.rate_limit_exceeded''"
| "error_code (AccountTemporarilyLocked _) = ''auth.account_temporarily_locked''"
| "error_code PersistenceFailure = ''infrastructure.persistence_error''"
| "error_code UnitOfWorkState = ''infrastructure.unit_of_work_state''"
| "error_code FileStorageFailure = ''infrastructure.file_storage_error''"
| "error_code _ = ''internal.error''"

section \<open>Handlers\<close>

record error_reply =
  er_status :: nat
  er_code :: string
  er_headers :: "(string \<times> string) list"

definition handle_domain_error :: "error \<Rightarrow> error_reply" where
  "handle_domain_error e = \<lparr>er_status = 422, er_code = error_code e, er_headers = []\<rparr>"

definition handle_application_error :: "error \<Rightarrow> error_reply" where
  "handle_application_error e =
     (let (status, headers) =
        (if is_not_found e then (404, [])
         else if is_conflict e
         then (409, case e of UploadOffsetMismatch n \<Rightarrow> [(''Upload-Offset'', py_str n)] | _ \<Rightarrow> [])
         else if is_validation e then (422, [])
         else if is_dependency e then (503, [])
         else if is_authentication e then (401, [(''WWW-Authenticate'', ''Bearer'')])
         else if e \<in> {CsrfValidation, AccountDisabled} then (403, [])
         else (case is_rate_limit e of
                 Some n \<Rightarrow> (429, [(''Retry-After'', py_str (max 1 n))])
               | None \<Rightarrow> (422, [])))
      in \<lparr>er_status = status, er_code = error_code e, er_headers = headers\<rparr>)"

definition handle_infrastructure_error :: "error \<Rightarrow> error_reply" where
  "handle_infrastructure_error e = \<lparr>er_status = 503, er_code = error_code e, er_headers = []\<rparr>"

definition handle_unexpected_error :: "error \<Rightarrow> error_reply" where
  "handle_unexpected_error e = \<lparr>er_status = 500, er_code = ''internal.error'', er_headers = []\<rparr>"

text \<open>The registered table: the handler of the closest registered class.\<close>

definition handle_error :: "error \<Rightarrow> error_reply" where
  "handle_error e =
     (case error_layer_of e of
        DomainLayer \<Rightarrow> handle_domain_error e
      | ApplicationLayer \<Rightarrow> handle_application_error e
      | InfrastructureLayer \<Rightarrow> handle_infrastructure_error e
      | Unexpected \<Rightarrow> handle_unexpected_error e)"

section \<open>Properties\<close>

lemmas error_class_defs =
  is_not_found_def is_conflict_def is_validation_def is_dependency_def is_authentication_def
  is_rate_limit_def

text \<open>
  The translation table is total and keeps the classes apart. Every error gets exactly one
  of the documented statuses; 500 is only for defects of the program, 503 only for
  infrastructure and dependencies; 401, 403 and 429 only for authentication failures; and a
  client told to wait is told a whole number of seconds, at least one.
\<close>

theorem error_statuses:
  "er_status (handle_error e) \<in> {401, 403, 404, 409, 422, 429, 500, 503}
    \<and> (er_status (handle_error e) = 500 \<longleftrightarrow> error_layer_of e = Unexpected)
    \<and> (er_status (handle_error e) = 503 \<longleftrightarrow>
         error_layer_of e = InfrastructureLayer \<or> e \<in> {DependencyUnavailable, OutboxProcessing})
    \<and> (er_status (handle_error e) = 429 \<longleftrightarrow> is_rate_limit e \<noteq> None)
    \<and> (\<forall>v. (''Retry-After'', v) \<in> set (er_headers (handle_error e)) \<longleftrightarrow>
         (\<exists>n. is_rate_limit e = Some n \<and> v = py_str (max 1 n)))"
  by (cases e)
    (simp_all add: handle_error_def handle_domain_error_def handle_application_error_def
      handle_infrastructure_error_def handle_unexpected_error_def error_class_defs)

fun error_kind :: "error \<Rightarrow> error" where
  "error_kind (UploadOffsetMismatch _) = UploadOffsetMismatch 0"
| "error_kind (RateLimitExceeded _) = RateLimitExceeded 0"
| "error_kind (AccountTemporarilyLocked _) = AccountTemporarilyLocked 0"
| "error_kind e = (if error_layer_of e = Unexpected then PyValueError else e)"

definition code_table :: "(string \<times> error) list" where
  "code_table = map (\<lambda>e. (error_code e, e))
     [InvalidEntryName, InvalidMove, InvalidChecksum, InvalidStateTransition, ResourceNotFound,
      StorageEntryNotFound, UploadSessionNotFound, ConflictErr, StorageNameConflict,
      UploadOffsetMismatch 0, UploadStateConflict, ApplicationValidation, UploadValidation,
      DependencyUnavailable, OutboxProcessing, AuthenticationFailed, SessionRevoked,
      AuthenticationRequired, CsrfValidation, AccountDisabled, RateLimitExceeded 0,
      AccountTemporarilyLocked 0, PersistenceFailure, UnitOfWorkState, FileStorageFailure, PyValueError]"

lemma er_code_handle: "er_code (handle_error e) = error_code e"
  by (cases e) (simp_all add: handle_error_def handle_domain_error_def handle_application_error_def
      handle_infrastructure_error_def handle_unexpected_error_def error_class_defs)

lemma code_table_kind: "map_of code_table (error_code e) = Some (error_kind e)"
  by (cases e) (simp_all add: code_table_def)

lemma error_code_kind: "error_code (error_kind e) = error_code e"
  by (cases e) simp_all

text \<open>
  The code field identifies the error: two errors that reach the client with the same code
  are the same error up to the numbers they carry, except for the defects behind
  \<open>internal.error\<close>, which are not told apart.
\<close>

theorem error_codes_distinct:
  "er_code (handle_error e) = er_code (handle_error f) \<longleftrightarrow> error_kind e = error_kind f"
  unfolding er_code_handle by (metis code_table_kind error_code_kind option.inject)

end
