(* ===== verification/Http_Requests.thy ===== *)
theory Http_Requests
  imports Auth_Safety Downloads Http_Errors
begin

text \<open>
  What happens to a request before its route: the request identifier
  (\<open>app/presentation/middleware/request_context.py\<close>), the credentials and the CSRF condition
  (\<open>.../middleware/authentication.py\<close>) and the helpers of \<open>app/presentation/auth.py\<close>. The server
  hands over header names in lower case and header values as Latin-1 text.
\<close>

section \<open>Requests\<close>

text \<open>\<open>rq_cookies\<close> is the framework's own \<open>Request.cookies\<close>.\<close>

record http_request =
  rq_method :: string
  rq_path :: string
  rq_headers :: headers
  rq_cookies :: "string \<Rightarrow> string option"
  rq_client :: "string option"

text \<open>\<open>Headers.get\<close>: the first header of the name, in any case.\<close>

definition header_value :: "http_request \<Rightarrow> string \<Rightarrow> string option" where
  "header_value q name = map_of (rq_headers q) (map ascii_lower name)"

definition header_or :: "string \<Rightarrow> http_request \<Rightarrow> string \<Rightarrow> string" where
  "header_or fallback q name = (case header_value q name of None \<Rightarrow> fallback | Some v \<Rightarrow> v)"

section \<open>Request identifiers\<close>

definition request_id_char :: "char \<Rightarrow> bool" where
  "request_id_char c \<longleftrightarrow>
     (let n = char_code c
      in 48 \<le> n \<and> n \<le> 57 \<or> 65 \<le> n \<and> n \<le> 90 \<or> 97 \<le> n \<and> n \<le> 122 \<or> c \<in> {CHR ''.'', CHR ''_'', CHR ''-''})"

definition request_id_ok :: "string \<Rightarrow> bool" where
  "request_id_ok s \<longleftrightarrow> 1 \<le> length s \<and> length s \<le> 64 \<and> list_all request_id_char s"

text \<open>\<open>fresh\<close> is the text of the \<open>uuid4()\<close> of the call.\<close>

definition request_id :: "string \<Rightarrow> http_request \<Rightarrow> string" where
  "request_id fresh q =
     (let incoming = header_or '''' q ''x-request-id''
      in if request_id_ok incoming then incoming else fresh)"

definition set_header :: "string \<Rightarrow> string \<Rightarrow> headers \<Rightarrow> headers" where
  "set_header name v hs = filter (\<lambda>h. map ascii_lower (fst h) \<noteq> map ascii_lower name) hs @ [(name, v)]"

section \<open>Credentials\<close>

definition bearer_token :: "string option \<Rightarrow> string option" where
  "bearer_token v =
     Option.bind v (\<lambda>v.
       (case py_partition (CHR '' '') v of
          (scheme, separator, token) \<Rightarrow>
            if separator \<and> map ascii_lower scheme = ''bearer'' \<and> token \<noteq> [] then Some token else None))"

fun add_cookies :: "string list \<Rightarrow> (string \<Rightarrow> string option) \<Rightarrow> string \<Rightarrow> string option" where
  "add_cookies [] m = m"
| "add_cookies (item # items) m =
     (case py_partition (CHR ''='') (py_strip latin1_space item) of
        (name, separator, v) \<Rightarrow> add_cookies items (if separator then m(name := Some v) else m))"

definition request_cookies :: "string \<Rightarrow> string \<Rightarrow> string option" where
  "request_cookies v = add_cookies (py_split (CHR '';'') v) (\<lambda>_. None)"

text \<open>The attributes of the cookies, injected from the settings.\<close>

record cookie_policy =
  cp_secure :: bool
  cp_domain :: "string option"
  cp_access_name :: string
  cp_refresh_name :: string
  cp_csrf_name :: string
  cp_csrf_header :: string
  cp_access_max_age :: int
  cp_refresh_max_age :: int
  cp_refresh_path :: string

section \<open>The authentication middleware\<close>

record request_state =
  st_principal :: "principal option"
  st_auth_error :: "error option"

definition anonymous :: request_state where
  "anonymous = \<lparr>st_principal = None, st_auth_error = None\<rparr>"

definition safe_methods :: "string list" where
  "safe_methods = [''GET'', ''HEAD'', ''OPTIONS'']"

definition access_request_of :: "cookie_policy \<Rightarrow> string list \<Rightarrow> http_request \<Rightarrow> access_request option" where
  "access_request_of C exempt q =
     (let bearer = bearer_token (header_value q ''authorization'');
          cookies = request_cookies (header_or '''' q ''cookie'');
          cookie_token = cookies (cp_access_name C);
          via_cookie = (bearer = None \<and> cookie_token \<noteq> None)
      in map_option (\<lambda>token.
           \<lparr>aq_token = token, aq_via_cookie = via_cookie,
            aq_require_csrf = (via_cookie \<and> rq_method q \<notin> set safe_methods \<and> rq_path q \<notin> set exempt),
            aq_csrf_cookie = cookies (cp_csrf_name C),
            aq_csrf_header = header_value q (cp_csrf_header C)\<rparr>)
         (case bearer of Some t \<Rightarrow> Some t | None \<Rightarrow> cookie_token))"

text \<open>Only application errors are kept for the route; any other one leaves the middleware.\<close>

definition authenticate_request ::
  "auth_services \<Rightarrow> cookie_policy \<Rightarrow> string list \<Rightarrow> http_request \<Rightarrow> db \<Rightarrow> request_state result" where
  "authenticate_request A C exempt q d =
     (case access_request_of C exempt q of
        None \<Rightarrow> Inr anonymous
      | Some a \<Rightarrow>
          (case authenticate_access A a d of
             Inr p \<Rightarrow> Inr \<lparr>st_principal = Some p, st_auth_error = None\<rparr>
           | Inl e \<Rightarrow>
               if error_layer_of e = ApplicationLayer
               then Inr \<lparr>st_principal = None, st_auth_error = Some e\<rparr> else Inl e))"

definition require_principal :: "request_state \<Rightarrow> principal result" where
  "require_principal st =
     (case st_principal st of
        Some p \<Rightarrow> Inr p
      | None \<Rightarrow> (case st_auth_error st of Some e \<Rightarrow> Inl e | None \<Rightarrow> Inl AuthenticationRequired))"

definition request_metadata :: "http_request \<Rightarrow> string \<times> string" where
  "request_metadata q =
     (case rq_client q of None \<Rightarrow> ''unknown'' | Some h \<Rightarrow> h, take 512 (header_or '''' q ''user-agent''))"

section \<open>Cookies come back\<close>

text \<open>The \<open>Cookie\<close> header that a client builds from its cookies.\<close>

fun cookie_header :: "(string \<times> string) list \<Rightarrow> string" where
  "cookie_header [] = []"
| "cookie_header [(n, v)] = n @ ''='' @ v"
| "cookie_header ((n, v) # c # cs) = n @ ''='' @ v @ ''; '' @ cookie_header (c # cs)"

definition cookie_text :: "string \<Rightarrow> bool" where
  "cookie_text s \<longleftrightarrow> (\<forall>c \<in> set s. \<not> latin1_space c \<and> c \<noteq> CHR '';'')"

definition cookie_name :: "string \<Rightarrow> bool" where
  "cookie_name s \<longleftrightarrow> cookie_text s \<and> CHR ''='' \<notin> set s"

lemma py_partition_here: "c \<notin> set s \<Longrightarrow> py_partition c (s @ c # t) = (s, True, t)"
  by (induction s) (auto simp: py_partition_def)

lemma strip_cookie_text:
  assumes "cookie_text s"
  shows "py_strip latin1_space (CHR '' '' # s) = s" and "py_strip latin1_space s = s"
proof -
  show same: "py_strip latin1_space s = s" by (rule strip_latin1) (use assms in \<open>simp add: cookie_text_def\<close>)
  have "latin1_space (CHR '' '')" by (simp add: latin1_space_def Let_def)
  then show "py_strip latin1_space (CHR '' '' # s) = s" using same by (simp add: py_strip_def)
qed

lemma cookie_item:
  assumes "cookie_name n" and "cookie_text v" and "pre = [] \<or> pre = '' ''"
  shows "py_partition (CHR ''='') (py_strip latin1_space (pre @ n @ CHR ''='' # v)) = (n, True, v)"
proof -
  have "cookie_text (n @ ''='' @ v)"
    using assms(1,2) by (auto simp: cookie_name_def cookie_text_def latin1_space_def Let_def)
  then have "py_strip latin1_space (pre @ n @ ''='' @ v) = n @ ''='' @ v"
    using assms(3) strip_cookie_text by auto
  with py_partition_here [of "CHR ''=''" n v] assms(1) show ?thesis by (simp add: cookie_name_def)
qed

lemma no_semicolon: "cookie_name n \<Longrightarrow> cookie_text v \<Longrightarrow> CHR '';'' \<notin> set (n @ ''='' @ v)"
  by (auto simp: cookie_name_def cookie_text_def)

text \<open>A name that is set twice keeps its last value, as in the dictionary.\<close>

lemma request_cookies_header:
  assumes "\<forall>(n, v) \<in> set kvs. cookie_name n \<and> cookie_text v"
  shows "request_cookies (cookie_header kvs) = map_of (rev kvs)"
proof -
  have "pre = [] \<or> pre = '' '' \<Longrightarrow> kvs \<noteq> [] \<Longrightarrow>
      add_cookies (py_split (CHR '';'') (pre @ cookie_header kvs)) m = m ++ map_of (rev kvs)" for pre m
    using assms
  proof (induction kvs arbitrary: pre m rule: cookie_header.induct)
    case (2 n v)
    then have "CHR '';'' \<notin> set (pre @ n @ ''='' @ v)" using no_semicolon [of n v] by auto
    from py_split_single [OF this] 2 show ?case by (auto simp: cookie_item map_add_def)
  next
    case (3 n v c cs)
    then have "CHR '';'' \<notin> set (pre @ n @ ''='' @ v)" using no_semicolon [of n v] by auto
    from py_split_append [OF this, of "'' '' @ cookie_header (c # cs)"]
    have "add_cookies (py_split (CHR '';'') (pre @ cookie_header ((n, v) # c # cs))) m =
        add_cookies (py_split (CHR '';'') ('' '' @ cookie_header (c # cs))) (m(n \<mapsto> v))"
      using 3 by (simp add: cookie_item)
    also have "\<dots> = m(n \<mapsto> v) ++ map_of (rev (c # cs))" using 3(4) by (intro 3(1)) auto
    finally show ?case by (simp add: map_add_def fun_eq_iff split: option.split)
  qed simp
  from this [of "[]" Map.empty] show ?thesis
    by (cases kvs) (simp_all add: request_cookies_def py_partition_def py_strip_def)
qed

end
