(* ===== verification/Json_Text.thy ===== *)
theory Json_Text
  imports Uuid_Text
begin

text \<open>
  The texts behind page cursors: \<open>json.dumps\<close> and \<open>json.loads\<close>, \<open>base64.urlsafe_b64encode\<close> and
  \<open>urlsafe_b64decode\<close>, as the use cases call them. A decoded text is the list of
  its code points; bytes are their values.
\<close>

section \<open>Writing\<close>

text \<open>\<open>json.dumps\<close> of a text, with everything outside printable ASCII escaped.\<close>

definition hex4 :: "nat \<Rightarrow> string" where
  "hex4 n = hex_of 4 n"

definition json_char :: "char \<Rightarrow> string" where
  "json_char c =
     (let n = char_code c
      in if c = CHR 0x22 then [CHR 0x5C, CHR 0x22]
         else if c = CHR 0x5C then [CHR 0x5C, CHR 0x5C]
         else if n = 8 then [CHR 0x5C, CHR ''b'']
         else if n = 9 then [CHR 0x5C, CHR ''t'']
         else if n = 10 then [CHR 0x5C, CHR ''n'']
         else if n = 12 then [CHR 0x5C, CHR ''f'']
         else if n = 13 then [CHR 0x5C, CHR ''r'']
         else if 32 \<le> n \<and> n < 127 then [c]
         else [CHR 0x5C, CHR ''u''] @ hex4 n)"

definition json_text :: "string \<Rightarrow> string" where
  "json_text s = dquote @ concat (map json_char s) @ dquote"

fun join_with :: "string \<Rightarrow> string list \<Rightarrow> string" where
  "join_with sep [] = []"
| "join_with sep [x] = x"
| "join_with sep (x # y # ys) = x @ sep @ join_with sep (y # ys)"

definition json_field :: "string \<Rightarrow> string \<Rightarrow> string" where
  "json_field key encoded = json_text key @ '':'' @ encoded"

definition json_dumps :: "(string \<times> string) list \<Rightarrow> string" where
  "json_dumps kvs = ''{'' @ join_with '','' (map (\<lambda>(k, v). json_field k v) kvs) @ ''}''"

text \<open>\<open>base64.urlsafe_b64encode\<close> without its padding.\<close>

definition base64_digit :: "nat \<Rightarrow> char" where
  "base64_digit n =
     (if n < 26 then char_of (65 + n)
      else if n < 52 then char_of (71 + n)
      else if n < 62 then char_of (n - 4)
      else if n = 62 then CHR ''-'' else CHR ''_'')"

fun urlsafe_base64 :: "bytes \<Rightarrow> string" where
  "urlsafe_base64 [] = []"
| "urlsafe_base64 [a] =
     (let n = char_code a * 16 in [base64_digit (n div 64), base64_digit (n mod 64)])"
| "urlsafe_base64 [a, b] =
     (let n = (char_code a * 256 + char_code b) * 4
      in [base64_digit (n div 4096), base64_digit (n div 64 mod 64), base64_digit (n mod 64)])"
| "urlsafe_base64 (a # b # c # rest) =
     (let n = char_code a * 65536 + char_code b * 256 + char_code c
      in base64_digit (n div 262144) # base64_digit (n div 4096 mod 64) # base64_digit (n div 64 mod 64)
           # base64_digit (n mod 64) # urlsafe_base64 rest)"

section \<open>Reading base64\<close>

text \<open>
  The table of \<open>binascii.a2b_base64\<close> after \<open>-\<close> and \<open>_\<close> were translated to \<open>+\<close> and \<open>/\<close>. The decoder is
  not strict: characters outside the table are skipped, and it stops at a complete padding. Its
  state is the position in the group of four, the bits left over, and the padding characters seen.
\<close>

definition base64_value :: "nat \<Rightarrow> nat option" where
  "base64_value c =
     (if 65 \<le> c \<and> c \<le> 90 then Some (c - 65)
      else if 97 \<le> c \<and> c \<le> 122 then Some (c - 71)
      else if 48 \<le> c \<and> c \<le> 57 then Some (c + 4)
      else if c = 43 \<or> c = 45 then Some 62
      else if c = 47 \<or> c = 95 then Some 63
      else None)"

fun a2b_base64 :: "nat \<Rightarrow> nat \<Rightarrow> nat \<Rightarrow> nat list \<Rightarrow> nat list option" where
  "a2b_base64 quad left pads [] = (if quad = 0 then Some [] else None)"
| "a2b_base64 quad left pads (c # cs) =
     (if c = 61 then
        if 2 \<le> quad then if 4 \<le> quad + (pads + 1) then Some [] else a2b_base64 quad left (pads + 1) cs
        else a2b_base64 quad left pads cs
      else case base64_value c of
        None \<Rightarrow> a2b_base64 quad left pads cs
      | Some v \<Rightarrow>
          if quad = 0 then a2b_base64 1 v 0 cs
          else if quad = 1 then map_option ((#) (left * 4 + v div 16)) (a2b_base64 2 (v mod 16) 0 cs)
          else if quad = 2 then map_option ((#) (left * 16 + v div 4)) (a2b_base64 3 (v mod 4) 0 cs)
          else map_option ((#) (left * 64 + v)) (a2b_base64 0 0 0 cs))"

definition b64_padding :: "string \<Rightarrow> nat list" where
  "b64_padding value = replicate ((4 - length value mod 4) mod 4) 61"

definition urlsafe_b64decode :: "string \<Rightarrow> nat list option" where
  "urlsafe_b64decode value =
     (if list_all (\<lambda>c. char_code c < 128) value
      then a2b_base64 0 0 0 (code_points value @ b64_padding value) else None)"

section \<open>Bytes to text\<close>

text \<open>\<open>bytes.decode(..., "surrogatepass")\<close>: surrogates are let through, alone or in pairs.\<close>

definition continuation :: "nat \<Rightarrow> bool" where
  "continuation b \<longleftrightarrow> 128 \<le> b \<and> b < 192"

fun utf8_pass :: "nat list \<Rightarrow> nat list option" where
  "utf8_pass [] = Some []"
| "utf8_pass (a # rest) =
     (if a < 128 then map_option ((#) a) (utf8_pass rest)
      else if 194 \<le> a \<and> a < 224 then
        (case rest of
           b # others \<Rightarrow>
             if continuation b then map_option ((#) ((a - 192) * 64 + (b - 128))) (utf8_pass others) else None
         | _ \<Rightarrow> None)
      else if 224 \<le> a \<and> a < 240 then
        (case rest of
           b # c # others \<Rightarrow>
             if continuation b \<and> continuation c \<and> (a = 224 \<longrightarrow> 160 \<le> b)
             then map_option ((#) ((a - 224) * 4096 + (b - 128) * 64 + (c - 128))) (utf8_pass others)
             else None
         | _ \<Rightarrow> None)
      else if 240 \<le> a \<and> a < 245 then
        (case rest of
           b # c # e # others \<Rightarrow>
             if continuation b \<and> continuation c \<and> continuation e \<and> (a = 240 \<longrightarrow> 144 \<le> b) \<and> (a = 244 \<longrightarrow> b < 144)
             then map_option ((#) ((a - 240) * 262144 + (b - 128) * 4096 + (c - 128) * 64 + (e - 128)))
                    (utf8_pass others)
             else None
         | _ \<Rightarrow> None)
      else None)"

definition high_surrogate :: "nat \<Rightarrow> bool" where
  "high_surrogate n \<longleftrightarrow> 0xD800 \<le> n \<and> n < 0xDC00"

definition low_surrogate :: "nat \<Rightarrow> bool" where
  "low_surrogate n \<longleftrightarrow> 0xDC00 \<le> n \<and> n < 0xE000"

definition join_surrogates :: "nat \<Rightarrow> nat \<Rightarrow> nat" where
  "join_surrogates h l = 0x10000 + (h - 0xD800) * 0x400 + (l - 0xDC00)"

fun utf16_units :: "bool \<Rightarrow> nat list \<Rightarrow> nat list option" where
  "utf16_units big [] = Some []"
| "utf16_units big [a] = None"
| "utf16_units big (a # b # rest) =
     map_option ((#) (if big then a * 256 + b else b * 256 + a)) (utf16_units big rest)"

fun utf16_points :: "nat list \<Rightarrow> nat list" where
  "utf16_points (h # l # rest) =
     (if high_surrogate h \<and> low_surrogate l then join_surrogates h l # utf16_points rest
      else h # utf16_points (l # rest))"
| "utf16_points us = us"

definition utf16_pass :: "bool \<Rightarrow> nat list \<Rightarrow> nat list option" where
  "utf16_pass big bs = map_option utf16_points (utf16_units big bs)"

fun utf32_pass :: "bool \<Rightarrow> nat list \<Rightarrow> nat list option" where
  "utf32_pass big (a # b # c # e # rest) =
     (let n = (if big then ((a * 256 + b) * 256 + c) * 256 + e else ((e * 256 + c) * 256 + b) * 256 + a)
      in if n < 0x110000 then map_option ((#) n) (utf32_pass big rest) else None)"
| "utf32_pass big bs = (if bs = [] then Some [] else None)"

text \<open>\<open>json.detect_encoding\<close>, followed by the decoding it chooses; byte order marks are dropped.\<close>

definition json_decode :: "nat list \<Rightarrow> nat list option" where
  "json_decode bs =
     (if take 4 bs = [0, 0, 254, 255] then utf32_pass True (drop 4 bs)
      else if take 4 bs = [255, 254, 0, 0] then utf32_pass False (drop 4 bs)
      else if take 2 bs = [254, 255] then utf16_pass True (drop 2 bs)
      else if take 2 bs = [255, 254] then utf16_pass False (drop 2 bs)
      else if take 3 bs = [239, 187, 191] then utf8_pass (drop 3 bs)
      else if 4 \<le> length bs \<and> bs ! 0 = 0 then (if bs ! 1 \<noteq> 0 then utf16_pass True bs else utf32_pass True bs)
      else if 4 \<le> length bs \<and> bs ! 1 = 0 then
        (if bs ! 2 \<noteq> 0 \<or> bs ! 3 \<noteq> 0 then utf16_pass False bs else utf32_pass False bs)
      else if length bs = 2 \<and> bs ! 0 = 0 then utf16_pass True bs
      else if length bs = 2 \<and> bs ! 1 = 0 then utf16_pass False bs
      else utf8_pass bs)"

section \<open>Reading JSON\<close>

text \<open>
  What \<open>json.loads\<close> returns. A number with a fraction or an exponent is \<open>FloatV m e\<close>, the value \<open>m\<close>
  times ten to the \<open>e\<close> before it is rounded; \<open>NonFiniteV\<close> stands for \<open>NaN\<close> and the infinities.
\<close>

datatype py_value =
    NoneV | BoolV bool | IntV int | FloatV int int | NonFiniteV | TextV "nat list"
  | ListV "py_value list" | DictV "(nat list \<times> py_value) list"

definition skip_space :: "nat list \<Rightarrow> nat list" where
  "skip_space = dropWhile (\<lambda>c. c \<in> {9, 10, 13, 32})"

definition hex4_value :: "nat list \<Rightarrow> nat option" where
  "hex4_value s =
     (case s of
        a # b # c # e # _ \<Rightarrow>
          (case (hex_value a, hex_value b, hex_value c, hex_value e) of
             (Some i, Some j, Some k, Some l) \<Rightarrow> Some (((i * 16 + j) * 16 + k) * 16 + l)
           | _ \<Rightarrow> None)
      | _ \<Rightarrow> None)"

definition simple_escape :: "nat \<Rightarrow> nat option" where
  "simple_escape c =
     map_of [(34, 34), (92, 92), (47, 47), (98, 8), (102, 12), (110, 10), (114, 13), (116, 9)] c"

text \<open>The low surrogate that an escape at the front of the input denotes.\<close>

definition escaped_low :: "nat list \<Rightarrow> nat option" where
  "escaped_low s =
     (if take 2 s = [92, 117]
      then (case hex4_value (drop 2 s) of None \<Rightarrow> None | Some n \<Rightarrow> if low_surrogate n then Some n else None)
      else None)"

text \<open>\<open>scanstring\<close>: the text after an opening quote and what follows its closing quote.\<close>

definition consed :: "'a \<Rightarrow> ('a list \<times> 'b) option \<Rightarrow> ('a list \<times> 'b) option" where
  "consed x = map_option (\<lambda>(xs, rest). (x # xs, rest))"

fun string_body :: "nat list \<Rightarrow> (nat list \<times> nat list) option" where
  "string_body [] = None"
| "string_body (c # s) =
     (if c = 34 then Some ([], s)
      else if c \<noteq> 92 then if c < 32 then None else consed c (string_body s)
      else case s of
        [] \<Rightarrow> None
      | e # s' \<Rightarrow>
          if e \<noteq> 117 then
            (case simple_escape e of None \<Rightarrow> None | Some x \<Rightarrow> consed x (string_body s'))
          else
            (case hex4_value s' of
               None \<Rightarrow> None
             | Some n \<Rightarrow>
                 (case (if high_surrogate n then escaped_low (drop 4 s') else None) of
                    None \<Rightarrow> consed n (string_body (drop 4 s'))
                  | Some l \<Rightarrow> consed (join_surrogates n l) (string_body (drop 10 s')))))"

definition is_digit :: "nat \<Rightarrow> bool" where
  "is_digit c \<longleftrightarrow> 48 \<le> c \<and> c \<le> 57"

definition digits_value :: "nat list \<Rightarrow> nat" where
  "digits_value ds = foldl (\<lambda>n c. 10 * n + (c - 48)) 0 ds"

definition integer_part :: "nat list \<Rightarrow> nat list" where
  "integer_part s =
     (case s of [] \<Rightarrow> [] | c # _ \<Rightarrow> if c = 48 then [48] else takeWhile is_digit s)"

definition fraction_part :: "nat list \<Rightarrow> nat list" where
  "fraction_part s =
     (case s of [] \<Rightarrow> [] | c # r \<Rightarrow> if c = 46 \<and> takeWhile is_digit r \<noteq> [] then c # takeWhile is_digit r else [])"

definition exponent_part :: "nat list \<Rightarrow> nat list" where
  "exponent_part s =
     (case s of
        c # r \<Rightarrow>
          (let sign = (case r of d # _ \<Rightarrow> if d \<in> {43, 45} then [d] else [] | [] \<Rightarrow> []);
               ds = takeWhile is_digit (drop (length sign) r)
           in if c \<in> {69, 101} \<and> ds \<noteq> [] then c # sign @ ds else [])
      | [] \<Rightarrow> [])"

definition exponent_value :: "nat list \<Rightarrow> int" where
  "exponent_value e =
     (case tl e of
        [] \<Rightarrow> 0
      | d # ds \<Rightarrow> if d = 45 then - int (digits_value ds) else if d = 43 then int (digits_value ds)
                else int (digits_value (d # ds)))"

text \<open>A number; the conversion of more than 4300 digits to an integer raises.\<close>

definition json_number :: "nat list \<Rightarrow> (py_value \<times> nat list) option" where
  "json_number s =
     (let sign = (if take 1 s = [45] then [45 :: nat] else []);
          body = drop (length sign) s;
          whole = integer_part body;
          fraction = fraction_part (drop (length whole) body);
          exponent = exponent_part (drop (length whole + length fraction) body);
          signed = (\<lambda>n. if sign = [] then int n else - int n)
      in if whole = [] then None
         else if fraction = [] \<and> exponent = [] then
           if 4300 < length whole then None
           else Some (IntV (signed (digits_value whole)), drop (length whole) body)
         else Some (FloatV (signed (digits_value (whole @ tl fraction)))
                      (exponent_value exponent - int (length (tl fraction))),
                    drop (length whole + length fraction + length exponent) body))"

definition json_literals :: "(nat list \<times> py_value) list" where
  "json_literals =
     [(code_points ''null'', NoneV), (code_points ''true'', BoolV True), (code_points ''false'', BoolV False),
      (code_points ''NaN'', NonFiniteV), (code_points ''Infinity'', NonFiniteV), (code_points ''-Infinity'', NonFiniteV)]"

definition json_scalar :: "nat list \<Rightarrow> (py_value \<times> nat list) option" where
  "json_scalar s =
     (case find (\<lambda>(word, _). take (length word) s = word) json_literals of
        Some (word, v) \<Rightarrow> Some (v, drop (length word) s)
      | None \<Rightarrow> json_number s)"

text \<open>
  \<open>json_value\<close> reads one value, \<open>json_items\<close> the rest of an array, \<open>json_members\<close> the rest of an object.
  The first argument bounds the calls; \<open>json_fuel\<close> below says how much is enough.
\<close>

fun json_value :: "nat \<Rightarrow> nat list \<Rightarrow> (py_value \<times> nat list) option"
  and json_items :: "nat \<Rightarrow> nat list \<Rightarrow> (py_value list \<times> nat list) option"
  and json_members :: "nat \<Rightarrow> nat list \<Rightarrow> ((nat list \<times> py_value) list \<times> nat list) option" where
  "json_value 0 s = None"
| "json_value (Suc n) s =
     (case s of
        [] \<Rightarrow> None
      | c # r \<Rightarrow>
          if c = 34 then map_option (\<lambda>(t, rest). (TextV t, rest)) (string_body r)
          else if c = 123 then
            (if take 1 (skip_space r) = [125] then Some (DictV [], tl (skip_space r))
             else map_option (\<lambda>(kvs, rest). (DictV kvs, rest)) (json_members n (skip_space r)))
          else if c = 91 then
            (if take 1 (skip_space r) = [93] then Some (ListV [], tl (skip_space r))
             else map_option (\<lambda>(vs, rest). (ListV vs, rest)) (json_items n (skip_space r)))
          else json_scalar s)"
| "json_items 0 s = None"
| "json_items (Suc n) s =
     (case json_value n s of
        None \<Rightarrow> None
      | Some (v, r) \<Rightarrow>
          (case skip_space r of
             [] \<Rightarrow> None
           | c # r' \<Rightarrow> if c = 93 then Some ([v], r')
                      else if c = 44 then consed v (json_items n (skip_space r')) else None))"
| "json_members 0 s = None"
| "json_members (Suc n) s =
     (case (if take 1 s = [34] then string_body (tl s) else None) of
        None \<Rightarrow> None
      | Some (key, r) \<Rightarrow>
          if take 1 (skip_space r) \<noteq> [58] then None
          else case json_value n (skip_space (tl (skip_space r))) of
            None \<Rightarrow> None
          | Some (v, r1) \<Rightarrow>
              (case skip_space r1 of
                 [] \<Rightarrow> None
               | c # r2 \<Rightarrow> if c = 125 then Some ([(key, v)], r2)
                          else if c = 44 then consed (key, v) (json_members n (skip_space r2)) else None))"

definition json_loads :: "nat list \<Rightarrow> py_value option" where
  "json_loads s =
     (case json_value (2 * length s + 1) (skip_space s) of
        None \<Rightarrow> None
      | Some (v, rest) \<Rightarrow> if skip_space rest = [] then Some v else None)"

text \<open>Of repeated keys the last one counts.\<close>

definition dict_get :: "nat list \<Rightarrow> (nat list \<times> py_value) list \<Rightarrow> py_value option" where
  "dict_get key kvs = map_of (rev kvs) key"

text \<open>
  \<open>value == 1\<close>: the integer, \<open>True\<close>, and every decimal fraction that rounds to the double 1.0, that is
  from 1 - 2^-54 to 1 + 2^-53, the ends included (ties go to the even mantissa).
\<close>

definition equals_one :: "py_value \<Rightarrow> bool" where
  "equals_one v =
     (case v of
        IntV n \<Rightarrow> n = 1
      | BoolV b \<Rightarrow> b
      | FloatV m e \<Rightarrow>
          if 0 \<le> e then m * 10 ^ nat e = 1
          else (2 ^ 54 - 1) * 10 ^ nat (- e) \<le> 2 ^ 54 * m \<and> 2 ^ 54 * m \<le> (2 ^ 54 + 2) * 10 ^ nat (- e)
      | _ \<Rightarrow> False)"

section \<open>Base64 comes back\<close>

lemma base64_value_digit: "n < 64 \<Longrightarrow> base64_value (char_code (base64_digit n)) = Some n"
  by (auto simp: base64_digit_def base64_value_def char_code_def)

lemma base64_digit_ascii: "char_code (base64_digit n) < 128" "char_code (base64_digit n) \<noteq> 61"
  by (auto simp: base64_digit_def char_code_def)

lemma a2b_digit:
  assumes "n < 64"
  shows "a2b_base64 quad left pads (char_code (base64_digit n) # cs) =
    (if quad = 0 then a2b_base64 1 n 0 cs
     else if quad = 1 then map_option ((#) (left * 4 + n div 16)) (a2b_base64 2 (n mod 16) 0 cs)
     else if quad = 2 then map_option ((#) (left * 16 + n div 4)) (a2b_base64 3 (n mod 4) 0 cs)
     else map_option ((#) (left * 64 + n)) (a2b_base64 0 0 0 cs))"
  by (simp add: base64_digit_ascii base64_value_digit [OF assms])

lemma a2b_padding:
  "a2b_base64 2 left 0 [61, 61] = Some []" "a2b_base64 3 left 0 [61] = Some []"
  by simp_all

declare a2b_base64.simps(2) [simp del]

text \<open>Three bytes are four digits: the bytes in pieces of 6, 2 + 4, 4 + 2 and 6 bits.\<close>

lemma quotient_rest: "r < m \<Longrightarrow> (q * m + r) div m = q" "r < m \<Longrightarrow> (q * m + r) mod m = (r :: nat)"
  by simp_all

lemma base64_pieces:
  fixes a b c :: nat
  assumes "a < 256" "b < 256" "c < 256" and "n = a * 65536 + b * 256 + c"
  shows "n div 262144 = a div 4" and "n div 4096 mod 64 = a mod 4 * 16 + b div 16"
    and "n div 64 mod 64 = b mod 16 * 4 + c div 64" and "n mod 64 = c mod 64"
proof -
  obtain a1 a0 where a: "a = a1 * 4 + a0" "a0 < 4" using div_mult_mod_eq [of a 4] by (metis mod_less_divisor zero_less_numeral)
  obtain b1 b0 where b: "b = b1 * 16 + b0" "b0 < 16" using div_mult_mod_eq [of b 16] by (metis mod_less_divisor zero_less_numeral)
  obtain c1 c0 where c: "c = c1 * 64 + c0" "c0 < 64" using div_mult_mod_eq [of c 64] by (metis mod_less_divisor zero_less_numeral)
  have small: "b1 < 16" "c1 < 4" using assms(2,3) b c by simp_all
  have n: "n = ((a1 * 64 + (a0 * 16 + b1)) * 64 + (b0 * 4 + c1)) * 64 + c0" using assms(4) a b c by simp
  have d1: "n div 64 = (a1 * 64 + (a0 * 16 + b1)) * 64 + (b0 * 4 + c1)" and m0: "n mod 64 = c0"
    unfolding n by (rule quotient_rest, rule c(2))+
  have d2: "n div 64 div 64 = a1 * 64 + (a0 * 16 + b1)" and m1: "n div 64 mod 64 = b0 * 4 + c1"
    unfolding d1 by (rule quotient_rest, use b(2) small in simp)+
  have d3: "n div 64 div 64 div 64 = a1" and m2: "n div 64 div 64 mod 64 = a0 * 16 + b1"
    unfolding d2 by (rule quotient_rest, use a(2) small in simp)+
  have pieces: "a div 4 = a1" "a mod 4 = a0" "b div 16 = b1" "b mod 16 = b0" "c div 64 = c1" "c mod 64 = c0"
    unfolding a(1) b(1) c(1) by (rule quotient_rest, rule a(2) b(2) c(2))+
  have "n div 262144 = n div 64 div 64 div 64" "n div 4096 = n div 64 div 64" by (simp_all add: div_mult2_eq [symmetric])
  then show "n div 262144 = a div 4" "n div 4096 mod 64 = a mod 4 * 16 + b div 16"
    "n div 64 mod 64 = b mod 16 * 4 + c div 64" "n mod 64 = c mod 64"
    by (simp_all only: pieces d3 m0 m1 m2)
qed

lemma a2b_group:
  assumes "a < 256" "b < 256" "c < 256" and "n = a * 65536 + b * 256 + c"
  shows "a2b_base64 0 left pads (map char_code [base64_digit (n div 262144), base64_digit (n div 4096 mod 64),
      base64_digit (n div 64 mod 64), base64_digit (n mod 64)] @ cs) =
    map_option (\<lambda>bs. a # b # c # bs) (a2b_base64 0 0 0 cs)"
proof -
  note p = base64_pieces [OF assms]
  have "a div 4 < 64" "a mod 4 * 16 + b div 16 < 64" "b mod 16 * 4 + c div 64 < 64" "c mod 64 < 64"
    using assms(1-3) by simp_all
  moreover have "(a mod 4 * 16 + b div 16) mod 16 = b div 16" "(a mod 4 * 16 + b div 16) div 16 = a mod 4"
    "(b mod 16 * 4 + c div 64) mod 4 = c div 64" "(b mod 16 * 4 + c div 64) div 4 = b mod 16"
    using assms(2,3) quotient_rest [of "b div 16" 16 "a mod 4"] quotient_rest [of "c div 64" 4 "b mod 16"] by simp_all
  moreover have "a div 4 * 4 + a mod 4 = a" "b div 16 * 16 + b mod 16 = b" "c div 64 * 64 + c mod 64 = c"
    by simp_all
  ultimately show ?thesis
    by (simp only: p list.map append.simps a2b_digit)
      (simp add: option.map_comp comp_def del: div_mult_mod_eq mult_div_mod_eq)
qed

lemma b64_padding_group [simp]: "b64_padding (a # b # c # e # s) = b64_padding s"
  by (simp add: b64_padding_def)

lemma a2b_short_groups:
  assumes "a < 256" "b < 256"
  shows "a2b_base64 0 0 0 (map char_code [base64_digit (a * 16 div 64), base64_digit (a * 16 mod 64)] @ [61, 61]) = Some [a]"
    and "a2b_base64 0 0 0 (map char_code [base64_digit ((a * 256 + b) * 4 div 4096),
        base64_digit ((a * 256 + b) * 4 div 64 mod 64), base64_digit ((a * 256 + b) * 4 mod 64)] @ [61]) = Some [a, b]"
proof -
  have one: "a * 16 div 64 = a div 4" "a * 16 mod 64 = a mod 4 * 16 + 0 div 16"
    using div_mult2_eq [of "a * 16" 16 4] mult_mod_left [of a 4 16] by simp_all
  define n where "n = (a * 256 + b) * 4"
  have N: "n * 64 = a * 65536 + b * 256 + 0" by (simp add: n_def)
  have two: "n div 4096 = a div 4" "n div 64 mod 64 = a mod 4 * 16 + b div 16" "n mod 64 = b mod 16 * 4"
    using base64_pieces [OF assms _ N] div_mult2_eq [of "n * 64" 64 4096] div_mult2_eq [of "n * 64" 64 64] by simp_all
  have rests: "a div 4 < 64" "a mod 4 * 16 < 64" "a mod 4 * 16 + b div 16 < 64" "b mod 16 * 4 < 64"
    "(a mod 4 * 16 + b div 16) mod 16 = b div 16" "(a mod 4 * 16 + b div 16) div 16 = a mod 4"
    "a div 4 * 4 + a mod 4 = a" "b div 16 * 16 + b mod 16 = b"
    using assms quotient_rest [of "b div 16" 16 "a mod 4"] by simp_all
  show "a2b_base64 0 0 0 (map char_code [base64_digit (a * 16 div 64), base64_digit (a * 16 mod 64)] @ [61, 61]) = Some [a]"
    unfolding one list.map append.simps using rests by (simp add: a2b_digit a2b_padding del: div_mult_mod_eq)
  show "a2b_base64 0 0 0 (map char_code [base64_digit ((a * 256 + b) * 4 div 4096),
        base64_digit ((a * 256 + b) * 4 div 64 mod 64), base64_digit ((a * 256 + b) * 4 mod 64)] @ [61]) = Some [a, b]"
    unfolding n_def [symmetric] two list.map append.simps using rests by (simp add: a2b_digit a2b_padding del: div_mult_mod_eq)
qed

lemma a2b_urlsafe_base64:
  "a2b_base64 0 0 0 (code_points (urlsafe_base64 bs) @ b64_padding (urlsafe_base64 bs)) = Some (code_points bs)"
proof (induction bs rule: urlsafe_base64.induct)
  case (2 a)
  have "b64_padding (urlsafe_base64 [a]) = [61, 61]" by (simp add: b64_padding_def Let_def numeral_2_eq_2)
  with a2b_short_groups(1) [of "char_code a" 0] show ?case by (simp add: code_points_def Let_def char_code_less)
next
  case (3 a b)
  have "b64_padding (urlsafe_base64 [a, b]) = [61]" by (simp add: b64_padding_def Let_def)
  with a2b_short_groups(2) [of "char_code a" "char_code b"] show ?case
    by (simp add: code_points_def Let_def char_code_less)
next
  case (4 a b c rest)
  from a2b_group [OF char_code_less char_code_less char_code_less refl, of 0 0 a b c
      "code_points (urlsafe_base64 rest) @ b64_padding (urlsafe_base64 rest)"] 4
  show ?case by (simp add: code_points_def Let_def)
qed (simp add: code_points_def b64_padding_def)

lemma urlsafe_base64_ascii: "c \<in> set (urlsafe_base64 bs) \<Longrightarrow> char_code c < 128"
  by (induction bs rule: urlsafe_base64.induct)
    (auto simp: Let_def base64_digit_ascii)

theorem base64_roundtrip: "urlsafe_b64decode (urlsafe_base64 bs) = Some (code_points bs)"
  by (simp add: urlsafe_b64decode_def a2b_urlsafe_base64 list_all_iff urlsafe_base64_ascii)

lemma length_urlsafe_base64: "length (urlsafe_base64 bs) = (4 * length bs + 2) div 3"
  by (induction bs rule: urlsafe_base64.induct) (simp_all add: Let_def)

section \<open>JSON comes back\<close>

text \<open>Every reader leaves less than it was given, so the fuel of \<open>json_loads\<close> is enough for any text.\<close>

lemma consed_Some: "consed x r = Some (ys, rest) \<longleftrightarrow> (\<exists>xs. ys = x # xs \<and> r = Some (xs, rest))"
  by (cases r) (auto simp: consed_def)

lemma length_skip_space: "length (skip_space s) \<le> length s"
  by (simp add: skip_space_def length_dropWhile_le)

lemma string_body_shrinks: "string_body s = Some (t, rest) \<Longrightarrow> length rest < length s"
proof (induction s arbitrary: t rest rule: string_body.induct)
  case (2 c s)
  show ?case
  proof (cases "c = 34 \<or> c \<noteq> 92 \<or> s = []")
    case True
    with 2 show ?thesis by (auto simp: consed_Some split: if_splits) fastforce?
  next
    case False
    then obtain e s' where s: "s = e # s'" by (cases s) auto
    with False 2 show ?thesis
      by (auto simp: consed_Some split: if_splits option.splits) fastforce+
  qed
qed simp

lemma json_number_shrinks: "json_number s = Some (v, rest) \<Longrightarrow> length rest < length s"
proof -
  assume number: "json_number s = Some (v, rest)"
  have drop: "length (drop (length (integer_part (drop k s)) + m) (drop k s)) < length s"
    if "integer_part (drop k s) \<noteq> []" for k m
  proof (cases "drop k s")
    case (Cons c r)
    then have "length r < length s" by (metis drop_eq_Nil length_Cons length_drop linorder_not_le diff_le_self Suc_le_eq list.distinct(1))
    with Cons that show ?thesis by (auto simp: integer_part_def)
  qed (use that in \<open>simp add: integer_part_def\<close>)
  have plain: "length (drop (length (integer_part (drop k s))) (drop k s)) < length s"
    if "integer_part (drop k s) \<noteq> []" for k
    using drop [OF that, of 0] by simp
  from number show ?thesis
    by (auto simp: json_number_def Let_def add.assoc simp del: drop_drop length_drop
        intro!: drop plain drop [of 0, unfolded drop_0] plain [of 0, unfolded drop_0] split: if_splits)
qed

lemma json_scalar_shrinks: "json_scalar s = Some (v, rest) \<Longrightarrow> length rest < length s"
proof (cases "find (\<lambda>(word, _). take (length word) s = word) json_literals")
  case (Some x)
  then have "x \<in> set json_literals" "take (length (fst x)) s = fst x"
    by (auto simp: find_Some_iff) (metis nth_mem)
  then have "fst x \<noteq> []" "s \<noteq> []" by (auto simp: json_literals_def code_points_def)
  moreover assume "json_scalar s = Some (v, rest)"
  ultimately show ?thesis using Some by (auto simp: json_scalar_def split: prod.splits)
qed (simp add: json_scalar_def json_number_shrinks)

lemma skip_space_Cons: "skip_space s = c # r \<Longrightarrow> length r < length s"
  using length_skip_space [of s] by simp

lemma json_shrinks:
  "json_value n s = Some (v, rest) \<Longrightarrow> length rest < length s"
  "json_items n s = Some (vs, rest) \<Longrightarrow> length rest < length s"
  "json_members n s = Some (kvs, rest) \<Longrightarrow> length rest < length s"
proof (induction n s and n s and n s arbitrary: v rest and vs rest and kvs rest
    rule: json_value_json_items_json_members.induct)
  case (2 n s)
  show ?case
  proof (cases s)
    case (Cons c r)
    have le: "length (skip_space r) < length s" using length_skip_space [of r] Cons by simp
    consider "c = 34" | "c = 123" | "c = 91" | "c \<notin> {34, 123, 91}" by blast
    then show ?thesis
    proof cases
      case 1
      with 2(3) Cons show ?thesis by (auto dest: string_body_shrinks)
    next
      case 2
      with \<open>json_value (Suc n) s = _\<close> Cons le "2.IH"(1) [OF Cons] show ?thesis
        by (cases "skip_space r") (fastforce split: if_splits)+
    next
      case 3
      with \<open>json_value (Suc n) s = _\<close> Cons le "2.IH"(2) [OF Cons] show ?thesis
        by (cases "skip_space r") (fastforce split: if_splits)+
    next
      case 4
      with \<open>json_value (Suc n) s = _\<close> Cons show ?thesis using json_scalar_shrinks [of s v rest] by simp
    qed
  qed (use 2 in simp)
next
  case (4 n s)
  then obtain v r c r' where v: "json_value n s = Some (v, r)" "skip_space r = c # r'"
    and ends: "c = 93 \<and> rest = r' \<or> c = 44 \<and> (\<exists>vs. json_items n (skip_space r') = Some (vs, rest))"
    by (auto simp: consed_Some split: option.splits list.splits if_splits)
  have "length r < length s" by (rule "4.IH"(1) [OF v(1)])
  moreover have "length r' < length r" by (rule skip_space_Cons [OF v(2)])
  moreover have "length rest < length (skip_space r')" if "c = 44" "json_items n (skip_space r') = Some (vs, rest)" for vs
    using "4.IH"(2) [OF v(1) refl v(2) _ _ that(2)] that(1) by simp
  ultimately show ?case using ends length_skip_space [of r'] by fastforce
next
  case (6 n s)
  then obtain key r v r1 c r2 where k: "take 1 s = [34]" "string_body (tl s) = Some (key, r)" "take 1 (skip_space r) = [58]"
    and v: "json_value n (skip_space (tl (skip_space r))) = Some (v, r1)" "skip_space r1 = c # r2"
    and ends: "c = 125 \<and> rest = r2 \<or> c = 44 \<and> (\<exists>kvs. json_members n (skip_space r2) = Some (kvs, rest))"
    by (auto simp: consed_Some split: option.splits list.splits if_splits)
  have "length r < length s" using string_body_shrinks [OF k(2)] k(1) by (cases s) auto
  moreover have "length r1 < length (skip_space (tl (skip_space r)))" using "6.IH"(1) k v(1) by simp
  moreover have "length (skip_space (tl (skip_space r))) \<le> length r"
    using length_skip_space [of r] length_skip_space [of "tl (skip_space r)"] by simp
  moreover have "length r2 < length r1" by (rule skip_space_Cons [OF v(2)])
  moreover have "length rest < length (skip_space r2)" if "c = 44" "json_members n (skip_space r2) = Some (kvs, rest)" for kvs
    using "6.IH"(2) k v that by simp
  ultimately show ?case using ends length_skip_space [of r2] by fastforce
qed simp_all

lemma json_more_fuel:
  "2 * length s < n \<Longrightarrow> json_value (Suc n) s = json_value n s"
  "2 * length s + 1 < n \<Longrightarrow> json_items (Suc n) s = json_items n s"
  "2 * length s + 1 < n \<Longrightarrow> json_members (Suc n) s = json_members n s"
proof (induction n s and n s and n s rule: json_value_json_items_json_members.induct)
  case (2 n s)
  show ?case
  proof (cases s)
    case (Cons c r)
    have "2 * length (skip_space r) + 1 < n" using length_skip_space [of r] Cons 2(3) by simp
    with Cons "2.IH" show ?thesis by simp
  qed simp
next
  case (4 n s)
  note items = json_items.simps(2) [of "Suc n"] json_items.simps(2) [of n]
  have v: "json_value (Suc n) s = json_value n s" using 4 by simp
  note [simp del] = json_value.simps json_items.simps json_members.simps
  show ?case
  proof (cases "json_value n s")
    case (Some x)
    obtain v r where x: "x = (v, r)" by fastforce
    have less: "length r < length s" using json_shrinks(1) Some x by blast
    show ?thesis
    proof (cases "skip_space r")
      case (Cons c r')
      from skip_space_Cons [OF this] less 4(3) length_skip_space [of r'] have "2 * length (skip_space r') + 1 < n" by simp
      with "4.IH"(2) [OF Some x [symmetric] Cons] have "c = 44 \<Longrightarrow> json_items (Suc n) (skip_space r') = json_items n (skip_space r')" by simp
      with Cons Some x v show ?thesis unfolding items by simp
    qed (simp add: items Some x v)
  qed (simp add: items v)
next
  case (6 n s)
  note members = json_members.simps(2) [of "Suc n"] json_members.simps(2) [of n]
  note [simp del] = json_value.simps json_items.simps json_members.simps
  show ?case
  proof (cases "take 1 s = [34]")
    case True
    then have one: "take (Suc 0) s = [34]" by simp
    show ?thesis
    proof (cases "string_body (tl s)")
      case (Some y)
      obtain key r where y: "y = (key, r)" by fastforce
      have r: "length r < length s" using string_body_shrinks [of "tl s"] Some y True by (cases s) auto
      let ?rest = "skip_space (tl (skip_space r))"
      have rest: "length ?rest \<le> length r" using length_skip_space [of r] length_skip_space [of "tl (skip_space r)"] by simp
      with r 6(3) have v: "take 1 (skip_space r) = [58] \<Longrightarrow> json_value (Suc n) ?rest = json_value n ?rest"
        using "6.IH"(1) True Some y by simp
      show ?thesis
      proof (cases "take 1 (skip_space r) = [58] \<and> json_value n ?rest \<noteq> None")
        case True
        then obtain w r1 where w: "json_value n ?rest = Some (w, r1)" by auto
        from json_shrinks(1) [OF w] have r1: "length r1 < length ?rest" .
        show ?thesis
        proof (cases "skip_space r1")
          case (Cons c r2)
          from skip_space_Cons [OF this] r1 rest r 6(3) length_skip_space [of r2]
          have "2 * length (skip_space r2) + 1 < n" by simp
          with "6.IH"(2) \<open>take 1 s = [34]\<close> Some y True w Cons
          have "c = 44 \<Longrightarrow> json_members (Suc n) (skip_space r2) = json_members n (skip_space r2)" by simp
          with Cons Some y True v w one show ?thesis unfolding members by simp
        qed (use Some y True v w one in \<open>simp add: members\<close>)
      next
        case False
        with Some y v one show ?thesis by (cases "json_value n ?rest") (auto simp: members)
      qed
    qed (simp add: members)
  next
    case False
    then show ?thesis by (simp add: members)
  qed
qed simp_all

theorem json_fuel: "2 * length s < n \<Longrightarrow> json_value n s = json_value (2 * length s + 1) s"
proof (induction n rule: nat_induct)
  case (Suc n)
  then show ?case by (cases "2 * length s < n") (simp_all del: json_value.simps add: json_more_fuel less_Suc_eq)
qed simp

text \<open>Escaped texts read back.\<close>

lemma hex4_small: "n < 256 \<Longrightarrow> hex4 n = [hex_digit 0, hex_digit 0, hex_digit (n div 16), hex_digit (n mod 16)]"
proof -
  assume "n < 256"
  then have "n div 16 < 16" by simp
  moreover have four: "(4 :: nat) = Suc (Suc (Suc (Suc 0)))" by simp
  ultimately show ?thesis by (simp add: hex4_def four del: numeral_eq_Suc)
qed

lemma hex4_value_hex4: "n < 256 \<Longrightarrow> hex4_value (code_points (hex4 n) @ s) = Some n"
  by (simp add: hex4_value_def hex4_small hex_value_digit)

lemma string_body_char:
  "string_body (code_points (json_char c) @ s) = consed (char_code c) (string_body s)"
proof -
  have quote: "c = CHR 0x22 \<longleftrightarrow> char_code c = 34" and slash: "c = CHR 0x5C \<longleftrightarrow> char_code c = 92"
    using char_code_inject [of c "CHR 0x22"] char_code_inject [of c "CHR 0x5C"] by (simp_all add: char_code_def)
  have "drop 4 (code_points (hex4 (char_code c)) @ s) = s" "\<not> high_surrogate (char_code c)"
    using char_code_less [of c] by (simp_all add: hex4_small high_surrogate_def)
  moreover have "char_code (CHR 0x22) = 34" "char_code (CHR 0x5C) = 92" "char_code (CHR ''b'') = 98" "char_code (CHR ''t'') = 116"
    "char_code (CHR ''n'') = 110" "char_code (CHR ''f'') = 102" "char_code (CHR ''r'') = 114" "char_code (CHR ''u'') = 117"
    by (simp_all add: char_code_def)
  ultimately show ?thesis
    by (simp add: json_char_def Let_def quote slash hex4_value_hex4 char_code_less simple_escape_def)
qed

lemma string_body_text:
  "string_body (code_points (concat (map json_char t)) @ 34 # s) = Some (code_points t, s)"
  by (induction t) (simp_all add: string_body_char consed_def)

text \<open>\<open>json_reads enc v\<close>: inside an object the text \<open>enc\<close> is read as the value \<open>v\<close>.\<close>

definition json_reads :: "string \<Rightarrow> py_value \<Rightarrow> bool" where
  "json_reads enc v \<longleftrightarrow>
     enc \<noteq> [] \<and> char_code (hd enc) \<notin> {9, 10, 13, 32}
     \<and> (\<forall>n c rest. c \<in> {44, 125} \<longrightarrow> json_value (Suc n) (code_points enc @ c # rest) = Some (v, c # rest))"

lemma skip_space_plain [simp]: "c \<notin> {9, 10, 13, 32} \<Longrightarrow> skip_space (c # s) = c # s"
  by (simp add: skip_space_def)

lemma code_points_dquote [simp]: "code_points dquote = [34]"
  by (simp add: dquote_def char_code_def)

lemma json_reads_text: "json_reads (json_text t) (TextV (code_points t))"
  by (simp add: json_reads_def json_text_def string_body_text) (simp add: dquote_def char_code_def)

lemma json_reads_one: "json_reads ''1'' (IntV 1)"
  by (auto simp: json_reads_def char_code_def json_scalar_def json_literals_def json_number_def integer_part_def
      is_digit_def fraction_part_def exponent_part_def digits_value_def)

lemma json_reads_skip: "json_reads enc v \<Longrightarrow> skip_space (code_points enc @ s) = code_points enc @ s"
  by (cases enc) (simp_all add: json_reads_def)

text \<open>What the texts \<open>kvs\<close> of an object stand for.\<close>

definition json_fields :: "(string \<times> string) list \<Rightarrow> (nat list \<times> py_value) list \<Rightarrow> bool" where
  "json_fields = list_all2 (\<lambda>(k, enc) (key, v). key = code_points k \<and> json_reads enc v)"

lemma json_member_step:
  assumes "json_reads enc v" and "c \<in> {44, 125}"
  shows "json_members (Suc (Suc n)) (code_points (json_field k enc) @ c # rest) =
    (if c = 125 then Some ([(code_points k, v)], rest)
     else consed (code_points k, v) (json_members (Suc n) (skip_space rest)))"
proof -
  have reads: "json_value (Suc n) (code_points enc @ c # rest) = Some (v, c # rest)"
    using assms unfolding json_reads_def by blast
  have field: "code_points (json_field k enc) @ c # rest =
      34 # (code_points (concat (map json_char k)) @ 34 # 58 # code_points enc @ c # rest)"
    by (simp add: json_field_def json_text_def char_code_def)
  note [simp del] = json_value.simps
  show ?thesis
    unfolding field json_members.simps
    using assms(2) by (auto simp: string_body_text json_reads_skip [OF assms(1)] reads)
qed

lemma json_members_fields:
  assumes "json_fields kvs vs" and "kvs \<noteq> []" and "length kvs < n"
  shows "json_members n (code_points (join_with '','' (map (\<lambda>(k, v). json_field k v) kvs)) @ 125 # rest) = Some (vs, rest)"
  using assms
proof (induction kvs arbitrary: vs n)
  case (Cons kv kvs)
  from Cons.prems(1) obtain k enc v vs' where kv: "kv = (k, enc)" and vs: "vs = (code_points k, v) # vs'"
    and reads: "json_reads enc v" and others: "json_fields kvs vs'"
    by (auto simp: json_fields_def list_all2_Cons1)
  from Cons.prems(3) obtain m where n: "n = Suc (Suc m)" "length kvs < Suc m" by (cases n; cases "n - 1") auto
  note [simp del] = json_members.simps
  show ?case
  proof (cases kvs)
    case Nil
    with others have "vs' = []" by (simp add: json_fields_def)
    with Nil show ?thesis by (simp add: n kv vs json_member_step [OF reads])
  next
    case (Cons kv' kvs')
    have "skip_space (code_points (join_with '','' (map (\<lambda>(k, v). json_field k v) kvs)) @ 125 # rest) =
        code_points (join_with '','' (map (\<lambda>(k, v). json_field k v) kvs)) @ 125 # rest"
      by (cases kvs') (auto simp: Cons json_field_def json_text_def split: prod.splits)
    moreover have "code_points (join_with '','' (map (\<lambda>(k, v). json_field k v) (kv # kvs))) @ 125 # rest =
        code_points (json_field k enc) @ 44 # code_points (join_with '','' (map (\<lambda>(k, v). json_field k v) kvs)) @ 125 # rest"
      by (simp add: Cons kv char_code_def)
    ultimately show ?thesis
      using Cons.IH [OF others _ n(2)] Cons by (simp add: n(1) vs json_member_step [OF reads] consed_def)
  qed
qed simp

theorem json_roundtrip:
  assumes "json_fields kvs vs" and "kvs \<noteq> []"
  shows "json_loads (code_points (json_dumps kvs)) = Some (DictV vs)"
proof -
  let ?body = "code_points (join_with '','' (map (\<lambda>(k, v). json_field k v) kvs))"
  let ?s = "123 # ?body @ [125]"
  have s: "code_points (json_dumps kvs) = ?s" by (simp add: json_dumps_def char_code_def)
  obtain key enc rest where "kvs = (key, enc) # rest" using assms(2) by (cases kvs) auto
  then have body: "skip_space (?body @ [125]) = ?body @ [125]" "take 1 (?body @ [125]) \<noteq> [125]"
    by (cases rest; simp add: json_field_def json_text_def)+
  have members: "json_members (2 * length ?s + length kvs + 1) (?body @ [125]) = Some (vs, [])"
    by (rule json_members_fields [OF assms]) simp
  have "json_value (2 * length ?s + 1) ?s = json_value (Suc (2 * length ?s + length kvs + 1)) ?s"
    by (rule json_fuel [symmetric]) simp
  also have "\<dots> = Some (DictV vs, [])"
    using members body by simp
  finally have "json_value (2 * length ?s + 1) ?s = Some (DictV vs, [])" .
  moreover have "skip_space ?s = ?s" "skip_space [] = []" by (simp_all add: skip_space_def)
  ultimately show ?thesis unfolding s json_loads_def by (simp only: option.case prod.case if_True refl)
qed

section \<open>Written texts are ASCII\<close>

definition printable :: "string \<Rightarrow> bool" where
  "printable s \<longleftrightarrow> (\<forall>c \<in> set s. 32 \<le> char_code c \<and> char_code c < 127)"

lemma printable_simps [simp]:
  "printable []" "printable (c # s) \<longleftrightarrow> 32 \<le> char_code c \<and> char_code c < 127 \<and> printable s"
  "printable (s @ t) \<longleftrightarrow> printable s \<and> printable t" "printable (concat ss) \<longleftrightarrow> (\<forall>s \<in> set ss. printable s)"
  by (auto simp: printable_def)

lemma printable_hex_digit: "n < 16 \<Longrightarrow> 32 \<le> char_code (hex_digit n) \<and> char_code (hex_digit n) < 127"
  by (simp add: hex_digit_def char_code_def)

lemma printable_json_char: "printable (json_char c)"
proof -
  have "char_code c div 16 < 16" using char_code_less [of c] by (simp add: less_mult_imp_div_less)
  then have "printable (hex4 (char_code c))"
    using char_code_less [of c] by (simp add: hex4_small printable_hex_digit)
  then show ?thesis by (simp add: json_char_def Let_def) (simp add: char_code_def)
qed

lemma printable_json_text: "printable (json_text s)"
  by (simp add: json_text_def dquote_def printable_json_char) (simp add: char_code_def)

lemma printable_json_dumps: "\<forall>(k, enc) \<in> set kvs. printable enc \<Longrightarrow> printable (json_dumps kvs)"
proof -
  assume encs: "\<forall>(k, enc) \<in> set kvs. printable enc"
  have "printable (join_with '','' ss)" if "\<forall>s \<in> set ss. printable s" for ss
    using that by (induction "'',''" ss rule: join_with.induct) (simp_all add: char_code_def)
  moreover have "\<forall>s \<in> set (map (\<lambda>(k, v). json_field k v) kvs). printable s"
  proof -
    have "32 \<le> char_code (CHR '':'') \<and> char_code (CHR '':'') < 127" by (simp add: char_code_def)
    then show ?thesis using encs by (auto simp: json_field_def printable_json_text)
  qed
  ultimately show ?thesis by (simp add: json_dumps_def) (simp add: char_code_def)
qed

lemma utf8_pass_ascii: "\<forall>b \<in> set bs. b < 128 \<Longrightarrow> utf8_pass bs = Some bs"
  by (induction bs) auto

lemma json_decode_printable: "printable s \<Longrightarrow> json_decode (code_points s) = Some (code_points s)"
proof -
  assume s: "printable s"
  then have small: "\<forall>b \<in> set (code_points s). 32 \<le> b \<and> b < 127" by (auto simp: printable_def code_points_def)
  have first: "take (Suc n) (code_points s) \<noteq> b # bs" if "127 < b \<or> b = 0" for n b bs
    using small that by (cases "code_points s") auto
  have nonzero: "code_points s ! i \<noteq> 0" if "i < length (code_points s)" for i
    using small nth_mem [OF that] by force
  have "take 4 (code_points s) \<noteq> [0, 0, 254, 255]" "take 4 (code_points s) \<noteq> [255, 254, 0, 0]"
    "take 2 (code_points s) \<noteq> [254, 255]" "take 2 (code_points s) \<noteq> [255, 254]" "take 3 (code_points s) \<noteq> [239, 187, 191]"
    using first [of _ 3] first [of _ 1] first [of _ 2] by (simp_all add: numeral_eq_Suc)
  moreover have "\<not> (4 \<le> length (code_points s) \<and> code_points s ! 0 = 0)"
    "\<not> (4 \<le> length (code_points s) \<and> code_points s ! 1 = 0)"
    "\<not> (length (code_points s) = 2 \<and> code_points s ! 0 = 0)"
    "\<not> (length (code_points s) = 2 \<and> code_points s ! 1 = 0)"
    using nonzero [of 0] nonzero [of 1] by (auto simp del: length_greater_0_conv)
  moreover have "utf8_pass (code_points s) = Some (code_points s)" by (rule utf8_pass_ascii) (use small in force)
  ultimately show ?thesis unfolding json_decode_def by (simp only: if_False)
qed

end
