(* ===== verification/Http_Cache.thy ===== *)
theory Http_Cache
  imports Http_Requests Listing Json_Text
begin

text \<open>
  Conditional requests for metadata (\<open>app/presentation/http_cache.py\<close>).
\<close>

section \<open>Texts\<close>

text \<open>
  The texts that depend on the host. \<open>ht_isoformat\<close> is \<open>datetime.isoformat\<close>; \<open>ht_fromiso\<close> is
  \<open>datetime.fromisoformat\<close>: the instant, a missing zone read as UTC, and whether there is a zone;
  \<open>ht_parse\<close> is \<open>parsedate_to_datetime\<close> with a missing zone read as UTC, as a point of the unbounded
  time line; \<open>ht_sha256\<close> is the hexadecimal digest; \<open>ht_text\<close> is the text of a list of code points, as
  far as it has one here.
\<close>

record http_texts =
  ht_env :: http_env
  ht_isoformat :: "instant \<Rightarrow> string"
  ht_fromiso :: "string \<Rightarrow> (instant \<times> bool) option"
  ht_parse :: "string \<Rightarrow> instant option"
  ht_sha256 :: "bytes \<Rightarrow> string"
  ht_text :: "nat list \<Rightarrow> string"

definition unit_separator :: string where
  "unit_separator = [CHR 0x1F]"

definition metadata_etag :: "http_texts \<Rightarrow> string list \<Rightarrow> string" where
  "metadata_etag T parts = dquote @ ht_sha256 T (join_with unit_separator parts) @ dquote"

section \<open>Conditional requests\<close>

definition cache_control :: string where
  "cache_control = ''private, max-age=0, must-revalidate''"

definition cache_headers :: "http_texts \<Rightarrow> string \<Rightarrow> instant option \<Rightarrow> headers" where
  "cache_headers T etag last_modified =
     [(''ETag'', etag), (''Cache-Control'', cache_control)]
     @ (case last_modified of None \<Rightarrow> [] | Some t \<Rightarrow> [(''Last-Modified'', he_format (ht_env T) t)])"

text \<open>\<open>astimezone(UTC)\<close> raises outside the years 1 to 9999; the call is not guarded.\<close>

definition astimezone_utc :: "instant \<Rightarrow> instant result" where
  "astimezone_utc t = (if first_instant \<le> t \<and> t \<le> last_instant then Inr t else Inl PyOverflowError)"

definition etag_candidates :: "string \<Rightarrow> string list" where
  "etag_candidates v = map (\<lambda>item. py_removeprefix (py_strip latin1_space item) ''W/'') (py_split (CHR '','') v)"

text \<open>The headers of the 304 response, if there is one.\<close>

definition conditional_not_modified ::
  "http_texts \<Rightarrow> http_request \<Rightarrow> string \<Rightarrow> instant option \<Rightarrow> headers option result" where
  "conditional_not_modified T q etag last_modified =
     (case header_value q ''if-none-match'' of
        Some v \<Rightarrow>
          Inr (if ''*'' \<in> set (etag_candidates v) \<or> etag \<in> set (etag_candidates v)
               then Some (cache_headers T etag last_modified) else None)
      | None \<Rightarrow>
          (case (header_value q ''if-modified-since'', last_modified) of
             (Some v, Some modified) \<Rightarrow>
               (case ht_parse T v of
                  None \<Rightarrow> Inr None
                | Some cached_at \<Rightarrow>
                    rbind (astimezone_utc cached_at) (\<lambda>cached.
                    Inr (if whole_second modified \<le> cached
                         then Some (cache_headers T etag last_modified) else None)))
           | _ \<Rightarrow> Inr None))"

section \<open>Revalidation\<close>

lemma etag_candidates_of:
  assumes "\<forall>c \<in> set (ht_sha256 T x). c \<in> set hex_digits"
  shows "etag_candidates (dquote @ ht_sha256 T x @ dquote) = [dquote @ ht_sha256 T x @ dquote]"
proof -
  let ?t = "dquote @ ht_sha256 T x @ dquote"
  have plain: "c \<noteq> CHR '','' \<and> \<not> latin1_space c" if "c \<in> set ?t" for c
    using that assms hex_plain [of c] by (auto simp: dquote_def latin1_space_def)
  then have "py_split (CHR '','') ?t = [?t]" by (intro py_split_single) blast
  moreover have "py_strip latin1_space ?t = ?t" by (rule strip_latin1) (use plain in blast)
  moreover have "py_removeprefix ?t ''W/'' = ?t"
    by (simp add: py_removeprefix_def py_startswith_def dquote_def)
  ultimately show ?thesis by (simp only: etag_candidates_def list.map)
qed

end
