(* ===== verification/Cursor_Text.thy ===== *)
theory Cursor_Text
  imports Http_Cache
begin

text \<open>
  Page cursors as the clients see them: \<open>_encode_cursor\<close>, \<open>_decode_cursor\<close>, \<open>_encode_trash_cursor\<close> and
  \<open>_decode_trash_cursor\<close> of \<open>app/application/use_cases/storage/queries.py\<close>, their counterparts in
  \<open>.../activity.py\<close>, and the listing use cases of both files, which take and give these texts.
\<close>

section \<open>Writing a cursor\<close>

definition sort_field_text :: "sort_field \<Rightarrow> string" where
  "sort_field_text f =
     (case f of SortName \<Rightarrow> ''name'' | SortDate \<Rightarrow> ''date'' | SortSize \<Rightarrow> ''size'' | SortType \<Rightarrow> ''type'')"

definition direction_text :: "sort_direction \<Rightarrow> string" where
  "direction_text x = (case x of Asc \<Rightarrow> ''asc'' | Desc \<Rightarrow> ''desc'')"

fun sort_key_text :: "http_texts \<Rightarrow> sort_value \<Rightarrow> string" where
  "sort_key_text T (TextKey s) = s"
| "sort_key_text T (InstantKey t) = ht_isoformat T t"
| "sort_key_text T (SizeKey n) = py_str n"

definition encode_cursor :: "http_texts \<Rightarrow> sort_field \<Rightarrow> sort_direction \<Rightarrow> sort_value \<times> uuid \<Rightarrow> string" where
  "encode_cursor T by_field dir c =
     urlsafe_base64 (json_dumps
       [(''direction'', json_text (direction_text dir)), (''id'', json_text (uuid_str (snd c))),
        (''key'', json_text (sort_key_text T (fst c))), (''sort'', json_text (sort_field_text by_field)),
        (''v'', ''1'')])"

definition activity_kind_text :: "activity_kind \<Rightarrow> string" where
  "activity_kind_text kind = (case kind of Favorites \<Rightarrow> ''favorites'' | Recents \<Rightarrow> ''recents'')"

definition encode_activity_cursor :: "http_texts \<Rightarrow> activity_kind \<Rightarrow> instant \<times> uuid \<Rightarrow> string" where
  "encode_activity_cursor T kind c =
     urlsafe_base64 (json_dumps
       [(''v'', ''1''), (''kind'', json_text (activity_kind_text kind)),
        (''at'', json_text (ht_isoformat T (fst c))), (''id'', json_text (uuid_str (snd c)))])"

definition encode_trash_cursor :: "http_texts \<Rightarrow> instant \<times> uuid \<Rightarrow> string" where
  "encode_trash_cursor T c =
     urlsafe_base64 (json_dumps
       [(''at'', json_text (ht_isoformat T (fst c))), (''id'', json_text (uuid_str (snd c))),
        (''kind'', json_text ''trash''), (''v'', ''1'')])"

section \<open>Reading a cursor\<close>

text \<open>The object behind a cursor; everything that raises on the way is \<open>None\<close>.\<close>

definition cursor_fields :: "string \<Rightarrow> (nat list \<times> py_value) list option" where
  "cursor_fields value =
     Option.bind (urlsafe_b64decode value) (\<lambda>bs.
     Option.bind (json_decode bs) (\<lambda>text.
     case json_loads text of Some (DictV kvs) \<Rightarrow> Some kvs | _ \<Rightarrow> None))"

definition field_is :: "(nat list \<times> py_value) list \<Rightarrow> string \<Rightarrow> string \<Rightarrow> bool" where
  "field_is kvs key expected \<longleftrightarrow> dict_get (code_points key) kvs = Some (TextV (code_points expected))"

definition first_version :: "(nat list \<times> py_value) list \<Rightarrow> bool" where
  "first_version kvs \<longleftrightarrow> pred_option equals_one (dict_get (code_points ''v'') kvs)
     \<and> dict_get (code_points ''v'') kvs \<noteq> None"

definition text_field :: "http_texts \<Rightarrow> (nat list \<times> py_value) list \<Rightarrow> string \<Rightarrow> string option" where
  "text_field T kvs key =
     (case dict_get (code_points key) kvs of Some (TextV t) \<Rightarrow> Some (ht_text T t) | _ \<Rightarrow> None)"

definition as_validation :: "'a result \<Rightarrow> 'a result" where
  "as_validation m = (case m of Inl _ \<Rightarrow> Inl ApplicationValidation | Inr x \<Rightarrow> Inr x)"

text \<open>
  The key as the repository compares it (\<open>_cursor_value\<close>); a date without a zone is read in the zone of
  the database session, which is UTC.
\<close>

definition cursor_key :: "http_texts \<Rightarrow> sort_field \<Rightarrow> string \<Rightarrow> sort_value option" where
  "cursor_key T by_field key =
     (case by_field of
        SortDate \<Rightarrow> map_option (\<lambda>(t, _). InstantKey t) (ht_fromiso T key)
      | SortSize \<Rightarrow> map_option SizeKey (py_int key)
      | _ \<Rightarrow> Some (TextKey key))"

definition decode_cursor ::
  "http_texts \<Rightarrow> string option \<Rightarrow> sort_field \<Rightarrow> sort_direction \<Rightarrow> (sort_value \<times> uuid) option result" where
  "decode_cursor T value by_field dir =
     (case value of
        None \<Rightarrow> Inr None
      | Some v \<Rightarrow>
          rbind (some_or ApplicationValidation (cursor_fields v)) (\<lambda>kvs.
          rbind (require (first_version kvs \<and> field_is kvs ''sort'' (sort_field_text by_field)
            \<and> field_is kvs ''direction'' (direction_text dir)) ApplicationValidation) (\<lambda>_.
          rbind (some_or ApplicationValidation (text_field T kvs ''key'')) (\<lambda>key.
          rbind (some_or ApplicationValidation (text_field T kvs ''id'')) (\<lambda>id_text.
          rbind (as_validation (uuid_parse id_text)) (\<lambda>i.
          rbind (some_or ApplicationValidation (cursor_key T by_field key)) (\<lambda>k.
          Inr (Some (k, i)))))))))"

text \<open>
  \<open>str(value)\<close> of a field, where it can be a date with a zone or an identifier: of the other values the
  text never is, as it has a letter, a point, a quote or a bracket that neither has.
\<close>

definition convertible_int :: "int \<Rightarrow> bool" where
  "convertible_int n \<longleftrightarrow> nat \<bar>n\<bar> < 10 ^ 4300"

definition plain_str :: "http_texts \<Rightarrow> py_value \<Rightarrow> string option" where
  "plain_str T v =
     (case v of
        TextV t \<Rightarrow> Some (ht_text T t)
      | IntV n \<Rightarrow> if convertible_int n then Some (py_str n) else None
      | _ \<Rightarrow> None)"

definition decode_dated_cursor ::
  "http_texts \<Rightarrow> string \<Rightarrow> string option \<Rightarrow> (instant \<times> uuid) option result" where
  "decode_dated_cursor T kind value =
     (case value of
        None \<Rightarrow> Inr None
      | Some v \<Rightarrow>
          rbind (some_or ApplicationValidation (cursor_fields v)) (\<lambda>kvs.
          rbind (require (first_version kvs \<and> field_is kvs ''kind'' kind) ApplicationValidation) (\<lambda>_.
          rbind (some_or ApplicationValidation
            (Option.bind (dict_get (code_points ''at'') kvs) (plain_str T))) (\<lambda>at_text.
          rbind (some_or ApplicationValidation (ht_fromiso T at_text)) (\<lambda>(t, zone).
          rbind (require zone ApplicationValidation) (\<lambda>_.
          rbind (some_or ApplicationValidation
            (Option.bind (dict_get (code_points ''id'') kvs) (plain_str T))) (\<lambda>id_text.
          rbind (as_validation (uuid_parse id_text)) (\<lambda>i.
          Inr (Some (t, i))))))))))"

definition decode_trash_cursor :: "http_texts \<Rightarrow> string option \<Rightarrow> (instant \<times> uuid) option result" where
  "decode_trash_cursor T = decode_dated_cursor T ''trash''"

definition decode_activity_cursor ::
  "http_texts \<Rightarrow> activity_kind \<Rightarrow> string option \<Rightarrow> (instant \<times> uuid) option result" where
  "decode_activity_cursor T kind = decode_dated_cursor T (activity_kind_text kind)"

section \<open>The use cases\<close>

definition list_folder_entries ::
  "unicode \<Rightarrow> http_texts \<Rightarrow> (string \<Rightarrow> int list) \<Rightarrow> children_query \<Rightarrow> int \<Rightarrow> string option \<Rightarrow> db \<Rightarrow>
     (storage_entry_dto list \<times> string option) result" where
  "list_folder_entries U T C q limit value d =
     rbind (require (page_limit_ok limit) ApplicationValidation) (\<lambda>_.
     (let q' = q\<lparr>cq_filters := normalized_filters U (cq_filters q)\<rparr>
      in rbind (validate_filters (cq_filters q')) (\<lambda>_.
         rbind (decode_cursor T value (cq_sort q) (cq_direction q)) (\<lambda>cursor.
         rbind (folder_entries_page U C q' (nat limit) cursor d) (\<lambda>(items, next_cursor).
         Inr (items, map_option (encode_cursor T (cq_sort q) (cq_direction q)) next_cursor))))))"

definition list_trash_page ::
  "unicode \<Rightarrow> http_texts \<Rightarrow> uuid \<Rightarrow> int \<Rightarrow> string option \<Rightarrow> db \<Rightarrow>
     ((trash_item_dto \<times> storage_entry_dto) list \<times> string option) result" where
  "list_trash_page U T owner limit value d =
     rbind (require (page_limit_ok limit) ApplicationValidation) (\<lambda>_.
     rbind (decode_trash_cursor T value) (\<lambda>cursor.
     rbind (trash_page U owner (nat limit) cursor d) (\<lambda>(items, next_cursor).
     Inr (items, map_option (encode_trash_cursor T) next_cursor))))"

definition list_activity_page ::
  "unicode \<Rightarrow> http_texts \<Rightarrow> uuid \<Rightarrow> activity_kind \<Rightarrow> int \<Rightarrow> string option \<Rightarrow> db \<Rightarrow>
     (activity_entry_dto list \<times> string option) result" where
  "list_activity_page U T owner kind limit value d =
     rbind (require (page_limit_ok limit) ApplicationValidation) (\<lambda>_.
     rbind (decode_activity_cursor T kind value) (\<lambda>cursor.
     rbind (activity_page U owner kind (nat limit) cursor d) (\<lambda>(items, next_cursor).
     Inr (items, map_option (encode_activity_cursor T kind) next_cursor))))"

section \<open>Cursors come back\<close>

text \<open>What the code relies on: a date in the range of the calendar is read as it was written.\<close>

definition cursor_texts :: "http_texts \<Rightarrow> bool" where
  "cursor_texts T \<longleftrightarrow>
     (\<forall>t. sendable_instant t \<longrightarrow> ht_fromiso T (ht_isoformat T t) = Some (t, True))
     \<and> (\<forall>s. ht_text T (code_points s) = s)"

lemma cursor_fields_of:
  assumes "json_fields kvs vs" and "kvs \<noteq> []" and "\<forall>(k, enc) \<in> set kvs. printable enc"
  shows "cursor_fields (urlsafe_base64 (json_dumps kvs)) = Some vs"
  using json_roundtrip [OF assms(1,2)] json_decode_printable [OF printable_json_dumps [OF assms(3)]]
  by (simp add: cursor_fields_def base64_roundtrip)

definition key_of_field :: "sort_field \<Rightarrow> sort_value \<Rightarrow> bool" where
  "key_of_field f k \<longleftrightarrow>
     (case k of TextKey _ \<Rightarrow> f \<in> {SortName, SortType} | InstantKey _ \<Rightarrow> f = SortDate | SizeKey _ \<Rightarrow> f = SortSize)"

lemma printable_one: "printable ''1''"
  by (simp add: char_code_def)

lemma code_points_inject [simp]: "code_points s = code_points t \<longleftrightarrow> s = t"
  by (simp add: code_points_def inj_map_eq_map inj_def char_code_inject)

lemma cursor_fields_encode:
  "cursor_fields (encode_cursor T f dir c) = Some
     [(code_points ''direction'', TextV (code_points (direction_text dir))), (code_points ''id'', TextV (code_points (uuid_str (snd c)))),
      (code_points ''key'', TextV (code_points (sort_key_text T (fst c)))), (code_points ''sort'', TextV (code_points (sort_field_text f))),
      (code_points ''v'', IntV 1)]"
  unfolding encode_cursor_def
  by (rule cursor_fields_of)
    (simp_all add: json_fields_def json_reads_text json_reads_one printable_json_text printable_one [simplified])

lemma sort_field_text_inject [simp]: "sort_field_text f = sort_field_text g \<longleftrightarrow> f = g"
  by (cases f; cases g) (simp_all add: sort_field_text_def)

lemma direction_text_inject [simp]: "direction_text a = direction_text b \<longleftrightarrow> a = b"
  by (cases a; cases b) (simp_all add: direction_text_def)

lemma py_int_py_str:
  assumes "convertible_int n"
  shows "py_int (py_str n) = Some n"
proof (cases "n < 0")
  case False
  then have abs: "nat \<bar>n\<bar> = nat n" "py_str n = dec (nat n)" "int (nat n) = n" by (simp_all add: py_str_def)
  from assms have "nat n < 10 ^ 4300" by (simp only: convertible_int_def abs)
  from py_int_dec [OF this] show ?thesis by (simp only: abs)
next
  case True
  let ?d = "dec (nat (- n))"
  from True have abs: "nat \<bar>n\<bar> = nat (- n)" by simp
  from assms have "nat (- n) < 10 ^ 4300" by (simp only: convertible_int_def abs)
  then have "length ?d \<le> 4300" by (rule length_dec) simp
  then have short: "\<not> 4300 < length (filter (\<lambda>c. digit_value c \<noteq> None) ?d)"
    using length_filter_le [of "\<lambda>c. digit_value c \<noteq> None" ?d] by linarith
  have "\<not> latin1_space (last ?d)"
    using dec_digits [of "last ?d" "nat (- n)"] by (auto simp: latin1_space_def Let_def)
  then have "py_strip latin1_space (''-'' @ ?d) = ''-'' @ ?d"
    by (intro py_strip_fixed) (simp add: latin1_space_def)
  then show ?thesis
    using True short py_digits_dec [of 0 False "nat (- n)" "[]"]
    by (simp add: py_str_def py_int_def py_startswith_def)
qed

lemma sendable_int_convertible: "sendable_int n \<Longrightarrow> convertible_int n"
proof -
  assume "sendable_int n"
  then have "\<bar>n\<bar> \<le> 2 ^ 63" unfolding sendable_int_def by linarith
  then have "nat \<bar>n\<bar> < 10 ^ 19" by (simp add: nat_less_iff)
  moreover have "(10 :: nat) ^ 19 \<le> 10 ^ 4300" by (rule power_increasing) simp_all
  ultimately show ?thesis unfolding convertible_int_def by (rule less_le_trans)
qed

lemma cursor_key_text:
  assumes "cursor_texts T" and "key_of_field f k" and "sendable_key k"
  shows "cursor_key T f (sort_key_text T k) = Some k"
proof (cases k)
  case (SizeKey n)
  with assms show ?thesis by (simp add: key_of_field_def cursor_key_def py_int_py_str sendable_int_convertible)
qed (use assms in \<open>auto simp: key_of_field_def cursor_key_def cursor_texts_def\<close>)

text \<open>
  A folder cursor comes back. The text of a cursor is read as the cursor it was made of, under the
  same order and direction; under any other order or direction it is refused. The key must be one
  that can be sent to the database, the identifier one of 128 bits.
\<close>

theorem folder_cursor_comes_back:
  assumes "cursor_texts T" and "key_of_field f k" and "sendable_key k" and "i < 2 ^ 128"
  shows "decode_cursor T (Some (encode_cursor T f dir (k, i))) f' dir' =
    (if f' = f \<and> dir' = dir then Inr (Some (k, i)) else Inl ApplicationValidation)"
proof (cases "f' = f \<and> dir' = dir")
  case True
  have texts: "ht_text T (code_points t) = t" for t using assms(1) by (simp add: cursor_texts_def)
  show ?thesis
    using True
    by (simp add: decode_cursor_def cursor_fields_encode first_version_def dict_get_def equals_one_def field_is_def
        text_field_def texts as_validation_def uuid_parse_str [OF assms(4)] cursor_key_text [OF assms(1-3)])
next
  case False
  then show ?thesis
    by (auto simp: decode_cursor_def cursor_fields_encode field_is_def dict_get_def)
qed

lemma cursor_fields_dated:
  "cursor_fields (encode_activity_cursor T kind c) = Some
     [(code_points ''v'', IntV 1), (code_points ''kind'', TextV (code_points (activity_kind_text kind))),
      (code_points ''at'', TextV (code_points (ht_isoformat T (fst c)))), (code_points ''id'', TextV (code_points (uuid_str (snd c))))]"
  "cursor_fields (encode_trash_cursor T c) = Some
     [(code_points ''at'', TextV (code_points (ht_isoformat T (fst c)))), (code_points ''id'', TextV (code_points (uuid_str (snd c)))),
      (code_points ''kind'', TextV (code_points ''trash'')), (code_points ''v'', IntV 1)]"
  unfolding encode_activity_cursor_def encode_trash_cursor_def
  by (rule cursor_fields_of;
      simp add: json_fields_def json_reads_text json_reads_one printable_json_text printable_one [simplified]
        del: code_points_Cons code_points_Nil)+

text \<open>A cursor of the favourites, of the recents or of the trash is accepted by its own list only.\<close>

theorem dated_cursor_comes_back:
  assumes "cursor_texts T" and "sendable_instant t" and "i < 2 ^ 128"
  shows "decode_activity_cursor T kind' (Some (encode_activity_cursor T kind (t, i))) =
      (if kind' = kind then Inr (Some (t, i)) else Inl ApplicationValidation)"
    and "decode_trash_cursor T (Some (encode_trash_cursor T (t, i))) = Inr (Some (t, i))"
    and "decode_trash_cursor T (Some (encode_activity_cursor T kind (t, i))) = Inl ApplicationValidation"
    and "decode_activity_cursor T kind (Some (encode_trash_cursor T (t, i))) = Inl ApplicationValidation"
proof -
  have texts: "ht_text T (code_points t) = t" for t using assms(1) by (simp add: cursor_texts_def)
  have date: "ht_fromiso T (ht_isoformat T t) = Some (t, True)" using assms(1,2) by (simp add: cursor_texts_def)
  have kinds: "activity_kind_text kind' = activity_kind_text kind \<longleftrightarrow> kind' = kind"
    "activity_kind_text kind \<noteq> ''trash''" for kind kind'
    by (cases kind; cases kind'; simp add: activity_kind_text_def)+
  note defs = decode_activity_cursor_def decode_trash_cursor_def decode_dated_cursor_def cursor_fields_dated
    first_version_def dict_get_def equals_one_def field_is_def plain_str_def
  show "decode_activity_cursor T kind' (Some (encode_activity_cursor T kind (t, i))) =
      (if kind' = kind then Inr (Some (t, i)) else Inl ApplicationValidation)"
    and "decode_trash_cursor T (Some (encode_trash_cursor T (t, i))) = Inr (Some (t, i))"
    and "decode_trash_cursor T (Some (encode_activity_cursor T kind (t, i))) = Inl ApplicationValidation"
    and "decode_activity_cursor T kind (Some (encode_trash_cursor T (t, i))) = Inl ApplicationValidation"
    using kinds kinds(2) [symmetric]
    by (auto simp: defs texts date as_validation_def uuid_parse_str [OF assms(3)] simp del: code_points_Cons code_points_Nil)
qed

end
