(* ===== verification/Api_Schemas.thy ===== *)
theory Api_Schemas
  imports Cursor_Text Settings System
begin

text \<open>
  The request and response bodies of the API (\<open>app/presentation/schemas/*.py\<close>), the routes with
  their methods and paths, and the mapping of results to response bodies. A request is what the
  framework has parsed from the path, the query and the JSON body; \<open>request_valid\<close> is the validation
  declared in the schemas.
\<close>

section \<open>Requests\<close>

datatype delivery = CookieDelivery | BearerDelivery

text \<open>A date of the query string may come with a zone or without one; both give an instant.\<close>

datatype query_date = Aware instant | Naive instant

record entries_query =
  eq_limit :: int
  eq_cursor :: "string option"
  eq_sort :: sort_field
  eq_direction :: sort_direction
  eq_name :: "string option"
  eq_kind :: "entry_type option"
  eq_extension :: "string option"
  eq_minimum_size :: "int option"
  eq_maximum_size :: "int option"
  eq_modified_from :: "query_date option"
  eq_modified_to :: "query_date option"

record activity_query =
  yq_limit :: int
  yq_cursor :: "string option"

datatype api_call =
    HealthCall
  | ReadyCall
  | LoginCall string string delivery
  | RefreshCall "string option" delivery
  | LogoutCall
  | RevokeAllCall
  | SessionCall
  | NavigationCall "uuid option"
  | EntriesCall uuid entries_query
  | FileCall uuid
  | CreateFolderCall uuid string
  | RenameCall uuid string
  | MoveCall uuid uuid
  | CopyCall uuid uuid "string option"
  | TrashCall uuid
  | RestoreCall uuid "uuid option"
  | PurgeCall uuid
  | StartUploadCall uuid string int string
  | UploadStatusCall uuid
  | AppendCall uuid int body_stream
  | CompleteCall uuid
  | CancelCall uuid
  | DownloadCall uuid bool bool
  | ActivityCall activity_kind activity_query
  | SetFavoriteCall uuid
  | RemoveFavoriteCall uuid
  | RecordOpenCall uuid

text \<open>\<open>DownloadCall file head_only inline\<close>.\<close>

subsection \<open>Declared bounds\<close>

definition optional :: "('a \<Rightarrow> bool) \<Rightarrow> 'a option \<Rightarrow> bool" where
  "optional P x = (case x of None \<Rightarrow> True | Some y \<Rightarrow> P y)"

definition entry_name_input :: "string \<Rightarrow> bool" where
  "entry_name_input s = text_within 1 255 s"

definition login_input_valid :: "string \<Rightarrow> string \<Rightarrow> bool" where
  "login_input_valid username password \<longleftrightarrow> text_within 1 100 username \<and> text_within 1 1024 password"

definition refresh_input_valid :: "string option \<Rightarrow> bool" where
  "refresh_input_valid token = optional (text_within 0 8192) token"

definition entries_fields_valid :: "entries_query \<Rightarrow> bool" where
  "entries_fields_valid q \<longleftrightarrow>
     within 1 200 (eq_limit q) \<and> optional (text_within 1 2048) (eq_cursor q)
     \<and> optional (text_within 1 255) (eq_name q) \<and> optional (text_within 1 50) (eq_extension q)
     \<and> optional (\<lambda>n. 0 \<le> n) (eq_minimum_size q) \<and> optional (\<lambda>n. 0 \<le> n) (eq_maximum_size q)"

text \<open>Dates with and without a zone have no order: comparing them raises.\<close>

fun date_later :: "query_date \<Rightarrow> query_date \<Rightarrow> bool result" where
  "date_later (Aware s) (Aware t) = Inr (s > t)"
| "date_later (Naive s) (Naive t) = Inr (s > t)"
| "date_later _ _ = Inl PyTypeError"

fun has_zone :: "query_date \<Rightarrow> bool" where
  "has_zone (Aware _) = True"
| "has_zone (Naive _) = False"

text \<open>
  The validator of the whole query. A \<open>ValueError\<close> makes the query invalid; any other exception
  leaves the validation as it is.
\<close>

definition validate_ranges :: "entries_query \<Rightarrow> bool result" where
  "validate_ranges q =
     (if \<not> both (\<le>) (eq_minimum_size q) (eq_maximum_size q) then Inr False
      else rbind (case (eq_modified_from q, eq_modified_to q) of
                    (Some s, Some t) \<Rightarrow> date_later s t
                  | _ \<Rightarrow> Inr False) (\<lambda>later.
           Inr (\<not> later \<and> optional has_zone (eq_modified_from q) \<and> optional has_zone (eq_modified_to q))))"

fun date_instant :: "query_date \<Rightarrow> instant" where
  "date_instant (Aware t) = t"
| "date_instant (Naive t) = t"

text \<open>The filters that the route passes on.\<close>

definition eq_filters :: "entries_query \<Rightarrow> list_filters" where
  "eq_filters q =
     \<lparr>lf_name_contains = eq_name q, lf_kind = eq_kind q, lf_extension = eq_extension q,
      lf_minimum_size = eq_minimum_size q, lf_maximum_size = eq_maximum_size q,
      lf_modified_from = map_option date_instant (eq_modified_from q),
      lf_modified_to = map_option date_instant (eq_modified_to q)\<rparr>"

definition start_upload_input_valid :: "string \<Rightarrow> int \<Rightarrow> string \<Rightarrow> bool" where
  "start_upload_input_valid filename size_bytes mime \<longleftrightarrow>
     entry_name_input filename \<and> 0 \<le> size_bytes \<and> text_within 3 255 mime"

fun request_valid :: "api_call \<Rightarrow> bool" where
  "request_valid (LoginCall username password _) = login_input_valid username password"
| "request_valid (RefreshCall token _) = refresh_input_valid token"
| "request_valid (EntriesCall _ q) = entries_fields_valid q"
| "request_valid (CreateFolderCall _ name) = entry_name_input name"
| "request_valid (RenameCall _ name) = entry_name_input name"
| "request_valid (CopyCall _ _ name) = optional entry_name_input name"
| "request_valid (StartUploadCall _ filename size_bytes mime) = start_upload_input_valid filename size_bytes mime"
| "request_valid (AppendCall _ offset _) = (0 \<le> offset)"
| "request_valid (ActivityCall _ q) = (within 1 200 (yq_limit q) \<and> optional (text_within 1 2048) (yq_cursor q))"
| "request_valid _ = True"

text \<open>The outcome of the whole validation, or the exception that it lets through.\<close>

definition request_check :: "api_call \<Rightarrow> bool result" where
  "request_check c =
     (if \<not> request_valid c then Inr False
      else case c of EntriesCall _ q \<Rightarrow> validate_ranges q | _ \<Rightarrow> Inr True)"

subsection \<open>Methods and paths\<close>

fun call_method :: "api_call \<Rightarrow> string" where
  "call_method HealthCall = ''GET''"
| "call_method ReadyCall = ''GET''"
| "call_method SessionCall = ''GET''"
| "call_method (NavigationCall _) = ''GET''"
| "call_method (EntriesCall _ _) = ''GET''"
| "call_method (FileCall _) = ''GET''"
| "call_method (RenameCall _ _) = ''PATCH''"
| "call_method (PurgeCall _) = ''DELETE''"
| "call_method (UploadStatusCall _) = ''HEAD''"
| "call_method (AppendCall _ _ _) = ''PATCH''"
| "call_method (CancelCall _) = ''DELETE''"
| "call_method (DownloadCall _ head_only _) = (if head_only then ''HEAD'' else ''GET'')"
| "call_method (ActivityCall _ _) = ''GET''"
| "call_method (SetFavoriteCall _) = ''PUT''"
| "call_method (RemoveFavoriteCall _) = ''DELETE''"
| "call_method _ = ''POST''"

text \<open>
  A path is a list of fixed segments and identifiers; an identifier may be spelled in any form that
  parses to it.
\<close>

text \<open>
  An identifier in a path, as the validation library reads it: 32 hexadecimal digits, the same with the
  four hyphens in place, and that in braces or as a URN.
\<close>

fun hex_digits_value :: "nat \<Rightarrow> string \<Rightarrow> nat option" where
  "hex_digits_value acc [] = Some acc"
| "hex_digits_value acc (c # cs) =
     (case hex_value (char_code c) of None \<Rightarrow> None | Some v \<Rightarrow> hex_digits_value (16 * acc + v) cs)"

definition hyphenated_uuid :: "string \<Rightarrow> uuid option" where
  "hyphenated_uuid t =
     (let hex = filter (\<lambda>c. c \<noteq> CHR ''-'') t
      in if length t = 36 \<and> length hex = 32 \<and> list_all (\<lambda>i. t ! i = CHR ''-'') [8, 13, 18, 23]
         then hex_digits_value 0 hex else None)"

definition path_uuid :: "string \<Rightarrow> uuid option" where
  "path_uuid t =
     (if length t = 32 then hex_digits_value 0 t
      else if length t = 38 \<and> hd t = CHR ''{'' \<and> last t = CHR ''}'' then hyphenated_uuid (butlast (tl t))
      else if length t = 45 \<and> py_startswith t ''urn:uuid:'' then hyphenated_uuid (drop 9 t)
      else hyphenated_uuid t)"

datatype segment = Lit string | Ident uuid

fun segment_matches :: "segment \<Rightarrow> string \<Rightarrow> bool" where
  "segment_matches (Lit s) t = (t = s)"
| "segment_matches (Ident u) t = (path_uuid t = Some u)"

fun segment_text :: "segment \<Rightarrow> string" where
  "segment_text (Lit s) = s"
| "segment_text (Ident u) = uuid_str u"

fun call_path :: "api_call \<Rightarrow> segment list" where
  "call_path HealthCall = [Lit ''health'']"
| "call_path ReadyCall = [Lit ''ready'']"
| "call_path (LoginCall _ _ _) = [Lit ''auth'', Lit ''login'']"
| "call_path (RefreshCall _ _) = [Lit ''auth'', Lit ''refresh'']"
| "call_path LogoutCall = [Lit ''auth'', Lit ''logout'']"
| "call_path RevokeAllCall = [Lit ''auth'', Lit ''sessions'', Lit ''revoke-all'']"
| "call_path SessionCall = [Lit ''auth'', Lit ''session'']"
| "call_path (NavigationCall _) = [Lit ''storage'', Lit ''navigation'']"
| "call_path (EntriesCall f _) = [Lit ''storage'', Lit ''folders'', Ident f, Lit ''entries'']"
| "call_path (FileCall f) = [Lit ''storage'', Lit ''files'', Ident f]"
| "call_path (CreateFolderCall _ _) = [Lit ''storage'', Lit ''folders'']"
| "call_path (RenameCall e _) = [Lit ''storage'', Lit ''entries'', Ident e]"
| "call_path (MoveCall e _) = [Lit ''storage'', Lit ''entries'', Ident e, Lit ''move'']"
| "call_path (CopyCall e _ _) = [Lit ''storage'', Lit ''entries'', Ident e, Lit ''copy'']"
| "call_path (TrashCall e) = [Lit ''storage'', Lit ''entries'', Ident e, Lit ''trash'']"
| "call_path (RestoreCall t _) = [Lit ''storage'', Lit ''trash'', Ident t, Lit ''restore'']"
| "call_path (PurgeCall t) = [Lit ''storage'', Lit ''trash'', Ident t]"
| "call_path (StartUploadCall _ _ _ _) = [Lit ''storage'', Lit ''uploads'']"
| "call_path (UploadStatusCall u) = [Lit ''storage'', Lit ''uploads'', Ident u]"
| "call_path (AppendCall u _ _) = [Lit ''storage'', Lit ''uploads'', Ident u]"
| "call_path (CompleteCall u) = [Lit ''storage'', Lit ''uploads'', Ident u, Lit ''complete'']"
| "call_path (CancelCall u) = [Lit ''storage'', Lit ''uploads'', Ident u]"
| "call_path (DownloadCall f _ _) = [Lit ''storage'', Lit ''files'', Ident f, Lit ''content'']"
| "call_path (ActivityCall k _) = [Lit ''activity'', Lit (case k of Favorites \<Rightarrow> ''favorites'' | Recents \<Rightarrow> ''recents'')]"
| "call_path (SetFavoriteCall e) = [Lit ''activity'', Lit ''favorites'', Ident e]"
| "call_path (RemoveFavoriteCall e) = [Lit ''activity'', Lit ''favorites'', Ident e]"
| "call_path (RecordOpenCall e) = [Lit ''activity'', Lit ''recents'', Ident e]"

definition path_text :: "segment list \<Rightarrow> string" where
  "path_text segs = concat (map (\<lambda>x. ''/'' @ segment_text x) segs)"

text \<open>The request has the method and the path of the call, below the prefix of the API.\<close>

definition routed :: "string \<Rightarrow> http_request \<Rightarrow> api_call \<Rightarrow> bool" where
  "routed api_prefix q c \<longleftrightarrow>
     rq_method q = call_method c \<and> py_startswith (rq_path q) api_prefix
     \<and> (case py_split (CHR ''/'') (drop (length api_prefix) (rq_path q)) of
          [] \<Rightarrow> False
        | t # ts \<Rightarrow> t = [] \<and> list_all2 segment_matches (call_path c) ts)"

lemma routed_exempt:
  assumes "routed api_prefix q c" and "rq_path q \<in> set (csrf_exempt_paths api_prefix)"
  shows "(\<exists>u p how. c = LoginCall u p how) \<or> (\<exists>t how. c = RefreshCall t how)"
  using assms by (cases c) (auto simp: routed_def csrf_exempt_paths_def py_startswith_def split: if_splits)

section \<open>Responses\<close>

record storage_entry_data =
  sd_id :: uuid
  sd_parent :: "uuid option"
  sd_kind :: entry_type
  sd_name :: string
  sd_size :: "int option"
  sd_mime_type :: "string option"
  sd_extension :: "string option"
  sd_checksum :: "string option"
  sd_version_number :: "int option"
  sd_created :: instant
  sd_updated :: instant
  sd_is_favorite :: bool

definition entry_data :: "storage_entry_dto \<Rightarrow> storage_entry_data" where
  "entry_data v =
     \<lparr>sd_id = de_id v, sd_parent = de_parent v, sd_kind = de_kind v, sd_name = de_name v,
      sd_size = de_size v, sd_mime_type = de_mime_type v, sd_extension = de_extension v,
      sd_checksum = de_checksum v, sd_version_number = de_version_number v,
      sd_created = de_created v, sd_updated = de_updated v, sd_is_favorite = de_is_favorite v\<rparr>"

record file_details_data =
  xd_id :: uuid
  xd_parent :: uuid
  xd_name :: string
  xd_original_name :: string
  xd_size :: int
  xd_mime_type :: string
  xd_extension :: string
  xd_checksum :: string
  xd_version_number :: int
  xd_created :: instant
  xd_updated :: instant

definition file_data :: "file_details_dto \<Rightarrow> file_details_data" where
  "file_data v =
     \<lparr>xd_id = fd_id v, xd_parent = fd_parent v, xd_name = fd_name v,
      xd_original_name = fm_original_name (fd_metadata v), xd_size = fm_size (fd_metadata v),
      xd_mime_type = fm_mime_type (fd_metadata v), xd_extension = fm_extension (fd_metadata v),
      xd_checksum = fm_checksum (fd_metadata v), xd_version_number = fm_version_number (fd_metadata v),
      xd_created = fd_created v, xd_updated = fd_updated v\<rparr>"

record authentication_data =
  ad_session :: uuid
  ad_access_token :: "string option"
  ad_refresh_token :: "string option"
  ad_access_expires :: instant
  ad_refresh_expires :: instant

definition authentication_data :: "authentication_result \<Rightarrow> delivery \<Rightarrow> authentication_data" where
  "authentication_data r how =
     (let include = (\<lambda>t. if how = BearerDelivery then Some (it_value t) else None)
      in \<lparr>ad_session = ar_session r, ad_access_token = include (ar_access r),
          ad_refresh_token = include (ar_refresh r), ad_access_expires = it_expires (ar_access r),
          ad_refresh_expires = it_expires (ar_refresh r)\<rparr>)"

record trash_item_data =
  td_id :: uuid
  td_entry :: uuid
  td_original_parent :: uuid
  td_trashed_at :: instant

definition trash_data :: "trash_item_dto \<Rightarrow> trash_item_data" where
  "trash_data v =
     \<lparr>td_id = dt_id v, td_entry = dt_entry v, td_original_parent = dt_original_parent v,
      td_trashed_at = dt_trashed_at v\<rparr>"

record upload_session_data =
  pd_id :: uuid
  pd_parent :: uuid
  pd_filename :: string
  pd_expected_size :: int
  pd_uploaded_bytes :: int
  pd_mime_type :: "string option"
  pd_extension :: string
  pd_status :: upload_status
  pd_expires :: instant
  pd_checksum :: "string option"

definition upload_data :: "upload_session_dto \<Rightarrow> upload_session_data" where
  "upload_data v =
     \<lparr>pd_id = ud_id v, pd_parent = ud_parent v, pd_filename = ud_filename v,
      pd_expected_size = ud_expected_size v, pd_uploaded_bytes = ud_uploaded_bytes v,
      pd_mime_type = ud_mime_type v, pd_extension = ud_extension v, pd_status = ud_status v,
      pd_expires = ud_expires v, pd_checksum = ud_checksum v\<rparr>"

record upload_chunk_data =
  kd_upload :: uuid
  kd_offset :: int
  kd_received :: int
  kd_sha256 :: string

definition chunk_data :: "chunk_result \<Rightarrow> upload_chunk_data" where
  "chunk_data v =
     \<lparr>kd_upload = cr_upload v, kd_offset = cr_offset v, kd_received = cr_received v,
      kd_sha256 = cr_sha256 v\<rparr>"

record breadcrumb_data =
  bd_id :: uuid
  bd_name :: string

record session_data =
  nd_admin :: uuid
  nd_session :: uuid
  nd_username :: string

record health_data =
  hd_status :: string
  hd_service :: string
  hd_version :: string

record readiness_data =
  rd_status :: string
  rd_database :: string

text \<open>The data of the success envelopes.\<close>

datatype api_data =
    NoData
  | HealthBody health_data
  | ReadinessBody readiness_data
  | AuthenticationBody authentication_data
  | RevocationBody nat
  | SessionBody session_data
  | NavigationBody storage_entry_data "breadcrumb_data list"
  | EntriesBody uuid "storage_entry_data list"
  | FileBody file_details_data
  | EntryBody storage_entry_data
  | TrashBody trash_item_data
  | PurgeBody nat
  | UploadBody upload_session_data
  | ChunkBody upload_chunk_data
  | ActivityBody "(storage_entry_data \<times> instant) list"
  | FavoriteBody uuid bool
  | RecentBody uuid

record envelope =
  ev_data :: api_data
  ev_error :: "string option"
  ev_request_id :: string
  ev_next_cursor :: "string option"

definition success_response :: "api_data \<Rightarrow> string \<Rightarrow> string option \<Rightarrow> envelope" where
  "success_response x rid next_cursor =
     \<lparr>ev_data = x, ev_error = None, ev_request_id = rid, ev_next_cursor = next_cursor\<rparr>"

definition error_response :: "string \<Rightarrow> string \<Rightarrow> envelope" where
  "error_response code rid =
     \<lparr>ev_data = NoData, ev_error = Some code, ev_request_id = rid, ev_next_cursor = None\<rparr>"

datatype reply_body = EmptyBody | JsonBody envelope | FileContent response_body

datatype same_site = Lax | Strict

record set_cookie =
  sc_name :: string
  sc_value :: string
  sc_max_age :: int
  sc_secure :: bool
  sc_http_only :: bool
  sc_same_site :: same_site
  sc_domain :: "string option"
  sc_path :: string

record reply =
  rp_status :: nat
  rp_headers :: headers
  rp_cookies :: "set_cookie list"
  rp_body :: reply_body

definition json_reply :: "nat \<Rightarrow> headers \<Rightarrow> envelope \<Rightarrow> reply" where
  "json_reply status hs body =
     \<lparr>rp_status = status, rp_headers = hs, rp_cookies = [], rp_body = JsonBody body\<rparr>"

definition empty_reply :: "nat \<Rightarrow> headers \<Rightarrow> reply" where
  "empty_reply status hs = \<lparr>rp_status = status, rp_headers = hs, rp_cookies = [], rp_body = EmptyBody\<rparr>"

section \<open>Error replies\<close>

definition error_reply_of :: "string \<Rightarrow> error \<Rightarrow> reply" where
  "error_reply_of rid e =
     (let r = handle_error e in json_reply (er_status r) (er_headers r) (error_response (er_code r) rid))"

definition validation_error_reply :: "string \<Rightarrow> reply" where
  "validation_error_reply rid = json_reply 422 [] (error_response ''request.validation_error'' rid)"

definition http_exception_reply :: "string \<Rightarrow> nat \<Rightarrow> reply" where
  "http_exception_reply rid status =
     json_reply status [] (error_response (''http.'' @ dec status) rid)"

end
