(* ===== verification/Api_Routes.thy ===== *)
theory Api_Routes
  imports Api_Schemas
begin

text \<open>
  The routes of the API (\<open>app/presentation/api/v1/auth.py\<close>, \<open>activity.py\<close>, \<open>storage.py\<close> and
  \<open>system.py\<close> with its two use cases) and the
  path of a request through both middlewares, its route and the error handlers, as
  \<open>create_application\<close> stacks them.
\<close>

section \<open>The application\<close>

text \<open>
  What the container builds, the base URL under which the request arrived, and whether the database
  answers the statement of the readiness probe.
\<close>

record api_env =
  ax_app_name :: string
  ax_app_version :: string
  ax_database_answers :: bool
  ax_auth :: auth_services
  ax_auth_policy :: auth_policy
  ax_cookies :: cookie_policy
  ax_prefix :: string
  ax_ports :: ports
  ax_uploads :: upload_services
  ax_upload_policy :: upload_policy
  ax_texts :: http_texts
  ax_collation :: "string \<Rightarrow> int list"
  ax_base_url :: string
  ax_fresh_id :: string

text \<open>The configured policies; the clock, the identifiers and the libraries stay parameters.\<close>

definition configured :: "settings \<Rightarrow> api_env \<Rightarrow> api_env" where
  "configured c E =
     E\<lparr>ax_app_name := cfg_app_name c, ax_app_version := cfg_app_version c,
       ax_auth := (ax_auth E)\<lparr>av_tokens := jwt_settings_of c,
           av_secrets := (av_secrets (ax_auth E))\<lparr>sc_key := cfg_pepper c\<rparr>\<rparr>,
       ax_auth_policy := auth_policy_of c, ax_cookies := cookie_policy_of c,
       ax_prefix := cfg_api_prefix c,
       ax_uploads := (ax_uploads E)\<lparr>sv_write_buffer := nat (cfg_write_buffer c),
           sv_block_size := nat (cfg_stream_block c)\<rparr>,
       ax_upload_policy := upload_policy_of (p_unicode (ax_ports E)) c\<rparr>"

section \<open>Answers\<close>

text \<open>A use case returns its result with the state after the call; a route maps the result.\<close>

definition answer :: "('a \<Rightarrow> 'b) \<Rightarrow> 'a result \<times> 'c \<Rightarrow> 'b result \<times> 'c" where
  "answer f x = (case x of (Inl e, s) \<Rightarrow> (Inl e, s) | (Inr y, s) \<Rightarrow> (Inr (f y), s))"

definition on_db :: "(db \<Rightarrow> 'a result \<times> db) \<Rightarrow> db \<times> fs \<Rightarrow> 'a result \<times> db \<times> fs" where
  "on_db f x = (case f (fst x) of (r, d') \<Rightarrow> (r, d', snd x))"

definition on_store :: "(db \<Rightarrow> fs \<Rightarrow> 'a result \<times> db \<times> fs) \<Rightarrow> db \<times> fs \<Rightarrow> 'a result \<times> db \<times> fs" where
  "on_store f x = f (fst x) (snd x)"

definition reading :: "(db \<Rightarrow> fs \<Rightarrow> 'a result) \<Rightarrow> db \<times> fs \<Rightarrow> 'a result \<times> db \<times> fs" where
  "reading f x = (f (fst x) (snd x), x)"

definition with_principal ::
  "request_state \<Rightarrow> (principal \<Rightarrow> db \<times> fs \<Rightarrow> 'a result \<times> db \<times> fs) \<Rightarrow> db \<times> fs \<Rightarrow> 'a result \<times> db \<times> fs" where
  "with_principal st f x = (case require_principal st of Inl e \<Rightarrow> (Inl e, x) | Inr p \<Rightarrow> f p x)"

definition success :: "string \<Rightarrow> nat \<Rightarrow> headers \<Rightarrow> api_data \<Rightarrow> reply" where
  "success rid status hs body = json_reply status hs (success_response body rid None)"

section \<open>Probes\<close>

definition get_health :: "api_env \<Rightarrow> health_data" where
  "get_health E = \<lparr>hd_status = ''ok'', hd_service = ax_app_name E, hd_version = ax_app_version E\<rparr>"

definition health_route :: "api_env \<Rightarrow> string \<Rightarrow> reply" where
  "health_route E rid = success rid 200 [] (HealthBody (get_health E))"

text \<open>A driver error of the probe is translated; the port never answers False.\<close>

definition is_ready :: "bool \<Rightarrow> bool result" where
  "is_ready answers = (if answers then Inr True else Inl PersistenceFailure)"

definition get_readiness :: "bool \<Rightarrow> readiness_data result" where
  "get_readiness answers =
     rbind (is_ready answers) (\<lambda>ready.
     rbind (require ready DependencyUnavailable) (\<lambda>_.
     Inr \<lparr>rd_status = ''ready'', rd_database = ''available''\<rparr>))"

definition ready_route :: "api_env \<Rightarrow> string \<Rightarrow> reply result" where
  "ready_route E rid =
     rbind (get_readiness (ax_database_answers E)) (\<lambda>r. Inr (success rid 200 [] (ReadinessBody r)))"

section \<open>Authentication routes\<close>

definition deliver_tokens :: "cookie_policy \<Rightarrow> authentication_result \<Rightarrow> delivery \<Rightarrow> set_cookie list" where
  "deliver_tokens C r how =
     (if how \<noteq> CookieDelivery then []
      else
        [\<lparr>sc_name = cp_access_name C, sc_value = it_value (ar_access r), sc_max_age = cp_access_max_age C,
          sc_secure = cp_secure C, sc_http_only = True, sc_same_site = Lax, sc_domain = cp_domain C,
          sc_path = ''/''\<rparr>,
         \<lparr>sc_name = cp_refresh_name C, sc_value = it_value (ar_refresh r),
          sc_max_age = cp_refresh_max_age C, sc_secure = cp_secure C, sc_http_only = True,
          sc_same_site = Strict, sc_domain = cp_domain C, sc_path = cp_refresh_path C\<rparr>,
         \<lparr>sc_name = cp_csrf_name C, sc_value = ar_csrf r, sc_max_age = cp_refresh_max_age C,
          sc_secure = cp_secure C, sc_http_only = False, sc_same_site = Lax, sc_domain = cp_domain C,
          sc_path = ''/''\<rparr>])"

text \<open>\<open>Response.delete_cookie\<close> sets an empty cookie that expires at once.\<close>

definition deleted_cookie :: "cookie_policy \<Rightarrow> string \<Rightarrow> string \<Rightarrow> set_cookie" where
  "deleted_cookie C name path =
     \<lparr>sc_name = name, sc_value = [], sc_max_age = 0, sc_secure = False, sc_http_only = False,
      sc_same_site = Lax, sc_domain = cp_domain C, sc_path = path\<rparr>"

definition clear_cookies :: "cookie_policy \<Rightarrow> set_cookie list" where
  "clear_cookies C =
     [deleted_cookie C (cp_access_name C) ''/'', deleted_cookie C (cp_refresh_name C) (cp_refresh_path C),
      deleted_cookie C (cp_csrf_name C) ''/'']"

definition authentication_reply ::
  "api_env \<Rightarrow> string \<Rightarrow> delivery \<Rightarrow> authentication_result \<Rightarrow> reply" where
  "authentication_reply E rid how r =
     (success rid 200 [] (AuthenticationBody (authentication_data r how)))
       \<lparr>rp_cookies := deliver_tokens (ax_cookies E) r how\<rparr>"

definition login_route ::
  "api_env \<Rightarrow> http_request \<Rightarrow> string \<Rightarrow> string \<Rightarrow> string \<Rightarrow> delivery \<Rightarrow> db \<Rightarrow> reply result \<times> db" where
  "login_route E q rid username password how d =
     (case request_metadata q of
        (client_ip, user_agent) \<Rightarrow>
          answer (authentication_reply E rid how)
            (login (ax_auth E) (ax_auth_policy E)
              \<lparr>lg_username = username, lg_password = password, lg_client_ip = client_ip,
               lg_user_agent = user_agent\<rparr> d))"

definition refresh_route ::
  "api_env \<Rightarrow> http_request \<Rightarrow> string \<Rightarrow> string option \<Rightarrow> delivery \<Rightarrow> db \<Rightarrow> reply result \<times> db" where
  "refresh_route E q rid payload_token how d =
     (let C = ax_cookies E;
          cookie_token = rq_cookies q (cp_refresh_name C);
          token = (case cookie_token of Some t \<Rightarrow> if t \<noteq> [] then Some t else payload_token
                   | None \<Rightarrow> payload_token)
      in case token of
           None \<Rightarrow> (Inl AuthenticationFailed, d)
         | Some t \<Rightarrow>
             (case request_metadata q of
                (client_ip, user_agent) \<Rightarrow>
                  answer (authentication_reply E rid how)
                    (refresh_session (ax_auth E) (ax_auth_policy E)
                      \<lparr>rf_token = t, rf_client_ip = client_ip, rf_user_agent = user_agent,
                       rf_csrf_cookie = rq_cookies q (cp_csrf_name C),
                       rf_csrf_header = header_value q (cp_csrf_header C),
                       rf_used_cookie = (cookie_token \<noteq> None)\<rparr> d)))"

definition logout_route ::
  "api_env \<Rightarrow> http_request \<Rightarrow> string \<Rightarrow> principal \<Rightarrow> db \<Rightarrow> reply result \<times> db" where
  "logout_route E q rid p d =
     (case request_metadata q of
        (client_ip, user_agent) \<Rightarrow>
          answer (\<lambda>_. (success rid 200 [] NoData)\<lparr>rp_cookies := clear_cookies (ax_cookies E)\<rparr>)
            (logout (ax_auth E) p client_ip user_agent d))"

definition revoke_all_route ::
  "api_env \<Rightarrow> http_request \<Rightarrow> string \<Rightarrow> principal \<Rightarrow> db \<Rightarrow> reply result \<times> db" where
  "revoke_all_route E q rid p d =
     (case request_metadata q of
        (client_ip, user_agent) \<Rightarrow>
          answer (\<lambda>n. (success rid 200 [] (RevocationBody n))\<lparr>rp_cookies := clear_cookies (ax_cookies E)\<rparr>)
            (revoke_all_sessions (ax_auth E) p client_ip user_agent d))"

definition session_route :: "string \<Rightarrow> principal \<Rightarrow> reply" where
  "session_route rid p = success rid 200 [] (SessionBody
       \<lparr>nd_admin = pr_admin p, nd_session = pr_session p, nd_username = pr_username p\<rparr>)"

section \<open>Cached metadata\<close>

fun newest :: "instant list \<Rightarrow> instant option" where
  "newest [] = None"
| "newest (t # ts) = (case newest ts of None \<Rightarrow> Some t | Some u \<Rightarrow> Some (max t u))"

text \<open>The 304 response, or the representation with its validators.\<close>

definition cached_reply ::
  "api_env \<Rightarrow> http_request \<Rightarrow> string \<Rightarrow> instant option \<Rightarrow> envelope \<Rightarrow> reply result" where
  "cached_reply E q etag last_modified body =
     rbind (conditional_not_modified (ax_texts E) q etag last_modified) (\<lambda>cached.
     (case cached of
        Some hs \<Rightarrow> Inr (empty_reply 304 hs)
      | None \<Rightarrow> Inr (json_reply 200 (cache_headers (ax_texts E) etag last_modified) body)))"

definition entries_etag ::
  "http_texts \<Rightarrow> uuid \<Rightarrow> storage_entry_dto list \<Rightarrow> string option \<Rightarrow> string" where
  "entries_etag T folder_id items next_cursor =
     metadata_etag T
       (uuid_str folder_id
         # map (\<lambda>i. uuid_str (de_id i) @ '':'' @ ht_isoformat T (de_updated i)) items
         @ [case next_cursor of None \<Rightarrow> [] | Some t \<Rightarrow> t])"

definition list_entries_route ::
  "api_env \<Rightarrow> http_request \<Rightarrow> string \<Rightarrow> uuid \<Rightarrow> entries_query \<Rightarrow> principal \<Rightarrow> db \<Rightarrow> reply result" where
  "list_entries_route E q rid folder_id eq p d =
     rbind (list_folder_entries (p_unicode (ax_ports E)) (ax_texts E) (ax_collation E)
       \<lparr>cq_owner = pr_admin p, cq_parent = folder_id, cq_filters = eq_filters eq,
        cq_sort = eq_sort eq, cq_direction = eq_direction eq\<rparr>
       (eq_limit eq) (eq_cursor eq) d) (\<lambda>(items, next_cursor).
     cached_reply E q (entries_etag (ax_texts E) folder_id items next_cursor)
       (newest (map de_updated items))
       (success_response (EntriesBody folder_id (map entry_data items)) rid next_cursor))"

definition details_etag :: "http_texts \<Rightarrow> file_details_dto \<Rightarrow> string" where
  "details_etag T f =
     metadata_etag T
       [uuid_str (fd_id f), py_str (fm_version_number (fd_metadata f)), ht_isoformat T (fd_updated f),
        fm_checksum (fd_metadata f)]"

definition get_file_route ::
  "api_env \<Rightarrow> http_request \<Rightarrow> string \<Rightarrow> uuid \<Rightarrow> principal \<Rightarrow> db \<Rightarrow> reply result" where
  "get_file_route E q rid file_id p d =
     rbind (get_file_details (p_unicode (ax_ports E)) (pr_admin p) file_id d) (\<lambda>f.
     cached_reply E q (details_etag (ax_texts E) f) (Some (fd_updated f))
       (success_response (FileBody (file_data f)) rid None))"

definition navigation_route ::
  "api_env \<Rightarrow> string \<Rightarrow> uuid option \<Rightarrow> principal \<Rightarrow> db \<Rightarrow> reply result" where
  "navigation_route E rid folder_id p d =
     rbind (get_folder_navigation (p_unicode (ax_ports E)) (pr_admin p) folder_id d) (\<lambda>path.
     Inr (success rid 200 []
       (NavigationBody (entry_data (last path)) (map (\<lambda>i. \<lparr>bd_id = de_id i, bd_name = de_name i\<rparr>) path))))"

section \<open>Tree routes\<close>

definition location :: "api_env \<Rightarrow> segment list \<Rightarrow> string \<times> string" where
  "location E segs = (''Location'', ax_base_url E @ ax_prefix E @ path_text segs)"

definition create_folder_route ::
  "api_env \<Rightarrow> string \<Rightarrow> uuid \<Rightarrow> string \<Rightarrow> principal \<Rightarrow> db \<Rightarrow> reply result \<times> db" where
  "create_folder_route E rid parent_id name p d =
     answer (\<lambda>r. success rid 201
         [location E [Lit ''storage'', Lit ''folders'', Ident (de_id r), Lit ''entries'']]
         (EntryBody (entry_data r)))
       (create_folder (ax_ports E) \<lparr>cf_owner = pr_admin p, cf_parent = parent_id, cf_name = name\<rparr> d)"

definition rename_route ::
  "api_env \<Rightarrow> string \<Rightarrow> uuid \<Rightarrow> string \<Rightarrow> principal \<Rightarrow> db \<Rightarrow> reply result \<times> db" where
  "rename_route E rid entry_id name p d =
     answer (\<lambda>r. success rid 200 [] (EntryBody (entry_data r)))
       (rename_entry (ax_ports E) \<lparr>rn_owner = pr_admin p, rn_entry = entry_id, rn_new_name = name\<rparr> d)"

definition move_route ::
  "api_env \<Rightarrow> string \<Rightarrow> uuid \<Rightarrow> uuid \<Rightarrow> principal \<Rightarrow> db \<Rightarrow> reply result \<times> db" where
  "move_route E rid entry_id destination p d =
     answer (\<lambda>r. success rid 200 [] (EntryBody (entry_data r)))
       (move_entry (ax_ports E)
         \<lparr>mv_owner = pr_admin p, mv_entry = entry_id, mv_destination = destination\<rparr> d)"

definition copy_route ::
  "api_env \<Rightarrow> string \<Rightarrow> uuid \<Rightarrow> uuid \<Rightarrow> string option \<Rightarrow> principal \<Rightarrow> db \<Rightarrow> reply result \<times> db" where
  "copy_route E rid entry_id destination name p d =
     answer (\<lambda>r. success rid 201 [] (EntryBody (entry_data r)))
       (copy_entry (ax_ports E)
         \<lparr>cp_owner = pr_admin p, cp_entry = entry_id, cp_destination = destination, cp_new_name = name\<rparr> d)"

definition trash_route :: "api_env \<Rightarrow> string \<Rightarrow> uuid \<Rightarrow> principal \<Rightarrow> db \<Rightarrow> reply result \<times> db" where
  "trash_route E rid entry_id p d =
     answer (\<lambda>r. success rid 200 [] (TrashBody (trash_data r)))
       (trash_entry (ax_ports E) \<lparr>tr_owner = pr_admin p, tr_entry = entry_id\<rparr> d)"

definition restore_route ::
  "api_env \<Rightarrow> string \<Rightarrow> uuid \<Rightarrow> uuid option \<Rightarrow> principal \<Rightarrow> db \<Rightarrow> reply result \<times> db" where
  "restore_route E rid trash_item destination p d =
     answer (\<lambda>r. success rid 200 [] (EntryBody (entry_data r)))
       (restore_entry (ax_ports E)
         \<lparr>rs_owner = pr_admin p, rs_trash_item = trash_item, rs_destination = destination\<rparr> d)"

text \<open>The response schema asks for at least one deleted entry; a failed check comes after the commit.\<close>

definition purge_route :: "api_env \<Rightarrow> string \<Rightarrow> uuid \<Rightarrow> principal \<Rightarrow> db \<Rightarrow> reply result \<times> db" where
  "purge_route E rid trash_item p d =
     (case permanently_delete (ax_ports E) \<lparr>pg_owner = pr_admin p, pg_trash_item = trash_item\<rparr> d of
        (Inl e, d') \<Rightarrow> (Inl e, d')
      | (Inr n, d') \<Rightarrow> (rbind (require (1 \<le> n) PyValueError) (\<lambda>_. Inr (success rid 200 [] (PurgeBody n))), d'))"

section \<open>Upload and download routes\<close>

definition upload_status_text :: "upload_status \<Rightarrow> string" where
  "upload_status_text x =
     (case x of Created \<Rightarrow> ''created'' | Uploading \<Rightarrow> ''uploading'' | Completed \<Rightarrow> ''completed''
      | Cancelled \<Rightarrow> ''cancelled'' | Expired \<Rightarrow> ''expired'')"

definition start_upload_route ::
  "api_env \<Rightarrow> string \<Rightarrow> uuid \<Rightarrow> string \<Rightarrow> int \<Rightarrow> string \<Rightarrow> principal \<Rightarrow> db \<Rightarrow> fs \<Rightarrow> reply result \<times> db \<times> fs" where
  "start_upload_route E rid parent_id filename expected mime p d s =
     answer (\<lambda>r. success rid 201
         [location E [Lit ''storage'', Lit ''uploads'', Ident (ud_id r)],
          (''Upload-Offset'', py_str (ud_uploaded_bytes r)), (''Upload-Length'', py_str (ud_expected_size r))]
         (UploadBody (upload_data r)))
       (start_upload (ax_ports E) (ax_upload_policy E)
         \<lparr>su_owner = pr_admin p, su_parent = parent_id, su_filename = filename,
          su_expected_size = expected, su_declared_mime = mime\<rparr> d s)"

definition upload_status_route :: "api_env \<Rightarrow> uuid \<Rightarrow> principal \<Rightarrow> db \<Rightarrow> reply result" where
  "upload_status_route E upload_id p d =
     rbind (get_upload_status (pr_admin p) upload_id d) (\<lambda>r.
     Inr (empty_reply 204
       [(''Upload-Offset'', py_str (ud_uploaded_bytes r)), (''Upload-Length'', py_str (ud_expected_size r)),
        (''Upload-Status'', upload_status_text (ud_status r)),
        (''Upload-Expires'', ht_isoformat (ax_texts E) (ud_expires r))]))"

definition chunk_media_type :: string where
  "chunk_media_type = ''application/offset+octet-stream''"

text \<open>The media type is checked before the credentials.\<close>

definition append_route ::
  "api_env \<Rightarrow> http_request \<Rightarrow> string \<Rightarrow> request_state \<Rightarrow> uuid \<Rightarrow> int \<Rightarrow> body_stream \<Rightarrow> db \<times> fs \<Rightarrow>
     reply result \<times> db \<times> fs" where
  "append_route E q rid st upload_id offset body x =
     (if map ascii_lower (fst (py_partition (CHR '';'') (header_or [] q ''content-type''))) \<noteq> chunk_media_type
      then (Inr (http_exception_reply rid 415), x)
      else with_principal st (\<lambda>p.
        on_store (\<lambda>d s.
          answer (\<lambda>r. success rid 200 [(''Upload-Offset'', py_str (cr_offset r))] (ChunkBody (chunk_data r)))
            (append_upload (ax_ports E) (ax_uploads E) (ax_upload_policy E)
              \<lparr>au_owner = pr_admin p, au_upload = upload_id, au_offset = offset, au_body = body\<rparr> d s))) x)"

definition complete_upload_route ::
  "api_env \<Rightarrow> string \<Rightarrow> uuid \<Rightarrow> principal \<Rightarrow> db \<Rightarrow> fs \<Rightarrow> reply result \<times> db \<times> fs" where
  "complete_upload_route E rid upload_id p d s =
     answer (\<lambda>r. success rid 201 [] (EntryBody (entry_data r)))
       (complete_upload (ax_ports E) (ax_uploads E) (ax_upload_policy E)
         \<lparr>ou_owner = pr_admin p, ou_upload = upload_id\<rparr> d s)"

definition cancel_upload_route ::
  "api_env \<Rightarrow> string \<Rightarrow> uuid \<Rightarrow> principal \<Rightarrow> db \<Rightarrow> fs \<Rightarrow> reply result \<times> db \<times> fs" where
  "cancel_upload_route E rid upload_id p d s =
     answer (\<lambda>r. success rid 200 [] (UploadBody (upload_data r)))
       (cancel_upload (ax_ports E) \<lparr>ou_owner = pr_admin p, ou_upload = upload_id\<rparr> d s)"

text \<open>
  The download route builds a dictionary of the request headers for the preconditions, so the
  last header of a name counts there; the range is the first one.
\<close>

definition last_header :: "http_request \<Rightarrow> string \<Rightarrow> string option" where
  "last_header q name = map_of (rev (rq_headers q)) name"

definition delivery_reply ::
  "api_env \<Rightarrow> http_request \<Rightarrow> string \<Rightarrow> uuid \<Rightarrow> bool \<Rightarrow> bool \<Rightarrow> principal \<Rightarrow> db \<Rightarrow> fs \<Rightarrow> reply result" where
  "delivery_reply E q rid file_id head_only inline p d s =
     rbind (download_response (p_unicode (ax_ports E)) (ht_env (ax_texts E)) no_redirect
       (sv_block_size (ax_uploads E))
       \<lparr>dr_owner = pr_admin p, dr_file = file_id, dr_head_only = head_only, dr_inline = inline,
        dr_conditional = \<lparr>if_match = last_header q ''if-match'', if_none_match = last_header q ''if-none-match'',
          if_modified_since = last_header q ''if-modified-since''\<rparr>,
        dr_range = header_value q ''range''\<rparr> d s) (\<lambda>r.
     Inr \<lparr>rp_status = rs_status r, rp_headers = rs_headers r, rp_cookies = [],
          rp_body = (case rs_body r of
              NoBody \<Rightarrow> EmptyBody
            | ErrorBody code \<Rightarrow> JsonBody (error_response code rid)
            | StreamBody _ _ \<Rightarrow> FileContent (rs_body r))\<rparr>)"

definition download_route ::
  "api_env \<Rightarrow> http_request \<Rightarrow> string \<Rightarrow> uuid \<Rightarrow> bool \<Rightarrow> principal \<Rightarrow> db \<Rightarrow> fs \<Rightarrow> reply result" where
  "download_route E q rid file_id inline = delivery_reply E q rid file_id False inline"

definition inspect_route ::
  "api_env \<Rightarrow> http_request \<Rightarrow> string \<Rightarrow> uuid \<Rightarrow> bool \<Rightarrow> principal \<Rightarrow> db \<Rightarrow> fs \<Rightarrow> reply result" where
  "inspect_route E q rid file_id inline = delivery_reply E q rid file_id True inline"

section \<open>Activity routes\<close>

definition activity_entry_data :: "activity_entry_dto \<Rightarrow> storage_entry_data \<times> instant" where
  "activity_entry_data v = (entry_data (ae_entry v), ae_occurred v)"

definition activity_page_reply ::
  "api_env \<Rightarrow> string \<Rightarrow> activity_kind \<Rightarrow> activity_query \<Rightarrow> principal \<Rightarrow> db \<Rightarrow> reply result" where
  "activity_page_reply E rid kind yq p d =
     rbind (list_activity_page (p_unicode (ax_ports E)) (ax_texts E) (pr_admin p) kind (yq_limit yq) (yq_cursor yq) d)
       (\<lambda>(items, next_cursor).
     Inr (json_reply 200 [] (success_response (ActivityBody (map activity_entry_data items)) rid next_cursor)))"

definition list_favorites_route :: "api_env \<Rightarrow> string \<Rightarrow> activity_query \<Rightarrow> principal \<Rightarrow> db \<Rightarrow> reply result" where
  "list_favorites_route E rid = activity_page_reply E rid Favorites"

definition list_recents_route :: "api_env \<Rightarrow> string \<Rightarrow> activity_query \<Rightarrow> principal \<Rightarrow> db \<Rightarrow> reply result" where
  "list_recents_route E rid = activity_page_reply E rid Recents"

definition set_favorite_route :: "api_env \<Rightarrow> string \<Rightarrow> uuid \<Rightarrow> principal \<Rightarrow> db \<Rightarrow> reply result \<times> db" where
  "set_favorite_route E rid entry_id p d =
     answer (\<lambda>b. success rid 200 [] (FavoriteBody entry_id b))
       (set_favorite (ax_ports E) (pr_admin p) entry_id d)"

definition remove_favorite_route :: "api_env \<Rightarrow> string \<Rightarrow> uuid \<Rightarrow> principal \<Rightarrow> db \<Rightarrow> reply result \<times> db" where
  "remove_favorite_route E rid entry_id p d =
     answer (\<lambda>b. success rid 200 [] (FavoriteBody entry_id b))
       (unset_favorite (ax_ports E) (pr_admin p) entry_id d)"

definition record_open_route :: "api_env \<Rightarrow> string \<Rightarrow> uuid \<Rightarrow> principal \<Rightarrow> db \<Rightarrow> reply result \<times> db" where
  "record_open_route E rid entry_id p d =
     answer (\<lambda>_. success rid 200 [] (RecentBody entry_id))
       (record_open (ax_ports E) (pr_admin p) entry_id d)"

section \<open>A request from end to end\<close>

fun run_call ::
  "api_env \<Rightarrow> http_request \<Rightarrow> string \<Rightarrow> request_state \<Rightarrow> api_call \<Rightarrow> db \<times> fs \<Rightarrow> reply result \<times> db \<times> fs" where
  "run_call E q rid st HealthCall = reading (\<lambda>d s. Inr (health_route E rid))"
| "run_call E q rid st ReadyCall = reading (\<lambda>d s. ready_route E rid)"
| "run_call E q rid st (LoginCall u w how) = on_db (login_route E q rid u w how)"
| "run_call E q rid st (RefreshCall t how) = on_db (refresh_route E q rid t how)"
| "run_call E q rid st LogoutCall = with_principal st (\<lambda>p. on_db (logout_route E q rid p))"
| "run_call E q rid st RevokeAllCall = with_principal st (\<lambda>p. on_db (revoke_all_route E q rid p))"
| "run_call E q rid st SessionCall = with_principal st (\<lambda>p. reading (\<lambda>d s. Inr (session_route rid p)))"
| "run_call E q rid st (NavigationCall f) =
     with_principal st (\<lambda>p. reading (\<lambda>d s. navigation_route E rid f p d))"
| "run_call E q rid st (EntriesCall f eq) =
     with_principal st (\<lambda>p. reading (\<lambda>d s. list_entries_route E q rid f eq p d))"
| "run_call E q rid st (FileCall f) = with_principal st (\<lambda>p. reading (\<lambda>d s. get_file_route E q rid f p d))"
| "run_call E q rid st (CreateFolderCall f n) = with_principal st (\<lambda>p. on_db (create_folder_route E rid f n p))"
| "run_call E q rid st (RenameCall e n) = with_principal st (\<lambda>p. on_db (rename_route E rid e n p))"
| "run_call E q rid st (MoveCall e f) = with_principal st (\<lambda>p. on_db (move_route E rid e f p))"
| "run_call E q rid st (CopyCall e f n) = with_principal st (\<lambda>p. on_db (copy_route E rid e f n p))"
| "run_call E q rid st (TrashCall e) = with_principal st (\<lambda>p. on_db (trash_route E rid e p))"
| "run_call E q rid st (RestoreCall t f) = with_principal st (\<lambda>p. on_db (restore_route E rid t f p))"
| "run_call E q rid st (PurgeCall t) = with_principal st (\<lambda>p. on_db (purge_route E rid t p))"
| "run_call E q rid st (StartUploadCall f n b m) =
     with_principal st (\<lambda>p. on_store (start_upload_route E rid f n b m p))"
| "run_call E q rid st (UploadStatusCall u) =
     with_principal st (\<lambda>p. reading (\<lambda>d s. upload_status_route E u p d))"
| "run_call E q rid st (AppendCall u off b) = append_route E q rid st u off b"
| "run_call E q rid st (CompleteCall u) = with_principal st (\<lambda>p. on_store (complete_upload_route E rid u p))"
| "run_call E q rid st (CancelCall u) = with_principal st (\<lambda>p. on_store (cancel_upload_route E rid u p))"
| "run_call E q rid st (DownloadCall f head_only i) =
     with_principal st (\<lambda>p. reading (if head_only then inspect_route E q rid f i p else download_route E q rid f i p))"
| "run_call E q rid st (ActivityCall k yq) =
     with_principal st (\<lambda>p. reading (\<lambda>d s.
       (case k of Favorites \<Rightarrow> list_favorites_route E rid yq p d | Recents \<Rightarrow> list_recents_route E rid yq p d)))"
| "run_call E q rid st (SetFavoriteCall e) = with_principal st (\<lambda>p. on_db (set_favorite_route E rid e p))"
| "run_call E q rid st (RemoveFavoriteCall e) = with_principal st (\<lambda>p. on_db (remove_favorite_route E rid e p))"
| "run_call E q rid st (RecordOpenCall e) = with_principal st (\<lambda>p. on_db (record_open_route E rid e p))"

definition tagged :: "string \<Rightarrow> reply \<Rightarrow> reply" where
  "tagged rid r = r\<lparr>rp_headers := set_header ''X-Request-ID'' rid (rp_headers r)\<rparr>"

text \<open>
  An unexpected error is answered by the outermost layer of the framework, outside the middleware
  that tags responses.
\<close>

definition finish :: "string \<Rightarrow> reply result \<Rightarrow> reply" where
  "finish rid r =
     (case r of
        Inr rep \<Rightarrow> tagged rid rep
      | Inl e \<Rightarrow> if error_layer_of e = Unexpected then error_reply_of rid e
                else tagged rid (error_reply_of rid e))"

definition unexpected_reply :: "string \<Rightarrow> error \<Rightarrow> reply" where
  "unexpected_reply rid e =
     (let r = handle_unexpected_error e
      in json_reply (er_status r) (er_headers r) (error_response (er_code r) rid))"

definition handle_request :: "api_env \<Rightarrow> http_request \<Rightarrow> api_call \<Rightarrow> db \<times> fs \<Rightarrow> reply \<times> db \<times> fs" where
  "handle_request E q c x =
     (let rid = request_id (ax_fresh_id E) q
      in case authenticate_request (ax_auth E) (ax_cookies E) (csrf_exempt_paths (ax_prefix E)) q (fst x) of
           Inl e \<Rightarrow> (unexpected_reply rid e, x)
         | Inr st \<Rightarrow>
             (case request_check c of
                Inl e \<Rightarrow> (unexpected_reply rid e, x)
              | Inr valid \<Rightarrow>
                  if \<not> valid then (tagged rid (validation_error_reply rid), x)
                  else (case run_call E q rid st c x of (r, x') \<Rightarrow> (finish rid r, x'))))"

end
