(* ===== verification/Api_Samples.thy ===== *)
theory Api_Samples
  imports Api_Routes Auth_Properties
begin

text \<open>
  The sample drive behind its HTTP interface: an environment whose token library and digests give
  plain texts, and the requests that the witnesses send to it.
\<close>

section \<open>Texts\<close>

definition hex_bytes :: "bytes \<Rightarrow> string" where
  "hex_bytes s = concat (map (\<lambda>c. [hex_digit (char_code c div 16), hex_digit (char_code c mod 16)]) s)"

fun unhex_bytes :: "string \<Rightarrow> bytes" where
  "unhex_bytes (a # b # t) = char_of (16 * the (hex_value (char_code a)) + the (hex_value (char_code b))) # unhex_bytes t"
| "unhex_bytes _ = []"

lemma code_div_16: "char_code c div 16 < 16"
proof -
  have "(of_char c :: nat) < 256" by (metis of_char_mod_256 mod_less_divisor zero_less_numeral)
  then show ?thesis unfolding char_code_def by linarith
qed

lemma char_of_code: "char_of (char_code c) = c"
  by (simp add: char_code_def)

lemma unhex_hex_bytes [simp]: "unhex_bytes (hex_bytes s) = s"
proof (induction s)
  case (Cons c s)
  have "char_code c div 16 < 16" by (rule code_div_16)
  then have "hex_value (char_code (hex_digit (char_code c div 16))) = Some (char_code c div 16)" by (rule hex_value_digit)
  with Cons show ?case by (simp add: hex_bytes_def hex_value_digit char_of_code)
qed (simp add: hex_bytes_def)

lemma hex_bytes_inject [simp]: "hex_bytes s = hex_bytes t \<longleftrightarrow> s = t"
  by (metis unhex_hex_bytes)

lemma hex_digit_in: "n < 16 \<Longrightarrow> hex_digit n \<in> set hex_digits"
proof -
  have "list_all (\<lambda>k. hex_digit k \<in> set hex_digits) [0..<16]" by code_simp
  then show "n < 16 \<Longrightarrow> hex_digit n \<in> set hex_digits" by (simp add: list_all_iff)
qed

lemma set_hex_bytes: "set (hex_bytes s) \<subseteq> set hex_digits"
  by (auto simp: hex_bytes_def hex_digit_in code_div_16)

lemma cookie_text_hex: "cookie_text (hex_bytes s)"
proof -
  have "CHR '';'' \<notin> set hex_digits" by (simp add: hex_digits_def)
  then show ?thesis using set_hex_bytes [of s] hex_plain by (auto simp: cookie_text_def)
qed

definition sample_texts :: http_texts where
  "sample_texts = \<lparr>ht_env = sample_env, ht_isoformat = py_str,
     ht_fromiso = (\<lambda>s. map_option (\<lambda>t. (t, True)) (py_int s)),
     ht_parse = (\<lambda>v. map_option (\<lambda>n. n * 1000000) (py_int v)), ht_sha256 = hex_bytes, ht_text = map char_of\<rparr>"

lemma sample_cursor_texts: "cursor_texts sample_texts"
proof -
  have "convertible_int t" if "sendable_instant t" for t
    using that by (intro sendable_int_convertible)
      (simp add: sendable_instant_def sendable_int_def first_instant_def last_instant_def)
  moreover have "map char_of (code_points s) = s" for s
    by (simp add: code_points_def comp_def char_code_def)
  ultimately show ?thesis by (simp add: cursor_texts_def sample_texts_def py_int_py_str)
qed

definition plain_jwt :: jwt_library where
  "plain_jwt = \<lparr>jl_encode = (\<lambda>p secret. hex_bytes (jl_encode sample_jwt p secret)),
     jl_decode = (\<lambda>t. jl_decode sample_jwt (unhex_bytes t))\<rparr>"

lemma plain_jwt_verifies: "jwt_verifies plain_jwt"
  using sample_jwt_verifies by (simp add: jwt_verifies_def plain_jwt_def)

section \<open>The application\<close>

definition sample_cookies :: cookie_policy where
  "sample_cookies = \<lparr>cp_secure = True, cp_domain = None, cp_access_name = ''access'', cp_refresh_name = ''refresh'',
     cp_csrf_name = ''csrf'', cp_csrf_header = ''x-csrf-token'', cp_access_max_age = 900,
     cp_refresh_max_age = 1000, cp_refresh_path = ''/api/v1/auth''\<rparr>"

definition sample_api :: "nat \<Rightarrow> api_env" where
  "sample_api k = \<lparr>ax_app_name = ''Drive'', ax_app_version = ''1'', ax_database_answers = True, ax_auth = (sample_auth k)\<lparr>av_jwt := plain_jwt\<rparr>, ax_auth_policy = sample_auth_policy,
     ax_cookies = sample_cookies, ax_prefix = ''/api/v1'', ax_ports = sample_ports k,
     ax_uploads = sample_upload_services, ax_upload_policy = sample_upload_policy, ax_texts = sample_texts,
     ax_collation = map of_char, ax_base_url = ''http://drive'', ax_fresh_id = ''r1''\<rparr>"

definition plain_request :: "string \<Rightarrow> string \<Rightarrow> headers \<Rightarrow> http_request" where
  "plain_request verb url hs =
     \<lparr>rq_method = verb, rq_path = url, rq_headers = hs, rq_cookies = (\<lambda>_. None), rq_client = Some ''ip''\<rparr>"

section \<open>A request with cookies\<close>

definition plain_token :: string where
  "plain_token = it_value (issue_access plain_jwt sample_jwt_settings (sample_id 10) (sample_id 21) (sample_id 24) 2)"

definition sample_jar :: string where
  "sample_jar = cookie_header [(''access'', plain_token), (''csrf'', ''csrf'')]"

definition cookie_request :: "string \<Rightarrow> string \<Rightarrow> http_request" where
  "cookie_request verb url = plain_request verb url
     [(''cookie'', sample_jar), (''x-csrf-token'', ''csrf'')]"

lemma cookie_text_token: "cookie_text (it_value (issue_access plain_jwt T admin sid jti now))"
  by (simp add: issue_access_def encode_token_def Let_def plain_jwt_def cookie_text_hex)

lemma request_cookies_sample:
  "request_cookies sample_jar = map_of (rev [(''access'', plain_token), (''csrf'', ''csrf'')])"
  unfolding sample_jar_def
  by (rule request_cookies_header)
    (simp add: cookie_name_def plain_token_def cookie_text_token, simp add: cookie_text_def latin1_space_def Let_def)

lemma sample_header_names:
  "map ascii_lower ''cookie'' = ''cookie''" "map ascii_lower ''authorization'' = ''authorization''"
  "map ascii_lower ''x-csrf-token'' = ''x-csrf-token''" "map ascii_lower ''if-none-match'' = ''if-none-match''"
  by code_simp+

lemma cookie_request_headers:
  "header_value (cookie_request verb url) ''cookie'' = Some sample_jar"
  "header_value (cookie_request verb url) ''authorization'' = None"
  "header_value (cookie_request verb url) ''x-csrf-token'' = Some ''csrf''"
  unfolding header_value_def sample_header_names by (simp_all add: cookie_request_def plain_request_def)

lemma cookie_credentials_sample:
  "access_request_of sample_cookies (csrf_exempt_paths ''/api/v1'') (cookie_request ''POST'' ''/api/v1/storage/folders'') =
     Some \<lparr>aq_token = plain_token, aq_via_cookie = True, aq_require_csrf = True,
       aq_csrf_cookie = Some ''csrf'', aq_csrf_header = Some ''csrf''\<rparr>"
  by (simp add: access_request_of_def Let_def header_or_def cookie_request_headers
      request_cookies_sample sample_cookies_def bearer_token_def safe_methods_def csrf_exempt_paths_def,
    simp add: cookie_request_def plain_request_def)

lemma plain_decode: "2 \<le> now \<Longrightarrow> now < 900000000 \<Longrightarrow>
    decode_access plain_jwt sample_jwt_settings plain_token now = Inr \<lparr>ac_admin = sample_id 10,
      ac_session = sample_id 21, ac_jti = sample_id 24, ac_issued = 0, ac_expires = 900000000\<rparr>"
  using decode_access_own [OF plain_jwt_verifies sample_id_range sample_id_range sample_id_range,
      of 10 21 24 2 now sample_jwt_settings]
  by (simp add: plain_token_def sample_jwt_settings_def to_seconds_def microseconds_def)

definition cookie_principal :: principal where
  "cookie_principal = \<lparr>pr_admin = sample_id 10, pr_session = sample_id 21, pr_username = ''Ann'', pr_via_cookie = True\<rparr>"

lemma authenticate_sample:
  "authenticate_access (ax_auth (sample_api 3)) \<lparr>aq_token = plain_token, aq_via_cookie = True, aq_require_csrf = True,
       aq_csrf_cookie = Some ''csrf'', aq_csrf_header = Some ''csrf''\<rparr> db_in = Inr cookie_principal"
  by (simp add: authenticate_access_def active_session_def get_session_def session_is_active_def enabled_account_def
      get_single_def sample_session_simps sample_api_def db_in_def db1_def plain_decode csrf_ok_def secret_matches_def
      secret_digest_def cookie_principal_def run_defs)

lemma sample_create_folder_in:
  "snd (create_folder (sample_ports 3) \<lparr>cf_owner = sample_id 10, cf_parent = sample_id 11, cf_name = ''Docs''\<rparr> db_in) \<noteq> db_in"
  by (simp add: create_folder_def create_folder_tx_def db_in_def db1_def run_defs)

lemma create_folder_changes:
  "snd (handle_request (sample_api 3) (cookie_request ''POST'' ''/api/v1/storage/folders'')
     (CreateFolderCall (sample_id 11) ''Docs'') (db_in, fs0)) \<noteq> (db_in, fs0)"
proof -
  let ?q = "cookie_request ''POST'' ''/api/v1/storage/folders''"
  have "authenticate_request (ax_auth (sample_api 3)) (ax_cookies (sample_api 3)) (csrf_exempt_paths (ax_prefix (sample_api 3))) ?q db_in =
    Inr \<lparr>st_principal = Some cookie_principal, st_auth_error = None\<rparr>"
    using authenticate_sample cookie_credentials_sample by (simp add: authenticate_request_def sample_api_def)
  moreover have "request_check (CreateFolderCall (sample_id 11) ''Docs'') = Inr True"
    by (simp add: request_check_def entry_name_input_def text_within_def)
  ultimately show ?thesis
    using sample_create_folder_in
    by (cases "create_folder (sample_ports 3) \<lparr>cf_owner = sample_id 10, cf_parent = sample_id 11, cf_name = ''Docs''\<rparr> db_in")
      (auto simp: handle_request_def Let_def with_principal_def require_principal_def on_db_def create_folder_route_def
        answer_def cookie_principal_def sample_api_def split: sum.splits)
qed

lemma create_folder_routed:
  "routed ''/api/v1'' (cookie_request ''POST'' ''/api/v1/storage/folders'') (CreateFolderCall (sample_id 11) ''Docs'')"
  by (simp add: routed_def cookie_request_def plain_request_def py_startswith_def)

end
