(* ===== verification/Api_Properties.thy ===== *)
theory Api_Properties
  imports Api_Samples
begin

text \<open>
  What the API promises as a whole: requests without a principal change nothing, cookies alone
  cannot change anything without the CSRF token, a cookie login is usable, every request is a step
  of the drive, and what a revalidation answers.
\<close>

section \<open>The two middlewares\<close>

lemma as_authentication_eq_Inl: "as_authentication m = Inl e \<Longrightarrow> e = AuthenticationFailed"
  by (simp add: as_authentication_def split: sum.splits)

lemma decode_token_error: "decode_token L T t k x now = Inl e \<Longrightarrow> e = AuthenticationFailed"
  unfolding decode_token_def rbind_eq_Inl by (auto simp: result_simps dest: as_authentication_eq_Inl)

lemma decode_access_error: "decode_access L T t now = Inl e \<Longrightarrow> e = AuthenticationFailed"
  unfolding decode_access_def validate_time_def
  by (subst (asm) rbind_eq_Inl, erule disjE, erule decode_token_error)
    (auto simp: require_eq_Inl dest: as_authentication_eq_Inl elim!: rbind_eq_Inl [THEN iffD1, THEN disjE])

lemma authenticate_access_error:
  "authenticate_access A a d = Inl e \<Longrightarrow> e \<in> {AuthenticationFailed, SessionRevoked, AccountDisabled, CsrfValidation}"
  by (auto simp: authenticate_access_def active_session_def enabled_account_def Let_def result_simps
      dest!: decode_access_error split: option.splits if_splits)

text \<open>The middleware never fails, and knows a principal exactly for a request that authenticates.\<close>

definition credentials_of :: "api_env \<Rightarrow> http_request \<Rightarrow> access_request option" where
  "credentials_of E q = access_request_of (ax_cookies E) (csrf_exempt_paths (ax_prefix E)) q"

definition authenticates :: "api_env \<Rightarrow> http_request \<Rightarrow> db \<Rightarrow> principal \<Rightarrow> bool" where
  "authenticates E q d p \<longleftrightarrow> (\<exists>a. credentials_of E q = Some a \<and> authenticate_access (ax_auth E) a d = Inr p)"

lemma middleware_cases:
  obtains (known) p where "authenticates E q d p"
      "authenticate_request (ax_auth E) (ax_cookies E) (csrf_exempt_paths (ax_prefix E)) q d =
         Inr \<lparr>st_principal = Some p, st_auth_error = None\<rparr>"
    | (unknown) oe where "\<nexists>p. authenticates E q d p"
      "authenticate_request (ax_auth E) (ax_cookies E) (csrf_exempt_paths (ax_prefix E)) q d =
         Inr \<lparr>st_principal = None, st_auth_error = oe\<rparr>"
      "\<forall>e. oe = Some e \<longrightarrow> e \<in> {AuthenticationFailed, SessionRevoked, AccountDisabled, CsrfValidation}"
proof (cases "credentials_of E q")
  case None
  with unknown [of None] show thesis
    by (simp add: authenticate_request_def credentials_of_def authenticates_def anonymous_def)
next
  case (Some a)
  show thesis
  proof (cases "authenticate_access (ax_auth E) a d")
    case (Inl e)
    note e = authenticate_access_error [OF Inl]
    then have "error_layer_of e = ApplicationLayer" by auto
    with Some Inl e unknown [of "Some e"]
    show thesis by (simp add: authenticate_request_def credentials_of_def authenticates_def)
  next
    case (Inr p)
    with Some known [of p] show thesis
      by (simp add: authenticate_request_def credentials_of_def authenticates_def)
  qed
qed

section \<open>Without a principal\<close>

definition opens_sessions :: "api_call \<Rightarrow> bool" where
  "opens_sessions c \<longleftrightarrow> (case c of LoginCall _ _ _ \<Rightarrow> True | RefreshCall _ _ \<Rightarrow> True | _ \<Rightarrow> False)"

definition is_probe :: "api_call \<Rightarrow> bool" where
  "is_probe c \<longleftrightarrow> c = HealthCall \<or> c = ReadyCall"

lemma answer_error [simp]: "answer f (Inl e, s) = (Inl e, s)"
  and answer_value [simp]: "answer f (Inr x, s) = (Inr (f x), s)"
  by (simp_all add: answer_def)

lemma run_call_unknown:
  assumes "st_principal st = None" and "\<not> opens_sessions c" and "\<not> is_probe c"
  shows "\<exists>r. run_call E q rid st c x = (r, x)
    \<and> (r = Inl (case st_auth_error st of Some e \<Rightarrow> e | None \<Rightarrow> AuthenticationRequired)
        \<or> r = Inr (http_exception_reply rid 415))"
  using assms
  by (cases c) (auto simp: with_principal_def require_principal_def append_route_def opens_sessions_def is_probe_def split: option.split)

lemma status_tagged [simp]: "rp_status (tagged rid r) = rp_status r"
  by (simp add: tagged_def)

lemma status_error_reply [simp]: "rp_status (error_reply_of rid e) = er_status (handle_error e)"
  by (simp add: error_reply_of_def json_reply_def Let_def)

lemma status_unexpected [simp]: "rp_status (unexpected_reply rid e) = 500"
  by (simp add: unexpected_reply_def json_reply_def Let_def handle_unexpected_error_def)

lemma status_validation_error [simp]: "rp_status (validation_error_reply rid) = 422"
  by (simp add: validation_error_reply_def json_reply_def)

lemma request_check_error: "request_check c = Inl e \<Longrightarrow> e = PyTypeError"
  by (auto simp: request_check_def validate_ranges_def result_simps elim!: date_later.elims
      split: if_splits api_call.splits option.splits)

text \<open>What happens to a request after the middleware.\<close>

lemma handle_request_after:
  assumes "authenticate_request (ax_auth E) (ax_cookies E) (csrf_exempt_paths (ax_prefix E)) q (fst x) = Inr st"
  shows "handle_request E q c x =
    (let rid = request_id (ax_fresh_id E) q
     in case request_check c of
          Inl e \<Rightarrow> (unexpected_reply rid e, x)
        | Inr valid \<Rightarrow> if \<not> valid then (tagged rid (validation_error_reply rid), x)
            else (finish rid (fst (run_call E q rid st c x)), snd (run_call E q rid st c x)))"
  using assms by (simp add: handle_request_def Let_def split: sum.split prod.split)

section \<open>Probes\<close>

text \<open>
  The probes ask for no principal and change nothing; readiness is answered 200 exactly if the
  database answers, and 503 otherwise.
\<close>

theorem probes_answer:
  "snd (handle_request E q HealthCall x) = x" "rp_status (fst (handle_request E q HealthCall x)) = 200"
  "snd (handle_request E q ReadyCall x) = x"
  "rp_status (fst (handle_request E q ReadyCall x)) = (if ax_database_answers E then 200 else 503)"
proof -
  obtain st where st: "authenticate_request (ax_auth E) (ax_cookies E) (csrf_exempt_paths (ax_prefix E)) q (fst x) = Inr st"
    by (cases E q "fst x" rule: middleware_cases) blast+
  show "snd (handle_request E q HealthCall x) = x" "rp_status (fst (handle_request E q HealthCall x)) = 200"
    "snd (handle_request E q ReadyCall x) = x"
    "rp_status (fst (handle_request E q ReadyCall x)) = (if ax_database_answers E then 200 else 503)"
    unfolding handle_request_after [OF st]
    by (simp_all add: Let_def request_check_def reading_def finish_def health_route_def ready_route_def success_def
        json_reply_def get_readiness_def is_ready_def handle_error_def handle_infrastructure_error_def
        require_def rbind_def)
qed

section \<open>Dates with and without a zone\<close>

text \<open>
  A query with one date that has a zone and one that has none is not refused as invalid: the
  comparison in the validator raises, and the request is answered 500.
\<close>

theorem mixed_zones_are_an_internal_error:
  assumes "request_valid (EntriesCall f eq)" and "both (\<le>) (eq_minimum_size eq) (eq_maximum_size eq)"
    and "eq_modified_from eq = Some s" and "eq_modified_to eq = Some t" and "has_zone s \<noteq> has_zone t"
  shows "snd (handle_request E q (EntriesCall f eq) x) = x
    \<and> rp_status (fst (handle_request E q (EntriesCall f eq) x)) = 500"
proof -
  obtain st where st: "authenticate_request (ax_auth E) (ax_cookies E) (csrf_exempt_paths (ax_prefix E)) q (fst x) = Inr st"
    by (cases E q "fst x" rule: middleware_cases) blast+
  have "date_later s t = Inl PyTypeError" using assms(5) by (cases s; cases t) simp_all
  then have "request_check (EntriesCall f eq) = Inl PyTypeError"
    using assms by (simp add: request_check_def validate_ranges_def rbind_def)
  then show ?thesis by (simp add: handle_request_after [OF st] Let_def)
qed

section \<open>Nothing without a principal\<close>

lemma unknown_status:
  assumes "\<forall>e. oe = Some e \<longrightarrow> e \<in> {AuthenticationFailed, SessionRevoked, AccountDisabled, CsrfValidation}"
    and "r = Inl (case oe of Some e \<Rightarrow> e | None \<Rightarrow> AuthenticationRequired) \<or> r = Inr (http_exception_reply rid 415)"
  shows "rp_status (finish rid r) \<in> {401, 403, 415}"
proof (cases r)
  case (Inl e)
  with assms have "e \<in> {AuthenticationFailed, SessionRevoked, AccountDisabled, CsrfValidation, AuthenticationRequired}"
    by (cases oe) auto
  with Inl show ?thesis
    by (auto simp: finish_def handle_error_def handle_application_error_def error_class_defs)
next
  case (Inr rep)
  with assms(2) show ?thesis by (auto simp: finish_def http_exception_reply_def json_reply_def split: option.splits)
qed



section \<open>Cookies are not enough\<close>

lemma safe_calls_read: "call_method c \<in> set safe_methods \<Longrightarrow> snd (run_call E q rid st c x) = x"
  by (cases c) (auto simp: safe_methods_def with_principal_def reading_def split: sum.splits)

lemma handle_request_changes:
  assumes "snd (handle_request E q c x) \<noteq> x"
  obtains st rid where "snd (handle_request E q c x) = snd (run_call E q rid st c x)"
    "authenticate_request (ax_auth E) (ax_cookies E) (csrf_exempt_paths (ax_prefix E)) q (fst x) = Inr st"
proof (cases "authenticate_request (ax_auth E) (ax_cookies E) (csrf_exempt_paths (ax_prefix E)) q (fst x)")
  case (Inr st)
  with assms that [of "request_id (ax_fresh_id E) q" st] show thesis
    by (auto simp: handle_request_after [OF Inr] Let_def split: if_splits sum.splits)
qed (use assms in \<open>simp add: handle_request_def Let_def\<close>)

lemma cookie_credentials:
  assumes "credentials_of E q = Some a" and "bearer_token (header_value q ''authorization'') = None"
  shows "aq_via_cookie a" and "aq_csrf_header a = header_value q (cp_csrf_header (ax_cookies E))"
    and "aq_csrf_cookie a = request_cookies (header_or [] q ''cookie'') (cp_csrf_name (ax_cookies E))"
    and "aq_require_csrf a \<longleftrightarrow> rq_method q \<notin> set safe_methods \<and> rq_path q \<notin> set (csrf_exempt_paths (ax_prefix E))"
  using assms by (auto simp: credentials_of_def access_request_of_def Let_def)



section \<open>Requests are steps of the drive\<close>

lemma snd_answer [simp]: "snd (answer f r) = snd r"
  by (simp add: answer_def split: prod.split sum.split)

lemma snd_on_db [simp]: "snd (on_db f x) = (snd (f (fst x)), snd x)"
  by (simp add: on_db_def split: prod.split)

lemma snd_reading [simp]: "snd (reading f x) = x"
  by (simp add: reading_def)

definition moves :: "(bytes \<Rightarrow> string) \<Rightarrow> db \<times> fs \<Rightarrow> db \<times> fs \<Rightarrow> bool" where
  "moves sha x y \<longleftrightarrow> y = x \<or> drive_step sha x y"

lemma moves_same [simp]: "moves sha x x"
  by (simp add: moves_def)

lemma moves_account: "moves sha x (exec_account A policy c (fst x), snd x)"
  using drive_step.Account [of sha "fst x" "snd x"] by (simp add: moves_def)

lemma moves_tree: "moves sha x (exec_tree P c (fst x), snd x)"
  using drive_step.Tree [of sha "fst x" "snd x"] by (simp add: moves_def)

lemma moves_activity: "moves sha x (exec_activity P c (fst x), snd x)"
  using drive_step.Favourites [of sha "fst x" "snd x"] by (simp add: moves_def)

lemma moves_with_principal:
  assumes "\<And>p. moves sha x (snd (f p x))"
  shows "moves sha x (snd (with_principal st f x))"
  using assms by (simp add: with_principal_def split: sum.split)

text \<open>The identifier that a new upload gets has not named an object before.\<close>

definition fresh_upload_id :: "ports \<Rightarrow> db \<Rightarrow> bool" where
  "fresh_upload_id P d \<longleftrightarrow>
     p_ids P 0 < 2 ^ 128 \<and> object_key (p_ids P 0) \<notin> live_keys d \<union> pending_deletes d"

lemma moves_start:
  assumes "fresh_upload_id P (fst x)"
  shows "moves sha x (snd (start_upload P policy c (fst x) (snd x)))"
proof (cases "start_upload P policy c (fst x) (snd x)" rule: prod_cases3)
  case (fields r d s)
  from drive_step.Start [OF _ _ this, of sha] assms show ?thesis
    by (simp add: moves_def fields fresh_upload_id_def)
qed

lemma moves_append: "moves sha x (snd (append_upload P S policy c (fst x) (snd x)))"
proof (cases "append_upload P S policy c (fst x) (snd x)" rule: prod_cases3)
  case (fields r d s)
  from drive_step.Append [OF this, of sha] show ?thesis by (simp add: moves_def fields)
qed

lemma moves_complete:
  assumes "sv_sha256 S = sha" and "0 < sv_block_size S"
  shows "moves sha x (snd (complete_upload P S policy c (fst x) (snd x)))"
proof (cases "complete_upload P S policy c (fst x) (snd x)" rule: prod_cases3)
  case (fields r d s)
  from drive_step.Complete [OF assms this] show ?thesis by (simp add: moves_def fields)
qed

lemma moves_cancel: "moves sha x (snd (cancel_upload P c (fst x) (snd x)))"
proof (cases "cancel_upload P c (fst x) (snd x)" rule: prod_cases3)
  case (fields r d s)
  from drive_step.Cancel [OF this, of sha] show ?thesis by (simp add: moves_def fields)
qed

lemma moves_account_commands [intro]:
  "moves sha x (snd (login A ap c (fst x)), snd x)"
  "moves sha x (snd (refresh_session A ap rc (fst x)), snd x)"
  "moves sha x (snd (logout A p ip ua (fst x)), snd x)"
  "moves sha x (snd (revoke_all_sessions A p ip ua (fst x)), snd x)"
  using moves_account [of sha x A _ "Login c"] moves_account [of sha x A _ "Refresh rc"]
    moves_account [of sha x A _ "Logout p ip ua"] moves_account [of sha x A _ "RevokeAll p ip ua"]
  by simp_all

lemma moves_tree_commands [intro]:
  "moves sha x (snd (create_folder P c1 (fst x)), snd x)"
  "moves sha x (snd (rename_entry P c2 (fst x)), snd x)"
  "moves sha x (snd (move_entry P c3 (fst x)), snd x)"
  "moves sha x (snd (copy_entry P c4 (fst x)), snd x)"
  "moves sha x (snd (trash_entry P c5 (fst x)), snd x)"
  "moves sha x (snd (restore_entry P c6 (fst x)), snd x)"
  "moves sha x (snd (permanently_delete P c7 (fst x)), snd x)"
  using moves_tree [of sha x P "CreateFolder c1"] moves_tree [of sha x P "Rename c2"]
    moves_tree [of sha x P "Move c3"] moves_tree [of sha x P "Copy c4"]
    moves_tree [of sha x P "MoveToTrash c5"] moves_tree [of sha x P "Restore c6"]
    moves_tree [of sha x P "Purge c7"]
  by simp_all

lemma moves_activity_commands [intro]:
  "moves sha x (snd (set_favorite P o1 e (fst x)), snd x)"
  "moves sha x (snd (unset_favorite P o1 e (fst x)), snd x)"
  "moves sha x (snd (record_open P o1 e (fst x)), snd x)"
  using moves_activity [of sha x P "SetFavorite o1 e"] moves_activity [of sha x P "UnsetFavorite o1 e"]
    moves_activity [of sha x P "RecordOpen o1 e"]
  by simp_all

lemma snd_purge_route [simp]: "snd (purge_route E rid t p d) =
    snd (permanently_delete (ax_ports E) \<lparr>pg_owner = pr_admin p, pg_trash_item = t\<rparr> d)"
  by (simp add: purge_route_def split: prod.split sum.split)

lemmas db_route_defs = login_route_def refresh_route_def logout_route_def revoke_all_route_def
  create_folder_route_def rename_route_def move_route_def copy_route_def trash_route_def
  restore_route_def set_favorite_route_def remove_favorite_route_def record_open_route_def

lemmas store_route_defs = start_upload_route_def append_route_def complete_upload_route_def
  cancel_upload_route_def on_store_def

lemma run_call_moves:
  assumes "sv_sha256 (ax_uploads E) = sha" and "0 < sv_block_size (ax_uploads E)"
    and "fresh_upload_id (ax_ports E) (fst x)"
  shows "moves sha x (snd (run_call E q rid st c x))"
  by (cases c)
    (auto simp: db_route_defs store_route_defs Let_def split: prod.split option.split
      intro!: moves_with_principal moves_start [OF assms(3)] moves_append
        moves_complete [OF assms(1,2)] moves_cancel)



section \<open>A session in cookies\<close>

definition cookie_policy_ok :: "cookie_policy \<Rightarrow> bool" where
  "cookie_policy_ok C \<longleftrightarrow>
     cookie_name (cp_access_name C) \<and> cookie_name (cp_csrf_name C)
     \<and> distinct [cp_access_name C, cp_refresh_name C, cp_csrf_name C] \<and> cp_refresh_path C \<noteq> ''/''"

lemma login_secrets:
  assumes "login_tx A policy c d = Inr (Inr res, d')"
  shows "ar_csrf res = av_csrf A" and "ar_session res = av_ids A 1"
  using assms
  by (auto simp: login_tx_def create_session_def new_session_def Let_def result_simps
      split: option.splits if_splits prod.splits)

lemma get_single_only: "length (db_accounts d) = 1 \<Longrightarrow> a \<in> set (db_accounts d) \<Longrightarrow> aa_deleted a = None \<Longrightarrow>
    get_single d = Some a"
  by (cases "db_accounts d") (auto simp: get_single_def)

text \<open>The credentials of a request that carries the cookies of a login.\<close>

lemma login_cookies_credentials:
  assumes "cookie_policy_ok (ax_cookies E)" and "CookieDelivery = how"
    and "cookie_text (it_value (ar_access r))" and "cookie_text (ar_csrf r)"
    and "header_value q ''authorization'' = None"
    and "header_value q ''cookie'' = Some (cookie_header (map (\<lambda>k. (sc_name k, sc_value k))
          (filter (\<lambda>k. sc_path k = ''/'') (deliver_tokens (ax_cookies E) r how))))"
  shows "\<exists>a. credentials_of E q = Some a \<and> aq_token a = it_value (ar_access r)
    \<and> aq_csrf_cookie a = Some (ar_csrf r) \<and> aq_csrf_header a = header_value q (cp_csrf_header (ax_cookies E))"
proof -
  let ?C = "ax_cookies E"
  have "header_value q ''cookie'' = Some (cookie_header [(cp_access_name ?C, it_value (ar_access r)), (cp_csrf_name ?C, ar_csrf r)])"
    using assms(1,2,6) by (auto simp: deliver_tokens_def cookie_policy_ok_def)
  moreover have "request_cookies (cookie_header [(cp_access_name ?C, it_value (ar_access r)), (cp_csrf_name ?C, ar_csrf r)]) =
      map_of (rev [(cp_access_name ?C, it_value (ar_access r)), (cp_csrf_name ?C, ar_csrf r)])"
    by (rule request_cookies_header) (use assms(1,3,4) in \<open>simp add: cookie_policy_ok_def\<close>)
  ultimately show ?thesis
    using assms(1,5) by (auto simp: credentials_of_def access_request_of_def bearer_token_def header_or_def Let_def
        cookie_policy_ok_def)
qed

lemma login_tx_token_accepted:
  fixes A :: auth_services
  assumes "login_tx A Q c d1 = Inr (Inr r, d')" and "jwt_verifies (av_jwt A)"
    and "\<forall>n \<le> 4. av_ids A n < 2 ^ 128" and "\<forall>a \<in> set (db_accounts d1). aa_id a < 2 ^ 128"
    and "0 \<le> av_now A" and "av_now A \<le> t"
    and "t < to_seconds (av_now A + jw_access_ttl (av_tokens A) * microseconds) * microseconds"
    and "t < av_now A + ap_refresh_ttl Q * second"
    and cr: "aq_token cr = it_value (ar_access r)" "aq_csrf_cookie cr = Some (ar_csrf r)" "aq_csrf_header cr = Some (ar_csrf r)"
  shows "\<exists>p. authenticate_access (A\<lparr>av_now := t\<rparr>) cr d' = Inr p
    \<and> (\<exists>a \<in> set (db_accounts d1). aa_id a = pr_admin p \<and> aa_normalized a = normalize_username (av_unicode A) (lg_username c))"
proof -
  note sec = login_secrets [OF assms(1)]
  from login_tx_success [OF assms(1)] obtain a a' where a: "a \<in> set (db_accounts d1)"
      "aa_normalized a = normalize_username (av_unicode A) (lg_username c)"
    and s: "get_session d' (ar_session r) = Some (new_session A Q c (aa_id a))"
    and access: "ar_access r = issue_access (av_jwt A) (av_tokens A) (aa_id a) (ar_session r) (av_ids A 4) (av_now A)"
    and a': "a' \<in> set (db_accounts d')" "aa_id a' = aa_id a" "aa_enabled a'" "aa_deleted a' = None"
      "length (db_accounts d') = 1" by auto
  have decode: "decode_access (av_jwt A) (av_tokens A) (it_value (ar_access r)) t =
    Inr \<lparr>ac_admin = aa_id a, ac_session = ar_session r, ac_jti = av_ids A 4,
      ac_issued = to_seconds (av_now A) * microseconds,
      ac_expires = to_seconds (av_now A + jw_access_ttl (av_tokens A) * microseconds) * microseconds\<rparr>"
    unfolding access
    by (rule decode_access_own) (use assms(2-7) a(1) sec(2) in simp_all)
  have session: "session_is_active (new_session A Q c (aa_id a)) t"
      "as_csrf_hash (new_session A Q c (aa_id a)) = secret_digest (av_secrets A) (av_csrf A)"
    using assms(8) by (simp_all add: session_is_active_def new_session_def Let_def)
  have "authenticate_access (A\<lparr>av_now := t\<rparr>) cr d' =
      Inr \<lparr>pr_admin = aa_id a', pr_session = as_id (new_session A Q c (aa_id a)),
           pr_username = aa_username a', pr_via_cookie = aq_via_cookie cr\<rparr>"
    using cr decode s session get_single_only [OF a'(5,1,4)] a'(2,3) sec(1)
    by (simp add: authenticate_access_def active_session_def enabled_account_def csrf_ok_def secret_matches_def)
  with a a'(2) show ?thesis by auto
qed

text \<open>
  C9: a login with cookies gives a working session. A client that sends back the cookies of path
  \<open>/\<close> which a successful login has set, and the value of the readable one as the CSRF header,
  is authenticated for every method and path as the account of the username that logged in, as
  long as neither the access token nor the session has expired; the tokens themselves are in
  cookies that scripts cannot read.
\<close>

theorem cookie_login_is_usable:
  assumes "login_route E q rid u w CookieDelivery d = (Inr rep, d')"
    and "jwt_verifies (av_jwt (ax_auth E))" and "cookie_policy_ok (ax_cookies E)"
    and "\<forall>n \<le> 4. av_ids (ax_auth E) n < 2 ^ 128" and "\<forall>a \<in> set (db_accounts d). aa_id a < 2 ^ 128"
    and "\<forall>k \<in> set (rp_cookies rep). cookie_text (sc_value k)"
    and "0 \<le> av_now (ax_auth E)" and "av_now (ax_auth E) \<le> t"
    and "t < to_seconds (av_now (ax_auth E) + jw_access_ttl (av_tokens (ax_auth E)) * microseconds) * microseconds"
    and "t < av_now (ax_auth E) + ap_refresh_ttl (ax_auth_policy E) * second"
    and "header_value q' ''authorization'' = None"
    and "header_value q' ''cookie'' = Some (cookie_header (map (\<lambda>k. (sc_name k, sc_value k))
          (filter (\<lambda>k. sc_path k = ''/'') (rp_cookies rep))))"
    and "k \<in> set (rp_cookies rep)" and "sc_name k = cp_csrf_name (ax_cookies E)"
    and "header_value q' (cp_csrf_header (ax_cookies E)) = Some (sc_value k)"
  shows "(\<exists>p. authenticates (E\<lparr>ax_auth := (ax_auth E)\<lparr>av_now := t\<rparr>\<rparr>) q' d' p
      \<and> (\<exists>a \<in> set (db_accounts d). aa_id a = pr_admin p
           \<and> aa_normalized a = normalize_username (av_unicode (ax_auth E)) u))
    \<and> (\<forall>k' \<in> set (rp_cookies rep). sc_http_only k' \<longleftrightarrow> k' \<noteq> k)"
proof -
  let ?A = "ax_auth E" and ?C = "ax_cookies E"
  define c where "c = \<lparr>lg_username = u, lg_password = w, lg_client_ip = fst (request_metadata q),
      lg_user_agent = snd (request_metadata q)\<rparr>"
  from assms(1) obtain r where login: "login ?A (ax_auth_policy E) c d = (Inr r, d')"
    and cookies: "rp_cookies rep = deliver_tokens ?C r CookieDelivery"
    by (auto simp: login_route_def answer_def c_def authentication_reply_def split: prod.splits sum.splits)
  from login_success [OF login] obtain d1 where tx: "login_tx ?A (ax_auth_policy E) c d1 = Inr (Inr r, d')"
    and acc: "db_accounts d1 = db_accounts d" .
  have plain: "cookie_text (it_value (ar_access r))" "cookie_text (ar_csrf r)"
    using assms(6) by (simp_all add: cookies deliver_tokens_def)
  have k: "sc_value k = ar_csrf r" "\<not> sc_http_only k" "k = last (rp_cookies rep)"
    using assms(3,13,14) by (auto simp: cookies deliver_tokens_def cookie_policy_ok_def)
  let ?F = "E\<lparr>ax_auth := ?A\<lparr>av_now := t\<rparr>\<rparr>"
  have "\<exists>cr. credentials_of ?F q' = Some cr \<and> aq_token cr = it_value (ar_access r)
    \<and> aq_csrf_cookie cr = Some (ar_csrf r) \<and> aq_csrf_header cr = header_value q' (cp_csrf_header (ax_cookies ?F))"
    by (rule login_cookies_credentials) (use assms(3,11,12) plain in \<open>simp_all add: cookies\<close>)
  then obtain cr where cr: "credentials_of ?F q' = Some cr" "aq_token cr = it_value (ar_access r)"
    "aq_csrf_cookie cr = Some (ar_csrf r)" "aq_csrf_header cr = Some (ar_csrf r)"
    using assms(15) k(1) by auto
  have "\<exists>p. authenticate_access (?A\<lparr>av_now := t\<rparr>) cr d' = Inr p
    \<and> (\<exists>a \<in> set (db_accounts d1). aa_id a = pr_admin p \<and> aa_normalized a = normalize_username (av_unicode ?A) (lg_username c))"
    by (rule login_tx_token_accepted [OF tx]) (use assms(2,4,5,7-10) cr acc in simp_all)
  then obtain p where "authenticates ?F q' d' p"
    "\<exists>a \<in> set (db_accounts d). aa_id a = pr_admin p \<and> aa_normalized a = normalize_username (av_unicode ?A) u"
    using cr(1) acc by (auto simp: authenticates_def c_def)
  moreover have "\<forall>k' \<in> set (rp_cookies rep). sc_http_only k' \<longleftrightarrow> k' \<noteq> k"
    using k by (auto simp: cookies deliver_tokens_def)
  ultimately show ?thesis by blast
qed

definition login_request :: http_request where
  "login_request = plain_request ''POST'' ''/api/v1/auth/login'' []"

definition jar_request :: "reply \<Rightarrow> http_request" where
  "jar_request rep = plain_request ''POST'' ''/api/v1/storage/folders''
     [(''cookie'', cookie_header (map (\<lambda>k. (sc_name k, sc_value k)) (filter (\<lambda>k. sc_path k = ''/'') (rp_cookies rep)))),
      (''x-csrf-token'', ''csrf'')]"

lemma jar_request_headers:
  "header_value (jar_request rep) ''cookie'' =
     Some (cookie_header (map (\<lambda>k. (sc_name k, sc_value k)) (filter (\<lambda>k. sc_path k = ''/'') (rp_cookies rep))))"
  "header_value (jar_request rep) ''authorization'' = None"
  "header_value (jar_request rep) ''x-csrf-token'' = Some ''csrf''"
  unfolding header_value_def sample_header_names by (simp_all add: jar_request_def plain_request_def)

lemma cookie_text_encode: "cookie_text (jl_encode plain_jwt p s)"
  by (simp add: plain_jwt_def cookie_text_hex)

lemma sample_api_login:
  "\<exists>res. fst (login (ax_auth (sample_api 2)) sample_auth_policy
      \<lparr>lg_username = ''Ann'', lg_password = ''secret'', lg_client_ip = ''ip'', lg_user_agent = []\<rparr> db1) = Inr res
    \<and> ar_csrf res = ''csrf'' \<and> cookie_text (it_value (ar_access res)) \<and> cookie_text (it_value (ar_refresh res))"
  by (simp add: cookie_text_encode login_def enforce_rate_limit_def rate_consume_def consume_locked_def allowed_now_def commit_then_raise_def
    login_tx_def get_by_normalized_username_def account_is_locked_def verify_password_def sample_hasher_def
    save_account_def register_successful_login_def create_session_def new_session_def add_session_def write_sessions_def
    session_check_def issue_refresh_def issue_access_def secret_digest_def encode_token_def token_payload_def
    sample_jwt_settings_def sample_api_def db1_def run_defs)

theorem cookie_login_is_usable_witness:
  "\<exists>rep d'. login_route (sample_api 2) login_request ''r2'' ''Ann'' ''secret'' CookieDelivery db1 = (Inr rep, d')
     \<and> (\<exists>p. authenticates ((sample_api 2)\<lparr>ax_auth := (ax_auth (sample_api 2))\<lparr>av_now := 3\<rparr>\<rparr>) (jar_request rep) d' p)"
proof -
  from sample_api_login obtain res where
    res: "fst (login (ax_auth (sample_api 2)) sample_auth_policy
      \<lparr>lg_username = ''Ann'', lg_password = ''secret'', lg_client_ip = ''ip'', lg_user_agent = []\<rparr> db1) = Inr res"
    and texts: "ar_csrf res = ''csrf''" "cookie_text (it_value (ar_access res))" "cookie_text (it_value (ar_refresh res))"
    by blast
  have meta: "request_metadata login_request = (''ip'', [])"
    by (simp add: request_metadata_def login_request_def plain_request_def header_or_def header_value_def)
  obtain rep d' where run: "login_route (sample_api 2) login_request ''r2'' ''Ann'' ''secret'' CookieDelivery db1 = (Inr rep, d')"
    and rep: "rep = authentication_reply (sample_api 2) ''r2'' CookieDelivery res"
    using res by (cases "login (ax_auth (sample_api 2)) sample_auth_policy
        \<lparr>lg_username = ''Ann'', lg_password = ''secret'', lg_client_ip = ''ip'', lg_user_agent = []\<rparr> db1")
      (auto simp: login_route_def meta answer_def sample_api_def)
  have cookies: "rp_cookies rep = deliver_tokens sample_cookies res CookieDelivery"
    by (simp add: rep authentication_reply_def sample_api_def)
  let ?k = "last (rp_cookies rep)"
  have E: "av_jwt (ax_auth (sample_api 2)) = plain_jwt" "ax_cookies (sample_api 2) = sample_cookies"
      "av_now (ax_auth (sample_api 2)) = 2" "jw_access_ttl (av_tokens (ax_auth (sample_api 2))) = 900"
      "ap_refresh_ttl (ax_auth_policy (sample_api 2)) = 1000" "av_ids (ax_auth (sample_api 2)) n = sample_id (20 + n)" for n
    by (simp_all add: sample_api_def sample_auth_def sample_jwt_settings_def sample_auth_policy_def)
  have names: "cookie_policy_ok sample_cookies"
    by (simp add: cookie_policy_ok_def sample_cookies_def cookie_name_def cookie_text_def latin1_space_def Let_def)
  have plain: "\<forall>k \<in> set (rp_cookies rep). cookie_text (sc_value k)"
    unfolding cookies deliver_tokens_def using texts
    by (simp add: cookie_text_def latin1_space_def Let_def)
  have csrf: "?k \<in> set (rp_cookies rep)" "sc_name ?k = cp_csrf_name sample_cookies" "sc_value ?k = ''csrf''"
    by (simp_all add: cookies deliver_tokens_def texts)
  have ids: "\<forall>n \<le> 4. av_ids (ax_auth (sample_api 2)) n < 2 ^ 128" "\<forall>a \<in> set (db_accounts db1). aa_id a < 2 ^ 128"
    by (simp_all add: E sample_id_def db1_def sample_account_def new_account_def sample_auth_def)
  have times: "0 \<le> av_now (ax_auth (sample_api 2))" "av_now (ax_auth (sample_api 2)) \<le> 3"
      "3 < to_seconds (av_now (ax_auth (sample_api 2)) + jw_access_ttl (av_tokens (ax_auth (sample_api 2))) * microseconds) * microseconds"
      "3 < av_now (ax_auth (sample_api 2)) + ap_refresh_ttl (ax_auth_policy (sample_api 2)) * second"
    unfolding E by (simp_all add: to_seconds_def microseconds_def second_def)
  have header: "header_value (jar_request rep) (cp_csrf_header (ax_cookies (sample_api 2))) = Some (sc_value ?k)"
    unfolding E csrf(3) using jar_request_headers(3) by (simp add: sample_cookies_def)
  show ?thesis
    using cookie_login_is_usable [OF run _ _ ids plain times jar_request_headers(2,1) csrf(1) _ header]
      plain_jwt_verifies names csrf(2) run
    unfolding E by blast
qed

end
