(* ===== verification/Cache_Properties.thy ===== *)
theory Cache_Properties
  imports Api_Samples
begin

text \<open>
  Revalidation of metadata: when a listing that a client has kept is answered 304, what that answer
  says about the listing now, and what it does not see.
\<close>

section \<open>The validator of a listing\<close>

lemma py_split_join:
  assumes "xs \<noteq> []" and "\<forall>x \<in> set xs. CHR 0x1F \<notin> set x"
  shows "py_split (CHR 0x1F) (join_with unit_separator xs) = xs"
  using assms
proof (induction "unit_separator" xs rule: join_with.induct)
  case (2 x)
  then show ?case by (simp add: py_split_single)
next
  case (3 x y ys)
  then show ?case by (simp add: unit_separator_def py_split_append)
qed simp

lemma join_with_inject:
  assumes "join_with unit_separator xs = join_with unit_separator ys" and "xs \<noteq> []" "ys \<noteq> []"
    and "\<forall>x \<in> set xs \<union> set ys. CHR 0x1F \<notin> set x"
  shows "xs = ys"
proof -
  have "xs = py_split (CHR 0x1F) (join_with unit_separator xs)"
    by (rule py_split_join [symmetric]) (use assms(2,4) in blast)+
  also have "\<dots> = py_split (CHR 0x1F) (join_with unit_separator ys)" by (simp only: assms(1))
  also have "\<dots> = ys" by (rule py_split_join) (use assms(3,4) in blast)+
  finally show ?thesis .
qed

text \<open>The documented form of the calendar texts: one text per instant, without control characters.\<close>

definition calendar_texts :: "http_texts \<Rightarrow> bool" where
  "calendar_texts T \<longleftrightarrow> inj (ht_isoformat T) \<and> (\<forall>t. CHR 0x1F \<notin> set (ht_isoformat T t))"

definition etag_parts :: "http_texts \<Rightarrow> uuid \<Rightarrow> storage_entry_dto list \<Rightarrow> string option \<Rightarrow> string list" where
  "etag_parts T f items c =
     uuid_str f # map (\<lambda>i. uuid_str (de_id i) @ '':'' @ ht_isoformat T (de_updated i)) items
       @ [case c of None \<Rightarrow> [] | Some t \<Rightarrow> t]"

lemma entries_etag_parts: "entries_etag T f items c = metadata_etag T (etag_parts T f items c)"
  by (simp add: entries_etag_def etag_parts_def)

lemma hex_digit_printable: "n < 16 \<Longrightarrow> hex_digit n \<noteq> CHR 0x1F"
proof
  assume "n < 16" and "hex_digit n = CHR 0x1F"
  then have "of_char (hex_digit n) = (31 :: nat)" by simp
  with \<open>n < 16\<close> show False by (auto simp: hex_digit_def split: if_splits)
qed

lemma hex_of_printable: "CHR 0x1F \<notin> set (hex_of n w)"
  by (induction n arbitrary: w) (auto simp: hex_digit_printable [symmetric])

lemma uuid_str_printable: "CHR 0x1F \<notin> set (uuid_str u)"
  using hex_of_printable [of 32 u]
  by (auto simp: uuid_str_def uuid_hex_def Let_def dest: in_set_takeD in_set_dropD)

lemma base64_digit_printable: "base64_digit n \<noteq> CHR 0x1F"
proof
  assume *: "base64_digit n = CHR 0x1F"
  then have "n < 62" by (auto simp: base64_digit_def split: if_splits)
  moreover from * have "of_char (base64_digit n) = (31 :: nat)" by simp
  ultimately show False by (auto simp: base64_digit_def split: if_splits)
qed

lemma urlsafe_base64_printable: "CHR 0x1F \<notin> set (urlsafe_base64 bs)"
  by (induction bs rule: urlsafe_base64.induct) (simp_all add: Let_def base64_digit_printable [symmetric])

lemma urlsafe_base64_empty: "urlsafe_base64 bs = [] \<longleftrightarrow> bs = []"
  by (cases bs rule: urlsafe_base64.cases) (auto simp: Let_def)

lemma encode_cursor_plain: "CHR 0x1F \<notin> set (encode_cursor T f dir c)" "encode_cursor T f dir c \<noteq> []"
  using urlsafe_base64_printable
  by (auto simp: encode_cursor_def urlsafe_base64_empty json_dumps_def)

definition seen :: "storage_entry_dto list \<Rightarrow> (uuid \<times> instant) list" where
  "seen items = map (\<lambda>i. (de_id i, de_updated i)) items"

lemma entry_part_inject:
  assumes "calendar_texts T" and "a < 2 ^ 128" "b < 2 ^ 128"
    and "uuid_str a @ '':'' @ ht_isoformat T t = uuid_str b @ '':'' @ ht_isoformat T u"
  shows "a = b \<and> t = u"
proof -
  from assms(4) have "uuid_str a = uuid_str b \<and> ht_isoformat T t = ht_isoformat T u"
    by (simp add: append_eq_append_conv)
  with assms(1,2,3) show ?thesis by (simp add: uuid_str_inject calendar_texts_def inj_eq)
qed

lemma etag_parts_inject:
  assumes T: "calendar_texts T" and ids: "\<forall>i \<in> set items \<union> set items'. de_id i < 2 ^ 128"
    and c: "c \<noteq> Some []" "c' \<noteq> Some []"
    and eq: "etag_parts T f items c = etag_parts T f items' c'"
  shows "seen items = seen items' \<and> c = c'"
proof -
  let ?part = "\<lambda>i. uuid_str (de_id i) @ '':'' @ ht_isoformat T (de_updated i)"
  from eq have parts: "map ?part items = map ?part items'"
    and last: "(case c of None \<Rightarrow> [] | Some t \<Rightarrow> t) = (case c' of None \<Rightarrow> [] | Some t \<Rightarrow> t)"
    by (simp_all add: etag_parts_def)
  from parts ids have "seen items = seen items'"
  proof (induction items arbitrary: items')
    case (Cons i items)
    then obtain j js where items': "items' = j # js" by (cases items') auto
    with Cons.prems have "?part i = ?part j" "map ?part items = map ?part js" by simp_all
    with entry_part_inject [OF T] Cons items' show ?case by (auto simp: seen_def)
  qed (auto simp: seen_def)
  moreover from last c have "c = c'" by (cases c; cases c') auto
  ultimately show ?thesis ..
qed

lemma etag_parts_plain:
  assumes "calendar_texts T" and "\<forall>t. c = Some t \<longrightarrow> CHR 0x1F \<notin> set t"
  shows "\<forall>x \<in> set (etag_parts T f items c). CHR 0x1F \<notin> set x"
  using assms uuid_str_printable by (auto simp: etag_parts_def calendar_texts_def split: option.splits)

lemma entries_etag_cong:
  assumes "seen items = seen items'"
  shows "entries_etag T f items c = entries_etag T f items' c"
proof -
  have "map (\<lambda>(u, t). uuid_str u @ '':'' @ ht_isoformat T t) (seen items) =
      map (\<lambda>(u, t). uuid_str u @ '':'' @ ht_isoformat T t) (seen items')" using assms by simp
  then show ?thesis by (simp add: entries_etag_parts etag_parts_def seen_def comp_def)
qed

section \<open>A listing that a client has kept\<close>

definition folder_page ::
  "api_env \<Rightarrow> uuid \<Rightarrow> entries_query \<Rightarrow> principal \<Rightarrow> db \<Rightarrow> (storage_entry_dto list \<times> string option) result" where
  "folder_page E f eq p =
     list_folder_entries (p_unicode (ax_ports E)) (ax_texts E) (ax_collation E)
       \<lparr>cq_owner = pr_admin p, cq_parent = f, cq_filters = eq_filters eq,
        cq_sort = eq_sort eq, cq_direction = eq_direction eq\<rparr> (eq_limit eq) (eq_cursor eq)"

definition page_etag :: "api_env \<Rightarrow> uuid \<Rightarrow> entries_query \<Rightarrow> storage_entry_dto list \<Rightarrow> string option \<Rightarrow> string" where
  "page_etag E f eq items c =
     entries_etag (ax_texts E) f items c"

definition hex_digests :: "http_texts \<Rightarrow> bool" where
  "hex_digests T \<longleftrightarrow> (\<forall>x. set (ht_sha256 T x) \<subseteq> set hex_digits)"

lemma folder_page_cursor:
  assumes "folder_page E f eq p d = Inr (items, c)"
  shows "\<forall>t. c = Some t \<longrightarrow> CHR 0x1F \<notin> set t" and "c \<noteq> Some []"
proof -
  from assms obtain k where "c = map_option (encode_cursor (ax_texts E) (eq_sort eq) (eq_direction eq)) k"
    by (auto simp: folder_page_def list_folder_entries_def Let_def result_simps)
  then show "\<forall>t. c = Some t \<longrightarrow> CHR 0x1F \<notin> set t" and "c \<noteq> Some []"
    using encode_cursor_plain [of "ax_texts E" "eq_sort eq" "eq_direction eq"] by (cases k; simp)+
qed

lemma list_entries_route_page:
  assumes "folder_page E f eq p d = Inr (items, c)"
  shows "list_entries_route E q rid f eq p d =
    cached_reply E q (page_etag E f eq items c) (newest (map de_updated items))
      (success_response (EntriesBody f (map entry_data items)) rid c)"
  using assms by (simp add: list_entries_route_def folder_page_def page_etag_def Let_def)

lemma list_entries_route_Inr:
  assumes "list_entries_route E q rid f eq p d = Inr r"
  obtains items c where "folder_page E f eq p d = Inr (items, c)"
  using assms by (auto simp: list_entries_route_def folder_page_def result_simps)

lemma conditional_headers:
  "conditional_not_modified T q etag lm = Inr (Some hs) \<Longrightarrow> hs = cache_headers T etag lm"
  unfolding conditional_not_modified_def
  by (auto simp del: set_append split: option.splits if_splits simp: rbind_eq_Inr)

lemma cached_reply_headers:
  assumes "cached_reply E q etag lm body = Inr r"
  shows "rp_headers r = cache_headers (ax_texts E) etag lm"
proof -
  from assms obtain cached where c: "conditional_not_modified (ax_texts E) q etag lm = Inr cached"
    and r: "(case cached of Some hs \<Rightarrow> Inr (empty_reply 304 hs)
      | None \<Rightarrow> Inr (json_reply 200 (cache_headers (ax_texts E) etag lm) body)) = (Inr r :: reply result)"
    unfolding cached_reply_def rbind_eq_Inr by blast
  show ?thesis
  proof (cases cached)
    case None
    with r show ?thesis by (auto simp: json_reply_def)
  next
    case (Some hs)
    with r conditional_headers c show ?thesis by (auto simp: empty_reply_def)
  qed
qed

lemma cached_reply_tag:
  assumes "cached_reply E q etag lm body = Inr r" and "(''ETag'', tag) \<in> set (rp_headers r)"
  shows "tag = etag"
  using assms(2) unfolding cached_reply_headers [OF assms(1)] cache_headers_def
  by (cases lm) simp_all

lemma cached_reply_revalidates:
  assumes "hex_digests (ax_texts E)" and "header_value q ''if-none-match'' = Some (metadata_etag (ax_texts E) parts)"
  shows "cached_reply E q etag lm body =
    Inr (if etag = metadata_etag (ax_texts E) parts
         then empty_reply 304 (cache_headers (ax_texts E) etag lm)
         else json_reply 200 (cache_headers (ax_texts E) etag lm) body)"
proof -
  let ?t = "metadata_etag (ax_texts E) parts"
  have "\<forall>c \<in> set (ht_sha256 (ax_texts E) x). c \<in> set hex_digits" for x
    using assms(1) by (auto simp: hex_digests_def)
  from etag_candidates_of [OF this] have "etag_candidates ?t = [?t]" by (simp add: metadata_etag_def)
  moreover have "?t \<noteq> ''*''" by (simp add: metadata_etag_def dquote_def)
  ultimately show ?thesis
    by (simp only: cached_reply_def conditional_not_modified_def assms(2) option.case) simp
qed

text \<open>
  C35: a 304 answer is right about the entries. A client that presents the validator of a
  listing it got earlier is answered 304 exactly if the page now has the same entries in the same
  order, none of them updated since, and the same next cursor; otherwise it gets the page anew. The calendar
  texts are one per instant, the digest is hexadecimal and does not collide on the two texts.
\<close>

theorem listing_revalidation:
  assumes "list_entries_route E q rid f eq p d = Inr r" and "(''ETag'', tag) \<in> set (rp_headers r)"
    and "header_value q' ''if-none-match'' = Some tag"
    and "folder_page E f eq p d = Inr (items, c)" and "folder_page E f eq p d' = Inr (items', c')"
    and "\<forall>i \<in> set items \<union> set items'. de_id i < 2 ^ 128"
    and "calendar_texts (ax_texts E)" and "hex_digests (ax_texts E)"
    and "page_etag E f eq items' c' = page_etag E f eq items c \<Longrightarrow>
      join_with unit_separator (etag_parts (ax_texts E) f items' c') =
      join_with unit_separator (etag_parts (ax_texts E) f items c)"
  shows "\<exists>r'. list_entries_route E q' rid' f eq p d' = Inr r'
    \<and> rp_status r' = (if seen items' = seen items
          \<and> c' = c then 304 else 200)
    \<and> (rp_status r' = 200 \<longrightarrow> (\<exists>env. rp_body r' = JsonBody env \<and> ev_data env = EntriesBody f (map entry_data items')))"
proof -
  let ?T = "ax_texts E"
  have tag: "tag = page_etag E f eq items c"
    using assms(1,2) unfolding list_entries_route_page [OF assms(4)] by (rule cached_reply_tag)
  have "header_value q' ''if-none-match'' = Some (metadata_etag ?T (etag_parts ?T f items c))"
    using assms(3) by (simp only: tag page_etag_def entries_etag_parts)
  note answer = cached_reply_revalidates [OF assms(8) this]
  note texts = folder_page_cursor [OF assms(4)] folder_page_cursor [OF assms(5)]
  have ids: "\<forall>i \<in> set items' \<union> set items. de_id i < 2 ^ 128" using assms(6) by (simp only: Un_commute)
  have "page_etag E f eq items' c' = page_etag E f eq items c \<longleftrightarrow> seen items' = seen items \<and> c' = c"
  proof
    assume "page_etag E f eq items' c' = page_etag E f eq items c"
    from assms(9) [OF this] have "etag_parts ?T f items' c' = etag_parts ?T f items c"
    proof (rule join_with_inject)
      show "\<forall>x \<in> set (etag_parts ?T f items' c') \<union> set (etag_parts ?T f items c). CHR 0x1F \<notin> set x"
        unfolding ball_Un by (intro conjI etag_parts_plain [OF assms(7)] texts)
    qed (simp_all add: etag_parts_def)
    then show "seen items' = seen items \<and> c' = c"
      by (rule etag_parts_inject [OF assms(7) ids texts(4,2)])
  next
    assume *: "seen items' = seen items \<and> c' = c"
    show "page_etag E f eq items' c' = page_etag E f eq items c"
      unfolding page_etag_def conjunct2 [OF *] by (rule entries_etag_cong [OF conjunct1 [OF *]])
  qed
  then have same: "page_etag E f eq items' c' = metadata_etag ?T (etag_parts ?T f items c) \<longleftrightarrow>
      seen items' = seen items \<and> c' = c"
    by (simp only: page_etag_def entries_etag_parts)
  show ?thesis
  proof (cases "seen items' = seen items \<and> c' = c")
    case True
    show ?thesis
      unfolding list_entries_route_page [OF assms(5)] answer same if_P [OF True] by (simp add: empty_reply_def)
  next
    case False
    show ?thesis
      unfolding list_entries_route_page [OF assms(5)] answer same if_not_P [OF False]
      by (simp add: json_reply_def success_response_def)
  qed
qed

section \<open>Favourites are not seen\<close>

definition with_favorites :: "(uuid \<Rightarrow> bool) \<Rightarrow> storage_entry_dto list \<Rightarrow> storage_entry_dto list" where
  "with_favorites fav items = map (\<lambda>i. i\<lparr>de_is_favorite := fav (de_id i)\<rparr>) items"

lemma entry_to_dto_favorite: "(entry_to_dto e b)\<lparr>de_is_favorite := b'\<rparr> = entry_to_dto e b'"
  and de_id_entry_to_dto [simp]: "de_id (entry_to_dto e b) = e_id e"
  by (simp_all add: entry_to_dto_def split: entry_kind.split)

lemma entry_sort_value_favorite: "entry_sort_value U (i\<lparr>de_is_favorite := b\<rparr>) f = entry_sort_value U i f"
  by (cases f) (simp_all add: entry_sort_value_def)

lemma list_children_favorites: "list_children U C (d\<lparr>db_favorites := F\<rparr>) q n cur = list_children U C d q n cur"
  by (simp add: list_children_def fetch_children_def child_rows_def)

lemma get_folder_favorites: "get_folder U (d\<lparr>db_favorites := F\<rparr>) i b = get_folder U d i b"
  by (simp add: get_folder_def get_entry_def to_entry_def cong: option.case_cong)

text \<open>A change of favourites changes nothing in a listing but the flags.\<close>

lemma folder_entries_page_favorites:
  assumes "folder_entries_page U C q n cursor d = Inr (items, c)"
  shows "folder_entries_page U C q n cursor (d\<lparr>db_favorites := F\<rparr>) =
    Inr (with_favorites (\<lambda>i. i \<in> favorite_entry_ids (d\<lparr>db_favorites := F\<rparr>) (cq_owner q) (map de_id items)) items, c)"
proof -
  from assms obtain folder entries has_more where
    head: "get_folder U d (cq_parent q) False = Inr folder"
      "case folder of None \<Rightarrow> False | Some f \<Rightarrow> e_owner f = cq_owner q"
      "list_children U C d q n cursor = Inr (entries, has_more)"
    and items: "items = map (\<lambda>e. entry_to_dto e (e_id e \<in> favorite_entry_ids d (cq_owner q) (map e_id entries))) entries"
    and c: "if has_more \<and> items \<noteq> [] then rbind (entry_sort_value U (last items) (cq_sort q)) (\<lambda>v. Inr (Some (v, de_id (last items)))) = Inr c
      else c = None"
    by (auto simp: folder_entries_page_def Let_def result_simps split: if_splits)
  have ids: "map de_id items = map e_id entries" by (simp add: items comp_def)
  let ?fav = "\<lambda>i. i \<in> favorite_entry_ids (d\<lparr>db_favorites := F\<rparr>) (cq_owner q) (map de_id items)"
  define new where "new = map (\<lambda>e. entry_to_dto e
      (e_id e \<in> favorite_entry_ids (d\<lparr>db_favorites := F\<rparr>) (cq_owner q) (map e_id entries))) entries"
  have new: "new = with_favorites ?fav items"
    unfolding new_def ids by (simp add: items with_favorites_def comp_def entry_to_dto_favorite)
  then have nil: "entries \<noteq> [] \<longleftrightarrow> items \<noteq> []" and
    last: "items \<noteq> [] \<Longrightarrow> last new = (last items)\<lparr>de_is_favorite := ?fav (de_id (last items))\<rparr>"
    by (simp_all add: with_favorites_def last_map items)
  have "folder_entries_page U C q n cursor (d\<lparr>db_favorites := F\<rparr>) =
      (if has_more \<and> entries \<noteq> []
       then rbind (entry_sort_value U (last new) (cq_sort q)) (\<lambda>v. Inr (new, Some (v, de_id (last new))))
       else Inr (new, None))"
    using head(1,2)
    unfolding folder_entries_page_def Let_def get_folder_favorites list_children_favorites head(3)
    by (cases folder) (simp_all add: new_def [symmetric])
  also have "\<dots> = Inr (new, c)"
    using c last nil by (auto simp: entry_sort_value_favorite result_simps split: if_splits)
  finally show ?thesis by (simp only: new)
qed

lemma list_folder_entries_favorites:
  assumes "list_folder_entries U T C q limit v d = Inr (items, c)"
  shows "list_folder_entries U T C q limit v (d\<lparr>db_favorites := F\<rparr>) =
    Inr (with_favorites (\<lambda>i. i \<in> favorite_entry_ids (d\<lparr>db_favorites := F\<rparr>) (cq_owner q) (map de_id items)) items, c)"
  using assms
  by (auto simp: list_folder_entries_def Let_def result_simps folder_entries_page_favorites [where F = F])

lemma seen_with_favorites [simp]: "seen (with_favorites fav items) = seen items"
  by (simp add: seen_def with_favorites_def comp_def)

lemma set_favorite_D:
  assumes "set_favorite P owner e d = (Inr b, d')"
  shows "d' = d\<lparr>db_favorites := db_favorites d'\<rparr>" and "\<exists>x \<in> set (db_favorites d'). favorite_is owner e x"
proof -
  from assms obtain b' where "add_favorite owner e (p_now P) d = Inr (b', d')"
    by (auto simp: set_favorite_def set_favorite_tx_def run_tx_eq_Inr result_simps)
  then show "d' = d\<lparr>db_favorites := db_favorites d'\<rparr>" and "\<exists>x \<in> set (db_favorites d'). favorite_is owner e x"
    by (auto simp: add_favorite_def favorite_is_def list_ex_iff split: if_splits)
qed

text \<open>
  What a 304 does not say. The validator of a listing leaves out the favourite marks that the
  listing shows: after an entry of the page was marked as a favourite, a client that revalidates
  its copy is told that it is current, although the page now reads differently.
\<close>

theorem favourite_change_is_not_seen:
  assumes "list_entries_route E q rid f eq p d = Inr r" and "(''ETag'', tag) \<in> set (rp_headers r)"
    and "header_value q' ''if-none-match'' = Some tag" and "hex_digests (ax_texts E)"
    and "folder_page E f eq p d = Inr (items, c)"
    and "i \<in> set items" and "\<not> de_is_favorite i"
    and "set_favorite (ax_ports E) (pr_admin p) (de_id i) d = (Inr b, d')"
  shows "\<exists>r' items'. list_entries_route E q' rid' f eq p d' = Inr r' \<and> rp_status r' = 304
    \<and> folder_page E f eq p d' = Inr (items', c) \<and> map entry_data items' \<noteq> map entry_data items"
proof -
  let ?fav = "\<lambda>e. e \<in> favorite_entry_ids d' (pr_admin p) (map de_id items)"
  note d' = set_favorite_D [OF assms(8)]
  have page: "folder_page E f eq p d' = Inr (with_favorites ?fav items, c)"
    using list_folder_entries_favorites [OF assms(5) [unfolded folder_page_def], of "db_favorites d'"]
    unfolding d'(1) [symmetric] folder_page_def by simp
  have tag: "tag = page_etag E f eq items c"
    using assms(1,2) unfolding list_entries_route_page [OF assms(5)] by (rule cached_reply_tag)
  have same: "page_etag E f eq (with_favorites ?fav items) c = tag"
    unfolding tag page_etag_def by (rule entries_etag_cong) simp
  have "header_value q' ''if-none-match'' = Some (metadata_etag (ax_texts E)
      (etag_parts (ax_texts E) f items c))"
    using assms(3) by (simp only: tag page_etag_def entries_etag_parts)
  note answer = cached_reply_revalidates [OF assms(4) this]
  have "list_entries_route E q' rid' f eq p d' =
      Inr (empty_reply 304 (cache_headers (ax_texts E) tag (newest (map de_updated (with_favorites ?fav items)))))"
    unfolding list_entries_route_page [OF page] answer same
    by (simp only: tag page_etag_def entries_etag_parts if_True refl simp_thms)
  moreover have "map entry_data (with_favorites ?fav items) \<noteq> map entry_data items"
  proof
    assume "map entry_data (with_favorites ?fav items) = map entry_data items"
    then have "\<forall>x \<in> set items. entry_data (x\<lparr>de_is_favorite := ?fav (de_id x)\<rparr>) = entry_data x"
      by (simp add: with_favorites_def)
    with assms(6) have "entry_data (i\<lparr>de_is_favorite := ?fav (de_id i)\<rparr>) = entry_data i" by blast
    then have "?fav (de_id i) = de_is_favorite i" by (simp add: entry_data_def)
    moreover obtain x where "x \<in> set (db_favorites d')" "fav_owner x = pr_admin p" "fav_entry x = de_id i"
      using d'(2) by (auto simp: favorite_is_def)
    with assms(6) have "?fav (de_id i)"
      by (auto simp: favorite_entry_ids_def intro!: rev_image_eqI [of x])
    ultimately show False using assms(7) by simp
  qed
  ultimately show ?thesis using page by (auto simp: empty_reply_def)
qed

text \<open>
  A date header can break a listing. A client whose \<open>If-Modified-Since\<close> names a date of the last
  hours of the year 9999 in a zone west of Greenwich, which the parser accepts, gets no listing of a
  folder that has entries: the conversion to UTC is outside of the guarded block and the request
  ends as an internal error.
\<close>

theorem late_date_is_an_internal_error:
  assumes "folder_page E f eq p d = Inr (items, c)" and "items \<noteq> []"
    and "header_value q ''if-none-match'' = None" and "header_value q ''if-modified-since'' = Some v"
    and "ht_parse (ax_texts E) v = Some t" and "last_instant < t"
  shows "list_entries_route E q rid f eq p d = Inl PyOverflowError
    \<and> rp_status (finish rid (list_entries_route E q rid f eq p d)) = 500"
proof -
  have "newest (map de_updated items) \<noteq> None" using assms(2) by (cases items) (simp_all split: option.split)
  then obtain m where "newest (map de_updated items) = Some m" by blast
  then have "list_entries_route E q rid f eq p d = Inl PyOverflowError"
    unfolding list_entries_route_page [OF assms(1)]
    using assms(3-6) by (simp add: cached_reply_def conditional_not_modified_def astimezone_utc_def result_simps)
  then show ?thesis
    by (simp add: finish_def error_reply_of_def Let_def json_reply_def handle_error_def handle_unexpected_error_def)
qed

section \<open>On the sample drive\<close>

definition plain_query :: entries_query where
  "plain_query = \<lparr>eq_limit = 50, eq_cursor = None, eq_sort = SortName, eq_direction = Asc,
     eq_name = None, eq_kind = None, eq_extension = None, eq_minimum_size = None, eq_maximum_size = None,
     eq_modified_from = None, eq_modified_to = None\<rparr>"

definition docs_item :: storage_entry_dto where
  "docs_item = entry_to_dto \<lparr>e_id = sample_id 20, e_owner = sample_id 10, e_parent = Some (sample_id 11), e_name = ''Docs'',
     e_normalized = ''docs'', e_created = 2, e_updated = 2, e_deleted = None, e_kind = Folder\<rparr> False"

lemma sample_page: "folder_page (sample_api 3) (sample_id 11) plain_query cookie_principal db2 = Inr ([docs_item], None)"
  by (simp add: folder_page_def eq_filters_def list_folder_entries_def decode_cursor_def folder_entries_page_def sendable_filters_def plain_query_def cookie_principal_def sample_api_def
      page_limit_ok_def normalized_filters_def validate_filters_def both_def list_children_def fetch_children_def
      keyset_page_def cut_page_eq order_rows_def child_rows_def row_matches_def favorite_entry_ids_def docs_item_def db2_def db1_def run_defs)

definition sample_tag :: string where
  "sample_tag = page_etag (sample_api 3) (sample_id 11) plain_query [docs_item] None"

definition kept_request :: http_request where
  "kept_request = plain_request ''GET'' ''/api/v1/storage/folders'' [(''if-none-match'', sample_tag)]"

lemma sample_listing:
  "list_entries_route (sample_api 3) (plain_request verb url []) rid (sample_id 11) plain_query cookie_principal db2 =
     Inr (json_reply 200 (cache_headers sample_texts sample_tag (Some 2))
       (success_response (EntriesBody (sample_id 11) [entry_data docs_item]) rid None))"
  unfolding list_entries_route_page [OF sample_page]
  by (simp add: cached_reply_def conditional_not_modified_def header_value_def plain_request_def sample_tag_def
      docs_item_def entry_to_dto_def sample_api_def)

lemma kept_request_header: "header_value kept_request ''if-none-match'' = Some sample_tag"
  unfolding header_value_def sample_header_names by (simp add: kept_request_def plain_request_def)

lemma py_str_inject: "py_str m = py_str n \<longleftrightarrow> m = n"
proof -
  have "CHR ''-'' \<notin> set (dec k)" for k using dec_digits [of "CHR ''-''" k] by auto
  then have "CHR ''-'' # x \<noteq> dec k" for x k by (metis list.set_intros(1))
  then have sign: "CHR ''-'' # x \<noteq> dec k" "dec k \<noteq> CHR ''-'' # x" for x k by metis+
  show ?thesis
    by (cases "m < 0"; cases "n < 0") (auto simp: py_str_def sign dest!: dec_inject)
qed

lemma sample_texts_ok: "calendar_texts (ax_texts (sample_api k))" "hex_digests (ax_texts (sample_api k))"
proof -
  have "latin1_space (CHR 0x1F)" by (simp add: latin1_space_def Let_def)
  then have "CHR 0x1F \<notin> set (py_str t)" for t using py_str_plain by blast
  then show "calendar_texts (ax_texts (sample_api k))"
    by (simp add: calendar_texts_def sample_api_def sample_texts_def inj_def py_str_inject)
  show "hex_digests (ax_texts (sample_api k))"
    using set_hex_bytes by (simp add: hex_digests_def sample_api_def sample_texts_def)
qed

lemma sample_set_favorite:
  "fst (set_favorite (sample_ports 3) (sample_id 10) (sample_id 20) db2) = Inr True"
  by (simp add: set_favorite_def set_favorite_tx_def add_favorite_def db2_def db1_def run_defs)

theorem listing_revalidation_witness:
  "\<exists>r'. list_entries_route (sample_api 3) kept_request ''r2'' (sample_id 11) plain_query cookie_principal db2 = Inr r'
     \<and> rp_status r' = 304"
proof -
  have tag: "(''ETag'', sample_tag) \<in> set (rp_headers (json_reply 200 (cache_headers sample_texts sample_tag (Some 2))
      (success_response (EntriesBody (sample_id 11) [entry_data docs_item]) ''r2'' None)))"
    by (simp add: json_reply_def cache_headers_def)
  have ids: "\<forall>i \<in> set [docs_item] \<union> set [docs_item]. de_id i < 2 ^ 128"
    by (simp add: docs_item_def entry_to_dto_def sample_id_def)
  from listing_revalidation [OF sample_listing tag kept_request_header sample_page sample_page ids sample_texts_ok]
  show ?thesis by auto
qed

theorem favourite_change_is_not_seen_witness:
  "\<exists>r'. list_entries_route (sample_api 3) kept_request ''r2'' (sample_id 11) plain_query cookie_principal
       (snd (set_favorite (sample_ports 3) (sample_id 10) (sample_id 20) db2)) = Inr r' \<and> rp_status r' = 304"
proof -
  have tag: "(''ETag'', sample_tag) \<in> set (rp_headers (json_reply 200 (cache_headers sample_texts sample_tag (Some 2))
      (success_response (EntriesBody (sample_id 11) [entry_data docs_item]) ''r2'' None)))"
    by (simp add: json_reply_def cache_headers_def)
  from sample_set_favorite obtain d' where
    run: "set_favorite (ax_ports (sample_api 3)) (pr_admin cookie_principal) (de_id docs_item) db2 = (Inr True, d')"
    by (cases "set_favorite (sample_ports 3) (sample_id 10) (sample_id 20) db2")
      (simp add: sample_api_def cookie_principal_def docs_item_def entry_to_dto_def)
  from favourite_change_is_not_seen [OF sample_listing tag kept_request_header sample_texts_ok(2) sample_page _ _ run]
  show ?thesis using run by (auto simp: sample_api_def cookie_principal_def docs_item_def entry_to_dto_def)
qed

theorem late_date_is_an_internal_error_witness:
  "rp_status (finish ''r2'' (list_entries_route (sample_api 3)
     (plain_request ''GET'' ''/api/v1/storage/folders'' [(''if-modified-since'', (dec 253402318799))])
     ''r2'' (sample_id 11) plain_query cookie_principal db2)) = 500"
proof -
  let ?q = "plain_request ''GET'' ''/api/v1/storage/folders'' [(''if-modified-since'', (dec 253402318799))]"
  have "(253402318799 :: nat) < 10 ^ 12" by simp
  also have "(10 :: nat) ^ 12 \<le> 10 ^ 4300" by (rule power_increasing) simp_all
  finally have short: "(253402318799 :: nat) < 10 ^ 4300" .
  have names: "map ascii_lower ''if-modified-since'' = ''if-modified-since''" by code_simp
  have "header_value ?q ''if-none-match'' = None" "header_value ?q ''if-modified-since'' = Some (dec 253402318799)"
    unfolding header_value_def sample_header_names names by (simp_all add: plain_request_def)
  moreover have "ht_parse sample_texts (dec 253402318799) = Some (253402318799 * 1000000)"
    by (simp add: sample_texts_def py_int_dec [OF short])
  then have "ht_parse (ax_texts (sample_api 3)) (dec 253402318799) = Some (253402318799 * 1000000)" by (simp add: sample_api_def)
  moreover have "last_instant < 253402318799 * 1000000" by (simp add: last_instant_def microseconds_def)
  ultimately show ?thesis using late_date_is_an_internal_error [OF sample_page] by blast
qed

end
