(* ===== verification/Schema_Language.thy ===== *)
theory Schema_Language
  imports Prelude
begin

text \<open>
  The part of SQL that creates a schema: tables with columns and constraints, indexes, trigger
  functions and triggers, and the statements of the migrations as operations on a schema that fail
  where the database refuses them. SQL expressions (conditions and defaults) stay texts.
\<close>

section \<open>Schemas\<close>

datatype sql_type = UuidType | VarChar nat | BigIntType | IntegerType | BooleanType | TextType | TimestampTz | JsonbType

record column =
  cl_name :: string
  cl_type :: sql_type
  cl_nullable :: bool
  cl_default :: "string option"

datatype on_delete = DeleteCascade | DeleteRestrict | DeleteSetNull

text \<open>\<open>ForeignKey name columns referred_table referred_columns\<close>.\<close>

datatype table_constraint =
    Check string string
  | PrimaryKey string "string list"
  | Unique string "string list"
  | ForeignKey string "string list" string "string list" on_delete

record table =
  tb_name :: string
  tb_columns :: "column list"
  tb_constraints :: "table_constraint list"

record index =
  ix_name :: string
  ix_table :: string
  ix_columns :: "string list"
  ix_unique :: bool
  ix_where :: "string option"

record trigger =
  tg_name :: string
  tg_table :: string
  tg_function :: string

record schema =
  sm_tables :: "table list"
  sm_indexes :: "index list"
  sm_functions :: "string list"
  sm_triggers :: "trigger list"

definition empty_schema :: schema where
  "empty_schema = \<lparr>sm_tables = [], sm_indexes = [], sm_functions = [], sm_triggers = []\<rparr>"

definition apostrophe :: string where
  "apostrophe = [CHR 0x27]"

definition required :: "string \<Rightarrow> sql_type \<Rightarrow> column" where
  "required name t = \<lparr>cl_name = name, cl_type = t, cl_nullable = False, cl_default = None\<rparr>"

definition nullable :: "string \<Rightarrow> sql_type \<Rightarrow> column" where
  "nullable name t = \<lparr>cl_name = name, cl_type = t, cl_nullable = True, cl_default = None\<rparr>"

definition defaulted :: "string \<Rightarrow> sql_type \<Rightarrow> string \<Rightarrow> column" where
  "defaulted name t v = \<lparr>cl_name = name, cl_type = t, cl_nullable = False, cl_default = Some v\<rparr>"

definition index_on :: "string \<Rightarrow> string \<Rightarrow> string list \<Rightarrow> bool \<Rightarrow> string option \<Rightarrow> index" where
  "index_on name tbl cols unique condition =
     \<lparr>ix_name = name, ix_table = tbl, ix_columns = cols, ix_unique = unique, ix_where = condition\<rparr>"

section \<open>Statements\<close>

fun constraint_name :: "table_constraint \<Rightarrow> string" where
  "constraint_name (Check name _) = name"
| "constraint_name (PrimaryKey name _) = name"
| "constraint_name (Unique name _) = name"
| "constraint_name (ForeignKey name _ _ _ _) = name"

text \<open>A key is backed by an index of its name, in the name space of tables and indexes.\<close>

fun key_columns :: "table_constraint \<Rightarrow> (string \<times> string list) list" where
  "key_columns (PrimaryKey name cols) = [(name, cols)]"
| "key_columns (Unique name cols) = [(name, cols)]"
| "key_columns _ = []"

definition table_keys :: "table \<Rightarrow> (string \<times> string list) list" where
  "table_keys t = concat (map key_columns (tb_constraints t))"

definition table_relations :: "table \<Rightarrow> string list" where
  "table_relations t = tb_name t # map fst (table_keys t)"

definition relations :: "schema \<Rightarrow> string list" where
  "relations s = concat (map table_relations (sm_tables s)) @ map ix_name (sm_indexes s)"

definition find_table :: "schema \<Rightarrow> string \<Rightarrow> table option" where
  "find_table s name = find (\<lambda>t. tb_name t = name) (sm_tables s)"

definition has_columns :: "table \<Rightarrow> string list \<Rightarrow> bool" where
  "has_columns t cols \<longleftrightarrow> cols \<noteq> [] \<and> list_all (\<lambda>c. c \<in> set (map cl_name (tb_columns t))) cols"

fun referred_table :: "table_constraint \<Rightarrow> string option" where
  "referred_table (ForeignKey _ _ tbl _ _) = Some tbl"
| "referred_table _ = None"

text \<open>A foreign key names columns of the table and a key of an existing table, which may be the new one.\<close>

fun constraint_ok :: "schema \<Rightarrow> table \<Rightarrow> table_constraint \<Rightarrow> bool" where
  "constraint_ok s t (Check _ _) = True"
| "constraint_ok s t (PrimaryKey _ cols) = has_columns t cols"
| "constraint_ok s t (Unique _ cols) = has_columns t cols"
| "constraint_ok s t (ForeignKey _ cols tbl ref_cols _) =
     (has_columns t cols \<and> length cols = length ref_cols
      \<and> (case (if tbl = tb_name t then Some t else find_table s tbl) of
           None \<Rightarrow> False
         | Some r \<Rightarrow> ref_cols \<in> set (map snd (table_keys r))))"

definition table_ok :: "schema \<Rightarrow> table \<Rightarrow> bool" where
  "table_ok s t \<longleftrightarrow>
     distinct (map cl_name (tb_columns t)) \<and> distinct (map constraint_name (tb_constraints t))
     \<and> distinct (table_relations t) \<and> list_all (\<lambda>n. n \<notin> set (relations s)) (table_relations t)
     \<and> list_all (constraint_ok s t) (tb_constraints t)"

datatype ddl =
    CreateTable table
  | DropTable string
  | CreateIndex index
  | DropIndex string
  | CreateFunction string
  | DropFunction string
  | CreateTrigger string string string
  | DropTrigger string string

text \<open>Dropping a table takes its indexes and triggers along; a reference from another table refuses it.\<close>

fun apply_ddl :: "ddl \<Rightarrow> schema \<Rightarrow> schema option" where
  "apply_ddl (CreateTable t) s =
     (if table_ok s t then Some (s\<lparr>sm_tables := sm_tables s @ [t]\<rparr>) else None)"
| "apply_ddl (DropTable name) s =
     (if name \<in> set (map tb_name (sm_tables s))
         \<and> \<not> list_ex (\<lambda>t. tb_name t \<noteq> name \<and> Some name \<in> set (map referred_table (tb_constraints t)))
               (sm_tables s)
      then Some (s\<lparr>sm_tables := filter (\<lambda>t. tb_name t \<noteq> name) (sm_tables s),
             sm_indexes := filter (\<lambda>i. ix_table i \<noteq> name) (sm_indexes s),
             sm_triggers := filter (\<lambda>g. tg_table g \<noteq> name) (sm_triggers s)\<rparr>)
      else None)"
| "apply_ddl (CreateIndex i) s =
     (case find_table s (ix_table i) of
        None \<Rightarrow> None
      | Some t \<Rightarrow>
          if has_columns t (ix_columns i) \<and> ix_name i \<notin> set (relations s)
          then Some (s\<lparr>sm_indexes := sm_indexes s @ [i]\<rparr>) else None)"
| "apply_ddl (DropIndex name) s =
     (if name \<in> set (map ix_name (sm_indexes s))
      then Some (s\<lparr>sm_indexes := filter (\<lambda>i. ix_name i \<noteq> name) (sm_indexes s)\<rparr>) else None)"
| "apply_ddl (CreateFunction f) s =
     (if f \<notin> set (sm_functions s) then Some (s\<lparr>sm_functions := sm_functions s @ [f]\<rparr>) else None)"
| "apply_ddl (DropFunction f) s =
     (if f \<in> set (sm_functions s) \<and> f \<notin> set (map tg_function (sm_triggers s))
      then Some (s\<lparr>sm_functions := filter (\<lambda>g. g \<noteq> f) (sm_functions s)\<rparr>) else None)"
| "apply_ddl (CreateTrigger name tbl f) s =
     (if find_table s tbl \<noteq> None \<and> f \<in> set (sm_functions s)
         \<and> (name, tbl) \<notin> set (map (\<lambda>g. (tg_name g, tg_table g)) (sm_triggers s))
      then Some (s\<lparr>sm_triggers := sm_triggers s @ [\<lparr>tg_name = name, tg_table = tbl, tg_function = f\<rparr>]\<rparr>)
      else None)"
| "apply_ddl (DropTrigger name tbl) s =
     (if (name, tbl) \<in> set (map (\<lambda>g. (tg_name g, tg_table g)) (sm_triggers s))
      then Some (s\<lparr>sm_triggers :=
             filter (\<lambda>g. (tg_name g, tg_table g) \<noteq> (name, tbl)) (sm_triggers s)\<rparr>)
      else None)"

fun run_ddl :: "ddl list \<Rightarrow> schema \<Rightarrow> schema option" where
  "run_ddl [] s = Some s"
| "run_ddl (x # xs) s = Option.bind (apply_ddl x s) (run_ddl xs)"

lemma run_ddl_append: "run_ddl (xs @ ys) s = Option.bind (run_ddl xs s) (run_ddl ys)"
  by (induction xs arbitrary: s) (simp_all split: Option.bind_split)

end
