(* ===== verification/Migrations.thy ===== *)
theory Migrations
  imports Schema_Language
begin

text \<open>
  The migration scripts (\<open>alembic/versions/*.py\<close>): the statements of every upgrade and
  downgrade, in order. Revision \<open>0004\<close> only writes rows; it is in \<open>Root_Provisioning\<close>.
\<close>

section \<open>Helpers of the scripts\<close>

definition audit_columns :: "column list" where
  "audit_columns =
     [defaulted ''created_at'' TimestampTz ''CURRENT_TIMESTAMP'',
      defaulted ''updated_at'' TimestampTz ''CURRENT_TIMESTAMP'',
      nullable ''deleted_at'' TimestampTz]"

definition uuid7_expression :: "string \<Rightarrow> string" where
  "uuid7_expression col = ''(get_byte(uuid_send('' @ col @ ''), 6) >> 4) = 7''"

definition uuid7_constraint_0002 :: "string \<Rightarrow> string \<Rightarrow> table_constraint" where
  "uuid7_constraint_0002 col name = Check name (uuid7_expression col)"

definition uuid7_constraint_0003 :: "string \<Rightarrow> table_constraint" where
  "uuid7_constraint_0003 tbl = Check (''ck_'' @ tbl @ ''_id_uuid_v7'') (uuid7_expression ''id'')"

definition updated_at_trigger :: "string \<Rightarrow> string" where
  "updated_at_trigger tbl = ''tr_'' @ tbl @ ''_updated_at''"

definition add_updated_at_trigger :: "string \<Rightarrow> ddl" where
  "add_updated_at_trigger tbl = CreateTrigger (updated_at_trigger tbl) tbl ''drivempvd_set_updated_at''"

definition drop_updated_at_trigger :: "string \<Rightarrow> ddl" where
  "drop_updated_at_trigger tbl = DropTrigger (updated_at_trigger tbl) tbl"

section \<open>20260718_0001_create_outbox_events\<close>

definition outbox_events_table :: table where
  "outbox_events_table =
     \<lparr>tb_name = ''outbox_events'',
      tb_columns =
        [required ''id'' UuidType,
         required ''aggregate_id'' UuidType,
         required ''aggregate_type'' (VarChar 100),
         required ''event_type'' (VarChar 200),
         required ''occurred_at'' TimestampTz,
         required ''payload'' JsonbType,
         nullable ''processed_at'' TimestampTz,
         defaulted ''attempts'' IntegerType ''0'',
         nullable ''last_error'' TextType,
         defaulted ''created_at'' TimestampTz ''CURRENT_TIMESTAMP'',
         defaulted ''updated_at'' TimestampTz ''CURRENT_TIMESTAMP'',
         nullable ''deleted_at'' TimestampTz],
      tb_constraints =
        [Check ''ck_outbox_events_attempts_non_negative'' ''attempts >= 0'',
         Check ''ck_outbox_events_id_uuid_v7'' ''(get_byte(uuid_send(id), 6) >> 4) = 7'',
         PrimaryKey ''pk_outbox_events'' [''id'']]\<rparr>"

definition upgrade_0001 :: "ddl list" where
  "upgrade_0001 =
     [CreateTable outbox_events_table,
      CreateFunction ''drivempvd_set_updated_at'',
      CreateTrigger ''tr_outbox_events_updated_at'' ''outbox_events'' ''drivempvd_set_updated_at'',
      CreateIndex (index_on ''ix_outbox_events_pending_created_id'' ''outbox_events'' [''created_at'',
        ''id''] False (Some ''processed_at IS NULL AND deleted_at IS NULL'')),
      CreateIndex (index_on ''ix_outbox_events_aggregate_created_id'' ''outbox_events'' [''aggregate_id'',
        ''created_at'', ''id''] False (Some ''deleted_at IS NULL'')),
      CreateIndex (index_on ''ix_outbox_events_type_created_id'' ''outbox_events'' [''event_type'',
        ''created_at'', ''id''] False (Some ''deleted_at IS NULL'')),
      CreateIndex (index_on ''ix_outbox_events_deleted_at'' ''outbox_events'' [''deleted_at''] False (Some
        ''deleted_at IS NOT NULL''))]"

definition downgrade_0001 :: "ddl list" where
  "downgrade_0001 =
     [DropIndex ''ix_outbox_events_deleted_at'',
      DropIndex ''ix_outbox_events_type_created_id'',
      DropIndex ''ix_outbox_events_aggregate_created_id'',
      DropIndex ''ix_outbox_events_pending_created_id'',
      DropTrigger ''tr_outbox_events_updated_at'' ''outbox_events'',
      DropTable ''outbox_events'',
      DropFunction ''drivempvd_set_updated_at'']"

section \<open>20260718_0002_create_authentication\<close>

definition admin_accounts_table :: table where
  "admin_accounts_table =
     \<lparr>tb_name = ''admin_accounts'',
      tb_columns =
        [required ''id'' UuidType,
         defaulted ''singleton_key'' BooleanType ''TRUE'',
         required ''username'' (VarChar 100),
         required ''normalized_username'' (VarChar 100),
         required ''password_hash'' TextType,
         defaulted ''enabled'' BooleanType ''TRUE'',
         defaulted ''failed_login_attempts'' IntegerType ''0'',
         nullable ''locked_until'' TimestampTz,
         required ''password_changed_at'' TimestampTz,
         nullable ''last_login_at'' TimestampTz] @ audit_columns,
      tb_constraints =
        [Check ''ck_admin_accounts_failed_login_attempts_non_negative'' ''failed_login_attempts >= 0'',
         uuid7_constraint_0002 ''id'' ''ck_admin_accounts_id_uuid_v7'',
         Check ''ck_admin_accounts_singleton_key_true'' ''singleton_key IS TRUE'',
         PrimaryKey ''pk_admin_accounts'' [''id''],
         Unique ''uq_admin_accounts_normalized_username'' [''normalized_username''],
         Unique ''uq_admin_accounts_singleton_key'' [''singleton_key'']]\<rparr>"

definition auth_sessions_table :: table where
  "auth_sessions_table =
     \<lparr>tb_name = ''auth_sessions'',
      tb_columns =
        [required ''id'' UuidType,
         required ''admin_id'' UuidType,
         required ''family_id'' UuidType,
         required ''refresh_jti'' UuidType,
         required ''refresh_token_hash'' (VarChar 64),
         required ''csrf_token_hash'' (VarChar 64),
         required ''expires_at'' TimestampTz,
         required ''last_rotated_at'' TimestampTz,
         nullable ''revoked_at'' TimestampTz,
         nullable ''revoke_reason'' (VarChar 50),
         required ''ip_hash'' (VarChar 64),
         required ''user_agent_hash'' (VarChar 64)] @ audit_columns,
      tb_constraints =
        [ForeignKey ''fk_auth_sessions_admin_id_admin_accounts'' [''admin_id''] ''admin_accounts''
          [''id''] DeleteCascade,
         uuid7_constraint_0002 ''family_id'' ''ck_auth_sessions_family_id_uuid_v7'',
         uuid7_constraint_0002 ''id'' ''ck_auth_sessions_id_uuid_v7'',
         uuid7_constraint_0002 ''refresh_jti'' ''ck_auth_sessions_refresh_jti_uuid_v7'',
         PrimaryKey ''pk_auth_sessions'' [''id''],
         Unique ''uq_auth_sessions_refresh_jti'' [''refresh_jti'']]\<rparr>"

definition security_events_table :: table where
  "security_events_table =
     \<lparr>tb_name = ''security_events'',
      tb_columns =
        [required ''id'' UuidType,
         required ''event_type'' (VarChar 100),
         required ''occurred_at'' TimestampTz,
         nullable ''admin_id'' UuidType,
         nullable ''session_id'' UuidType,
         required ''ip_hash'' (VarChar 64),
         required ''user_agent_hash'' (VarChar 64),
         required ''details'' JsonbType] @ audit_columns,
      tb_constraints =
        [ForeignKey ''fk_security_events_admin_id_admin_accounts'' [''admin_id''] ''admin_accounts''
          [''id''] DeleteSetNull,
         uuid7_constraint_0002 ''id'' ''ck_security_events_id_uuid_v7'',
         PrimaryKey ''pk_security_events'' [''id'']]\<rparr>"

definition auth_rate_limits_table :: table where
  "auth_rate_limits_table =
     \<lparr>tb_name = ''auth_rate_limits'',
      tb_columns =
        [required ''id'' UuidType,
         required ''scope'' (VarChar 50),
         required ''subject_hash'' (VarChar 64),
         required ''window_started_at'' TimestampTz,
         required ''request_count'' IntegerType,
         nullable ''blocked_until'' TimestampTz] @ audit_columns,
      tb_constraints =
        [uuid7_constraint_0002 ''id'' ''ck_auth_rate_limits_id_uuid_v7'',
         Check ''ck_auth_rate_limits_request_count_non_negative'' ''request_count >= 0'',
         PrimaryKey ''pk_auth_rate_limits'' [''id''],
         Unique ''uq_auth_rate_limits_scope_subject'' [''scope'', ''subject_hash'']]\<rparr>"

definition upgrade_0002 :: "ddl list" where
  "upgrade_0002 =
     [CreateTable admin_accounts_table,
      CreateTable auth_sessions_table,
      CreateIndex (index_on ''ix_auth_sessions_admin_active_expiry'' ''auth_sessions'' [''admin_id'',
        ''expires_at''] False (Some ''revoked_at IS NULL AND deleted_at IS NULL'')),
      CreateIndex (index_on ''ix_auth_sessions_family_id'' ''auth_sessions'' [''family_id''] False None),
      CreateTable security_events_table,
      CreateIndex (index_on ''ix_security_events_admin_occurred_id'' ''security_events'' [''admin_id'',
        ''occurred_at'', ''id''] False None),
      CreateIndex (index_on ''ix_security_events_session_id'' ''security_events'' [''session_id''] False None),
      CreateIndex (index_on ''ix_security_events_type_occurred_id'' ''security_events'' [''event_type'',
        ''occurred_at'', ''id''] False None),
      CreateTable auth_rate_limits_table,
      CreateIndex (index_on ''ix_auth_rate_limits_blocked_until'' ''auth_rate_limits''
        [''blocked_until''] False (Some ''blocked_until IS NOT NULL'')),
      CreateIndex (index_on ''ix_auth_rate_limits_updated_at'' ''auth_rate_limits''
        [''updated_at''] False None)]
     @ map add_updated_at_trigger [''admin_accounts'', ''auth_sessions'', ''security_events'',
       ''auth_rate_limits'']"

definition downgrade_0002 :: "ddl list" where
  "downgrade_0002 =
     map drop_updated_at_trigger [''auth_rate_limits'', ''security_events'', ''auth_sessions'',
       ''admin_accounts'']
     @ [DropIndex ''ix_auth_rate_limits_updated_at'',
      DropIndex ''ix_auth_rate_limits_blocked_until'',
      DropTable ''auth_rate_limits'',
      DropIndex ''ix_security_events_type_occurred_id'',
      DropIndex ''ix_security_events_session_id'',
      DropIndex ''ix_security_events_admin_occurred_id'',
      DropTable ''security_events'',
      DropIndex ''ix_auth_sessions_family_id'',
      DropIndex ''ix_auth_sessions_admin_active_expiry'',
      DropTable ''auth_sessions'',
      DropTable ''admin_accounts'']"

section \<open>20260718_0003_create_storage_domain\<close>

definition thumbnails_table :: table where
  "thumbnails_table =
     \<lparr>tb_name = ''thumbnails'',
      tb_columns =
        [required ''id'' UuidType,
         required ''file_version_id'' UuidType,
         nullable ''storage_object_id'' UuidType,
         required ''variant'' (VarChar 50),
         nullable ''width'' IntegerType,
         nullable ''height'' IntegerType,
         required ''status'' (VarChar 30)] @ audit_columns,
      tb_constraints =
        [uuid7_constraint_0003 ''thumbnails'',
         Check ''ck_thumbnails_height_positive'' ''height IS NULL OR height > 0'',
         Check ''ck_thumbnails_width_positive'' ''width IS NULL OR width > 0'',
         ForeignKey ''fk_thumbnails_file_version_id_file_versions'' [''file_version_id''] ''file_versions''
           [''id''] DeleteCascade,
         ForeignKey ''fk_thumbnails_storage_object_id_storage_objects'' [''storage_object_id'']
           ''storage_objects'' [''id''] DeleteSetNull,
         PrimaryKey ''pk_thumbnails'' [''id''],
         Unique ''uq_thumbnails_version_variant'' [''file_version_id'', ''variant'']]\<rparr>"

definition previews_table :: table where
  "previews_table =
     \<lparr>tb_name = ''previews'',
      tb_columns =
        [required ''id'' UuidType,
         required ''file_version_id'' UuidType,
         nullable ''storage_object_id'' UuidType,
         required ''variant'' (VarChar 50),
         nullable ''mime_type'' (VarChar 255),
         required ''status'' (VarChar 30)] @ audit_columns,
      tb_constraints =
        [uuid7_constraint_0003 ''previews'',
         ForeignKey ''fk_previews_file_version_id_file_versions'' [''file_version_id''] ''file_versions''
           [''id''] DeleteCascade,
         ForeignKey ''fk_previews_storage_object_id_storage_objects'' [''storage_object_id'']
           ''storage_objects'' [''id''] DeleteSetNull,
         PrimaryKey ''pk_previews'' [''id''],
         Unique ''uq_previews_version_variant'' [''file_version_id'', ''variant'']]\<rparr>"

definition create_derived_asset_tables :: "ddl list" where
  "create_derived_asset_tables =
     [CreateTable thumbnails_table,
      CreateTable previews_table]"

definition upload_sessions_table :: table where
  "upload_sessions_table =
     \<lparr>tb_name = ''upload_sessions'',
      tb_columns =
        [required ''id'' UuidType,
         required ''owner_id'' UuidType,
         required ''parent_id'' UuidType,
         required ''original_name'' (VarChar 255),
         required ''internal_name'' (VarChar 300),
         required ''expected_size'' BigIntType,
         required ''uploaded_bytes'' BigIntType,
         nullable ''mime_type'' (VarChar 255),
         required ''extension'' (VarChar 50),
         nullable ''checksum_sha256'' (VarChar 64),
         required ''staging_key'' (VarChar 500),
         required ''status'' (VarChar 30),
         required ''expires_at'' TimestampTz] @ audit_columns,
      tb_constraints =
        [uuid7_constraint_0003 ''upload_sessions'',
         Check ''ck_upload_sessions_checksum_sha256_valid''
           (''checksum_sha256 IS NULL OR checksum_sha256 ~ '' @ apostrophe @ ''^[0-9a-f]{64}$'' @ apostrophe),
         Check ''ck_upload_sessions_expected_size_non_negative'' ''expected_size >= 0'',
         Check ''ck_upload_sessions_uploaded_bytes_valid''
           ''uploaded_bytes >= 0 AND uploaded_bytes <= expected_size'',
         ForeignKey ''fk_upload_sessions_owner_id_admin_accounts'' [''owner_id''] ''admin_accounts''
           [''id''] DeleteCascade,
         ForeignKey ''fk_upload_sessions_parent_id_storage_entries'' [''parent_id''] ''storage_entries''
           [''id''] DeleteCascade,
         PrimaryKey ''pk_upload_sessions'' [''id''],
         Unique ''uq_upload_sessions_staging_key'' [''staging_key'']]\<rparr>"

definition trash_items_table :: table where
  "trash_items_table =
     \<lparr>tb_name = ''trash_items'',
      tb_columns =
        [required ''id'' UuidType,
         required ''entry_id'' UuidType,
         required ''original_parent_id'' UuidType,
         required ''deleted_by'' UuidType,
         required ''trashed_at'' TimestampTz],
      tb_constraints =
        [uuid7_constraint_0003 ''trash_items'',
         ForeignKey ''fk_trash_items_deleted_by_admin_accounts'' [''deleted_by''] ''admin_accounts''
           [''id''] DeleteCascade,
         ForeignKey ''fk_trash_items_entry_id_storage_entries'' [''entry_id''] ''storage_entries''
           [''id''] DeleteCascade,
         PrimaryKey ''pk_trash_items'' [''id''],
         Unique ''uq_trash_items_entry_id'' [''entry_id'']]\<rparr>"

definition create_upload_and_trash_tables :: "ddl list" where
  "create_upload_and_trash_tables =
     [CreateTable upload_sessions_table,
      CreateIndex (index_on ''ix_upload_sessions_owner_status'' ''upload_sessions'' [''owner_id'',
        ''status''] False None),
      CreateIndex (index_on ''ix_upload_sessions_expires_at'' ''upload_sessions'' [''expires_at''] False None),
      CreateTable trash_items_table,
      CreateIndex (index_on ''ix_trash_items_deleted_by_trashed'' ''trash_items'' [''deleted_by'',
        ''trashed_at'', ''id''] False None)]"

definition storage_entries_table :: table where
  "storage_entries_table =
     \<lparr>tb_name = ''storage_entries'',
      tb_columns =
        [required ''id'' UuidType,
         required ''owner_id'' UuidType,
         nullable ''parent_id'' UuidType,
         required ''entry_type'' (VarChar 20),
         required ''name'' (VarChar 255),
         required ''normalized_name'' (VarChar 255)] @ audit_columns,
      tb_constraints =
        [uuid7_constraint_0003 ''storage_entries'',
         Check ''ck_storage_entries_entry_type_valid'' (''entry_type IN ('' @ apostrophe @
           ''folder'' @ apostrophe @ '', '' @ apostrophe @ ''file'' @ apostrophe @ '')''),
         Check ''ck_storage_entries_root_must_be_folder''
           (''parent_id IS NOT NULL OR entry_type = '' @ apostrophe @ ''folder'' @ apostrophe),
         ForeignKey ''fk_storage_entries_owner_id_admin_accounts'' [''owner_id''] ''admin_accounts''
           [''id''] DeleteRestrict,
         ForeignKey ''fk_storage_entries_parent_id_storage_entries'' [''parent_id''] ''storage_entries''
           [''id''] DeleteCascade,
         PrimaryKey ''pk_storage_entries'' [''id'']]\<rparr>"

definition storage_objects_table :: table where
  "storage_objects_table =
     \<lparr>tb_name = ''storage_objects'',
      tb_columns =
        [required ''id'' UuidType,
         required ''storage_key'' (VarChar 500),
         required ''size'' BigIntType,
         required ''mime_type'' (VarChar 255),
         required ''checksum_sha256'' (VarChar 64),
         required ''status'' (VarChar 30)] @ audit_columns,
      tb_constraints =
        [uuid7_constraint_0003 ''storage_objects'',
         Check ''ck_storage_objects_checksum_sha256_valid''
           (''checksum_sha256 ~ '' @ apostrophe @ ''^[0-9a-f]{64}$'' @ apostrophe),
         Check ''ck_storage_objects_size_non_negative'' ''size >= 0'',
         PrimaryKey ''pk_storage_objects'' [''id''],
         Unique ''uq_storage_objects_storage_key'' [''storage_key'']]\<rparr>"

definition file_metadata_table :: table where
  "file_metadata_table =
     \<lparr>tb_name = ''file_metadata'',
      tb_columns =
        [required ''entry_id'' UuidType,
         required ''original_name'' (VarChar 255),
         required ''internal_name'' (VarChar 300),
         required ''size'' BigIntType,
         required ''mime_type'' (VarChar 255),
         required ''extension'' (VarChar 50),
         required ''checksum_sha256'' (VarChar 64),
         required ''current_version_number'' IntegerType],
      tb_constraints =
        [Check ''ck_file_metadata_checksum_sha256_valid''
          (''checksum_sha256 ~ '' @ apostrophe @ ''^[0-9a-f]{64}$'' @ apostrophe),
         Check ''ck_file_metadata_current_version_positive'' ''current_version_number >= 1'',
         Check ''ck_file_metadata_size_non_negative'' ''size >= 0'',
         ForeignKey ''fk_file_metadata_entry_id_storage_entries'' [''entry_id''] ''storage_entries''
           [''id''] DeleteCascade,
         PrimaryKey ''pk_file_metadata'' [''entry_id''],
         Unique ''uq_file_metadata_internal_name'' [''internal_name'']]\<rparr>"

definition file_versions_table :: table where
  "file_versions_table =
     \<lparr>tb_name = ''file_versions'',
      tb_columns =
        [required ''id'' UuidType,
         required ''file_id'' UuidType,
         required ''storage_object_id'' UuidType,
         required ''version_number'' IntegerType,
         required ''original_name'' (VarChar 255),
         required ''size'' BigIntType,
         required ''mime_type'' (VarChar 255),
         required ''extension'' (VarChar 50),
         required ''checksum_sha256'' (VarChar 64),
         required ''created_by'' UuidType,
         defaulted ''created_at'' TimestampTz ''CURRENT_TIMESTAMP''],
      tb_constraints =
        [uuid7_constraint_0003 ''file_versions'',
         Check ''ck_file_versions_checksum_sha256_valid''
           (''checksum_sha256 ~ '' @ apostrophe @ ''^[0-9a-f]{64}$'' @ apostrophe),
         Check ''ck_file_versions_size_non_negative'' ''size >= 0'',
         Check ''ck_file_versions_version_positive'' ''version_number >= 1'',
         ForeignKey ''fk_file_versions_created_by_admin_accounts'' [''created_by''] ''admin_accounts''
           [''id''] DeleteRestrict,
         ForeignKey ''fk_file_versions_file_id_file_metadata'' [''file_id''] ''file_metadata''
           [''entry_id''] DeleteCascade,
         ForeignKey ''fk_file_versions_storage_object_id_storage_objects'' [''storage_object_id'']
           ''storage_objects'' [''id''] DeleteRestrict,
         PrimaryKey ''pk_file_versions'' [''id''],
         Unique ''uq_file_versions_file_version'' [''file_id'', ''version_number'']]\<rparr>"

definition upgrade_0003 :: "ddl list" where
  "upgrade_0003 =
     [CreateTable storage_entries_table,
      CreateIndex (index_on ''uq_storage_entries_active_sibling_name'' ''storage_entries'' [''parent_id'',
        ''normalized_name''] True (Some ''deleted_at IS NULL'')),
      CreateIndex (index_on ''uq_storage_entries_owner_root'' ''storage_entries'' [''owner_id''] True (Some
        ''parent_id IS NULL AND deleted_at IS NULL'')),
      CreateIndex (index_on ''ix_storage_entries_parent_active_name_id'' ''storage_entries'' [''parent_id'',
        ''normalized_name'', ''id''] False (Some ''deleted_at IS NULL'')),
      CreateIndex (index_on ''ix_storage_entries_owner_updated_id'' ''storage_entries'' [''owner_id'',
        ''updated_at'', ''id''] False (Some ''deleted_at IS NULL'')),
      CreateIndex (index_on ''ix_storage_entries_deleted_at'' ''storage_entries'' [''deleted_at''] False (Some
        ''deleted_at IS NOT NULL'')),
      CreateTable storage_objects_table,
      CreateIndex (index_on ''ix_storage_objects_checksum_size'' ''storage_objects'' [''checksum_sha256'',
        ''size''] False None),
      CreateIndex (index_on ''ix_storage_objects_status_updated'' ''storage_objects'' [''status'',
        ''updated_at''] False None),
      CreateTable file_metadata_table]
     @ map (\<lambda>(name, cols). CreateIndex (index_on name
       ''file_metadata'' cols False None)) [(''ix_file_metadata_checksum_size'', [''checksum_sha256'',
         ''size'']), (''ix_file_metadata_extension'', [''extension'']), (''ix_file_metadata_mime_type'',
           [''mime_type'']), (''ix_file_metadata_size'', [''size''])]
     @ [CreateTable file_versions_table,
      CreateIndex (index_on ''ix_file_versions_storage_object_id'' ''file_versions''
        [''storage_object_id''] False None)]
     @ create_derived_asset_tables
     @ create_upload_and_trash_tables
     @ map add_updated_at_trigger [''storage_entries'', ''storage_objects'', ''thumbnails'', ''previews'',
       ''upload_sessions'']"

definition downgrade_0003 :: "ddl list" where
  "downgrade_0003 =
     map drop_updated_at_trigger [''upload_sessions'', ''previews'', ''thumbnails'', ''storage_objects'',
       ''storage_entries'']
     @ [DropIndex ''ix_trash_items_deleted_by_trashed'',
      DropTable ''trash_items'',
      DropIndex ''ix_upload_sessions_expires_at'',
      DropIndex ''ix_upload_sessions_owner_status'',
      DropTable ''upload_sessions'',
      DropTable ''previews'',
      DropTable ''thumbnails'',
      DropIndex ''ix_file_versions_storage_object_id'',
      DropTable ''file_versions'']
     @ map DropIndex [''ix_file_metadata_size'', ''ix_file_metadata_mime_type'',
       ''ix_file_metadata_extension'', ''ix_file_metadata_checksum_size'']
     @ [DropTable ''file_metadata'',
      DropIndex ''ix_storage_objects_status_updated'',
      DropIndex ''ix_storage_objects_checksum_size'',
      DropTable ''storage_objects'']
     @ map DropIndex [''ix_storage_entries_deleted_at'', ''ix_storage_entries_owner_updated_id'',
       ''ix_storage_entries_parent_active_name_id'', ''uq_storage_entries_owner_root'',
         ''uq_storage_entries_active_sibling_name'']
     @ [DropTable ''storage_entries'']"

section \<open>20260719_0005_add_orphan_sweep_indexes\<close>

definition upgrade_0005 :: "ddl list" where
  "upgrade_0005 =
     [CreateIndex (index_on ''ix_storage_objects_status_created_id'' ''storage_objects'' [''status'',
       ''created_at'', ''id''] False None),
      CreateIndex (index_on ''ix_thumbnails_storage_object_id'' ''thumbnails'' [''storage_object_id''] False
        (Some ''storage_object_id IS NOT NULL'')),
      CreateIndex (index_on ''ix_previews_storage_object_id'' ''previews'' [''storage_object_id''] False (Some
        ''storage_object_id IS NOT NULL''))]"

definition downgrade_0005 :: "ddl list" where
  "downgrade_0005 =
     [DropIndex ''ix_previews_storage_object_id'',
      DropIndex ''ix_thumbnails_storage_object_id'',
      DropIndex ''ix_storage_objects_status_created_id'']"

section \<open>20260720_0006_create_activity\<close>

definition favorites_table :: table where
  "favorites_table =
     \<lparr>tb_name = ''favorites'',
      tb_columns =
        [required ''owner_id'' UuidType,
         required ''entry_id'' UuidType,
         required ''created_at'' TimestampTz],
      tb_constraints =
        [ForeignKey ''fk_favorites_owner_id_admin_accounts'' [''owner_id''] ''admin_accounts''
          [''id''] DeleteCascade,
         ForeignKey ''fk_favorites_entry_id_storage_entries'' [''entry_id''] ''storage_entries''
           [''id''] DeleteCascade,
         PrimaryKey ''pk_favorites'' [''owner_id'', ''entry_id'']]\<rparr>"

definition recent_opens_table :: table where
  "recent_opens_table =
     \<lparr>tb_name = ''recent_opens'',
      tb_columns =
        [required ''owner_id'' UuidType,
         required ''entry_id'' UuidType,
         required ''opened_at'' TimestampTz,
         required ''open_count'' IntegerType],
      tb_constraints =
        [Check ''ck_recent_opens_open_count_positive'' ''open_count >= 1'',
         ForeignKey ''fk_recent_opens_owner_id_admin_accounts'' [''owner_id''] ''admin_accounts''
           [''id''] DeleteCascade,
         ForeignKey ''fk_recent_opens_entry_id_storage_entries'' [''entry_id''] ''storage_entries''
           [''id''] DeleteCascade,
         PrimaryKey ''pk_recent_opens'' [''owner_id'', ''entry_id'']]\<rparr>"

definition upgrade_0006 :: "ddl list" where
  "upgrade_0006 =
     [CreateTable favorites_table,
      CreateIndex (index_on ''ix_favorites_owner_created_entry'' ''favorites'' [''owner_id'', ''created_at'',
        ''entry_id''] False None),
      CreateIndex (index_on ''ix_favorites_entry_id'' ''favorites'' [''entry_id''] False None),
      CreateTable recent_opens_table,
      CreateIndex (index_on ''ix_recent_opens_owner_opened_entry'' ''recent_opens'' [''owner_id'',
        ''opened_at'', ''entry_id''] False None),
      CreateIndex (index_on ''ix_recent_opens_entry_id'' ''recent_opens'' [''entry_id''] False None)]"

definition downgrade_0006 :: "ddl list" where
  "downgrade_0006 =
     [DropIndex ''ix_recent_opens_entry_id'',
      DropIndex ''ix_recent_opens_owner_opened_entry'',
      DropTable ''recent_opens'',
      DropIndex ''ix_favorites_entry_id'',
      DropIndex ''ix_favorites_owner_created_entry'',
      DropTable ''favorites'']"

section \<open>The chain of revisions\<close>

record revision =
  rv_id :: string
  rv_down :: "string option"
  rv_upgrade :: "ddl list"
  rv_downgrade :: "ddl list"

definition revisions :: "revision list" where
  "revisions =
     [\<lparr>rv_id = ''20260718_0001'', rv_down = None, rv_upgrade = upgrade_0001, rv_downgrade = downgrade_0001\<rparr>,
      \<lparr>rv_id = ''20260718_0002'', rv_down = Some ''20260718_0001'', rv_upgrade = upgrade_0002,
        rv_downgrade = downgrade_0002\<rparr>,
      \<lparr>rv_id = ''20260718_0003'', rv_down = Some ''20260718_0002'', rv_upgrade = upgrade_0003,
        rv_downgrade = downgrade_0003\<rparr>,
      \<lparr>rv_id = ''20260718_0004'', rv_down = Some ''20260718_0003'', rv_upgrade = [], rv_downgrade = []\<rparr>,
      \<lparr>rv_id = ''20260719_0005'', rv_down = Some ''20260718_0004'', rv_upgrade = upgrade_0005,
        rv_downgrade = downgrade_0005\<rparr>,
      \<lparr>rv_id = ''20260720_0006'', rv_down = Some ''20260719_0005'', rv_upgrade = upgrade_0006,
        rv_downgrade = downgrade_0006\<rparr>]"

text \<open>\<open>alembic upgrade\<close> and \<open>alembic downgrade\<close> over a list of revisions, oldest first.\<close>

fun upgrade_all :: "revision list \<Rightarrow> schema \<Rightarrow> schema option" where
  "upgrade_all [] s = Some s"
| "upgrade_all (r # rs) s = Option.bind (run_ddl (rv_upgrade r) s) (upgrade_all rs)"

fun downgrade_all :: "revision list \<Rightarrow> schema \<Rightarrow> schema option" where
  "downgrade_all [] s = Some s"
| "downgrade_all (r # rs) s = Option.bind (downgrade_all rs s) (run_ddl (rv_downgrade r))"

definition chained :: "revision list \<Rightarrow> bool" where
  "chained rs \<longleftrightarrow> map rv_down rs = butlast (None # map (\<lambda>r. Some (rv_id r)) rs) \<and> distinct (map rv_id rs)"

end
