(* ===== verification/Schema_Models.thy ===== *)
theory Schema_Models
  imports Migrations
begin

text \<open>
  The schema that the ORM declares (\<open>app/infrastructure/persistence/models/*.py\<close>): every mapped
  class with its columns and \<open>__table_args__\<close>, and the names that the naming convention of
  \<open>base.py\<close> gives to constraints.
\<close>

section \<open>Declarations\<close>

record orm_column =
  oc_column :: column
  oc_key :: bool
  oc_references :: "(string \<times> string \<times> on_delete) option"

datatype table_arg =
    CheckArg string string
  | UniqueArg "string list" string
  | IndexArg string "string list" bool "string option"

record orm_model =
  om_table :: string
  om_audited :: bool
  om_columns :: "orm_column list"
  om_args :: "table_arg list"

definition mapped_column :: "string \<Rightarrow> sql_type \<Rightarrow> orm_column" where
  "mapped_column name t = \<lparr>oc_column = required name t, oc_key = False, oc_references = None\<rparr>"

definition mapped_nullable :: "string \<Rightarrow> sql_type \<Rightarrow> orm_column" where
  "mapped_nullable name t = \<lparr>oc_column = nullable name t, oc_key = False, oc_references = None\<rparr>"

definition mapped_key :: "string \<Rightarrow> sql_type \<Rightarrow> orm_column" where
  "mapped_key name t = \<lparr>oc_column = required name t, oc_key = True, oc_references = None\<rparr>"

definition server_default :: "string \<Rightarrow> orm_column \<Rightarrow> orm_column" where
  "server_default v c = c\<lparr>oc_column := (oc_column c)\<lparr>cl_default := Some v\<rparr>\<rparr>"

definition references :: "string \<Rightarrow> string \<Rightarrow> on_delete \<Rightarrow> orm_column \<Rightarrow> orm_column" where
  "references tbl col how c = c\<lparr>oc_references := Some (tbl, col, how)\<rparr>"

definition uuid7_check_arg :: "string \<Rightarrow> string \<Rightarrow> table_arg" where
  "uuid7_check_arg col name = CheckArg (uuid7_expression col) name"

definition audit_mixin :: "orm_column list" where
  "audit_mixin =
     [server_default ''CURRENT_TIMESTAMP'' (mapped_column ''created_at'' TimestampTz),
      server_default ''CURRENT_TIMESTAMP'' (mapped_column ''updated_at'' TimestampTz),
      mapped_nullable ''deleted_at'' TimestampTz]"

section \<open>The naming convention\<close>

definition name_check :: "string \<Rightarrow> string \<Rightarrow> string" where
  "name_check tbl name = ''ck_'' @ tbl @ ''_'' @ name"

definition name_foreign :: "string \<Rightarrow> string \<Rightarrow> string \<Rightarrow> string" where
  "name_foreign tbl col referred = ''fk_'' @ tbl @ ''_'' @ col @ ''_'' @ referred"

definition name_primary :: "string \<Rightarrow> string" where
  "name_primary tbl = ''pk_'' @ tbl"

definition all_columns :: "orm_model \<Rightarrow> orm_column list" where
  "all_columns m = om_columns m @ (if om_audited m then audit_mixin else [])"

fun arg_constraint :: "string \<Rightarrow> table_arg \<Rightarrow> table_constraint list" where
  "arg_constraint tbl (CheckArg e name) = [Check (name_check tbl name) e]"
| "arg_constraint tbl (UniqueArg cols name) = [Unique name cols]"
| "arg_constraint tbl (IndexArg _ _ _ _) = []"

fun arg_index :: "string \<Rightarrow> table_arg \<Rightarrow> index list" where
  "arg_index tbl (IndexArg name cols u w) = [index_on name tbl cols u w]"
| "arg_index tbl _ = []"

definition foreign_keys :: "orm_model \<Rightarrow> table_constraint list" where
  "foreign_keys m =
     concat (map (\<lambda>c. case oc_references c of
         None \<Rightarrow> []
       | Some (tbl, col, how) \<Rightarrow>
           [ForeignKey (name_foreign (om_table m) (cl_name (oc_column c)) tbl) [cl_name (oc_column c)] tbl [col] how])
       (all_columns m))"

definition model_table :: "orm_model \<Rightarrow> table" where
  "model_table m =
     \<lparr>tb_name = om_table m, tb_columns = map oc_column (all_columns m),
      tb_constraints =
        PrimaryKey (name_primary (om_table m)) (map (\<lambda>c. cl_name (oc_column c)) (filter oc_key (all_columns m)))
        # concat (map (arg_constraint (om_table m)) (om_args m)) @ foreign_keys m\<rparr>"

definition model_indexes :: "orm_model \<Rightarrow> index list" where
  "model_indexes m = concat (map (arg_index (om_table m)) (om_args m))"

section \<open>models/outbox.py\<close>

definition outbox_event_model :: orm_model where
  "outbox_event_model =
     \<lparr>om_table = ''outbox_events'',
      om_audited = True,
      om_columns =
        [mapped_key ''id'' UuidType,
         mapped_column ''aggregate_id'' UuidType,
         mapped_column ''aggregate_type'' (VarChar 100),
         mapped_column ''event_type'' (VarChar 200),
         mapped_column ''occurred_at'' TimestampTz,
         mapped_column ''payload'' JsonbType,
         mapped_nullable ''processed_at'' TimestampTz,
         server_default ''0'' (mapped_column ''attempts'' IntegerType),
         mapped_nullable ''last_error'' TextType],
      om_args =
        [CheckArg ''(get_byte(uuid_send(id), 6) >> 4) = 7'' ''id_uuid_v7'',
         CheckArg ''attempts >= 0'' ''attempts_non_negative'',
         IndexArg ''ix_outbox_events_pending_created_id'' [''created_at'', ''id''] False (Some
           ''processed_at IS NULL AND deleted_at IS NULL''),
         IndexArg ''ix_outbox_events_aggregate_created_id'' [''aggregate_id'', ''created_at'', ''id''] False
           (Some ''deleted_at IS NULL''),
         IndexArg ''ix_outbox_events_type_created_id'' [''event_type'', ''created_at'', ''id''] False (Some
           ''deleted_at IS NULL''),
         IndexArg ''ix_outbox_events_deleted_at'' [''deleted_at''] False (Some
           ''deleted_at IS NOT NULL'')]\<rparr>"

section \<open>models/auth.py\<close>

definition admin_account_model :: orm_model where
  "admin_account_model =
     \<lparr>om_table = ''admin_accounts'',
      om_audited = True,
      om_columns =
        [mapped_key ''id'' UuidType,
         server_default ''TRUE'' (mapped_column ''singleton_key'' BooleanType),
         mapped_column ''username'' (VarChar 100),
         mapped_column ''normalized_username'' (VarChar 100),
         mapped_column ''password_hash'' TextType,
         server_default ''TRUE'' (mapped_column ''enabled'' BooleanType),
         server_default ''0'' (mapped_column ''failed_login_attempts'' IntegerType),
         mapped_nullable ''locked_until'' TimestampTz,
         mapped_column ''password_changed_at'' TimestampTz,
         mapped_nullable ''last_login_at'' TimestampTz],
      om_args =
        [CheckArg ''singleton_key IS TRUE'' ''singleton_key_true'',
         CheckArg ''(get_byte(uuid_send(id), 6) >> 4) = 7'' ''id_uuid_v7'',
         CheckArg ''failed_login_attempts >= 0'' ''failed_login_attempts_non_negative'',
         UniqueArg [''singleton_key''] ''uq_admin_accounts_singleton_key'',
         UniqueArg [''normalized_username''] ''uq_admin_accounts_normalized_username'']\<rparr>"

definition auth_session_model :: orm_model where
  "auth_session_model =
     \<lparr>om_table = ''auth_sessions'',
      om_audited = True,
      om_columns =
        [mapped_key ''id'' UuidType,
         references ''admin_accounts'' ''id'' DeleteCascade (mapped_column ''admin_id'' UuidType),
         mapped_column ''family_id'' UuidType,
         mapped_column ''refresh_jti'' UuidType,
         mapped_column ''refresh_token_hash'' (VarChar 64),
         mapped_column ''csrf_token_hash'' (VarChar 64),
         mapped_column ''expires_at'' TimestampTz,
         mapped_column ''last_rotated_at'' TimestampTz,
         mapped_nullable ''revoked_at'' TimestampTz,
         mapped_nullable ''revoke_reason'' (VarChar 50),
         mapped_column ''ip_hash'' (VarChar 64),
         mapped_column ''user_agent_hash'' (VarChar 64)],
      om_args =
        [CheckArg ''(get_byte(uuid_send(id), 6) >> 4) = 7'' ''id_uuid_v7'',
         CheckArg ''(get_byte(uuid_send(family_id), 6) >> 4) = 7'' ''family_id_uuid_v7'',
         CheckArg ''(get_byte(uuid_send(refresh_jti), 6) >> 4) = 7'' ''refresh_jti_uuid_v7'',
         UniqueArg [''refresh_jti''] ''uq_auth_sessions_refresh_jti'',
         IndexArg ''ix_auth_sessions_admin_active_expiry'' [''admin_id'', ''expires_at''] False (Some
           ''revoked_at IS NULL AND deleted_at IS NULL''),
         IndexArg ''ix_auth_sessions_family_id'' [''family_id''] False None]\<rparr>"

definition security_event_model :: orm_model where
  "security_event_model =
     \<lparr>om_table = ''security_events'',
      om_audited = True,
      om_columns =
        [mapped_key ''id'' UuidType,
         mapped_column ''event_type'' (VarChar 100),
         mapped_column ''occurred_at'' TimestampTz,
         references ''admin_accounts'' ''id'' DeleteSetNull (mapped_nullable ''admin_id'' UuidType),
         mapped_nullable ''session_id'' UuidType,
         mapped_column ''ip_hash'' (VarChar 64),
         mapped_column ''user_agent_hash'' (VarChar 64),
         mapped_column ''details'' JsonbType],
      om_args =
        [CheckArg ''(get_byte(uuid_send(id), 6) >> 4) = 7'' ''id_uuid_v7'',
         IndexArg ''ix_security_events_type_occurred_id'' [''event_type'', ''occurred_at'', ''id''] False None,
         IndexArg ''ix_security_events_admin_occurred_id'' [''admin_id'', ''occurred_at'', ''id''] False None,
         IndexArg ''ix_security_events_session_id'' [''session_id''] False None]\<rparr>"

definition auth_rate_limit_model :: orm_model where
  "auth_rate_limit_model =
     \<lparr>om_table = ''auth_rate_limits'',
      om_audited = True,
      om_columns =
        [mapped_key ''id'' UuidType,
         mapped_column ''scope'' (VarChar 50),
         mapped_column ''subject_hash'' (VarChar 64),
         mapped_column ''window_started_at'' TimestampTz,
         mapped_column ''request_count'' IntegerType,
         mapped_nullable ''blocked_until'' TimestampTz],
      om_args =
        [CheckArg ''(get_byte(uuid_send(id), 6) >> 4) = 7'' ''id_uuid_v7'',
         CheckArg ''request_count >= 0'' ''request_count_non_negative'',
         UniqueArg [''scope'', ''subject_hash''] ''uq_auth_rate_limits_scope_subject'',
         IndexArg ''ix_auth_rate_limits_blocked_until'' [''blocked_until''] False (Some
           ''blocked_until IS NOT NULL''),
         IndexArg ''ix_auth_rate_limits_updated_at'' [''updated_at''] False None]\<rparr>"

section \<open>models/storage.py\<close>

definition storage_entry_model :: orm_model where
  "storage_entry_model =
     \<lparr>om_table = ''storage_entries'',
      om_audited = True,
      om_columns =
        [mapped_key ''id'' UuidType,
         references ''admin_accounts'' ''id'' DeleteRestrict (mapped_column ''owner_id'' UuidType),
         references ''storage_entries'' ''id'' DeleteCascade (mapped_nullable ''parent_id'' UuidType),
         mapped_column ''entry_type'' (VarChar 20),
         mapped_column ''name'' (VarChar 255),
         mapped_column ''normalized_name'' (VarChar 255)],
      om_args =
        [uuid7_check_arg ''id'' ''id_uuid_v7'',
         CheckArg (''parent_id IS NOT NULL OR entry_type = '' @ apostrophe @ ''folder'' @ apostrophe)
           ''root_must_be_folder'',
         CheckArg (''entry_type IN ('' @ apostrophe @ ''folder'' @ apostrophe @ '', '' @ apostrophe @
           ''file'' @ apostrophe @ '')'') ''entry_type_valid'',
         IndexArg ''uq_storage_entries_active_sibling_name'' [''parent_id'', ''normalized_name''] True (Some
           ''deleted_at IS NULL''),
         IndexArg ''uq_storage_entries_owner_root'' [''owner_id''] True (Some
           ''parent_id IS NULL AND deleted_at IS NULL''),
         IndexArg ''ix_storage_entries_parent_active_name_id'' [''parent_id'', ''normalized_name'',
           ''id''] False (Some ''deleted_at IS NULL''),
         IndexArg ''ix_storage_entries_owner_updated_id'' [''owner_id'', ''updated_at'', ''id''] False (Some
           ''deleted_at IS NULL''),
         IndexArg ''ix_storage_entries_deleted_at'' [''deleted_at''] False (Some
           ''deleted_at IS NOT NULL'')]\<rparr>"

definition file_metadata_model :: orm_model where
  "file_metadata_model =
     \<lparr>om_table = ''file_metadata'',
      om_audited = False,
      om_columns =
        [references ''storage_entries'' ''id'' DeleteCascade (mapped_key ''entry_id'' UuidType),
         mapped_column ''original_name'' (VarChar 255),
         mapped_column ''internal_name'' (VarChar 300),
         mapped_column ''size'' BigIntType,
         mapped_column ''mime_type'' (VarChar 255),
         mapped_column ''extension'' (VarChar 50),
         mapped_column ''checksum_sha256'' (VarChar 64),
         mapped_column ''current_version_number'' IntegerType],
      om_args =
        [CheckArg ''size >= 0'' ''size_non_negative'',
         CheckArg ''current_version_number >= 1'' ''current_version_positive'',
         CheckArg (''checksum_sha256 ~ '' @ apostrophe @ ''^[0-9a-f]{64}$'' @ apostrophe) ''checksum_sha256_valid'',
         UniqueArg [''internal_name''] ''uq_file_metadata_internal_name'',
         IndexArg ''ix_file_metadata_checksum_size'' [''checksum_sha256'', ''size''] False None,
         IndexArg ''ix_file_metadata_mime_type'' [''mime_type''] False None,
         IndexArg ''ix_file_metadata_extension'' [''extension''] False None,
         IndexArg ''ix_file_metadata_size'' [''size''] False None]\<rparr>"

definition storage_object_model :: orm_model where
  "storage_object_model =
     \<lparr>om_table = ''storage_objects'',
      om_audited = True,
      om_columns =
        [mapped_key ''id'' UuidType,
         mapped_column ''storage_key'' (VarChar 500),
         mapped_column ''size'' BigIntType,
         mapped_column ''mime_type'' (VarChar 255),
         mapped_column ''checksum_sha256'' (VarChar 64),
         mapped_column ''status'' (VarChar 30)],
      om_args =
        [uuid7_check_arg ''id'' ''id_uuid_v7'',
         CheckArg ''size >= 0'' ''size_non_negative'',
         CheckArg (''checksum_sha256 ~ '' @ apostrophe @ ''^[0-9a-f]{64}$'' @ apostrophe) ''checksum_sha256_valid'',
         UniqueArg [''storage_key''] ''uq_storage_objects_storage_key'',
         IndexArg ''ix_storage_objects_checksum_size'' [''checksum_sha256'', ''size''] False None,
         IndexArg ''ix_storage_objects_status_updated'' [''status'', ''updated_at''] False None,
         IndexArg ''ix_storage_objects_status_created_id'' [''status'', ''created_at'',
           ''id''] False None]\<rparr>"

definition file_version_model :: orm_model where
  "file_version_model =
     \<lparr>om_table = ''file_versions'',
      om_audited = False,
      om_columns =
        [mapped_key ''id'' UuidType,
         references ''file_metadata'' ''entry_id'' DeleteCascade (mapped_column ''file_id'' UuidType),
         references ''storage_objects'' ''id'' DeleteRestrict (mapped_column ''storage_object_id'' UuidType),
         mapped_column ''version_number'' IntegerType,
         mapped_column ''original_name'' (VarChar 255),
         mapped_column ''size'' BigIntType,
         mapped_column ''mime_type'' (VarChar 255),
         mapped_column ''extension'' (VarChar 50),
         mapped_column ''checksum_sha256'' (VarChar 64),
         references ''admin_accounts'' ''id'' DeleteRestrict (mapped_column ''created_by'' UuidType),
         server_default ''CURRENT_TIMESTAMP'' (mapped_column ''created_at'' TimestampTz)],
      om_args =
        [uuid7_check_arg ''id'' ''id_uuid_v7'',
         CheckArg ''version_number >= 1'' ''version_positive'',
         CheckArg ''size >= 0'' ''size_non_negative'',
         CheckArg (''checksum_sha256 ~ '' @ apostrophe @ ''^[0-9a-f]{64}$'' @ apostrophe) ''checksum_sha256_valid'',
         UniqueArg [''file_id'', ''version_number''] ''uq_file_versions_file_version'',
         IndexArg ''ix_file_versions_storage_object_id'' [''storage_object_id''] False None]\<rparr>"

definition thumbnail_model :: orm_model where
  "thumbnail_model =
     \<lparr>om_table = ''thumbnails'',
      om_audited = True,
      om_columns =
        [mapped_key ''id'' UuidType,
         references ''file_versions'' ''id'' DeleteCascade (mapped_column ''file_version_id'' UuidType),
         references ''storage_objects'' ''id'' DeleteSetNull (mapped_nullable ''storage_object_id'' UuidType),
         mapped_column ''variant'' (VarChar 50),
         mapped_nullable ''width'' IntegerType,
         mapped_nullable ''height'' IntegerType,
         mapped_column ''status'' (VarChar 30)],
      om_args =
        [uuid7_check_arg ''id'' ''id_uuid_v7'',
         UniqueArg [''file_version_id'', ''variant''] ''uq_thumbnails_version_variant'',
         CheckArg ''width IS NULL OR width > 0'' ''width_positive'',
         CheckArg ''height IS NULL OR height > 0'' ''height_positive'',
         IndexArg ''ix_thumbnails_storage_object_id'' [''storage_object_id''] False (Some
           ''storage_object_id IS NOT NULL'')]\<rparr>"

definition preview_model :: orm_model where
  "preview_model =
     \<lparr>om_table = ''previews'',
      om_audited = True,
      om_columns =
        [mapped_key ''id'' UuidType,
         references ''file_versions'' ''id'' DeleteCascade (mapped_column ''file_version_id'' UuidType),
         references ''storage_objects'' ''id'' DeleteSetNull (mapped_nullable ''storage_object_id'' UuidType),
         mapped_column ''variant'' (VarChar 50),
         mapped_nullable ''mime_type'' (VarChar 255),
         mapped_column ''status'' (VarChar 30)],
      om_args =
        [uuid7_check_arg ''id'' ''id_uuid_v7'',
         UniqueArg [''file_version_id'', ''variant''] ''uq_previews_version_variant'',
         IndexArg ''ix_previews_storage_object_id'' [''storage_object_id''] False (Some
           ''storage_object_id IS NOT NULL'')]\<rparr>"

definition upload_session_model :: orm_model where
  "upload_session_model =
     \<lparr>om_table = ''upload_sessions'',
      om_audited = True,
      om_columns =
        [mapped_key ''id'' UuidType,
         references ''admin_accounts'' ''id'' DeleteCascade (mapped_column ''owner_id'' UuidType),
         references ''storage_entries'' ''id'' DeleteCascade (mapped_column ''parent_id'' UuidType),
         mapped_column ''original_name'' (VarChar 255),
         mapped_column ''internal_name'' (VarChar 300),
         mapped_column ''expected_size'' BigIntType,
         mapped_column ''uploaded_bytes'' BigIntType,
         mapped_nullable ''mime_type'' (VarChar 255),
         mapped_column ''extension'' (VarChar 50),
         mapped_nullable ''checksum_sha256'' (VarChar 64),
         mapped_column ''staging_key'' (VarChar 500),
         mapped_column ''status'' (VarChar 30),
         mapped_column ''expires_at'' TimestampTz],
      om_args =
        [uuid7_check_arg ''id'' ''id_uuid_v7'',
         CheckArg ''expected_size >= 0'' ''expected_size_non_negative'',
         CheckArg ''uploaded_bytes >= 0 AND uploaded_bytes <= expected_size'' ''uploaded_bytes_valid'',
         CheckArg (''checksum_sha256 IS NULL OR checksum_sha256 ~ '' @ apostrophe @ ''^[0-9a-f]{64}$'' @ apostrophe)
           ''checksum_sha256_valid'',
         UniqueArg [''staging_key''] ''uq_upload_sessions_staging_key'',
         IndexArg ''ix_upload_sessions_owner_status'' [''owner_id'', ''status''] False None,
         IndexArg ''ix_upload_sessions_expires_at'' [''expires_at''] False None]\<rparr>"

definition trash_item_model :: orm_model where
  "trash_item_model =
     \<lparr>om_table = ''trash_items'',
      om_audited = False,
      om_columns =
        [mapped_key ''id'' UuidType,
         references ''storage_entries'' ''id'' DeleteCascade (mapped_column ''entry_id'' UuidType),
         mapped_column ''original_parent_id'' UuidType,
         references ''admin_accounts'' ''id'' DeleteCascade (mapped_column ''deleted_by'' UuidType),
         mapped_column ''trashed_at'' TimestampTz],
      om_args =
        [uuid7_check_arg ''id'' ''id_uuid_v7'',
         UniqueArg [''entry_id''] ''uq_trash_items_entry_id'',
         IndexArg ''ix_trash_items_deleted_by_trashed'' [''deleted_by'', ''trashed_at'',
           ''id''] False None]\<rparr>"

section \<open>models/activity.py\<close>

definition favorite_model :: orm_model where
  "favorite_model =
     \<lparr>om_table = ''favorites'',
      om_audited = False,
      om_columns =
        [references ''admin_accounts'' ''id'' DeleteCascade (mapped_key ''owner_id'' UuidType),
         references ''storage_entries'' ''id'' DeleteCascade (mapped_key ''entry_id'' UuidType),
         mapped_column ''created_at'' TimestampTz],
      om_args =
        [IndexArg ''ix_favorites_owner_created_entry'' [''owner_id'', ''created_at'', ''entry_id''] False None,
         IndexArg ''ix_favorites_entry_id'' [''entry_id''] False None]\<rparr>"

definition recent_open_model :: orm_model where
  "recent_open_model =
     \<lparr>om_table = ''recent_opens'',
      om_audited = False,
      om_columns =
        [references ''admin_accounts'' ''id'' DeleteCascade (mapped_key ''owner_id'' UuidType),
         references ''storage_entries'' ''id'' DeleteCascade (mapped_key ''entry_id'' UuidType),
         mapped_column ''opened_at'' TimestampTz,
         mapped_column ''open_count'' IntegerType],
      om_args =
        [CheckArg ''open_count >= 1'' ''open_count_positive'',
         IndexArg ''ix_recent_opens_owner_opened_entry'' [''owner_id'', ''opened_at'', ''entry_id''] False None,
         IndexArg ''ix_recent_opens_entry_id'' [''entry_id''] False None]\<rparr>"

section \<open>The metadata\<close>

definition orm_models :: "orm_model list" where
  "orm_models =
     [outbox_event_model, admin_account_model, auth_session_model, security_event_model,
       auth_rate_limit_model, storage_entry_model, file_metadata_model, storage_object_model,
         file_version_model, thumbnail_model, preview_model, upload_session_model, trash_item_model,
           favorite_model, recent_open_model]"

definition declared_tables :: "table list" where
  "declared_tables = map model_table orm_models"

definition declared_indexes :: "index list" where
  "declared_indexes = concat (map model_indexes orm_models)"

end
