(* ===== verification/Migration_Properties.thy ===== *)
theory Migration_Properties
  imports Schema_Models
begin

text \<open>
  The migrations and the ORM agree: the upgrades run on an empty database build the schema the
  models declare, and every downgrade undoes its upgrade.
\<close>

section \<open>The schema of the models\<close>

definition same_elements :: "'a list \<Rightarrow> 'a list \<Rightarrow> bool" where
  "same_elements xs ys \<longleftrightarrow> list_all (\<lambda>x. x \<in> set ys) xs \<and> list_all (\<lambda>y. y \<in> set xs) ys"

lemma same_elements_set: "same_elements xs ys \<longleftrightarrow> set xs = set ys"
  by (auto simp: same_elements_def list_all_iff)

definition same_table :: "table \<Rightarrow> table \<Rightarrow> bool" where
  "same_table t u \<longleftrightarrow> tb_name t = tb_name u \<and> same_elements (tb_columns t) (tb_columns u)
     \<and> same_elements (tb_constraints t) (tb_constraints u)"

definition describes :: "table list \<Rightarrow> index list \<Rightarrow> schema \<Rightarrow> bool" where
  "describes ts ixs s \<longleftrightarrow>
     same_elements (map tb_name ts) (map tb_name (sm_tables s))
     \<and> list_all (\<lambda>t. case find_table s (tb_name t) of None \<Rightarrow> False | Some u \<Rightarrow> same_table t u) ts
     \<and> same_elements ixs (sm_indexes s)"

text \<open>Every table with a column \<open>updated_at\<close> has the trigger that maintains it.\<close>

definition stamped :: "schema \<Rightarrow> bool" where
  "stamped s \<longleftrightarrow>
     list_all (\<lambda>t. ''updated_at'' \<in> set (map cl_name (tb_columns t)) \<longrightarrow>
         \<lparr>tg_name = updated_at_trigger (tb_name t), tg_table = tb_name t, tg_function = ''drivempvd_set_updated_at''\<rparr>
           \<in> set (sm_triggers s)) (sm_tables s)"

text \<open>The database cuts identifiers after 63 characters.\<close>

definition short_names :: "schema \<Rightarrow> bool" where
  "short_names s \<longleftrightarrow>
     list_all (\<lambda>n. length n \<le> 63)
       (concat (map (\<lambda>t. tb_name t # map cl_name (tb_columns t) @ map constraint_name (tb_constraints t)) (sm_tables s))
        @ map ix_name (sm_indexes s) @ map tg_name (sm_triggers s))"

section \<open>Running the scripts\<close>

text \<open>What the statements look at in each table; the tables stay folded while the scripts run.\<close>

definition refers :: "schema \<Rightarrow> string \<Rightarrow> string list \<Rightarrow> bool" where
  "refers s tbl cols \<longleftrightarrow>
     (case find_table s tbl of None \<Rightarrow> False | Some r \<Rightarrow> cols \<in> set (map snd (table_keys r)))"

lemmas fact_defs = table_keys_def table_ok_def table_relations_def has_columns_def refers_def audit_columns_def
  required_def nullable_def defaulted_def uuid7_constraint_0002_def uuid7_constraint_0003_def

lemma outbox_events_facts:
  "tb_name outbox_events_table = ''outbox_events''"
  "map cl_name (tb_columns outbox_events_table) =
     [''id'', ''aggregate_id'', ''aggregate_type'', ''event_type'', ''occurred_at'', ''payload'',
       ''processed_at'', ''attempts'', ''last_error'', ''created_at'', ''updated_at'', ''deleted_at'']"
  "table_keys outbox_events_table =
     [(''pk_outbox_events'', [''id''])]"
  "map referred_table (tb_constraints outbox_events_table) =
     [None, None, None]"
  "table_ok s outbox_events_table \<longleftrightarrow>
     list_all (\<lambda>n. n \<notin> set (relations s)) (table_relations outbox_events_table)"
  by (simp_all add: outbox_events_table_def fact_defs)

lemma admin_accounts_facts:
  "tb_name admin_accounts_table = ''admin_accounts''"
  "map cl_name (tb_columns admin_accounts_table) =
     [''id'', ''singleton_key'', ''username'', ''normalized_username'', ''password_hash'', ''enabled'',
       ''failed_login_attempts'', ''locked_until'', ''password_changed_at'', ''last_login_at'',
         ''created_at'', ''updated_at'', ''deleted_at'']"
  "table_keys admin_accounts_table =
     [(''pk_admin_accounts'', [''id'']), (''uq_admin_accounts_normalized_username'',
       [''normalized_username'']), (''uq_admin_accounts_singleton_key'', [''singleton_key''])]"
  "map referred_table (tb_constraints admin_accounts_table) =
     [None, None, None, None, None, None]"
  "table_ok s admin_accounts_table \<longleftrightarrow>
     list_all (\<lambda>n. n \<notin> set (relations s)) (table_relations admin_accounts_table)"
  by (simp_all add: admin_accounts_table_def fact_defs)

lemma auth_sessions_facts:
  "tb_name auth_sessions_table = ''auth_sessions''"
  "map cl_name (tb_columns auth_sessions_table) =
     [''id'', ''admin_id'', ''family_id'', ''refresh_jti'', ''refresh_token_hash'', ''csrf_token_hash'',
       ''expires_at'', ''last_rotated_at'', ''revoked_at'', ''revoke_reason'', ''ip_hash'',
         ''user_agent_hash'', ''created_at'', ''updated_at'', ''deleted_at'']"
  "table_keys auth_sessions_table =
     [(''pk_auth_sessions'', [''id'']), (''uq_auth_sessions_refresh_jti'', [''refresh_jti''])]"
  "map referred_table (tb_constraints auth_sessions_table) =
     [Some ''admin_accounts'', None, None, None, None, None]"
  "table_ok s auth_sessions_table \<longleftrightarrow>
     list_all (\<lambda>n. n \<notin> set (relations s)) (table_relations auth_sessions_table) \<and> refers s
       ''admin_accounts'' [''id'']"
  by (simp_all add: auth_sessions_table_def fact_defs)

lemma security_events_facts:
  "tb_name security_events_table = ''security_events''"
  "map cl_name (tb_columns security_events_table) =
     [''id'', ''event_type'', ''occurred_at'', ''admin_id'', ''session_id'', ''ip_hash'', ''user_agent_hash'',
       ''details'', ''created_at'', ''updated_at'', ''deleted_at'']"
  "table_keys security_events_table =
     [(''pk_security_events'', [''id''])]"
  "map referred_table (tb_constraints security_events_table) =
     [Some ''admin_accounts'', None, None]"
  "table_ok s security_events_table \<longleftrightarrow>
     list_all (\<lambda>n. n \<notin> set (relations s)) (table_relations security_events_table) \<and> refers s ''admin_accounts'' [''id'']"
  by (simp_all add: security_events_table_def fact_defs)

lemma auth_rate_limits_facts:
  "tb_name auth_rate_limits_table = ''auth_rate_limits''"
  "map cl_name (tb_columns auth_rate_limits_table) =
     [''id'', ''scope'', ''subject_hash'', ''window_started_at'', ''request_count'', ''blocked_until'',
       ''created_at'', ''updated_at'', ''deleted_at'']"
  "table_keys auth_rate_limits_table =
     [(''pk_auth_rate_limits'', [''id'']), (''uq_auth_rate_limits_scope_subject'', [''scope'',
       ''subject_hash''])]"
  "map referred_table (tb_constraints auth_rate_limits_table) =
     [None, None, None, None]"
  "table_ok s auth_rate_limits_table \<longleftrightarrow>
     list_all (\<lambda>n. n \<notin> set (relations s)) (table_relations auth_rate_limits_table)"
  by (simp_all add: auth_rate_limits_table_def fact_defs)

lemma storage_entries_facts:
  "tb_name storage_entries_table = ''storage_entries''"
  "map cl_name (tb_columns storage_entries_table) =
     [''id'', ''owner_id'', ''parent_id'', ''entry_type'', ''name'', ''normalized_name'', ''created_at'',
       ''updated_at'', ''deleted_at'']"
  "table_keys storage_entries_table =
     [(''pk_storage_entries'', [''id''])]"
  "map referred_table (tb_constraints storage_entries_table) =
     [None, None, None, Some ''admin_accounts'', Some ''storage_entries'', None]"
  "table_ok s storage_entries_table \<longleftrightarrow>
     list_all (\<lambda>n. n \<notin> set (relations s)) (table_relations storage_entries_table) \<and> refers s ''admin_accounts'' [''id'']"
  by (simp_all add: storage_entries_table_def fact_defs)

lemma storage_objects_facts:
  "tb_name storage_objects_table = ''storage_objects''"
  "map cl_name (tb_columns storage_objects_table) =
     [''id'', ''storage_key'', ''size'', ''mime_type'', ''checksum_sha256'', ''status'', ''created_at'',
       ''updated_at'', ''deleted_at'']"
  "table_keys storage_objects_table =
     [(''pk_storage_objects'', [''id'']), (''uq_storage_objects_storage_key'', [''storage_key''])]"
  "map referred_table (tb_constraints storage_objects_table) =
     [None, None, None, None, None]"
  "table_ok s storage_objects_table \<longleftrightarrow>
     list_all (\<lambda>n. n \<notin> set (relations s)) (table_relations storage_objects_table)"
  by (simp_all add: storage_objects_table_def fact_defs)

lemma file_metadata_facts:
  "tb_name file_metadata_table = ''file_metadata''"
  "map cl_name (tb_columns file_metadata_table) =
     [''entry_id'', ''original_name'', ''internal_name'', ''size'', ''mime_type'', ''extension'',
       ''checksum_sha256'', ''current_version_number'']"
  "table_keys file_metadata_table =
     [(''pk_file_metadata'', [''entry_id'']), (''uq_file_metadata_internal_name'', [''internal_name''])]"
  "map referred_table (tb_constraints file_metadata_table) =
     [None, None, None, Some ''storage_entries'', None, None]"
  "table_ok s file_metadata_table \<longleftrightarrow>
     list_all (\<lambda>n. n \<notin> set (relations s)) (table_relations file_metadata_table) \<and> refers s
       ''storage_entries'' [''id'']"
  by (simp_all add: file_metadata_table_def fact_defs)

lemma file_versions_facts:
  "tb_name file_versions_table = ''file_versions''"
  "map cl_name (tb_columns file_versions_table) =
     [''id'', ''file_id'', ''storage_object_id'', ''version_number'', ''original_name'', ''size'',
       ''mime_type'', ''extension'', ''checksum_sha256'', ''created_by'', ''created_at'']"
  "table_keys file_versions_table =
     [(''pk_file_versions'', [''id'']), (''uq_file_versions_file_version'', [''file_id'', ''version_number''])]"
  "map referred_table (tb_constraints file_versions_table) =
     [None, None, None, None, Some ''admin_accounts'', Some ''file_metadata'', Some
       ''storage_objects'', None, None]"
  "table_ok s file_versions_table \<longleftrightarrow>
     list_all (\<lambda>n. n \<notin> set (relations s)) (table_relations file_versions_table) \<and> refers s
       ''admin_accounts'' [''id''] \<and> refers s ''file_metadata'' [''entry_id''] \<and> refers s
         ''storage_objects'' [''id'']"
  by (simp_all add: file_versions_table_def fact_defs)

lemma thumbnails_facts:
  "tb_name thumbnails_table = ''thumbnails''"
  "map cl_name (tb_columns thumbnails_table) =
     [''id'', ''file_version_id'', ''storage_object_id'', ''variant'', ''width'', ''height'', ''status'',
       ''created_at'', ''updated_at'', ''deleted_at'']"
  "table_keys thumbnails_table =
     [(''pk_thumbnails'', [''id'']), (''uq_thumbnails_version_variant'', [''file_version_id'', ''variant''])]"
  "map referred_table (tb_constraints thumbnails_table) =
     [None, None, None, Some ''file_versions'', Some ''storage_objects'', None, None]"
  "table_ok s thumbnails_table \<longleftrightarrow>
     list_all (\<lambda>n. n \<notin> set (relations s)) (table_relations thumbnails_table) \<and> refers s
       ''file_versions'' [''id''] \<and> refers s ''storage_objects'' [''id'']"
  by (simp_all add: thumbnails_table_def fact_defs)

lemma previews_facts:
  "tb_name previews_table = ''previews''"
  "map cl_name (tb_columns previews_table) =
     [''id'', ''file_version_id'', ''storage_object_id'', ''variant'', ''mime_type'', ''status'',
       ''created_at'', ''updated_at'', ''deleted_at'']"
  "table_keys previews_table =
     [(''pk_previews'', [''id'']), (''uq_previews_version_variant'', [''file_version_id'', ''variant''])]"
  "map referred_table (tb_constraints previews_table) =
     [None, Some ''file_versions'', Some ''storage_objects'', None, None]"
  "table_ok s previews_table \<longleftrightarrow>
     list_all (\<lambda>n. n \<notin> set (relations s)) (table_relations previews_table) \<and> refers s
       ''file_versions'' [''id''] \<and> refers s ''storage_objects'' [''id'']"
  by (simp_all add: previews_table_def fact_defs)

lemma upload_sessions_facts:
  "tb_name upload_sessions_table = ''upload_sessions''"
  "map cl_name (tb_columns upload_sessions_table) =
     [''id'', ''owner_id'', ''parent_id'', ''original_name'', ''internal_name'', ''expected_size'',
       ''uploaded_bytes'', ''mime_type'', ''extension'', ''checksum_sha256'', ''staging_key'', ''status'',
         ''expires_at'', ''created_at'', ''updated_at'', ''deleted_at'']"
  "table_keys upload_sessions_table =
     [(''pk_upload_sessions'', [''id'']), (''uq_upload_sessions_staging_key'', [''staging_key''])]"
  "map referred_table (tb_constraints upload_sessions_table) =
     [None, None, None, None, Some ''admin_accounts'', Some ''storage_entries'', None, None]"
  "table_ok s upload_sessions_table \<longleftrightarrow>
     list_all (\<lambda>n. n \<notin> set (relations s)) (table_relations upload_sessions_table) \<and> refers s ''admin_accounts'' [''id''] \<and> refers s ''storage_entries'' [''id'']"
  by (simp_all add: upload_sessions_table_def fact_defs)

lemma trash_items_facts:
  "tb_name trash_items_table = ''trash_items''"
  "map cl_name (tb_columns trash_items_table) =
     [''id'', ''entry_id'', ''original_parent_id'', ''deleted_by'', ''trashed_at'']"
  "table_keys trash_items_table =
     [(''pk_trash_items'', [''id'']), (''uq_trash_items_entry_id'', [''entry_id''])]"
  "map referred_table (tb_constraints trash_items_table) =
     [None, Some ''admin_accounts'', Some ''storage_entries'', None, None]"
  "table_ok s trash_items_table \<longleftrightarrow>
     list_all (\<lambda>n. n \<notin> set (relations s)) (table_relations trash_items_table) \<and> refers s
       ''admin_accounts'' [''id''] \<and> refers s ''storage_entries'' [''id'']"
  by (simp_all add: trash_items_table_def fact_defs)

lemma favorites_facts:
  "tb_name favorites_table = ''favorites''"
  "map cl_name (tb_columns favorites_table) =
     [''owner_id'', ''entry_id'', ''created_at'']"
  "table_keys favorites_table =
     [(''pk_favorites'', [''owner_id'', ''entry_id''])]"
  "map referred_table (tb_constraints favorites_table) =
     [Some ''admin_accounts'', Some ''storage_entries'', None]"
  "table_ok s favorites_table \<longleftrightarrow>
     list_all (\<lambda>n. n \<notin> set (relations s)) (table_relations favorites_table) \<and> refers s
       ''admin_accounts'' [''id''] \<and> refers s ''storage_entries'' [''id'']"
  by (simp_all add: favorites_table_def fact_defs)

lemma recent_opens_facts:
  "tb_name recent_opens_table = ''recent_opens''"
  "map cl_name (tb_columns recent_opens_table) =
     [''owner_id'', ''entry_id'', ''opened_at'', ''open_count'']"
  "table_keys recent_opens_table =
     [(''pk_recent_opens'', [''owner_id'', ''entry_id''])]"
  "map referred_table (tb_constraints recent_opens_table) =
     [None, Some ''admin_accounts'', Some ''storage_entries'', None]"
  "table_ok s recent_opens_table \<longleftrightarrow>
     list_all (\<lambda>n. n \<notin> set (relations s)) (table_relations recent_opens_table) \<and> refers s
       ''admin_accounts'' [''id''] \<and> refers s ''storage_entries'' [''id'']"
  by (simp_all add: recent_opens_table_def fact_defs)

lemmas table_facts = outbox_events_facts admin_accounts_facts auth_sessions_facts security_events_facts auth_rate_limits_facts storage_entries_facts storage_objects_facts file_metadata_facts file_versions_facts thumbnails_facts previews_facts upload_sessions_facts trash_items_facts favorites_facts recent_opens_facts

lemma list_pred_eval:
  "list_all P []" "list_all P (x # xs) \<longleftrightarrow> P x \<and> list_all P xs"
  "\<not> list_ex P []" "list_ex P (x # xs) \<longleftrightarrow> P x \<or> list_ex P xs"
  by simp_all

lemmas list_eval = list.map list.set insert_iff empty_iff append.simps filter.simps concat.simps distinct.simps
  list_pred_eval find.simps list.inject list.distinct char.inject
  option.inject option.distinct option.case Option.bind.simps prod.inject prod.case fst_conv snd_conv o_apply
  bool_simps simp_thms if_True if_False not_False_eq_True not_True_eq_False

lemmas ddl_eval = run_ddl.simps apply_ddl.simps has_columns_def refers_def find_table_def relations_def
  table_relations_def index_on_def empty_schema_def
  updated_at_trigger_def add_updated_at_trigger_def drop_updated_at_trigger_def
  index.simps trigger.simps schema.simps

lemmas script_eval = upgrade_0001_def upgrade_0002_def upgrade_0003_def upgrade_0005_def upgrade_0006_def
  create_derived_asset_tables_def create_upload_and_trash_tables_def
  downgrade_0001_def downgrade_0002_def downgrade_0003_def downgrade_0005_def downgrade_0006_def

text \<open>What a list of upgrades creates, in its order; nothing is checked here.\<close>

fun created :: "ddl list \<Rightarrow> schema \<Rightarrow> schema" where
  "created [] s = s"
| "created (CreateTable t # xs) s = created xs (s\<lparr>sm_tables := sm_tables s @ [t]\<rparr>)"
| "created (CreateIndex i # xs) s = created xs (s\<lparr>sm_indexes := sm_indexes s @ [i]\<rparr>)"
| "created (CreateFunction f # xs) s = created xs (s\<lparr>sm_functions := sm_functions s @ [f]\<rparr>)"
| "created (CreateTrigger name tbl f # xs) s =
     created xs (s\<lparr>sm_triggers := sm_triggers s @ [\<lparr>tg_name = name, tg_table = tbl, tg_function = f\<rparr>]\<rparr>)"
| "created (_ # xs) s = created xs s"

definition schema_1 :: schema where "schema_1 = created upgrade_0001 empty_schema"
definition schema_2 :: schema where "schema_2 = created upgrade_0002 schema_1"
definition schema_3 :: schema where "schema_3 = created upgrade_0003 schema_2"
definition schema_5 :: schema where "schema_5 = created upgrade_0005 schema_3"
definition schema_6 :: schema where "schema_6 = created upgrade_0006 schema_5"

lemmas schema_eval = schema_1_def schema_2_def schema_3_def schema_5_def schema_6_def created.simps

lemmas run_eval = list_eval ddl_eval script_eval table_facts schema_eval
lemmas lazy_eval = conj_left_cong disj_left_cong if_weak_cong

lemma up_1: "run_ddl upgrade_0001 empty_schema = Some schema_1"
  by (simp only: run_eval cong: lazy_eval)

lemma up_2: "run_ddl upgrade_0002 schema_1 = Some schema_2"
  by (simp only: run_eval cong: lazy_eval)

lemma up_3: "run_ddl upgrade_0003 schema_2 = Some schema_3"
  by (simp only: run_eval cong: lazy_eval)

lemma up_5: "run_ddl upgrade_0005 schema_3 = Some schema_5"
  by (simp only: run_eval cong: lazy_eval)

lemma up_6: "run_ddl upgrade_0006 schema_5 = Some schema_6"
  by (simp only: run_eval cong: lazy_eval)

lemma down_1: "run_ddl downgrade_0001 schema_1 = Some empty_schema"
  by (simp only: run_eval cong: lazy_eval)

lemma down_2: "run_ddl downgrade_0002 schema_2 = Some schema_1"
  by (simp only: run_eval cong: lazy_eval)

lemma down_3: "run_ddl downgrade_0003 schema_3 = Some schema_2"
  by (simp only: run_eval cong: lazy_eval)

lemma down_5: "run_ddl downgrade_0005 schema_5 = Some schema_3"
  by (simp only: run_eval cong: lazy_eval)

lemma down_6: "run_ddl downgrade_0006 schema_6 = Some schema_5"
  by (simp only: run_eval cong: lazy_eval)


section \<open>The models\<close>

lemma outbox_event_same: "same_table (model_table outbox_event_model) outbox_events_table"
  by code_simp

lemma admin_account_same: "same_table (model_table admin_account_model) admin_accounts_table"
  by code_simp

lemma auth_session_same: "same_table (model_table auth_session_model) auth_sessions_table"
  by code_simp

lemma security_event_same: "same_table (model_table security_event_model) security_events_table"
  by code_simp

lemma auth_rate_limit_same: "same_table (model_table auth_rate_limit_model) auth_rate_limits_table"
  by code_simp

lemma storage_entry_same: "same_table (model_table storage_entry_model) storage_entries_table"
  by code_simp

lemma file_metadata_same: "same_table (model_table file_metadata_model) file_metadata_table"
  by code_simp

lemma storage_object_same: "same_table (model_table storage_object_model) storage_objects_table"
  by code_simp

lemma file_version_same: "same_table (model_table file_version_model) file_versions_table"
  by code_simp

lemma thumbnail_same: "same_table (model_table thumbnail_model) thumbnails_table"
  by code_simp

lemma preview_same: "same_table (model_table preview_model) previews_table"
  by code_simp

lemma upload_session_same: "same_table (model_table upload_session_model) upload_sessions_table"
  by code_simp

lemma trash_item_same: "same_table (model_table trash_item_model) trash_items_table"
  by code_simp

lemma favorite_same: "same_table (model_table favorite_model) favorites_table"
  by code_simp

lemma recent_open_same: "same_table (model_table recent_open_model) recent_opens_table"
  by code_simp


lemmas models_same = outbox_event_same admin_account_same auth_session_same security_event_same auth_rate_limit_same storage_entry_same file_metadata_same storage_object_same file_version_same thumbnail_same preview_same upload_session_same trash_item_same favorite_same recent_open_same

lemma declared_indexes_same: "same_elements declared_indexes (sm_indexes schema_6)"
  by code_simp

lemma tables_6: "sm_tables schema_6 =
    [outbox_events_table, admin_accounts_table, auth_sessions_table, security_events_table, auth_rate_limits_table,
     storage_entries_table, storage_objects_table, file_metadata_table, file_versions_table, thumbnails_table,
     previews_table, upload_sessions_table, trash_items_table, favorites_table, recent_opens_table]"
  by (simp only: run_eval cong: lazy_eval)

lemma distinct_tables_6: "distinct (map tb_name (sm_tables schema_6))"
  by (simp only: tables_6 run_eval cong: lazy_eval)

lemma find_by_name: "distinct (map f xs) \<Longrightarrow> x \<in> set xs \<Longrightarrow> find (\<lambda>y. f y = f x) xs = Some x"
  by (induction xs) (auto simp: image_iff)

lemma describes_6: "describes declared_tables declared_indexes schema_6"
proof -
  have found: "find_table schema_6 (tb_name m) = Some t \<and> same_table m t"
    if "same_table m t" "t \<in> set (sm_tables schema_6)" for m t
    using that find_by_name [OF distinct_tables_6, of t] by (simp add: find_table_def same_table_def)
  have "same_elements (map tb_name declared_tables) (map tb_name (sm_tables schema_6))"
    using models_same by (simp add: same_elements_set declared_tables_def orm_models_def tables_6 same_table_def insert_commute)
  moreover have "list_all (\<lambda>m. case find_table schema_6 (tb_name m) of None \<Rightarrow> False | Some t \<Rightarrow> same_table m t) declared_tables"
    by (simp add: declared_tables_def orm_models_def found [OF models_same(1)] found [OF models_same(2)]
        found [OF models_same(3)] found [OF models_same(4)] found [OF models_same(5)] found [OF models_same(6)]
        found [OF models_same(7)] found [OF models_same(8)] found [OF models_same(9)] found [OF models_same(10)]
        found [OF models_same(11)] found [OF models_same(12)] found [OF models_same(13)] found [OF models_same(14)]
        found [OF models_same(15)] tables_6)
  ultimately show ?thesis using declared_indexes_same by (simp add: describes_def)
qed

lemma stamped_6: "stamped schema_6"
  by code_simp

lemma short_names_6: "short_names schema_6"
  by code_simp

section \<open>The chain\<close>

lemma upgrade_all_append:
  "upgrade_all (rs @ qs) s = Option.bind (upgrade_all rs s) (upgrade_all qs)"
  by (induction rs arbitrary: s) (simp_all split: Option.bind_split)

lemma revision_steps:
  "map (\<lambda>r. (rv_upgrade r, rv_downgrade r)) revisions =
     [(upgrade_0001, downgrade_0001), (upgrade_0002, downgrade_0002), (upgrade_0003, downgrade_0003), ([], []),
      (upgrade_0005, downgrade_0005), (upgrade_0006, downgrade_0006)]"
  by (simp add: revisions_def)

text \<open>A chain whose every downgrade undoes its upgrade at the state where it runs.\<close>

fun undone_along :: "revision list \<Rightarrow> schema \<Rightarrow> bool" where
  "undone_along [] s = True"
| "undone_along (r # rs) s =
     (case run_ddl (rv_upgrade r) s of
        None \<Rightarrow> False
      | Some s' \<Rightarrow> run_ddl (rv_downgrade r) s' = Some s \<and> undone_along rs s')"

lemma undone_upgrade: "undone_along rs s \<Longrightarrow> \<exists>s'. upgrade_all rs s = Some s' \<and> downgrade_all rs s' = Some s"
proof (induction rs arbitrary: s)
  case (Cons r rs)
  then obtain t where t: "run_ddl (rv_upgrade r) s = Some t" "run_ddl (rv_downgrade r) t = Some s" "undone_along rs t"
    by (auto split: option.splits)
  with Cons.IH obtain u where "upgrade_all rs t = Some u" "downgrade_all rs u = Some t" by blast
  with t show ?case by simp
qed simp

lemma undone_along_append:
  "undone_along (rs @ qs) s \<longleftrightarrow> undone_along rs s \<and> undone_along qs (the (upgrade_all rs s))"
  by (induction rs arbitrary: s) (auto split: option.split)

lemma undone_revisions: "undone_along revisions empty_schema"
  by (simp add: revisions_def up_1 up_2 up_3 up_5 up_6 down_1 down_2 down_3 down_5 down_6)

lemma upgrade_revisions: "upgrade_all revisions empty_schema = Some schema_6"
  by (simp add: revisions_def up_1 up_2 up_3 up_5 up_6)

text \<open>
  C36: the migrations build what the models declare. The revisions form one chain; run on an
  empty database every statement of their upgrades succeeds, and the result has exactly the tables of the ORM
  classes, each with the same columns, types, defaults, keys, checks and foreign keys under the
  same names, and exactly their indexes. Every table with an \<open>updated_at\<close> column has the trigger that
  maintains it, and no name is longer than the database keeps.
\<close>

theorem migrations_build_the_models:
  "chained revisions
   \<and> (\<exists>s. upgrade_all revisions empty_schema = Some s \<and> describes declared_tables declared_indexes s
        \<and> stamped s \<and> short_names s)"
  using upgrade_revisions describes_6 stamped_6 short_names_6
  by (simp add: chained_def revisions_def)

text \<open>
  C37: every downgrade undoes its upgrades. From any point of the chain the remaining upgrades
  succeed, and the downgrades back to that point succeed and give back the same schema.
\<close>

theorem downgrades_undo_upgrades:
  "\<exists>s s'. upgrade_all (take k revisions) empty_schema = Some s
     \<and> upgrade_all (drop k revisions) s = Some s' \<and> downgrade_all (drop k revisions) s' = Some s"
proof -
  have "undone_along (take k revisions @ drop k revisions) empty_schema" using undone_revisions by simp
  then have base: "undone_along (take k revisions) empty_schema"
    and rest: "undone_along (drop k revisions) (the (upgrade_all (take k revisions) empty_schema))"
    by (simp_all only: undone_along_append)
  from undone_upgrade [OF base] obtain s where s: "upgrade_all (take k revisions) empty_schema = Some s" by blast
  from undone_upgrade [OF rest] show ?thesis unfolding s by (auto simp del: take_append drop_append)
qed

end
