(* ===== verification/Root_Provisioning.thy ===== *)
theory Root_Provisioning
  imports Samples Uuid7
begin

text \<open>
  The data migration \<open>20260718_0004_provision_storage_roots\<close>: every account without an active root
  folder gets one, and nothing else changes.
\<close>

section \<open>The migration\<close>

definition is_active_root :: "uuid \<Rightarrow> entry_row \<Rightarrow> bool" where
  "is_active_root owner r \<longleftrightarrow> r_owner r = owner \<and> r_parent r = None \<and> r_deleted r = None"

text \<open>The accounts of the query with \<open>NOT EXISTS\<close>.\<close>

definition rootless_accounts :: "db \<Rightarrow> uuid list" where
  "rootless_accounts d =
     filter (\<lambda>owner. \<not> list_ex (is_active_root owner) (db_entries d)) (map aa_id (db_accounts d))"

text \<open>A clock reading in milliseconds and 74 random bits for each identifier.\<close>

definition migration_uuid7 :: "int \<times> int \<Rightarrow> uuid result" where
  "migration_uuid7 draw =
     (let v = uuid7_value (fst draw) (snd draw)
      in if 0 \<le> v \<and> v < 2 ^ 128 then Inr (nat v) else Inl PyValueError)"

definition root_row :: "uuid \<Rightarrow> uuid \<Rightarrow> instant \<Rightarrow> entry_row" where
  "root_row i owner now =
     \<lparr>r_id = i, r_owner = owner, r_parent = None, r_type = FolderType, r_name = ''Drive'',
      r_normalized = ''drive'', r_created = now, r_updated = now, r_deleted = None\<rparr>"

fun insert_roots :: "(nat \<Rightarrow> int \<times> int) \<Rightarrow> instant \<Rightarrow> uuid list \<Rightarrow> nat \<Rightarrow> db \<Rightarrow> db result" where
  "insert_roots draws now [] n d = Inr d"
| "insert_roots draws now (owner # owners) n d =
     rbind (migration_uuid7 (draws n)) (\<lambda>i.
     rbind (write_entries (db_entries d @ [root_row i owner now]) d) (\<lambda>d'.
     insert_roots draws now owners (n + 1) d'))"

definition upgrade_0004 :: "(nat \<Rightarrow> int \<times> int) \<Rightarrow> instant \<Rightarrow> db \<Rightarrow> db result" where
  "upgrade_0004 draws now d = insert_roots draws now (rootless_accounts d) 0 d"

definition downgrade_0004 :: "db \<Rightarrow> db" where
  "downgrade_0004 d = d"

section \<open>Every account gets its root\<close>

definition drawn_id :: "int \<times> int \<Rightarrow> uuid" where
  "drawn_id draw = nat (uuid7_value (fst draw) (snd draw))"

text \<open>Draws whose identifiers are new, different and representable.\<close>

definition fresh_draws :: "(nat \<Rightarrow> int \<times> int) \<Rightarrow> nat \<Rightarrow> db \<Rightarrow> bool" where
  "fresh_draws draws n d \<longleftrightarrow>
     (\<forall>k < n. random_ok (snd (draws k)) \<and> 0 \<le> fst (draws k) \<and> fst (draws k) < 2 ^ 48
        \<and> drawn_id (draws k) \<notin> entry_ids d)
     \<and> inj_on (\<lambda>k. drawn_id (draws k)) {..<n}"

lemma entries_ok_add_root:
  assumes "entries_ok accounts tbl" and "uuid7_check i" and "owner \<in> accounts" and "i \<notin> set (map r_id tbl)"
    and "\<not> list_ex (is_active_root owner) tbl"
  shows "entries_ok accounts (tbl @ [root_row i owner now])"
proof -
  have "owner \<notin> set (root_owners tbl)"
    using assms(5) by (auto simp: root_owners_def list_ex_iff is_active_root_def)
  moreover have "entry_row_check accounts (insert i (tbl_keys r_id tbl)) r" if "r \<in> set tbl" for r
    using assms(1) that by (auto simp: entries_ok_def entry_row_check_def split: option.splits)
  ultimately show ?thesis
    using assms by (auto simp: entries_ok_def root_row_def entry_row_check_def sibling_keys_def root_owners_def tbl_keys_def)
qed

lemma insert_roots_all:
  assumes "entries_ok (account_ids d) (db_entries d)" and "set owners \<subseteq> account_ids d" and "distinct owners"
    and "\<forall>owner \<in> set owners. \<not> list_ex (is_active_root owner) (db_entries d)"
    and "\<forall>k. n \<le> k \<and> k < n + length owners \<longrightarrow> migration_uuid7 (draws k) = Inr (drawn_id (draws k))
      \<and> uuid7_check (drawn_id (draws k)) \<and> drawn_id (draws k) \<notin> entry_ids d"
    and "inj_on (\<lambda>k. drawn_id (draws k)) {n..<n + length owners}"
  shows "insert_roots draws now owners n d =
    Inr (d\<lparr>db_entries := db_entries d @ map2 (\<lambda>k owner. root_row (drawn_id (draws k)) owner now) [n..<n + length owners] owners\<rparr>)"
  using assms
proof (induction owners arbitrary: n d)
  case (Cons owner owners)
  let ?r = "root_row (drawn_id (draws n)) owner now" and ?d = "\<lambda>t. d\<lparr>db_entries := t\<rparr>"
  from Cons.prems(5) have first: "migration_uuid7 (draws n) = Inr (drawn_id (draws n))"
    "uuid7_check (drawn_id (draws n))" "drawn_id (draws n) \<notin> entry_ids d" by simp_all
  with Cons.prems(1,2,4) have ok: "entries_ok (account_ids d) (db_entries d @ [?r])"
    by (intro entries_ok_add_root) (simp_all add: tbl_keys_def)
  have new: "drawn_id (draws k) \<noteq> drawn_id (draws n)" if "Suc n \<le> k" "k < Suc n + length owners" for k
    using inj_onD [OF Cons.prems(6), of k n] that by auto
  have "insert_roots draws now owners (Suc n) (?d (db_entries d @ [?r])) =
    Inr ((?d (db_entries d @ [?r]))\<lparr>db_entries := db_entries (?d (db_entries d @ [?r])) @
      map2 (\<lambda>k owner. root_row (drawn_id (draws k)) owner now) [Suc n..<Suc n + length owners] owners\<rparr>)"
  proof (rule Cons.IH)
    show "\<forall>o' \<in> set owners. \<not> list_ex (is_active_root o') (db_entries (?d (db_entries d @ [?r])))"
      using Cons.prems(3,4) by (auto simp: list_ex_iff is_active_root_def root_row_def)
    show "\<forall>k. Suc n \<le> k \<and> k < Suc n + length owners \<longrightarrow> migration_uuid7 (draws k) = Inr (drawn_id (draws k))
        \<and> uuid7_check (drawn_id (draws k)) \<and> drawn_id (draws k) \<notin> entry_ids (?d (db_entries d @ [?r]))"
      using Cons.prems(5) new by (auto simp: tbl_keys_def root_row_def)
    show "inj_on (\<lambda>k. drawn_id (draws k)) {Suc n..<Suc n + length owners}"
      by (rule inj_on_subset [OF Cons.prems(6)]) auto
  qed (use ok Cons.prems(2,3) in simp_all)
  moreover have "[n..<n + length (owner # owners)] = n # [Suc n..<Suc n + length owners]"
    by (simp add: upt_conv_Cons del: upt.simps)
  ultimately show ?case
    using first ok by (simp add: write_entries_def rbind_def del: upt.simps)
qed simp

lemma insert_roots_ok:
  assumes "insert_roots draws now owners n d = Inr d'" and "entries_ok (account_ids d) (db_entries d)"
  shows "entries_ok (account_ids d') (db_entries d')"
  using assms
proof (induction owners arbitrary: n d)
  case (Cons owner owners)
  then obtain i where ok: "entries_ok (account_ids d) (db_entries d @ [root_row i owner now])"
    and rest: "insert_roots draws now owners (Suc n) (d\<lparr>db_entries := db_entries d @ [root_row i owner now]\<rparr>) = Inr d'"
    by (auto simp: result_simps)
  from Cons.IH [OF rest] ok show ?case by simp
qed simp

lemma filter_key_at_most_one: "distinct (map f xs) \<Longrightarrow> length (filter (\<lambda>x. f x = y) xs) \<le> 1"
  by (induction xs) (auto simp: filter_empty_conv image_iff)

lemma active_roots_at_most_one:
  assumes "entries_ok accounts tbl"
  shows "length (filter (is_active_root owner) tbl) \<le> 1"
proof -
  have "filter (is_active_root owner) tbl =
      filter (\<lambda>r. r_owner r = owner) (filter (\<lambda>r. r_parent r = None \<and> r_deleted r = None) tbl)"
    unfolding filter_filter is_active_root_def by (rule filter_cong) auto
  moreover have "distinct (map r_owner (filter (\<lambda>r. r_parent r = None \<and> r_deleted r = None) tbl))"
    using assms by (simp add: entries_ok_def root_owners_def)
  note filter_key_at_most_one [OF this, of owner]
  ultimately show ?thesis by simp
qed

lemma appended_entry: "r \<in> set rows \<Longrightarrow> r \<in> set (db_entries (d\<lparr>db_entries := db_entries d @ rows\<rparr>))"
  by simp

lemma fresh_draw:
  assumes "fresh_draws draws n d" and "k < n"
  shows "migration_uuid7 (draws k) = Inr (drawn_id (draws k)) \<and> uuid7_check (drawn_id (draws k))
    \<and> drawn_id (draws k) \<notin> entry_ids d"
proof -
  have r: "random_ok (snd (draws k))" "0 \<le> fst (draws k)" "fst (draws k) < 2 ^ 48" "drawn_id (draws k) \<notin> entry_ids d"
    using assms by (auto simp: fresh_draws_def)
  have "0 \<le> uuid7_value (fst (draws k)) (snd (draws k))" "uuid7_value (fst (draws k)) (snd (draws k)) < 2 ^ 128"
    using uuid7_low_bounds [OF r(1)] r(2,3) by (simp_all add: uuid7_value_low [OF r(1)])
  with r uuid7_value_shape(1) [OF r(1,2)] show ?thesis by (simp add: migration_uuid7_def drawn_id_def Let_def)
qed

text \<open>
  C38: every account has its root. Run on rows that satisfy the constraints, the migration adds
  rows and changes none; afterwards every account has exactly one active root folder, the constraints
  hold, and running it again adds nothing.
\<close>

theorem provisioning_completes_the_roots:
  assumes "entries_ok (account_ids d) (db_entries d)" and "distinct (map aa_id (db_accounts d))"
    and "fresh_draws draws (length (rootless_accounts d)) d"
  shows "\<exists>d' rows. upgrade_0004 draws now d = Inr d' \<and> d' = d\<lparr>db_entries := db_entries d @ rows\<rparr>
    \<and> entries_ok (account_ids d') (db_entries d')
    \<and> (\<forall>owner \<in> account_ids d'. length (filter (is_active_root owner) (db_entries d')) = 1)
    \<and> upgrade_0004 draws' now' d' = Inr d'"
proof -
  let ?o = "rootless_accounts d"
  let ?rows = "map2 (\<lambda>k owner. root_row (drawn_id (draws k)) owner now) [0..<length ?o] ?o"
  let ?d = "d\<lparr>db_entries := db_entries d @ ?rows\<rparr>"
  note draws = fresh_draw [OF assms(3)]
  have run: "upgrade_0004 draws now d = Inr ?d"
    unfolding upgrade_0004_def
    by (subst insert_roots_all)
      (use assms draws in \<open>auto simp: rootless_accounts_def fresh_draws_def tbl_keys_def atLeast0LessThan\<close>)
  note ok = insert_roots_ok [OF run [unfolded upgrade_0004_def] assms(1)]
  have some: "list_ex (is_active_root owner) (db_entries ?d)" if "owner \<in> account_ids ?d" for owner
  proof (cases "owner \<in> set ?o")
    case True
    then obtain k where k: "k < length ?o" "?o ! k = owner" by (auto simp: in_set_conv_nth)
    have "?rows ! k \<in> set ?rows" by (rule nth_mem) (use k in simp)
    moreover have "?rows ! k = root_row (drawn_id (draws k)) owner now" using k by simp
    ultimately have "root_row (drawn_id (draws k)) owner now \<in> set ?rows" by (simp only:)
    then have "root_row (drawn_id (draws k)) owner now \<in> set (db_entries ?d)" by (rule appended_entry)
    moreover have "is_active_root owner (root_row (drawn_id (draws k)) owner now)"
      by (simp add: is_active_root_def root_row_def)
    ultimately show ?thesis unfolding list_ex_iff by blast
  next
    case False
    with that show ?thesis by (auto simp: rootless_accounts_def tbl_keys_def)
  qed
  have "length (filter (is_active_root owner) (db_entries ?d)) = 1" if "owner \<in> account_ids ?d" for owner
  proof -
    have "filter (is_active_root owner) (db_entries ?d) \<noteq> []"
      using some [OF that] by (auto simp: list_ex_iff filter_empty_conv)
    then have "0 < length (filter (is_active_root owner) (db_entries ?d))" by (simp only: length_greater_0_conv simp_thms)
    with active_roots_at_most_one [OF ok, of owner] show ?thesis by linarith
  qed
  moreover have "rootless_accounts ?d = []"
    using some by (auto simp: rootless_accounts_def filter_empty_conv tbl_keys_def)
  then have "upgrade_0004 draws' now' ?d = Inr ?d" by (simp add: upgrade_0004_def)
  ultimately show ?thesis using run ok by blast
qed

theorem provisioning_completes_the_roots_witness:
  "\<exists>d'. upgrade_0004 (\<lambda>k. (7, int k)) 9 (db1\<lparr>db_entries := []\<rparr>) = Inr d' \<and> length (db_entries d') = 1"
proof -
  have rootless: "rootless_accounts (db1\<lparr>db_entries := []\<rparr>) = [sample_id 10]"
    by (simp add: rootless_accounts_def db1_def run_defs)
  have "fresh_draws (\<lambda>k. (7, int k)) (length (rootless_accounts (db1\<lparr>db_entries := []\<rparr>))) (db1\<lparr>db_entries := []\<rparr>)"
    unfolding rootless by (simp add: fresh_draws_def random_ok_def tbl_keys_def inj_on_def)
  moreover have "entries_ok (account_ids (db1\<lparr>db_entries := []\<rparr>)) (db_entries (db1\<lparr>db_entries := []\<rparr>))"
    by (simp add: entries_ok_def sibling_keys_def root_owners_def)
  moreover have "distinct (map aa_id (db_accounts (db1\<lparr>db_entries := []\<rparr>)))" by (simp add: db1_def)
  ultimately obtain d' rows where run: "upgrade_0004 (\<lambda>k. (7, int k)) 9 (db1\<lparr>db_entries := []\<rparr>) = Inr d'"
    "d' = (db1\<lparr>db_entries := []\<rparr>)\<lparr>db_entries := db_entries (db1\<lparr>db_entries := []\<rparr>) @ rows\<rparr>"
    "\<forall>owner \<in> account_ids d'. length (filter (is_active_root owner) (db_entries d')) = 1"
    using provisioning_completes_the_roots [of "db1\<lparr>db_entries := []\<rparr>" "\<lambda>k. (7, int k)" 9] by blast
  then have "length rows = 1"
    using run by (auto simp: upgrade_0004_def rootless result_simps dest!: arg_cong [of _ _ db_entries])
      (metis length_Cons list.size(3))
  with run(1,2) show ?thesis by auto
qed

end
