(* ===== verification/Preflight.thy ===== *)
theory Preflight
  imports Settings
begin

text \<open>
  The production preflight (\<open>docker/preflight.py\<close>): parsing the Compose environment file, the
  checks of its values and of the host, and what a passed preflight means for the settings of the
  application.
\<close>

section \<open>The environment file\<close>

type_synonym env_values = "string \<Rightarrow> string option"

definition env_get :: "env_values \<Rightarrow> string \<Rightarrow> string" where
  "env_get values key = (case values key of None \<Rightarrow> [] | Some v \<Rightarrow> v)"

text \<open>Reading text translates line ends; \<open>splitlines\<close> also breaks at the other separators.\<close>

fun universal_newlines :: "string \<Rightarrow> string" where
  "universal_newlines (c # d # s) =
     (if c = CHR 0x0D then (if d = CHR 0x0A then CHR 0x0A # universal_newlines s
        else CHR 0x0A # universal_newlines (d # s))
      else c # universal_newlines (d # s))"
| "universal_newlines [c] = [if c = CHR 0x0D then CHR 0x0A else c]"
| "universal_newlines [] = []"

definition line_break :: "char \<Rightarrow> bool" where
  "line_break c \<longleftrightarrow> c \<in> {CHR 0x0A, CHR 0x0B, CHR 0x0C, CHR 0x0D, CHR 0x1C, CHR 0x1D, CHR 0x1E, CHR 0x85}"

fun splitlines_from :: "string \<Rightarrow> string \<Rightarrow> string list" where
  "splitlines_from acc [] = (if acc = [] then [] else [rev acc])"
| "splitlines_from acc (c # s) =
     (if line_break c then rev acc # splitlines_from [] s else splitlines_from (c # acc) s)"

definition py_splitlines :: "string \<Rightarrow> string list" where
  "py_splitlines s = splitlines_from [] (universal_newlines s)"

text \<open>\<open>str.isalnum\<close> on Latin-1 text.\<close>

definition latin1_alnum :: "char \<Rightarrow> bool" where
  "latin1_alnum c \<longleftrightarrow>
     (let n = char_code c
      in 48 \<le> n \<and> n \<le> 57 \<or> 65 \<le> n \<and> n \<le> 90 \<or> 97 \<le> n \<and> n \<le> 122
         \<or> n \<in> {0xAA, 0xB2, 0xB3, 0xB5, 0xB9, 0xBA, 0xBC, 0xBD, 0xBE}
         \<or> 0xC0 \<le> n \<and> n \<noteq> 0xD7 \<and> n \<noteq> 0xF7)"

definition env_key_ok :: "string \<Rightarrow> bool" where
  "env_key_ok key \<longleftrightarrow>
     (let stripped = filter (\<lambda>c. c \<noteq> CHR ''_'') key in stripped \<noteq> [] \<and> list_all latin1_alnum stripped)"

definition unquoted :: "string \<Rightarrow> string" where
  "unquoted v =
     (if 2 \<le> length v \<and> hd v = last v \<and> hd v \<in> {CHR 0x27, CHR 0x22} then butlast (tl v) else v)"

text \<open>A line is skipped, or it is an entry; the error is the number of the line.\<close>

fun parse_env_lines :: "unicode \<Rightarrow> nat \<Rightarrow> string list \<Rightarrow> env_values \<Rightarrow> nat + env_values" where
  "parse_env_lines U n [] values = Inr values"
| "parse_env_lines U n (raw # rest) values =
     (let line = py_strip (u_is_space U) raw
      in if line = [] \<or> hd line = CHR ''#'' then parse_env_lines U (n + 1) rest values
         else
           (case py_partition (CHR ''='') line of
              (key, separator, v) \<Rightarrow>
                if \<not> separator \<or> key = [] \<or> \<not> env_key_ok key then Inl n
                else parse_env_lines U (n + 1) rest
                  (values(key := Some (unquoted (py_strip (u_is_space U) v))))))"

definition parse_env_file :: "unicode \<Rightarrow> string \<Rightarrow> nat + env_values" where
  "parse_env_file U content = parse_env_lines U 1 (py_splitlines content) (\<lambda>_. None)"

section \<open>Sizes and placeholders\<close>

definition size_unit :: "char \<Rightarrow> int option" where
  "size_unit c =
     (let l = ascii_lower c
      in if l = CHR ''k'' then Some 1024 else if l = CHR ''m'' then Some (1024 * 1024)
         else if l = CHR ''g'' then Some (1024 * 1024 * 1024) else None)"

text \<open>No number at all is \<open>None\<close>; a number of more than 4300 digits raises.\<close>

definition parse_size :: "unicode \<Rightarrow> string \<Rightarrow> int option result" where
  "parse_size U v =
     (let s = py_strip (u_is_space U) v;
          amount = takeWhile (\<lambda>c. digit_value c \<noteq> None) s;
          multiplier = (case drop (length amount) s of
              [] \<Rightarrow> Some 1
            | [c] \<Rightarrow> size_unit c
            | _ \<Rightarrow> None)
      in case multiplier of
           None \<Rightarrow> Inr None
         | Some m \<Rightarrow>
             if amount = [] then Inr None
             else (case py_int amount of None \<Rightarrow> Inl PyValueError | Some n \<Rightarrow> Inr (Some (n * m))))"

definition placeholder_markers :: "string list" where
  "placeholder_markers = [''change-me'', ''development-'', ''replace-'', ''example.com'']"

definition is_placeholder :: "unicode \<Rightarrow> string \<Rightarrow> bool" where
  "is_placeholder U v = list_ex (\<lambda>m. sublist m (u_casefold U v)) placeholder_markers"

section \<open>Findings\<close>

datatype preflight_finding =
    RequiredValue string
  | WeakSecret string
  | SharedSecrets
  | FloatingImageTag
  | PlaceholderDatabaseUrl
  | DatabaseUrlTarget
  | DatabaseUrlUser
  | DatabaseUrlPassword
  | DatabaseUrlName
  | PlaceholderName string
  | WrongStorageRoot
  | WrongApiBase
  | UploadSizeNoInteger
  | UploadSizeNotPositive
  | BodySizeTooSmall
  | StoragePathRelative
  | StoragePathMissing
  | StoragePathOwner
  | StoragePathMode
  | LiveCertificates
  | CertificatesPathRelative
  | CertificateMissing string
  | CertificateSymlink string
  | PrivateKeyMode
  | AcmePathRelative
  | AcmePathMissing
  | BadPort string
  | SamePorts
  | ComposeUnavailable
  | ComposeInvalid

definition finding_if :: "bool \<Rightarrow> preflight_finding \<Rightarrow> preflight_finding list" where
  "finding_if b f = (if b then [f] else [])"

definition required_values :: "(string \<times> string) list" where
  "required_values =
     [(''DRIVEMPVD_ENVIRONMENT'', ''production''), (''DRIVEMPVD_DOCS_ENABLED'', ''false''),
      (''DRIVEMPVD_AUTH_COOKIE_SECURE'', ''true''), (''DRIVEMPVD_TLS_ENABLED'', ''true'')]"

definition secret_keys :: "string list" where
  "secret_keys =
     [''POSTGRES_PASSWORD'', ''DRIVEMPVD_JWT_ACCESS_SECRET'', ''DRIVEMPVD_JWT_REFRESH_SECRET'',
      ''DRIVEMPVD_AUTH_SECRET_PEPPER'']"

definition floating_image_tags :: "string list" where
  "floating_image_tags =
     [''local'', ''latest'', ''dev'', ''development'', ''edge'', ''main'', ''master'', ''nightly'', ''stable'']"

text \<open>\<open>urlparse\<close> is a parameter; it raises on a malformed host.\<close>

record url_parts =
  ur_scheme :: string
  ur_hostname :: "string option"
  ur_username :: "string option"
  ur_password :: "string option"
  ur_path :: string

text \<open>What the script asks the host.\<close>

record host =
  hs_posix :: bool
  hs_is_dir :: "string \<Rightarrow> bool"
  hs_is_file :: "string \<Rightarrow> bool"
  hs_is_symlink :: "string \<Rightarrow> bool"
  hs_owner :: "string \<Rightarrow> nat \<times> nat"
  hs_mode :: "string \<Rightarrow> nat"

section \<open>Validation\<close>

definition check_required_values :: "unicode \<Rightarrow> env_values \<Rightarrow> preflight_finding list" where
  "check_required_values U values =
     concat (map (\<lambda>(key, expected). finding_if (u_casefold U (env_get values key) \<noteq> expected) (RequiredValue key))
       required_values)"

definition check_secrets :: "unicode \<Rightarrow> env_values \<Rightarrow> preflight_finding list" where
  "check_secrets U values =
     concat (map (\<lambda>key. let v = env_get values key
        in finding_if (length v < 32 \<or> is_placeholder U v) (WeakSecret key)) secret_keys)
     @ finding_if (\<not> distinct (map (env_get values) secret_keys)) SharedSecrets"

definition check_image_tag :: "unicode \<Rightarrow> env_values \<Rightarrow> preflight_finding list" where
  "check_image_tag U values =
     (let tag = env_get values ''DRIVEMPVD_IMAGE_TAG''
      in finding_if (tag = [] \<or> is_placeholder U tag \<or> u_casefold U tag \<in> set floating_image_tags) FloatingImageTag)"

definition present :: "string option \<Rightarrow> bool" where
  "present v \<longleftrightarrow> (case v of None \<Rightarrow> False | Some s \<Rightarrow> s \<noteq> [])"

definition validate_database_url :: "env_values \<Rightarrow> url_parts \<Rightarrow> preflight_finding list" where
  "validate_database_url values parsed =
     (let expected_user = values ''POSTGRES_USER''; expected_password = values ''POSTGRES_PASSWORD'';
          expected_database = values ''POSTGRES_DB'';
          password = (case ur_password parsed of None \<Rightarrow> [] | Some p \<Rightarrow> p)
      in finding_if (ur_scheme parsed \<noteq> ''postgresql+asyncpg'' \<or> ur_hostname parsed \<noteq> Some ''postgres'')
           DatabaseUrlTarget
         @ finding_if (\<not> present expected_user \<or> ur_username parsed \<noteq> expected_user) DatabaseUrlUser
         @ finding_if (\<not> present expected_password \<or> Some (unquote password) \<noteq> expected_password)
             DatabaseUrlPassword
         @ finding_if (\<not> present expected_database
               \<or> Some (py_removeprefix (ur_path parsed) ''/'') \<noteq> expected_database) DatabaseUrlName)"

definition check_database_url ::
  "unicode \<Rightarrow> (string \<Rightarrow> url_parts result) \<Rightarrow> env_values \<Rightarrow> preflight_finding list result" where
  "check_database_url U urlparse values =
     (let url = env_get values ''DRIVEMPVD_DATABASE_URL''
      in if url = [] \<or> is_placeholder U url then Inr [PlaceholderDatabaseUrl]
         else rbind (urlparse url) (\<lambda>parsed. Inr (validate_database_url values parsed)))"

definition check_names :: "unicode \<Rightarrow> env_values \<Rightarrow> preflight_finding list" where
  "check_names U values =
     concat (map (\<lambda>key. let v = env_get values key in finding_if (v = [] \<or> is_placeholder U v) (PlaceholderName key))
       [''POSTGRES_DB'', ''POSTGRES_USER''])
     @ finding_if (values ''DRIVEMPVD_STORAGE_ROOT'' \<noteq> Some ''/data/storage'') WrongStorageRoot
     @ finding_if (values ''VITE_API_BASE_URL'' \<noteq> Some ''/api/v1'') WrongApiBase"

definition check_upload_limits :: "unicode \<Rightarrow> env_values \<Rightarrow> preflight_finding list result" where
  "check_upload_limits U values =
     (let parsed = py_int (env_get values ''DRIVEMPVD_MAX_UPLOAD_SIZE_BYTES'');
          maximum = (case parsed of None \<Rightarrow> 0 | Some n \<Rightarrow> n)
      in rbind (parse_size U (env_get values ''DRIVEMPVD_NGINX_CLIENT_MAX_BODY_SIZE'')) (\<lambda>limit.
         Inr (finding_if (parsed = None) UploadSizeNoInteger @ finding_if (maximum \<le> 0) UploadSizeNotPositive
           @ finding_if (case limit of None \<Rightarrow> True | Some l \<Rightarrow> l < maximum) BodySizeTooSmall)))"

text \<open>\<open>S_IWUSR\<close> is bit 7 of the mode; \<open>S_IRWXG\<close> and \<open>S_IRWXO\<close> are its six lowest bits.\<close>

definition validate_storage_path :: "host \<Rightarrow> string \<Rightarrow> preflight_finding list" where
  "validate_storage_path H p =
     (if \<not> hs_is_dir H p then [StoragePathMissing]
      else if \<not> hs_posix H then []
      else finding_if (hs_owner H p \<noteq> (10001, 10001)) StoragePathOwner
        @ finding_if (hs_mode H p div 128 mod 2 = 0) StoragePathMode)"

definition validate_certificates :: "host \<Rightarrow> string \<Rightarrow> preflight_finding list" where
  "validate_certificates H p =
     concat (map (\<lambda>name. let candidate = p @ ''/'' @ name
        in if \<not> hs_is_file H candidate then [CertificateMissing name]
           else if hs_is_symlink H candidate then [CertificateSymlink name]
           else finding_if (name = ''privkey.pem'' \<and> hs_posix H \<and> hs_mode H candidate mod 64 \<noteq> 0) PrivateKeyMode)
       [''fullchain.pem'', ''privkey.pem''])"

definition check_paths :: "host \<Rightarrow> bool \<Rightarrow> env_values \<Rightarrow> preflight_finding list" where
  "check_paths H check_filesystem values =
     (let storage = env_get values ''DRIVEMPVD_STORAGE_PATH'';
          certificates = env_get values ''DRIVEMPVD_TLS_CERTIFICATES_PATH'';
          acme = env_get values ''DRIVEMPVD_ACME_WEBROOT_PATH''
      in (if \<not> py_startswith storage ''/'' then [StoragePathRelative]
          else if check_filesystem then validate_storage_path H storage else [])
         @ (if py_startswith certificates ''/etc/letsencrypt/live/'' then [LiveCertificates]
            else if \<not> py_startswith certificates ''/'' then [CertificatesPathRelative]
            else if check_filesystem then validate_certificates H certificates else [])
         @ (if \<not> py_startswith acme ''/'' then [AcmePathRelative]
            else finding_if (check_filesystem \<and> \<not> hs_is_dir H acme) AcmePathMissing))"

definition valid_port :: "int \<Rightarrow> bool" where
  "valid_port p \<longleftrightarrow> 1 \<le> p \<and> p \<le> 65535"

definition check_ports :: "env_values \<Rightarrow> preflight_finding list" where
  "check_ports values =
     (let port = (\<lambda>key. case py_int (env_get values key) of None \<Rightarrow> 0 | Some n \<Rightarrow> n);
          http = port ''DRIVEMPVD_HTTP_PORT''; https = port ''DRIVEMPVD_HTTPS_PORT''
      in finding_if (\<not> valid_port http) (BadPort ''DRIVEMPVD_HTTP_PORT'')
         @ finding_if (\<not> valid_port https) (BadPort ''DRIVEMPVD_HTTPS_PORT'')
         @ finding_if (valid_port http \<and> valid_port https \<and> http = https) SamePorts)"

definition validate_preflight ::
  "unicode \<Rightarrow> (string \<Rightarrow> url_parts result) \<Rightarrow> host \<Rightarrow> bool \<Rightarrow> env_values \<Rightarrow> preflight_finding list result" where
  "validate_preflight U urlparse H check_filesystem values =
     rbind (check_database_url U urlparse values) (\<lambda>url.
     rbind (check_upload_limits U values) (\<lambda>limits.
     Inr (check_required_values U values @ check_secrets U values @ check_image_tag U values @ url
       @ check_names U values @ limits @ check_paths H check_filesystem values @ check_ports values)))"

section \<open>The script\<close>

text \<open>How \<open>docker compose config\<close> ended; with \<open>skip_docker\<close> it is not run.\<close>

datatype compose_check = ComposeAccepted | ComposeMissing | ComposeRefused

datatype preflight_outcome = Passed | Findings "preflight_finding list" | MissingFile | InvalidLine nat

definition validate_compose :: "compose_check \<Rightarrow> preflight_finding list" where
  "validate_compose x =
     (case x of ComposeAccepted \<Rightarrow> [] | ComposeMissing \<Rightarrow> [ComposeUnavailable] | ComposeRefused \<Rightarrow> [ComposeInvalid])"

definition preflight_main ::
  "unicode \<Rightarrow> (string \<Rightarrow> url_parts result) \<Rightarrow> host \<Rightarrow> bool \<Rightarrow> compose_check \<Rightarrow> string option \<Rightarrow>
     preflight_outcome result" where
  "preflight_main U urlparse H skip_docker compose environment_file =
     (case environment_file of
        None \<Rightarrow> Inr MissingFile
      | Some content \<Rightarrow>
          (case parse_env_file U content of
             Inl n \<Rightarrow> Inr (InvalidLine n)
           | Inr values \<Rightarrow>
               rbind (validate_preflight U urlparse H (\<not> skip_docker) values) (\<lambda>fs.
               (let all = fs @ (if skip_docker then [] else validate_compose compose)
                in Inr (if all = [] then Passed else Findings all)))))"

section \<open>What a passed preflight means\<close>

lemma finding_if_Nil [simp]: "finding_if b f = [] \<longleftrightarrow> \<not> b"
  by (simp add: finding_if_def)

lemma insecure_is_placeholder: "contains_insecure_placeholder U v \<Longrightarrow> is_placeholder U v"
  by (auto simp: contains_insecure_placeholder_def is_placeholder_def insecure_markers_def placeholder_markers_def)

text \<open>The settings that the application reads from the same environment.\<close>

definition read_from_env :: "unicode \<Rightarrow> env_values \<Rightarrow> settings \<Rightarrow> bool" where
  "read_from_env U values c \<longleftrightarrow>
     cfg_access_secret c = env_get values ''DRIVEMPVD_JWT_ACCESS_SECRET''
     \<and> cfg_refresh_secret c = env_get values ''DRIVEMPVD_JWT_REFRESH_SECRET''
     \<and> cfg_pepper c = env_get values ''DRIVEMPVD_AUTH_SECRET_PEPPER''
     \<and> cfg_database_url c = env_get values ''DRIVEMPVD_DATABASE_URL''
     \<and> cfg_storage_root c = env_get values ''DRIVEMPVD_STORAGE_ROOT''
     \<and> cfg_cookie_secure c = (u_casefold U (env_get values ''DRIVEMPVD_AUTH_COOKIE_SECURE'') = ''true'')
     \<and> Some (cfg_max_upload c) = py_int (env_get values ''DRIVEMPVD_MAX_UPLOAD_SIZE_BYTES'')"

lemma validate_preflight_passed:
  assumes "validate_preflight U urlparse H fs values = Inr []"
  shows "check_database_url U urlparse values = Inr []" "check_upload_limits U values = Inr []"
    "check_required_values U values = []" "check_secrets U values = []" "check_names U values = []"
    "check_ports values = []"
  using assms by (auto simp: validate_preflight_def rbind_eq_Inr)

lemma passed_secrets:
  assumes "check_secrets U values = []"
  shows "key \<in> set secret_keys \<Longrightarrow> 32 \<le> length (env_get values key) \<and> \<not> is_placeholder U (env_get values key)"
    and "distinct (map (env_get values) secret_keys)"
  using assms by (auto simp: check_secrets_def Let_def not_less)


subsection \<open>A deployment that passes\<close>

definition sample_environment :: env_values where
  "sample_environment = map_of
     [(''DRIVEMPVD_ENVIRONMENT'', ''production''), (''DRIVEMPVD_DOCS_ENABLED'', ''false''),
      (''DRIVEMPVD_AUTH_COOKIE_SECURE'', ''true''), (''DRIVEMPVD_TLS_ENABLED'', ''true''),
      (''POSTGRES_PASSWORD'', replicate 32 (CHR ''p'')), (''DRIVEMPVD_JWT_ACCESS_SECRET'', replicate 32 (CHR ''a'')),
      (''DRIVEMPVD_JWT_REFRESH_SECRET'', replicate 32 (CHR ''b'')),
      (''DRIVEMPVD_AUTH_SECRET_PEPPER'', replicate 32 (CHR ''c'')), (''DRIVEMPVD_IMAGE_TAG'', ''1.0''),
      (''DRIVEMPVD_DATABASE_URL'', ''postgresql+asyncpg://u@postgres/d''), (''POSTGRES_DB'', ''d''),
      (''POSTGRES_USER'', ''u''), (''DRIVEMPVD_STORAGE_ROOT'', ''/data/storage''), (''VITE_API_BASE_URL'', ''/api/v1''),
      (''DRIVEMPVD_MAX_UPLOAD_SIZE_BYTES'', ''1000''), (''DRIVEMPVD_NGINX_CLIENT_MAX_BODY_SIZE'', ''1k''),
      (''DRIVEMPVD_STORAGE_PATH'', ''/srv''), (''DRIVEMPVD_TLS_CERTIFICATES_PATH'', ''/tls''),
      (''DRIVEMPVD_ACME_WEBROOT_PATH'', ''/acme''), (''DRIVEMPVD_HTTP_PORT'', ''80''), (''DRIVEMPVD_HTTPS_PORT'', ''443'')]"

definition sample_urlparse :: "string \<Rightarrow> url_parts result" where
  "sample_urlparse url = Inr \<lparr>ur_scheme = ''postgresql+asyncpg'', ur_hostname = Some ''postgres'', ur_username = Some ''u'',
     ur_password = Some (replicate 32 (CHR ''p'')), ur_path = ''/d''\<rparr>"

definition sample_host :: host where
  "sample_host = \<lparr>hs_posix = True, hs_is_dir = (\<lambda>_. True), hs_is_file = (\<lambda>_. True), hs_is_symlink = (\<lambda>_. False),
     hs_owner = (\<lambda>_. (10001, 10001)), hs_mode = (\<lambda>_. 384)\<rparr>"

definition deployed_settings :: settings where
  "deployed_settings = sample_settings\<lparr>cfg_database_url := ''postgresql+asyncpg://u@postgres/d'',
     cfg_max_upload := 1000\<rparr>"

lemma sample_environment_passes:
  "validate_preflight ascii_unicode sample_urlparse sample_host True sample_environment = Inr []"
  by code_simp


section \<open>Environment files come back\<close>

definition env_key :: "unicode \<Rightarrow> string \<Rightarrow> bool" where
  "env_key U k \<longleftrightarrow> env_key_ok k
     \<and> (\<forall>c \<in> set k. \<not> u_is_space U c \<and> \<not> line_break c \<and> c \<notin> {CHR ''='', CHR ''#''})"

text \<open>A value that needs no quoting: one line, no space at its ends, not quoted itself.\<close>

definition env_text :: "unicode \<Rightarrow> string \<Rightarrow> bool" where
  "env_text U v \<longleftrightarrow> py_strip (u_is_space U) v = v \<and> unquoted v = v \<and> (\<forall>c \<in> set v. \<not> line_break c)"

definition env_file :: "(string \<times> string) list \<Rightarrow> string" where
  "env_file kvs = concat (map (\<lambda>(k, v). k @ ''='' @ v @ [CHR 0x0A]) kvs)"

lemma universal_newlines_same: "CHR 0x0D \<notin> set s \<Longrightarrow> universal_newlines s = s"
  by (induction s rule: universal_newlines.induct) auto

lemma splitlines_from_line:
  assumes "\<forall>c \<in> set s. \<not> line_break c"
  shows "splitlines_from acc (s @ CHR 0x0A # t) = (rev acc @ s) # splitlines_from [] t"
  using assms by (induction s arbitrary: acc) (simp_all add: line_break_def)

lemma env_keyD:
  assumes "env_key U k"
  shows "env_key_ok k" "k \<noteq> []" "CHR ''='' \<notin> set k" "hd k \<noteq> CHR ''#''" "\<not> u_is_space U (hd k)"
    "\<forall>c \<in> set k. \<not> line_break c"
proof -
  show ok: "env_key_ok k" using assms by (simp add: env_key_def)
  show ne: "k \<noteq> []"
  proof
    assume "k = []"
    with ok show False by (simp add: env_key_ok_def)
  qed
  have all: "\<forall>c \<in> set k. \<not> u_is_space U c \<and> \<not> line_break c \<and> c \<notin> {CHR ''='', CHR ''#''}"
    using assms unfolding env_key_def by (rule conjunct2)
  from all show "CHR ''='' \<notin> set k" and "\<forall>c \<in> set k. \<not> line_break c" by blast+
  from all hd_in_set [OF ne] show "hd k \<noteq> CHR ''#''" and "\<not> u_is_space U (hd k)" by blast+
qed

lemma env_line_plain:
  assumes "env_key U k" and "env_text U v"
  shows "\<forall>c \<in> set (k @ ''='' @ v). \<not> line_break c"
proof -
  have "\<not> line_break (CHR ''='')" by (simp add: line_break_def)
  then show ?thesis using assms env_keyD(6) [OF assms(1)] by (simp only: env_text_def set_append ball_Un) simp
qed

lemma splitlines_env_file:
  assumes "\<forall>(k, v) \<in> set kvs. env_key U k \<and> env_text U v"
  shows "py_splitlines (env_file kvs) = map (\<lambda>(k, v). k @ ''='' @ v) kvs"
proof -
  have cr: "line_break (CHR 0x0D)" by (simp add: line_break_def)
  have "CHR 0x0D \<notin> set (env_file kvs)"
    using assms
  proof (induction kvs)
    case (Cons x kvs)
    obtain k v where x: "x = (k, v)" by (cases x)
    have "CHR 0x0D \<notin> set (k @ ''='' @ v)"
      using env_line_plain [of U k v] Cons.prems cr by (auto simp: x)
    moreover have "env_file (x # kvs) = (k @ ''='' @ v) @ CHR 0x0A # env_file kvs" by (simp add: x env_file_def)
    ultimately show ?case using Cons by simp
  qed (simp add: env_file_def)
  moreover have "splitlines_from [] (env_file kvs) = map (\<lambda>(k, v). k @ ''='' @ v) kvs"
    using assms
  proof (induction kvs)
    case (Cons x kvs)
    obtain k v where x: "x = (k, v)" by (cases x)
    have "\<forall>c \<in> set (k @ ''='' @ v). \<not> line_break c"
      using Cons.prems by (intro env_line_plain [of U]) (simp_all add: x)
    from splitlines_from_line [OF this, of "[]" "env_file kvs"] Cons show ?case by (simp add: x env_file_def)
  qed (simp add: env_file_def)
  ultimately show ?thesis by (simp add: py_splitlines_def universal_newlines_same)
qed

text \<open>The entries come back, the last one of a key first.\<close>

lemma parse_env_file_back:
  assumes "\<forall>(k, v) \<in> set kvs. env_key U k \<and> env_text U v" and "\<not> u_is_space U (CHR ''='')"
  shows "parse_env_file U (env_file kvs) = Inr (map_of (rev kvs))"
proof -
  have "parse_env_lines U n (map (\<lambda>(k, v). k @ ''='' @ v) kvs) m = Inr (m ++ map_of (rev kvs))" for n m
    using assms(1)
  proof (induction kvs arbitrary: n m)
    case (Cons x kvs)
    obtain k v where x: "x = (k, v)" by (cases x)
    have "env_key U k" using Cons.prems by (simp add: x)
    note k = env_keyD [OF this]
    have v: "py_strip (u_is_space U) v = v" "unquoted v = v" using Cons.prems by (simp_all add: x env_text_def)
    then have "v = [] \<or> \<not> u_is_space U (last v)" using py_strip_ends(2) [of "u_is_space U" v] by fastforce
    then have "\<not> u_is_space U (last (k @ ''='' @ v))" using assms(2) by auto
    moreover have "\<not> u_is_space U (hd (k @ ''='' @ v))" using k(2,5) by simp
    ultimately have "py_strip (u_is_space U) (k @ ''='' @ v) = k @ ''='' @ v" by (intro py_strip_fixed) blast
    moreover have "py_partition (CHR ''='') (k @ ''='' @ v) = (k, True, v)"
      using py_partition_here [OF k(3)] by simp
    ultimately show ?case
      using k v Cons by (simp add: x Let_def)
  qed simp
  from this [of 1 Map.empty] show ?thesis by (simp add: parse_env_file_def splitlines_env_file [OF assms(1)])
qed

end
