(* ===== verification/Command_Line.thy ===== *)
theory Command_Line
  imports Settings System
begin

text \<open>
  The commands of the backend (\<open>app/infrastructure/cli\<close>): creating the administrator, changing the
  password, and the polling worker of the outbox. A command line is what \<open>argparse\<close> hands to the
  declared converters; a usage error prints the usage and exits with status 2. Closing the connection
  pool and the heartbeat file have no effect on database and store.
\<close>

section \<open>Administrator commands\<close>

text \<open>What the terminal answers: the line of standard input, or both hidden prompts.\<close>

record password_input =
  pi_stdin :: bool
  pi_line :: string
  pi_password :: string
  pi_confirmation :: string

definition rstrip_newlines :: "string \<Rightarrow> string" where
  "rstrip_newlines s = rev (dropWhile (\<lambda>c. c = CHR 0x0D \<or> c = CHR 0x0A) (rev s))"

definition read_password :: "password_input \<Rightarrow> string option" where
  "read_password i =
     (if pi_stdin i
      then (let password = rstrip_newlines (pi_line i) in if password = [] then None else Some password)
      else if pi_password i \<noteq> pi_confirmation i then None else Some (pi_password i))"

datatype command_outcome = UsageError | Raised error | Printed string

definition account_line :: "string \<Rightarrow> admin_account \<Rightarrow> string" where
  "account_line what a = what @ '': '' @ aa_username a @ '' ('' @ uuid_str (aa_id a) @ '')''"

definition create_admin_command ::
  "auth_services \<Rightarrow> auth_policy \<Rightarrow> string \<Rightarrow> password_input \<Rightarrow> db \<Rightarrow> command_outcome \<times> db" where
  "create_admin_command A policy username i d =
     (case read_password i of
        None \<Rightarrow> (UsageError, d)
      | Some password \<Rightarrow>
          (case bootstrap_admin A policy \<lparr>cc_username = username, cc_password = password\<rparr> d of
             (Inl e, d') \<Rightarrow> (Raised e, d')
           | (Inr a, d') \<Rightarrow> (Printed (account_line ''Administrator created'' a), d')))"

definition change_password_command ::
  "auth_services \<Rightarrow> auth_policy \<Rightarrow> string \<Rightarrow> password_input \<Rightarrow> db \<Rightarrow> command_outcome \<times> db" where
  "change_password_command A policy username i d =
     (case read_password i of
        None \<Rightarrow> (UsageError, d)
      | Some password \<Rightarrow>
          (case change_admin_password A policy \<lparr>cc_username = username, cc_password = password\<rparr> d of
             (Inl e, d') \<Rightarrow> (Raised e, d')
           | (Inr a, d') \<Rightarrow> (Printed (account_line ''Administrator password changed'' a), d')))"

section \<open>The worker\<close>

definition positive_int :: "string \<Rightarrow> int option" where
  "positive_int v = (case py_int v of None \<Rightarrow> None | Some n \<Rightarrow> if n < 1 then None else Some n)"

record worker_args =
  wa_once :: bool
  wa_poll :: "string option"
  wa_events :: "string option"
  wa_orphans :: "string option"

record worker_options =
  wo_once :: bool
  wo_poll :: "int option"
  wo_events :: "int option"
  wo_orphans :: "int option"

definition convert_argument :: "string option \<Rightarrow> int option option" where
  "convert_argument v = (case v of None \<Rightarrow> Some None | Some s \<Rightarrow> map_option Some (positive_int s))"

definition above :: "int \<Rightarrow> int option \<Rightarrow> bool" where
  "above limit v = (case v of None \<Rightarrow> False | Some n \<Rightarrow> limit < n)"

definition parse_worker_args :: "worker_args \<Rightarrow> worker_options option" where
  "parse_worker_args a =
     (case (convert_argument (wa_poll a), convert_argument (wa_events a), convert_argument (wa_orphans a)) of
        (Some poll, Some events, Some orphans) \<Rightarrow>
          if above 200 events \<or> above 1000 orphans then None
          else Some \<lparr>wo_once = wa_once a, wo_poll = poll, wo_events = events, wo_orphans = orphans\<rparr>
      | _ \<Rightarrow> None)"

definition default_to :: "int \<Rightarrow> int option \<Rightarrow> int" where
  "default_to n v = (case v of None \<Rightarrow> n | Some m \<Rightarrow> m)"

definition worker_command :: "settings \<Rightarrow> worker_options \<Rightarrow> process_cmd result" where
  "worker_command c w =
     process_cmd_create (default_to (cfg_worker_batch c) (wo_events w)) (default_to (cfg_sweep_batch c) (wo_orphans w))"

definition result_payload :: "process_result \<Rightarrow> json_object" where
  "result_payload r =
     [(''component'', JStr ''storage_outbox''), (''events_seen'', JInt (pr_seen r)),
      (''events_processed'', JInt (pr_processed r)), (''events_deferred'', JInt (pr_deferred r)),
      (''events_failed'', JInt (pr_failed r)), (''metadata_objects_deleted'', JInt (pr_metadata r)),
      (''physical_objects_deleted'', JInt (pr_physical r))]"

text \<open>
  The polling loop over the clock, the identifiers and the rows other transactions hold in each of its
  rounds. \<open>Polling\<close>: the loop is still running after the rounds given.
\<close>

datatype worker_outcome = Exits int | Fails error | Polling

fun worker_run ::
  "bool \<Rightarrow> process_cmd \<Rightarrow> (ports \<times> uuid set) list \<Rightarrow> db \<Rightarrow> fs \<Rightarrow> worker_outcome \<times> json_object list \<times> db \<times> fs" where
  "worker_run once c [] d s = (Polling, [], d, s)"
| "worker_run once c ((P, locked) # rounds) d s =
     (let (r, n, d1, s1) = process_storage_outbox delete_object P locked c d s;
          printed = (if once \<or> pr_seen r \<noteq> 0 then [result_payload r] else [])
      in if once then (Exits (if pr_failed r > 0 then 1 else 0), printed, d1, s1)
         else (let (out, more, d2, s2) = worker_run once c rounds d1 s1 in (out, printed @ more, d2, s2)))"

definition worker_main ::
  "unicode \<Rightarrow> settings \<Rightarrow> worker_args \<Rightarrow> (ports \<times> uuid set) list \<Rightarrow> db \<Rightarrow> fs \<Rightarrow>
     worker_outcome \<times> json_object list \<times> db \<times> fs" where
  "worker_main U c a rounds d s =
     (case parse_worker_args a of
        None \<Rightarrow> (Exits 2, [], d, s)
      | Some w \<Rightarrow>
          (case rbind (load_settings U c) (\<lambda>c'. worker_command c' w) of
             Inl e \<Rightarrow> (Fails e, [], d, s)
           | Inr command \<Rightarrow> worker_run (wo_once w) command rounds d s))"

text \<open>A command line and settings that are accepted give batches within the limits of the consumer.\<close>

lemma convert_argument_positive: "convert_argument v = Some (Some n) \<Longrightarrow> 1 \<le> n"
  by (auto simp: convert_argument_def positive_int_def split: option.splits if_splits)

lemma worker_command_accepted:
  assumes "parse_worker_args a = Some w" and "load_settings U c = Inr c'"
  shows "\<exists>command. worker_command c' w = Inr command \<and> 1 \<le> pc_event_batch command \<and> 1 \<le> pc_orphan_batch command"
proof -
  have "within 1 200 (cfg_worker_batch c')" "within 1 1000 (cfg_sweep_batch c')"
    using assms(2) by (auto simp: load_settings_def fields_in_bounds_def result_simps)
  moreover from assms(1) obtain poll where "convert_argument (wa_poll a) = Some poll"
    "convert_argument (wa_events a) = Some (wo_events w)" "convert_argument (wa_orphans a) = Some (wo_orphans w)"
    "\<not> above 200 (wo_events w)" "\<not> above 1000 (wo_orphans w)"
    by (auto simp: parse_worker_args_def split: option.splits if_splits)
  ultimately show ?thesis
    using convert_argument_positive [of "wa_events a"] convert_argument_positive [of "wa_orphans a"]
    by (cases "wo_events w"; cases "wo_orphans w")
      (auto simp: worker_command_def process_cmd_create_def default_to_def above_def within_def result_simps)
qed

end
