(* ===== verification/Store_Inventory.thy ===== *)
theory Store_Inventory
  imports Samples "HOL-Library.List_Lexorder" "HOL-Library.Multiset" "HOL-Library.Sublist"
begin

text \<open>
  The inventories of \<open>LocalFileStorageProvider\<close> (\<open>app/infrastructure/storage/local.py\<close>): the walk over the
  regular files below a directory, \<open>list_objects\<close> and \<open>list_staged_uploads\<close>, and what they list on
  every store that the drive can reach. The tree does not change while it is walked.
\<close>

section \<open>The walk\<close>

text \<open>The names in a directory, by code points.\<close>

definition entry_names :: "fs \<Rightarrow> path \<Rightarrow> string list" where
  "entry_names s dir =
     sort_key (map char_code) (remdups (map (\<lambda>n. last (fst n))
       (filter (\<lambda>n. fst n \<noteq> [] \<and> butlast (fst n) = dir) (fs_nodes s))))"

definition directory_entries :: "fs \<Rightarrow> path \<Rightarrow> path list \<times> path list" where
  "directory_entries s dir =
     (let paths = map (\<lambda>x. dir @ [x]) (entry_names s dir)
      in (filter (\<lambda>p. fs_get s p = Some DirNode) paths, filter (\<lambda>p. fs_file s p \<noteq> None) paths))"

lemma set_entry_names: "x \<in> set (entry_names s dir) \<longleftrightarrow> fs_get s (dir @ [x]) \<noteq> None"
proof -
  have "x \<in> set (entry_names s dir) \<longleftrightarrow>
      (\<exists>n \<in> set (fs_nodes s). fst n \<noteq> [] \<and> butlast (fst n) = dir \<and> x = last (fst n))"
    by (auto simp: entry_names_def)
  also have "\<dots> \<longleftrightarrow> (\<exists>n \<in> set (fs_nodes s). fst n = dir @ [x])"
    by (rule bex_cong) (auto simp: snoc_eq_iff_butlast)
  also have "\<dots> \<longleftrightarrow> dir @ [x] \<in> fst ` set (fs_nodes s)" by (simp only: image_iff) metis
  finally show ?thesis by (simp add: fs_get_def tbl_find_None_iff tbl_keys_def)
qed

lemma distinct_entry_names: "distinct (entry_names s dir)"
  by (simp add: entry_names_def)

definition longest_path :: "fs \<Rightarrow> nat" where
  "longest_path s = Max (insert 0 ((\<lambda>n. length (fst n)) ` set (fs_nodes s)))"

lemma length_le_longest: "fs_get s p \<noteq> None \<Longrightarrow> length p \<le> longest_path s"
proof -
  assume "fs_get s p \<noteq> None"
  then obtain n where "n \<in> set (fs_nodes s)" "fst n = p"
    by (auto simp: fs_get_def tbl_find_None_iff tbl_keys_def)
  then have "length p \<in> (\<lambda>n. length (fst n)) ` set (fs_nodes s)" by force
  then show ?thesis by (simp add: longest_path_def)
qed

text \<open>
  The stack of pending directories, its top first: the directories of a visited one go on top in
  order. Every visited directory is replaced by directories that lie deeper.
\<close>

function walk_pending :: "fs \<Rightarrow> path list \<Rightarrow> path list" where
  "walk_pending s [] = []"
| "walk_pending s (dir # stack) =
     (let (directories, files) = directory_entries s dir
      in files @ walk_pending s (directories @ stack))"
  by pat_completeness auto

termination
proof (relation "inv_image (mult less_than) (\<lambda>(s, stack). image_mset (\<lambda>p. longest_path s - length p) (mset stack))",
    goal_cases)
  case 1
  show ?case by (intro wf_inv_image wf_mult wf_less_than)
next
  case (2 s dir stack x directories files)
  let ?depth = "\<lambda>p. longest_path s - length p"
  have "length p = Suc (length dir) \<and> length p \<le> longest_path s" if "p \<in> set directories" for p
    using that 2 length_le_longest by (auto simp: directory_entries_def Let_def)
  then have "\<forall>k \<in> set_mset (image_mset ?depth (mset directories)). \<exists>j \<in> set_mset {#?depth dir#}. (k, j) \<in> less_than"
    by fastforce
  from one_step_implies_mult [OF _ this, of "image_mset ?depth (mset stack)"]
  show ?case by (simp add: union_commute)
qed

definition walk_regular_files :: "fs \<Rightarrow> path \<Rightarrow> path list" where
  "walk_regular_files s root = (if is_dir s root then walk_pending s [root] else [])"

section \<open>Inventories\<close>

record physical_object =
  po_key :: string
  po_size :: int
  po_modified :: instant

fun as_posix :: "path \<Rightarrow> string" where
  "as_posix [] = []"
| "as_posix [x] = x"
| "as_posix (x # y # ys) = x @ ''/'' @ as_posix (y # ys)"

definition list_objects :: "fs \<Rightarrow> physical_object list" where
  "list_objects s =
     concat (map (\<lambda>p. case fs_get s p of
         Some (RegFile c t) \<Rightarrow> [\<lparr>po_key = as_posix p, po_size = int (length c), po_modified = t\<rparr>]
       | _ \<Rightarrow> [])
       (walk_regular_files s [''objects'']))"

record staged_upload =
  sg_upload :: uuid
  sg_size :: int
  sg_modified :: instant

text \<open>\<open>path.stem\<close>: the name without its suffix.\<close>

definition purepath_stem :: "string \<Rightarrow> string" where
  "purepath_stem name = take (length name - length (purepath_suffix name)) name"

definition staged_upload_of :: "fs \<Rightarrow> path \<Rightarrow> staged_upload list" where
  "staged_upload_of s p =
     (if butlast p \<noteq> [''staging''] \<or> purepath_suffix (last p) \<noteq> ''.part'' then []
      else
        (case uuid_parse (purepath_stem (last p)) of
           Inl _ \<Rightarrow> []
         | Inr upload_id \<Rightarrow>
             if last p \<noteq> uuid_str upload_id @ ''.part'' then []
             else
               (case fs_get s p of
                  Some (RegFile c t) \<Rightarrow> [\<lparr>sg_upload = upload_id, sg_size = int (length c), sg_modified = t\<rparr>]
                | _ \<Rightarrow> [])))"

definition list_staged_uploads :: "fs \<Rightarrow> staged_upload list" where
  "list_staged_uploads s = concat (map (staged_upload_of s) (walk_regular_files s [''staging'']))"

section \<open>The shape of the store\<close>

text \<open>
  Every file and directory lies in an existing directory. A file is the staged file or the object of
  some upload, and the staging directory has no directories below it.
\<close>

definition upload_path :: "path \<Rightarrow> bool" where
  "upload_path p \<longleftrightarrow> (\<exists>u < 2 ^ 128. p = staging_path u \<or> key_path (object_key u) = Inr p)"

text \<open>Directories are \<open>staging\<close>, \<open>objects\<close> and two levels below that.\<close>

definition directory_path :: "path \<Rightarrow> bool" where
  "directory_path p \<longleftrightarrow> p = [''staging''] \<or> p \<noteq> [] \<and> hd p = ''objects'' \<and> length p \<le> 3"

lemma directory_paths [simp]: "directory_path [''staging'']" "directory_path [''objects'']" "\<not> directory_path []"
  by (simp_all add: directory_path_def)

definition neat :: "fs \<Rightarrow> bool" where
  "neat s \<longleftrightarrow> (\<forall>p n. fs_get s p = Some n \<longrightarrow>
     p \<noteq> [] \<and> is_dir s (butlast p) \<and> (n = DirNode \<longrightarrow> directory_path p) \<and> (n \<noteq> DirNode \<longrightarrow> upload_path p))"

lemma neatD:
  assumes "neat s" and "fs_get s p = Some n"
  shows "p \<noteq> []" and "is_dir s (butlast p)" and "n = DirNode \<Longrightarrow> directory_path p"
    and "n \<noteq> DirNode \<Longrightarrow> upload_path p"
  using assms by (simp_all add: neat_def)

lemma neat_put_file:
  assumes "neat s" and "p \<noteq> []" and "is_dir s (butlast p)" and "fs_get s p \<noteq> Some DirNode" and "upload_path p"
  shows "neat (fs_put p (RegFile c t) s)"
proof -
  have "is_dir (fs_put p (RegFile c t) s) q = is_dir s q" for q using assms(2,4) by (auto simp: is_dir_def)
  with assms show ?thesis by (auto simp: neat_def split: if_splits)
qed

lemma neat_rewrite_file: "neat s \<Longrightarrow> fs_file s p = Some c \<Longrightarrow> neat (fs_put p (RegFile c' t) s)"
  by (rule neat_put_file) (auto simp: fs_file_def dest: neatD split: option.splits fs_node.splits)

lemma neat_put_directory:
  assumes "neat s" and "is_dir s (butlast p)" and "fs_get s p = None" and "directory_path p"
  shows "neat (fs_put p DirNode s)"
  using assms by (auto simp: neat_def is_dir_def split: if_splits)

lemma neat_remove:
  assumes "neat s" and "\<not> is_dir s p"
  shows "neat (fs_remove p s)"
proof -
  have "is_dir (fs_remove p s) q = is_dir s q" for q using assms(2) by (auto simp: is_dir_def)
  with assms show ?thesis by (auto simp: neat_def split: if_splits)
qed

lemma mkdirs_from_neat:
  assumes "mkdirs_from pre p s = Inr s'" and "neat s" and "is_dir s pre"
    and "directory_path (pre @ p)"
  shows "neat s' \<and> is_dir s' (pre @ p) \<and> (\<forall>q. is_dir s q \<longrightarrow> is_dir s' q)"
  using assms
proof (induction pre p s rule: mkdirs_from.induct)
  case (2 pre x xs s)
  let ?p = "pre @ [x]"
  have top: "directory_path ?p"
    using "2.prems"(4) by (cases pre) (auto simp: directory_path_def append_eq_Cons_conv)
  show ?case
  proof (cases "fs_get s ?p")
    case None
    have "neat (fs_put ?p DirNode s)" using "2.prems"(2,3) None top by (intro neat_put_directory) simp_all
    moreover have "is_dir (fs_put ?p DirNode s) q" if "is_dir s q" for q using that by (simp add: is_dir_def)
    moreover have "is_dir (fs_put ?p DirNode s) ?p" by (simp add: is_dir_def)
    ultimately show ?thesis using "2.IH"(1) [OF None] "2.prems" None by auto
  next
    case (Some n)
    with "2.prems"(1) have n: "n = DirNode" by (cases n) auto
    then have "is_dir s ?p" using Some by (simp add: is_dir_def)
    with "2.IH"(2) [OF Some n] "2.prems" Some n show ?thesis by simp
  qed
qed simp

lemma mkdirs_neat:
  assumes "mkdirs p s = Inr s'" and "neat s" and "directory_path p"
  shows "neat s'" and "is_dir s' p" and "is_dir s q \<Longrightarrow> is_dir s' q"
  using mkdirs_from_neat [OF assms(1) [unfolded mkdirs_def] assms(2)] assms(3)
  by (simp_all add: is_dir_def [of s "[]"])

text \<open>Where the staged file of an upload lies.\<close>

lemma staging_not_directory: "neat s \<Longrightarrow> fs_get s (staging_path u) \<noteq> Some DirNode"
  using neatD(3) [of s "staging_path u" DirNode] by (auto simp: staging_path_def directory_path_def)

section \<open>Every call keeps the shape\<close>

lemma upload_paths: "u < 2 ^ 128 \<Longrightarrow> upload_path (staging_path u)"
  "u < 2 ^ 128 \<Longrightarrow> key_path (object_key u) = Inr p \<Longrightarrow> upload_path p"
  by (auto simp: upload_path_def)

lemma create_upload_neat: "neat s \<Longrightarrow> u < 2 ^ 128 \<Longrightarrow> neat (snd (create_upload now u s))"
  using upload_paths(1) [of u]
  by (auto simp: create_upload_def staging_path_def intro!: neat_put_file
      dest: mkdirs_neat [OF _ _ directory_paths(1)] mkdirs_neat [OF _ _ directory_paths(2)] split: sum.splits)

lemma append_chunk_neat: "neat s \<Longrightarrow> neat (snd (append_chunk wb F now u off b s))"
  by (auto simp: append_chunk_def Let_def intro: neat_rewrite_file split: option.splits prod.splits)

lemma truncate_upload_neat: "neat s \<Longrightarrow> neat (snd (truncate_upload now u off s))"
  by (auto simp: truncate_upload_def Let_def intro: neat_rewrite_file split: option.splits)

lemma unlink_neat: "neat s \<Longrightarrow> neat (snd (unlink_missing_ok p s))"
  by (auto simp: unlink_missing_ok_def intro: neat_remove)

lemma discard_upload_neat: "neat s \<Longrightarrow> neat (snd (discard_upload u s))"
  by (simp add: discard_upload_def unlink_neat)

lemma delete_object_neat: "neat s \<Longrightarrow> neat (snd (delete_object k s))"
  by (auto simp: delete_object_def unlink_neat split: sum.splits)

lemma publish_upload_neat:
  assumes "neat s" and "u < 2 ^ 128"
  shows "neat (snd (publish_upload u n s))"
proof (cases "publish_upload u n s")
  case (Pair r s')
  let ?src = "staging_path u"
  let ?parent = "[''objects'', take 2 (uuid_hex u), take 2 (drop 2 (uuid_hex u))]"
  let ?dst = "?parent @ [uuid_str u]"
  have dst: "key_path (object_key u) = Inr ?dst" by (simp add: object_key_path)
  show ?thesis
  proof (cases "s' = s")
    case False
    with Pair dst obtain s1 where m: "mkdirs ?parent s = Inr s1"
      and s': "s' = s1 \<or> fs_get s1 ?dst = None \<and> os_replace ?src ?dst s1 = Inr s'"
      by (auto simp: publish_upload_def Let_def split: option.splits if_splits sum.splits)
    have top: "directory_path ?parent" by (simp add: directory_path_def)
    note n1 = mkdirs_neat [OF m assms(1) top]
    show ?thesis
    proof (cases "s' = s1")
      case False
      with s' obtain c t where free: "fs_get s1 ?dst = None" and src: "fs_get s1 ?src = Some (RegFile c t)"
        and r: "s' = fs_put ?dst (RegFile c t) (fs_remove ?src s1)"
        using staging_not_directory [OF n1(1), of u]
        by (auto simp: os_replace_def split: option.splits fs_node.splits)
      have regular: "\<not> is_dir s1 ?src" using src by (simp add: is_dir_def staging_path_def)
      have "neat (fs_remove ?src s1)" by (rule neat_remove [OF n1(1) regular])
      moreover have "is_dir (fs_remove ?src s1) ?parent" using n1(2) by (simp add: is_dir_def staging_path_def)
      ultimately show ?thesis unfolding Pair r using free upload_paths(2) [OF assms(2) dst] by (simp add: neat_put_file)
    qed (use Pair n1(1) in simp)
  qed (use Pair assms in simp)
qed

lemma start_upload_neat: "neat s \<Longrightarrow> p_ids P 0 < 2 ^ 128 \<Longrightarrow> start_upload P policy c d s = (r, d', s') \<Longrightarrow> neat s'"
  using create_upload_neat [of s "p_ids P 0" "p_now P"] discard_upload_neat
  by (auto simp: start_upload_def Let_def split: sum.splits prod.splits) (metis snd_conv)+

lemma append_upload_neat:
  assumes "neat s" and "append_upload P S policy c d s = (r, d', s')"
  shows "neat s'"
proof (cases "append_checks P c d")
  case (Inr u)
  obtain stream sz where bs: "bounded_stream (up_maximum_chunk_size policy)
    (us_expected_size u - us_uploaded_bytes u) (au_body c) = (stream, sz)" by fastforce
  obtain q s1 where app: "append_chunk (sv_write_buffer S) (sv_faults S) (p_now P) (us_id u)
    (nat (us_uploaded_bytes u)) stream s = (q, s1)" by fastforce
  have "neat s1" using append_chunk_neat [OF assms(1)] by (metis app snd_conv)
  moreover from assms(2) Inr bs app have
    "s' = s1 \<or> s' = snd (truncate_upload (p_now P) (us_id u) (nat (us_uploaded_bytes u)) s1)"
    by (auto simp: append_upload_def split: sum.splits prod.splits)
  ultimately show ?thesis using truncate_upload_neat by auto
qed (use assms in \<open>simp add: append_upload_def\<close>)

lemma complete_upload_neat:
  assumes "neat s" and "complete_upload P S policy c d s = (r, d', s')" and "uploads_fresh d"
  shows "neat s'"
proof (cases "complete_checks P S policy c d s")
  case (Inr i)
  obtain q s1 where pub: "publish_upload (us_id (in_upload i)) (in_size i) s = (q, s1)" by fastforce
  have "us_id (in_upload i) < 2 ^ 128"
    using complete_checks_D(1) [OF Inr] assms(3) by (auto simp: uploads_fresh_def get_upload_session_def dest: tbl_find_Some_D)
  then have "neat s1" using publish_upload_neat [OF assms(1)] by (metis pub snd_conv)
  moreover from assms(2) Inr pub have "s' = s1 \<or> (\<exists>k. s' = snd (delete_object k s1))"
    by (auto simp: complete_upload_def split: sum.splits prod.splits) (metis snd_conv)+
  ultimately show ?thesis using delete_object_neat by auto
qed (use assms in \<open>simp add: complete_upload_def\<close>)

lemma cancel_upload_neat: "neat s \<Longrightarrow> cancel_upload P c d s = (r, d', s') \<Longrightarrow> neat s'"
  using discard_upload_neat
  by (auto simp: cancel_upload_def split: sum.splits prod.splits) (metis snd_conv)+

text \<open>The worker changes the store only by the removal it is given.\<close>

lemma process_message_store:
  assumes "\<And>k s. I s \<Longrightarrow> I (snd (remove k s))" and "I s"
  shows "I (snd (snd (snd (process_message remove P locked m b n d s))))"
proof -
  have "I (snd (process_leased remove P l b n d s))" for l
    using assms
    by (auto simp: process_leased_def process_object_delete_def Let_def split: sum.splits prod.splits)
      (metis snd_conv)+
  then show ?thesis using assms(2)
    by (auto simp: process_message_def split: option.splits sum.splits prod.splits) (metis snd_conv)+
qed

lemma outbox_cycle_store:
  assumes "\<And>k s. I s \<Longrightarrow> I (snd (remove k s))" and "I s"
  shows "I (snd (snd (snd (outbox_cycle remove P locked b k n r d s))))"
  using assms(2)
proof (induction k arbitrary: n r d s)
  case (Suc k)
  show ?case
  proof (cases "next_pending_message d")
    case (Some m)
    obtain out n' d' s' where step: "process_message remove P locked m b n d s = (out, n', d', s')"
      by (metis prod_cases4)
    then have "I s'" using process_message_store [where I = I and remove = remove, OF assms(1) Suc.prems, of P locked m b n d] by simp
    with Some step show ?thesis by (simp add: Suc.IH)
  qed (simp add: Suc.prems)
qed simp

lemma drive_step_neat:
  assumes "drive_step sha x y" and "drive_ok sha (fst x) (snd x)" and "neat (snd x)"
  shows "neat (snd y)"
  using assms
proof (induction rule: drive_step.induct)
  case (Start P d policy su s r1 d' s')
  then show ?case using start_upload_neat by auto
next
  case (Complete S P policy ou d s r3 d' s')
  then show ?case using complete_upload_neat by (auto simp: drive_ok_def system_ok_def)
next
  case (Cleanup P locked pc d s r5 n d' s')
  then show ?case
    using outbox_cycle_store [where I = neat and remove = delete_object, OF delete_object_neat, of s P locked
      "pc_orphan_batch pc" "pc_event_batch pc" 0 process_zero d]
    by (simp add: process_storage_outbox_def)
qed (auto intro: append_upload_neat cancel_upload_neat)

lemma drive_reachable_neat: "drive_reachable sha x \<Longrightarrow> neat (snd x)"
proof (induction rule: drive_reachable.induct)
  case (Step x y)
  then show ?case using drive_step_neat drive_reachable_ok by blast
qed (simp add: neat_def fs_get_def)

section \<open>The walk finds every file\<close>

lemma neat_ancestors: "neat s \<Longrightarrow> fs_get s (p @ r) \<noteq> None \<Longrightarrow> r \<noteq> [] \<Longrightarrow> is_dir s p"
proof (induction r rule: rev_induct)
  case (snoc x r)
  from snoc.prems have "is_dir s (p @ r)" by (auto dest: neatD(2) simp: butlast_append)
  with snoc.IH snoc.prems(1) show ?case by (cases "r = []") (auto simp: is_dir_def)
qed simp

lemma fs_file_Some: "fs_file s p = Some c \<longleftrightarrow> (\<exists>t. fs_get s p = Some (RegFile c t))"
  by (auto simp: fs_file_def split: option.splits fs_node.splits)

lemma file_exists: "fs_file s p = Some c \<Longrightarrow> fs_get s p \<noteq> None"
  by (auto simp: fs_file_def split: option.splits)

lemma set_directory_entries:
  "set (fst (directory_entries s dir)) = {p. \<exists>x. p = dir @ [x] \<and> fs_get s p = Some DirNode}"
  "set (snd (directory_entries s dir)) = {p. \<exists>x. p = dir @ [x] \<and> fs_file s p \<noteq> None}"
  by (auto simp: directory_entries_def Let_def set_entry_names dest: file_exists)

lemma file_below:
  assumes "neat s" and "fs_file s p \<noteq> None"
  shows "strict_prefix dir p \<longleftrightarrow> (\<exists>x. p = dir @ [x]) \<or> (\<exists>x. fs_get s (dir @ [x]) = Some DirNode \<and> strict_prefix (dir @ [x]) p)"
proof
  assume "strict_prefix dir p"
  then obtain x r where p: "p = dir @ x # r" by (auto elim: strict_prefixE')
  show "(\<exists>x. p = dir @ [x]) \<or> (\<exists>x. fs_get s (dir @ [x]) = Some DirNode \<and> strict_prefix (dir @ [x]) p)"
  proof (cases "r = []")
    case False
    have "is_dir s (dir @ [x])"
      using neat_ancestors [OF assms(1), of "dir @ [x]" r] assms(2) False by (auto simp: p dest: file_exists)
    with False have "fs_get s (dir @ [x]) = Some DirNode \<and> strict_prefix (dir @ [x]) p"
      by (auto simp: p is_dir_def strict_prefix_def)
    then show ?thesis by blast
  qed (simp add: p)
qed (auto simp: strict_prefix_def prefix_def)

lemma set_walk_pending:
  "neat s \<Longrightarrow> set (walk_pending s dirs) = {p. fs_file s p \<noteq> None \<and> (\<exists>dir \<in> set dirs. strict_prefix dir p)}"
proof (induction s dirs rule: walk_pending.induct)
  case (2 s dir stack)
  obtain ds fs where e: "directory_entries s dir = (ds, fs)" by fastforce
  with 2 have "set (walk_pending s (ds @ stack)) =
      {p. fs_file s p \<noteq> None \<and> (\<exists>q \<in> set (ds @ stack). strict_prefix q p)}" by simp
  moreover have "set ds = {p. \<exists>x. p = dir @ [x] \<and> fs_get s p = Some DirNode}"
    "set fs = {p. \<exists>x. p = dir @ [x] \<and> fs_file s p \<noteq> None}"
    using set_directory_entries [of s dir] by (simp_all add: e)
  ultimately show ?case using file_below [OF "2.prems", of _ dir] by (auto simp: e)
qed simp

text \<open>Directories none of which lies below another.\<close>

definition apart :: "path list \<Rightarrow> bool" where
  "apart dirs \<longleftrightarrow> distinct dirs \<and> (\<forall>a \<in> set dirs. \<forall>b \<in> set dirs. prefix a b \<longrightarrow> a = b)"

lemma distinct_directory_entries:
  "distinct (fst (directory_entries s dir))" "distinct (snd (directory_entries s dir))"
  by (simp_all add: directory_entries_def Let_def distinct_map distinct_entry_names inj_on_def)

lemma distinct_walk_pending: "neat s \<Longrightarrow> apart dirs \<Longrightarrow> distinct (walk_pending s dirs)"
proof (induction s dirs rule: walk_pending.induct)
  case (2 s dir stack)
  obtain ds fs where e: "directory_entries s dir = (ds, fs)" by fastforce
  have ds: "set ds = {p. \<exists>x. p = dir @ [x] \<and> fs_get s p = Some DirNode}" "distinct ds"
    and fs: "set fs = {p. \<exists>x. p = dir @ [x] \<and> fs_file s p \<noteq> None}" "distinct fs"
    using set_directory_entries [of s dir] distinct_directory_entries [of s dir] by (simp_all add: e)
  have out: "\<not> prefix q dir" "\<not> prefix dir q" if "q \<in> set stack" for q
    using "2.prems"(2) that by (auto simp: apart_def)
  have child: "dir @ [x] \<notin> set stack" for x using out(2) [of "dir @ [x]"] by auto
  have "apart (ds @ stack)"
    using "2.prems"(2) out(1) ds child by (auto simp: apart_def prefix_snoc dest: append_prefixD)
  then have "distinct (walk_pending s (ds @ stack))" using 2 e by simp
  moreover have "p \<notin> set (walk_pending s (ds @ stack))" if "p \<in> set fs" for p
    using that fs(1) ds(1) out
    by (auto simp: set_walk_pending [OF "2.prems"(1)] strict_prefix_def prefix_snoc)
  ultimately show ?case using fs(2) by (auto simp: e)
qed simp

lemma walk_regular_files:
  assumes "neat s" and "dir \<noteq> []"
  shows "set (walk_regular_files s dir) = {p. fs_file s p \<noteq> None \<and> strict_prefix dir p}"
    and "distinct (walk_regular_files s dir)"
proof -
  have "is_dir s dir" if "fs_file s p \<noteq> None" "strict_prefix dir p" for p
  proof -
    from that(2) obtain x r where p: "p = dir @ x # r" by (auto elim: strict_prefixE')
    with that(1) have "fs_get s (dir @ x # r) \<noteq> None" using file_exists by blast
    then show ?thesis by (rule neat_ancestors [OF assms(1)]) simp
  qed
  then show "set (walk_regular_files s dir) = {p. fs_file s p \<noteq> None \<and> strict_prefix dir p}"
    using set_walk_pending [OF assms(1), of "[dir]"] by (auto simp: walk_regular_files_def)
  show "distinct (walk_regular_files s dir)"
    using distinct_walk_pending [OF assms(1), of "[dir]"] by (simp add: walk_regular_files_def apart_def)
qed

section \<open>The inventories are complete\<close>

definition path_of_object :: "uuid \<Rightarrow> path" where
  "path_of_object u = [''objects'', take 2 (uuid_hex u), take 2 (drop 2 (uuid_hex u)), uuid_str u]"

lemma key_path_of_object: "key_path (object_key u) = Inr (path_of_object u)"
  by (simp add: object_key_path path_of_object_def)

lemma as_posix_path_of_object: "as_posix (path_of_object u) = object_key u"
  by (simp add: path_of_object_def object_key_def Let_def)

lemma concat_map_single: "(\<And>x. x \<in> set xs \<Longrightarrow> f x = [g x]) \<Longrightarrow> concat (map f xs) = map g xs"
  by (induction xs) auto

lemma files_below:
  assumes "neat s"
  shows "fs_file s p \<noteq> None \<and> strict_prefix [''objects''] p \<longleftrightarrow>
      (\<exists>u < 2 ^ 128. p = path_of_object u \<and> fs_file s p \<noteq> None)"
    and "fs_file s p \<noteq> None \<and> strict_prefix [''staging''] p \<longleftrightarrow>
      (\<exists>u < 2 ^ 128. p = staging_path u \<and> fs_file s p \<noteq> None)"
proof -
  have "upload_path p" if "fs_file s p \<noteq> None"
    using that neatD(4) [OF assms, of p] by (auto simp: fs_file_Some)
  then have "\<exists>u < 2 ^ 128. p = staging_path u \<or> p = path_of_object u" if "fs_file s p \<noteq> None"
    using that by (auto simp: upload_path_def key_path_of_object)
  then show "fs_file s p \<noteq> None \<and> strict_prefix [''objects''] p \<longleftrightarrow>
      (\<exists>u < 2 ^ 128. p = path_of_object u \<and> fs_file s p \<noteq> None)"
    and "fs_file s p \<noteq> None \<and> strict_prefix [''staging''] p \<longleftrightarrow>
      (\<exists>u < 2 ^ 128. p = staging_path u \<and> fs_file s p \<noteq> None)"
    by (auto simp: staging_path_def path_of_object_def strict_prefix_def)
qed

lemma list_objects_inventory:
  assumes "neat s"
  shows "distinct (map po_key (list_objects s))"
    and "\<lparr>po_key = k, po_size = n, po_modified = t\<rparr> \<in> set (list_objects s) \<longleftrightarrow>
      (\<exists>u < 2 ^ 128. \<exists>c. k = object_key u \<and> fs_get s (path_of_object u) = Some (RegFile c t) \<and> n = int (length c))"
proof -
  let ?f = "\<lambda>p. case fs_get s p of
      Some (RegFile c t) \<Rightarrow> [\<lparr>po_key = as_posix p, po_size = int (length c), po_modified = t\<rparr>] | _ \<Rightarrow> []"
  let ?walk = "walk_regular_files s [''objects'']"
  have walk: "set ?walk = {p. \<exists>u < 2 ^ 128. p = path_of_object u \<and> fs_file s p \<noteq> None}" "distinct ?walk"
    using walk_regular_files [OF assms, of "[''objects'']"] files_below(1) [OF assms] by auto
  have single: "?f p = [hd (?f p)]" "po_key (hd (?f p)) = as_posix p" if "p \<in> set ?walk" for p
    using that by (auto simp: walk(1) fs_file_Some)
  have eq: "list_objects s = map (\<lambda>p. hd (?f p)) ?walk"
    unfolding list_objects_def by (rule concat_map_single) (rule single(1))
  have "inj_on as_posix (set ?walk)"
    by (auto simp: inj_on_def walk(1) as_posix_path_of_object object_key_inject)
  then have "distinct (map as_posix ?walk)" using walk(2) by (simp add: distinct_map)
  moreover have "map po_key (list_objects s) = map as_posix ?walk"
    by (simp add: eq single(2) cong: map_cong)
  ultimately show "distinct (map po_key (list_objects s))" by simp
  have "set ?walk = path_of_object ` {u. u < 2 ^ 128 \<and> fs_file s (path_of_object u) \<noteq> None}"
    by (auto simp: walk(1))
  then have "x \<in> set (list_objects s) \<longleftrightarrow>
      (\<exists>u. u < 2 ^ 128 \<and> fs_file s (path_of_object u) \<noteq> None \<and> x \<in> set (?f (path_of_object u)))" for x
    by (auto simp: list_objects_def)
  then show "\<lparr>po_key = k, po_size = n, po_modified = t\<rparr> \<in> set (list_objects s) \<longleftrightarrow>
      (\<exists>u < 2 ^ 128. \<exists>c. k = object_key u \<and> fs_get s (path_of_object u) = Some (RegFile c t) \<and> n = int (length c))"
    by (simp add: fs_file_Some) (fastforce simp: as_posix_path_of_object)
qed

lemma purepath_of_staged:
  "purepath_suffix (uuid_str u @ ''.part'') = ''.part''" "purepath_stem (uuid_str u @ ''.part'') = uuid_str u"
proof -
  have "uuid_str u \<noteq> []" using length_uuid_str [of u] by (metis list.size(3) zero_neq_numeral)
  then show "purepath_suffix (uuid_str u @ ''.part'') = ''.part''"
    by (simp add: purepath_suffix_def py_rfind_def)
  then show "purepath_stem (uuid_str u @ ''.part'') = uuid_str u" by (simp add: purepath_stem_def)
qed

lemma staged_upload_of_staging:
  "u < 2 ^ 128 \<Longrightarrow> staged_upload_of s (staging_path u) =
     (case fs_get s (staging_path u) of
        Some (RegFile c t) \<Rightarrow> [\<lparr>sg_upload = u, sg_size = int (length c), sg_modified = t\<rparr>] | _ \<Rightarrow> [])"
  by (simp add: staged_upload_of_def staging_path_def purepath_of_staged uuid_parse_str)

lemma list_staged_inventory:
  assumes "neat s"
  shows "distinct (map sg_upload (list_staged_uploads s))"
    and "\<lparr>sg_upload = u, sg_size = n, sg_modified = t\<rparr> \<in> set (list_staged_uploads s) \<longleftrightarrow>
      u < 2 ^ 128 \<and> (\<exists>c. fs_get s (staging_path u) = Some (RegFile c t) \<and> n = int (length c))"
proof -
  let ?f = "staged_upload_of s"
  let ?walk = "walk_regular_files s [''staging'']"
  have walk: "set ?walk = {p. \<exists>u < 2 ^ 128. p = staging_path u \<and> fs_file s p \<noteq> None}" "distinct ?walk"
    using walk_regular_files [OF assms, of "[''staging'']"] files_below(2) [OF assms] by auto
  have single: "?f p = [hd (?f p)]" "staging_path (sg_upload (hd (?f p))) = p" if "p \<in> set ?walk" for p
    using that by (auto simp: walk(1) fs_file_Some staged_upload_of_staging)
  have eq: "list_staged_uploads s = map (\<lambda>p. hd (?f p)) ?walk"
    unfolding list_staged_uploads_def by (rule concat_map_single) (rule single(1))
  have "map staging_path (map sg_upload (list_staged_uploads s)) = ?walk"
    by (simp add: eq single(2) map_idI)
  with walk(2) show "distinct (map sg_upload (list_staged_uploads s))" by (metis distinct_map)
  have "set ?walk = staging_path ` {u. u < 2 ^ 128 \<and> fs_file s (staging_path u) \<noteq> None}"
    by (auto simp: walk(1))
  then have "x \<in> set (list_staged_uploads s) \<longleftrightarrow>
      (\<exists>u. u < 2 ^ 128 \<and> fs_file s (staging_path u) \<noteq> None \<and> x \<in> set (?f (staging_path u)))" for x
    by (auto simp: list_staged_uploads_def)
  then show "\<lparr>sg_upload = u, sg_size = n, sg_modified = t\<rparr> \<in> set (list_staged_uploads s) \<longleftrightarrow>
      u < 2 ^ 128 \<and> (\<exists>c. fs_get s (staging_path u) = Some (RegFile c t) \<and> n = int (length c))"
    by (simp add: fs_file_Some) (fastforce simp: staged_upload_of_staging)
qed

text \<open>
  C13: the inventories list the store. Whatever calls have run since the installation, the object
  inventory lists exactly the files that stand under a valid object key, each once and with its length, so
  that every object row of the database is listed with its size; the staging inventory
  lists exactly the staged files, each once, under the upload they belong to.
\<close>

theorem inventories_complete:
  assumes "drive_reachable sha (d, s)"
  shows "distinct (map po_key (list_objects s))
    \<and> (\<forall>k n. (\<exists>t. \<lparr>po_key = k, po_size = n, po_modified = t\<rparr> \<in> set (list_objects s)) \<longleftrightarrow>
         is_object_key k \<and> (\<exists>c. object_content s k = Some c \<and> n = int (length c)))
    \<and> (\<forall>ob \<in> set (db_objects d). \<exists>x \<in> set (list_objects s). po_key x = o_storage_key ob \<and> po_size x = o_size ob)
    \<and> distinct (map sg_upload (list_staged_uploads s))
    \<and> (\<forall>u n. (\<exists>t. \<lparr>sg_upload = u, sg_size = n, sg_modified = t\<rparr> \<in> set (list_staged_uploads s)) \<longleftrightarrow>
         u < 2 ^ 128 \<and> (\<exists>c. fs_file s (staging_path u) = Some c \<and> n = int (length c)))"
proof -
  have neat: "neat s" and ok: "drive_ok sha d s"
    using drive_reachable_neat [OF assms] drive_reachable_ok [OF assms] by simp_all
  have listed: "(\<exists>t. \<lparr>po_key = k, po_size = n, po_modified = t\<rparr> \<in> set (list_objects s)) \<longleftrightarrow>
      is_object_key k \<and> (\<exists>c. object_content s k = Some c \<and> n = int (length c))" for k n
    unfolding list_objects_inventory(2) [OF neat] is_object_key_def
    by (auto simp: object_content_def key_path_of_object fs_file_Some) blast+
  have "is_object_key (o_storage_key ob)" if "ob \<in> set (db_objects d)" for ob
    using ok that by (auto simp: drive_ok_def system_ok_def store_ok_def bytes_ok_def live_keys_def tbl_keys_def)
  moreover have "\<exists>c. object_content s (o_storage_key ob) = Some c \<and> o_size ob = int (length c)"
    if "ob \<in> set (db_objects d)" for ob
    using ok that by (auto simp: drive_ok_def system_ok_def integrity_def)
  ultimately have "\<exists>x \<in> set (list_objects s). po_key x = o_storage_key ob \<and> po_size x = o_size ob"
    if "ob \<in> set (db_objects d)" for ob
    using that listed [of "o_storage_key ob" "o_size ob"]
    by (metis physical_object.select_convs(1,2))
  moreover have "(\<exists>t. \<lparr>sg_upload = u, sg_size = n, sg_modified = t\<rparr> \<in> set (list_staged_uploads s)) \<longleftrightarrow>
      u < 2 ^ 128 \<and> (\<exists>c. fs_file s (staging_path u) = Some c \<and> n = int (length c))" for u n
    unfolding list_staged_inventory(2) [OF neat] by (auto simp: fs_file_Some)
  ultimately show ?thesis
    using listed list_objects_inventory(1) [OF neat] list_staged_inventory(1) [OF neat] by blast
qed

theorem inventories_complete_witness:
  "(\<exists>x \<in> set (list_objects fs5). po_key x = o_storage_key sample_object \<and> po_size x = o_size sample_object)
   \<and> list_staged_uploads fs5 = []"
proof -
  note all = inventories_complete [OF sample_reachable(3)]
  have "sample_object \<in> set (db_objects db5)" by (simp add: db5_def)
  with all have "\<exists>x \<in> set (list_objects fs5). po_key x = o_storage_key sample_object \<and> po_size x = o_size sample_object"
    by blast
  moreover have "fs_file fs5 (staging_path u) = None" for u
    by (simp add: fs_file_def fs_get_def fs5_def staging_path_def object_path_def)
  with all have "x \<notin> set (list_staged_uploads fs5)" for x by (cases x) (metis option.distinct(1))
  then have "list_staged_uploads fs5 = []" by (metis last_in_set)
  ultimately show ?thesis by blast
qed

end
