(* ===== verification/Worker_Progress.thy ===== *)
theory Worker_Progress
  imports Command_Line Store_Inventory Outbox_Properties
begin

text \<open>
  The worker makes progress: what its rounds achieve on every state the drive can reach.
\<close>

section \<open>The outbox of reachable states\<close>

definition outbox_wf :: "db \<Rightarrow> bool" where
  "outbox_wf d \<longleftrightarrow> distinct (map ob_id (db_outbox d))
     \<and> (\<forall>m \<in> set (db_outbox d). pending m \<and> ob_event_type m = object_delete_requested \<longrightarrow> payload_key m \<noteq> None)"

lemma outbox_wf_same: "db_outbox d' = db_outbox d \<Longrightarrow> outbox_wf d \<Longrightarrow> outbox_wf d'"
  by (simp add: outbox_wf_def)

lemma outbox_wf_append:
  assumes "outbox_wf d" and "db_outbox d' = db_outbox d @ rows" and "distinct (map ob_id rows)"
    and "set (map ob_id rows) \<inter> tbl_keys ob_id (db_outbox d) = {}"
    and "\<forall>r \<in> set rows. ob_event_type r = object_delete_requested \<longrightarrow> payload_key r \<noteq> None"
  shows "outbox_wf d'"
  using assms by (auto simp: outbox_wf_def tbl_keys_def)

lemma outbox_wf_extends: "outbox_extends d d' \<Longrightarrow> outbox_wf d \<Longrightarrow> outbox_wf d'"
proof -
  assume ext: "outbox_extends d d'" and wf: "outbox_wf d"
  from ext obtain rows where "db_outbox d' = db_outbox d @ rows" "distinct (map ob_id rows)"
    "set (map ob_id rows) \<inter> tbl_keys ob_id (db_outbox d) = {}"
    "\<forall>r \<in> set rows. ob_event_type r = orphan_sweep_requested" by (auto simp: outbox_extends_def)
  then show ?thesis by (intro outbox_wf_append [OF wf]) auto
qed

lemma outbox_wf_update:
  assumes "outbox_wf d" and "db_outbox d' = tbl_update Q f (db_outbox d)"
    and "\<And>r. ob_id (f r) = ob_id r" "\<And>r. ob_event_type (f r) = ob_event_type r"
    "\<And>r. ob_payload (f r) = ob_payload r" "\<And>r. pending (f r) \<Longrightarrow> pending r"
  shows "outbox_wf d'"
proof -
  have "map ob_id (db_outbox d') = map ob_id (db_outbox d)"
    using assms(2,3) by (simp add: map_key_tbl_update)
  moreover have "payload_key (f r) = payload_key r" for r using assms(5) by (simp add: payload_key_def)
  ultimately show ?thesis
    using assms by (auto simp: outbox_wf_def set_tbl_update simp flip: list.map_comp)
qed

lemma outbox_wf_mark: "outbox_wf d \<Longrightarrow> outbox_wf (snd (mark_processed i t d))"
  using outbox_wf_update [of d "snd (mark_processed i t d)" "\<lambda>r. ob_id r = i \<and> pending r"
    "\<lambda>r. r\<lparr>ob_processed := Some t, ob_attempts := ob_attempts r + 1, ob_last_error := None, ob_updated := t\<rparr>"]
  by (simp add: mark_processed_def Let_def pending_def)

lemma outbox_wf_failure: "outbox_wf d \<Longrightarrow> outbox_wf (snd (record_failure i t k d))"
  using outbox_wf_update [of d "snd (record_failure i t k d)" "\<lambda>r. ob_id r = i \<and> pending r"
    "\<lambda>r. r\<lparr>ob_attempts := ob_attempts r + 1, ob_last_error := Some (take 120 k), ob_updated := t\<rparr>"]
  by (simp add: record_failure_def Let_def pending_def)

lemma outbox_wf_detach:
  "detach_orphans P obs n c d = Inr (c', n', d') \<Longrightarrow> outbox_wf d \<Longrightarrow> outbox_wf d'"
proof (induction P obs n c d rule: detach_orphans.induct)
  case (2 P ob obs n c d)
  obtain b d1 where del: "delete_claimed_orphan_storage_object (o_id ob) d = (b, d1)" by fastforce
  then have d1: "db_outbox d1 = db_outbox d" by (auto simp: delete_claimed_orphan_storage_object_def Let_def)
  show ?case
  proof (cases b)
    case True
    with "2.prems"(1) del obtain row d2 where
      add: "outbox_add (p_ids P n) (p_db_now P) \<lparr>nm_aggregate_id = o_id ob, nm_aggregate_type = ''storage.object'',
        nm_event_type = object_delete_requested, nm_occurred = p_now P,
        nm_payload = [(''storage_key'', JStr (o_storage_key ob))]\<rparr> d1 = Inr (row, d2)"
      and rest: "detach_orphans P obs (n + 1) (c + 1) d2 = Inr (c', n', d')"
      by (auto simp: result_simps)
    note row = outbox_add_eq_Inr [OF add]
    have "outbox_wf d2"
      by (rule outbox_wf_append [OF "2.prems"(2), of _ "[row]"])
        (use row d1 in \<open>auto simp: payload_key_def\<close>)
    with "2.IH"(2) [OF refl del [symmetric] _ rest] True show ?thesis by simp
  next
    case False
    with "2.prems" del d1 have "detach_orphans P obs n c d1 = Inr (c', n', d')" "outbox_wf d1"
      by (auto intro: outbox_wf_same)
    with "2.IH"(1) [OF refl del [symmetric]] False show ?thesis by simp
  qed
qed simp

lemma outbox_wf_message:
  assumes "process_message remove P locked m k n d s = (out, n', d', s')" and "outbox_wf d"
  shows "outbox_wf d'"
proof -
  have "outbox_wf d1" if "process_orphan_sweep P l k n d = Inr (x, n1, d1)" for l x n1 d1
    using that outbox_wf_detach [OF _ assms(2)]
    by (auto simp: process_orphan_sweep_def Let_def result_simps outbox_wf_mark split: if_splits prod.splits)
      (metis outbox_wf_mark snd_conv)
  then show ?thesis
    using assms outbox_wf_mark [OF assms(2)] outbox_wf_failure [OF assms(2)]
    by (auto simp: process_message_def process_leased_def process_object_delete_def Let_def result_simps
        split: option.splits sum.splits prod.splits if_splits) (metis snd_conv)+
qed

lemma outbox_wf_cycle:
  "outbox_cycle remove P locked b k n r d s = (r', n', d', s') \<Longrightarrow> outbox_wf d \<Longrightarrow> outbox_wf d'"
proof (induction k arbitrary: n r d s)
  case (Suc k)
  show ?case
  proof (cases "next_pending_message d")
    case (Some m)
    obtain out n1 d1 s1 where step: "process_message remove P locked m b n d s = (out, n1, d1, s1)"
      by (metis prod_cases4)
    from outbox_wf_message [OF step Suc.prems(2)] Suc.prems(1) Some step show ?thesis
      by (auto intro: Suc.IH split: if_splits)
  qed (use Suc.prems in simp)
qed simp

lemma upload_writes_outbox:
  "insert_upload u d = Inr d' \<Longrightarrow> db_outbox d' = db_outbox d"
  "save_upload_session u d = Inr d' \<Longrightarrow> db_outbox d' = db_outbox d"
  by (auto simp: insert_upload_def save_upload_session_def Let_def split: if_splits)

lemma uploads_keep_outbox:
  "start_upload P policy su d s = (r1, d', s') \<Longrightarrow> db_outbox d' = db_outbox d"
  "append_upload P S policy au d s = (r2, d', s') \<Longrightarrow> db_outbox d' = db_outbox d"
  "cancel_upload P ou d s = (r4, d', s') \<Longrightarrow> db_outbox d' = db_outbox d"
  by (auto simp: start_upload_def append_upload_def cancel_upload_def cancel_tx_def record_chunk_def Let_def
      result_simps dest: upload_writes_outbox split: sum.splits prod.splits)

lemma complete_keeps_outbox:
  assumes "complete_upload P S policy ou d s = (r, d', s')" and "storage_ok d"
  shows "db_outbox d' = db_outbox d"
proof (cases "complete_checks P S policy ou d s")
  case (Inr i)
  from complete_checks_D [OF Inr] obtain q where
    "active_folder_row (db_entries d) (us_owner (in_upload i)) (us_parent (in_upload i)) q" by metis
  note frame = record_completion_frame(4) [OF _ assms(2) this]
  from assms(1) Inr show ?thesis
    by (auto simp: complete_upload_def dest: frame split: sum.splits prod.splits)
qed (use assms in \<open>simp add: complete_upload_def\<close>)

lemma drive_step_outbox_wf:
  assumes "drive_step sha x y" and "drive_ok sha (fst x) (snd x)" and "outbox_wf (fst x)"
  shows "outbox_wf (fst y)"
  using assms
proof (induction rule: drive_step.induct)
  case (Bootstrap d s A ap cr)
  then show ?case
    by (auto simp: bootstrap_admin_def run_tx_def intro: outbox_wf_same elim!: bootstrap_tx_D split: sum.splits)
next
  case (Account d s A ap ac)
  have "db_outbox (exec_account A ap ac d) = db_outbox d"
    using exec_account_frame [of A ap ac d] by (simp add: storage_part_def)
  with Account show ?case by (auto intro: outbox_wf_same)
next
  case (Favourites d s P fc)
  have "db_outbox (exec_activity P fc d) = db_outbox d"
    using exec_activity_frame [of P fc d] by (simp add: storage_part_def)
  with Favourites show ?case by (auto intro: outbox_wf_same)
next
  case (Tree d s P tc)
  then have "storage_ok d" by (simp add: drive_ok_def system_ok_def store_ok_def)
  then have "outbox_extends d (exec_tree P tc d)" using exec_tree_keeps by (simp add: keeps_objects_def)
  with Tree show ?case using outbox_wf_extends by simp
next
  case (Complete S P policy ou d s r3 d' s')
  then have "storage_ok d" by (simp add: drive_ok_def system_ok_def store_ok_def)
  with Complete show ?case using complete_keeps_outbox outbox_wf_same by (metis fst_conv)
next
  case (Cleanup P locked pc d s r5 n d' s')
  then show ?case by (auto simp: process_storage_outbox_def intro: outbox_wf_cycle)
qed (use uploads_keep_outbox outbox_wf_same in \<open>metis fst_conv\<close>)+

text \<open>What the worker needs of a state, and keeps.\<close>

definition worker_ok :: "db \<Rightarrow> fs \<Rightarrow> bool" where
  "worker_ok d s \<longleftrightarrow> store_ok object_content is_object_key d s \<and> neat s \<and> outbox_wf d"

lemma reachable_worker_ok: "drive_reachable sha x \<Longrightarrow> worker_ok (fst x) (snd x)"
proof -
  assume r: "drive_reachable sha x"
  then have "outbox_wf (fst x)"
  proof (induction rule: drive_reachable.induct)
    case (Step x y)
    then show ?case using drive_step_outbox_wf drive_reachable_ok by blast
  qed (simp add: outbox_wf_def empty_db_def)
  with drive_reachable_ok [OF r] drive_reachable_neat [OF r] show ?thesis
    by (simp add: worker_ok_def drive_ok_def system_ok_def)
qed

section \<open>The backlog\<close>

definition waiting :: "db \<Rightarrow> outbox_row list" where
  "waiting d = filter (\<lambda>m. pending m \<and> ob_event_type m \<in> {object_delete_requested, orphan_sweep_requested}) (db_outbox d)"

definition orphans :: "db \<Rightarrow> storage_object list" where
  "orphans d = filter (ready_orphan d) (db_objects d)"

text \<open>An orphan costs two events: one detaches it, one deletes its bytes.\<close>

definition backlog :: "db \<Rightarrow> nat" where
  "backlog d = 2 * length (orphans d) + length (waiting d)"

lemma outbox_list_first:
  "fst (outbox_list d (pending_of_type t) 1 None) =
     take 1 (sort_key outbox_key (filter (\<lambda>m. pending m \<and> ob_event_type m = t) (db_outbox d)))"
proof -
  have "(\<lambda>r. outbox_filtered (pending_of_type t) r \<and> optional (\<lambda>c. c < (ob_created r, ob_id r)) None) =
      (\<lambda>m. pending m \<and> ob_event_type m = t)"
    by (auto simp: fun_eq_iff outbox_filtered_def pending_of_type_def optional_def pending_def)
  moreover have "(\<lambda>r. (ob_created r, ob_id r)) = outbox_key" by (simp add: fun_eq_iff outbox_key_def)
  ultimately show ?thesis by (simp add: outbox_list_def Let_def)
qed

lemma first_sorted:
  "take 1 (sort_key key xs) = [] \<longleftrightarrow> xs = []"
  "take 1 (sort_key key xs) = m # ms \<Longrightarrow> m \<in> set xs"
proof -
  have len: "length (take 1 (sort_key key xs)) = min 1 (length xs)" by simp
  then show "take 1 (sort_key key xs) = [] \<longleftrightarrow> xs = []" by (cases xs) auto
  assume "take 1 (sort_key key xs) = m # ms"
  then have "m \<in> set (take 1 (sort_key key xs))" by simp
  then show "m \<in> set xs" using set_take_subset by fastforce
qed

lemma next_pending_message_waiting:
  "next_pending_message d = None \<longleftrightarrow> waiting d = []"
  "next_pending_message d = Some m \<Longrightarrow> m \<in> set (waiting d)"
proof -
  let ?rows = "\<lambda>t. filter (\<lambda>m. pending m \<and> ob_event_type m = t) (db_outbox d)"
  have split: "waiting d = [] \<longleftrightarrow> ?rows object_delete_requested = [] \<and> ?rows orphan_sweep_requested = []"
    by (auto simp: waiting_def filter_empty_conv)
  obtain A B where A: "take 1 (sort_key outbox_key (?rows object_delete_requested)) = A"
    and B: "take 1 (sort_key outbox_key (?rows orphan_sweep_requested)) = B" by blast
  have "A = [] \<longleftrightarrow> ?rows object_delete_requested = []" "B = [] \<longleftrightarrow> ?rows orphan_sweep_requested = []"
    by (simp_all only: first_sorted(1) flip: A B)
  then show "next_pending_message d = None \<longleftrightarrow> waiting d = []"
    unfolding next_pending_message_def outbox_list_first split A B by (auto split: list.splits)
  assume "next_pending_message d = Some m"
  then obtain ms where "A = m # ms \<or> B = m # ms"
    unfolding next_pending_message_def outbox_list_first A B by (auto split: list.splits)
  then have "m \<in> set (?rows object_delete_requested) \<union> set (?rows orphan_sweep_requested)"
    using first_sorted(2) [of outbox_key "?rows object_delete_requested" m ms]
      first_sorted(2) [of outbox_key "?rows orphan_sweep_requested" m ms] unfolding A B by blast
  then show "m \<in> set (waiting d)" by (auto simp: waiting_def)
qed

lemma claim_next:
  assumes "outbox_wf d" and "m \<in> set (waiting d)"
  shows "get_pending_for_update d {} (ob_id m) = Some m"
proof -
  have m: "m \<in> set (db_outbox d)" "pending m" using assms(2) by (auto simp: waiting_def)
  then have "get_pending_for_update d {} (ob_id m) \<noteq> None"
    by (auto simp: get_pending_for_update_def find_None_iff)
  then obtain r where r: "get_pending_for_update d {} (ob_id m) = Some r" by blast
  from get_pending_for_update_D [OF r] assms(1) m(1) have "r = m"
    by (auto simp: outbox_wf_def dest: distinct_key_inject)
  with r show ?thesis by simp
qed

text \<open>Acknowledging a waiting message takes it off the list.\<close>

lemma waiting_mark:
  assumes "outbox_wf d" and "m \<in> set (waiting d)"
  shows "fst (mark_processed (ob_id m) t d)" and "length (waiting (snd (mark_processed (ob_id m) t d))) + 1 = length (waiting d)"
    and "set (waiting (snd (mark_processed (ob_id m) t d))) = set (waiting d) - {m}"
    and "pending_deletes (snd (mark_processed (ob_id m) t d)) = {k. \<exists>r \<in> set (waiting d) - {m}.
      ob_event_type r = object_delete_requested \<and> payload_key r = Some k}"
proof -
  let ?d = "snd (mark_processed (ob_id m) t d)"
  have m: "m \<in> set (db_outbox d)" "pending m" using assms(2) by (auto simp: waiting_def)
  then show "fst (mark_processed (ob_id m) t d)" by (rule mark_processed_found [OF _ refl])
  have ids: "ob_id r = ob_id m \<longleftrightarrow> r = m" if "r \<in> set (db_outbox d)" for r
    using assms(1) that m(1) by (auto simp: outbox_wf_def dest: distinct_key_inject)
  show set: "set (waiting ?d) = set (waiting d) - {m}"
    using mark_processed_pending [of "ob_id m" t d] ids by (auto simp: waiting_def)
  have dist: "distinct (waiting d)" "distinct (waiting ?d)"
    using assms(1) outbox_wf_mark [OF assms(1), of "ob_id m" t]
    by (auto simp: waiting_def outbox_wf_def distinct_map)
  have "length (waiting ?d) = card (set (waiting d) - {m})"
    using dist(2) set by (metis distinct_card)
  also have "\<dots> + 1 = length (waiting d)"
    using assms(2) dist(1) by (simp add: distinct_card) (metis Suc_pred distinct_card length_pos_if_in_set)
  finally show "length (waiting ?d) + 1 = length (waiting d)" .
  have "pending_deletes ?d = {k. \<exists>r \<in> set (waiting ?d). ob_event_type r = object_delete_requested \<and> payload_key r = Some k}"
    by (auto simp: pending_deletes_def waiting_def)
  then show "pending_deletes ?d = {k. \<exists>r \<in> set (waiting d) - {m}.
      ob_event_type r = object_delete_requested \<and> payload_key r = Some k}" unfolding set .
qed

section \<open>One message\<close>

definition sweep_waiting :: "db \<Rightarrow> bool" where
  "sweep_waiting d \<longleftrightarrow> (\<exists>m \<in> set (waiting d). ob_event_type m = orphan_sweep_requested)"

text \<open>
  Objects only disappear and keep their references, and no orphan appears. The key of an object
  stays, is requested for deletion or is gone; a requested deletion stays requested until the
  bytes are gone; gone bytes stay gone; a requested sweep stays requested until there is no orphan.
\<close>

definition progresses :: "db \<times> fs \<Rightarrow> db \<times> fs \<Rightarrow> bool" where
  "progresses x y \<longleftrightarrow> worker_ok (fst y) (snd y)
     \<and> set (db_objects (fst y)) \<subseteq> set (db_objects (fst x)) \<and> same_references (fst x) (fst y)
     \<and> length (orphans (fst y)) \<le> length (orphans (fst x))
     \<and> (\<forall>k \<in> live_keys (fst x). k \<in> live_keys (fst y) \<union> pending_deletes (fst y) \<or> object_content (snd y) k = None)
     \<and> (\<forall>k \<in> pending_deletes (fst x). k \<in> pending_deletes (fst y) \<or> object_content (snd y) k = None)
     \<and> (\<forall>k. is_object_key k \<and> object_content (snd x) k = None \<longrightarrow> object_content (snd y) k = None)
     \<and> (sweep_waiting (fst x) \<longrightarrow> sweep_waiting (fst y) \<or> orphans (fst y) = [])"

lemma progresses_refl: "worker_ok (fst x) (snd x) \<Longrightarrow> progresses x x"
  by (simp add: progresses_def same_references_def)

lemma progresses_trans:
  assumes "worker_ok (fst x) (snd x)" and "progresses x y" and "progresses y z"
  shows "progresses x z"
proof -
  have valid: "is_object_key k" if "k \<in> live_keys (fst x) \<union> pending_deletes (fst x)" for k
    using assms(1) that by (auto simp: worker_ok_def store_ok_def bytes_ok_def)
  have "k \<in> pending_deletes (fst z) \<or> object_content (snd z) k = None" if k: "k \<in> pending_deletes (fst x)" for k
  proof -
    have "k \<in> pending_deletes (fst y) \<or> object_content (snd y) k = None" using assms(2) k by (simp add: progresses_def)
    then show ?thesis using assms(3) valid k by (auto simp: progresses_def)
  qed
  moreover have "k \<in> live_keys (fst z) \<union> pending_deletes (fst z) \<or> object_content (snd z) k = None"
    if k: "k \<in> live_keys (fst x)" for k
  proof -
    have "k \<in> live_keys (fst y) \<union> pending_deletes (fst y) \<or> object_content (snd y) k = None"
      using assms(2) k by (simp add: progresses_def)
    then show ?thesis using assms(3) valid k by (auto simp: progresses_def)
  qed
  moreover have "orphans (fst z) = []" if "orphans (fst y) = []" using assms(3) that by (simp add: progresses_def)
  ultimately show ?thesis using assms(2,3) by (auto simp: progresses_def same_references_def)
qed

lemma pending_deletes_waiting:
  "pending_deletes d = {k. \<exists>r \<in> set (waiting d). ob_event_type r = object_delete_requested \<and> payload_key r = Some k}"
  by (auto simp: pending_deletes_def waiting_def)

lemma message_worker_ok:
  assumes "worker_ok d s" and "process_message delete_object P locked m b n d s = (out, n', d', s')"
  shows "worker_ok d' s'"
  using local_store.process_message_keeps(1) [OF _ assms(2)] outbox_wf_message [OF assms(2)]
    process_message_store [where I = neat and remove = delete_object, OF delete_object_neat, of s P locked m b n d] assms
  by (simp add: worker_ok_def)

lemma payload_of_object:
  assumes "payload_key m = Some k" and "is_object_key k"
  shows "storage_key_from_payload (ob_payload m) = Inr k"
proof -
  from assms(2) obtain u where k: "k = object_key u" by (auto simp: is_object_key_def)
  have "\<not> posix_absolute k \<and> ''..'' \<notin> set (posix_parts k) \<and> posix_parts k \<noteq> [] \<and> hd (posix_parts k) = ''objects''"
    using key_path_of_object [of u] object_key_parts [of u] by (auto simp: k key_path_def split: if_splits)
  moreover have "k \<noteq> [] \<and> length k \<le> 500" by (simp add: k object_key_nonempty length_object_key)
  ultimately show ?thesis using assms(1)
    by (auto simp: payload_key_def storage_key_from_payload_def split: option.splits json_value.splits)
qed

lemma delete_object_succeeds:
  assumes "neat s" and "is_object_key k"
  shows "\<exists>s'. delete_object k s = (Inr (), s') \<and> object_content s' k = None
    \<and> (\<forall>k'. object_content s k' = None \<longrightarrow> object_content s' k' = None)"
proof -
  from assms(2) obtain u where k: "k = object_key u" by (auto simp: is_object_key_def)
  have "\<not> is_dir s (path_of_object u)"
    using neatD(3) [OF assms(1), of "path_of_object u" DirNode]
    by (auto simp: is_dir_def path_of_object_def directory_path_def)
  then show ?thesis
    by (auto simp: delete_object_def unlink_missing_ok_def k key_path_of_object object_content_def split: sum.splits)
qed

lemma orphans_mark [simp]: "orphans (snd (mark_processed i t d)) = orphans d"
  using ready_orphan_same [of d "snd (mark_processed i t d)"]
  by (simp add: orphans_def same_references_def cong: filter_cong)

lemma delete_message:
  assumes ok: "worker_ok d s" and m: "m \<in> set (waiting d)" "ob_event_type m = object_delete_requested"
  shows "\<exists>out d' s'. process_message delete_object P {} m b n d s = (out, n, d', s') \<and> eo_claimed out \<and> \<not> eo_failed out
    \<and> progresses (d, s) (d', s') \<and> backlog d' < backlog d \<and> orphans d' = orphans d
    \<and> tbl_keys ob_id (db_outbox d') = tbl_keys ob_id (db_outbox d)"
proof -
  have wf: "outbox_wf d" and neat: "neat s" and bytes: "bytes_ok object_content is_object_key d s"
    using ok by (simp_all add: worker_ok_def store_ok_def)
  obtain k where k: "payload_key m = Some k"
    using wf m by (auto simp: outbox_wf_def waiting_def)
  with m have "k \<in> pending_deletes d" by (auto simp: pending_deletes_waiting)
  with bytes have valid: "is_object_key k" by (simp add: bytes_ok_def)
  from delete_object_succeeds [OF neat valid] obtain s' where del: "delete_object k s = (Inr (), s')"
    and gone: "object_content s' k = None" "\<forall>k'. object_content s k' = None \<longrightarrow> object_content s' k' = None" by blast
  define d' where "d' = snd (mark_processed (ob_id m) (p_now P) d)"
  note mark = waiting_mark [OF wf m(1), of "p_now P", folded d'_def]
  have "mark_processed (ob_id m) (p_now P) d = (True, d')" using mark(1) by (simp add: d'_def prod_eq_iff)
  then have "process_object_delete delete_object P m d s =
      (Inr (unclaimed\<lparr>eo_claimed := True, eo_processed := True, eo_physical := 1\<rparr>, d'), s')"
    by (simp add: process_object_delete_def payload_of_object [OF k valid] del rbind_def require_def)
  then have run: "process_message delete_object P {} m b n d s =
      (unclaimed\<lparr>eo_claimed := True, eo_processed := True, eo_physical := 1\<rparr>, n, d', s')"
    using m(2) by (simp add: process_message_def claim_next [OF wf m(1)] process_leased_def rbind_def)
  have "progresses (d, s) (d', s')"
    unfolding progresses_def fst_conv snd_conv
  proof (intro conjI)
    show "worker_ok d' s'" by (rule message_worker_ok [OF ok run])
    show "\<forall>k' \<in> pending_deletes d. k' \<in> pending_deletes d' \<or> object_content s' k' = None"
      using gone(1) k unfolding mark(4) by (auto simp: pending_deletes_waiting)
    show "sweep_waiting d \<longrightarrow> sweep_waiting d' \<or> orphans d' = []"
      using m(2) by (auto simp: sweep_waiting_def mark(3))
  qed (use gone(2) in \<open>auto simp: d'_def same_references_def live_keys_def\<close>)
  moreover have "backlog d' < backlog d" using mark(2) by (simp add: backlog_def d'_def)
  ultimately show ?thesis using run by (simp add: d'_def unclaimed_def)
qed

subsection \<open>A sweep\<close>

lemma delete_request_added:
  assumes "uuid7_check i" and "i \<notin> tbl_keys ob_id (db_outbox d)"
  shows "\<exists>row. outbox_add i t \<lparr>nm_aggregate_id = a, nm_aggregate_type = ''storage.object'',
      nm_event_type = object_delete_requested, nm_occurred = oc, nm_payload = pl\<rparr> d =
        Inr (row, d\<lparr>db_outbox := db_outbox d @ [row]\<rparr>)
    \<and> ob_id row = i \<and> pending row \<and> ob_event_type row = object_delete_requested"
  using assms
  by (simp add: outbox_add_def insert_outbox_def outbox_check_def Let_def rbind_def pending_def object_delete_requested_def)

lemma detach_orphans_succeeds:
  assumes "\<forall>j < length obs. uuid7_check (p_ids P (n + j)) \<and> p_ids P (n + j) \<notin> tbl_keys ob_id (db_outbox d)"
    and "inj_on (p_ids P) {n..<n + length obs}"
    and "distinct obs" "set obs \<subseteq> set (db_objects d)" "\<forall>ob \<in> set obs. ready_orphan d ob"
    and "distinct (map o_id (db_objects d))"
  shows "\<exists>d' rows. detach_orphans P obs n c d = Inr (c + int (length obs), n + length obs, d')
    \<and> db_outbox d' = db_outbox d @ rows \<and> map ob_id rows = map (p_ids P) [n..<n + length obs]
    \<and> (\<forall>r \<in> set rows. pending r \<and> ob_event_type r = object_delete_requested)"
  using assms
proof (induction obs arbitrary: n c d)
  case (Cons ob obs)
  from detach_one_orphan [of d ob] Cons.prems obtain d1 where
    d1: "delete_claimed_orphan_storage_object (o_id ob) d = (True, d1)"
      "set (db_objects d1) = set (db_objects d) - {ob}" "same_references d d1"
      "distinct (map o_id (db_objects d1))" "db_outbox d1 = db_outbox d" by auto
  have "uuid7_check (p_ids P n)" "p_ids P n \<notin> tbl_keys ob_id (db_outbox d1)"
    using Cons.prems(1) by (auto simp: d1(5) dest: spec [of _ 0])
  from delete_request_added [OF this, of "p_db_now P" "o_id ob" "p_now P" "[(''storage_key'', JStr (o_storage_key ob))]"]
  obtain row where add: "outbox_add (p_ids P n) (p_db_now P) \<lparr>nm_aggregate_id = o_id ob, nm_aggregate_type = ''storage.object'',
      nm_event_type = object_delete_requested, nm_occurred = p_now P,
      nm_payload = [(''storage_key'', JStr (o_storage_key ob))]\<rparr> d1 = Inr (row, d1\<lparr>db_outbox := db_outbox d1 @ [row]\<rparr>)"
    and row: "ob_id row = p_ids P n" "pending row" "ob_event_type row = object_delete_requested" by blast
  let ?d = "d1\<lparr>db_outbox := db_outbox d1 @ [row]\<rparr>"
  have same: "same_references d ?d" using d1(3) by (simp add: same_references_def)
  have new: "uuid7_check (p_ids P (n + 1 + j)) \<and> p_ids P (n + 1 + j) \<notin> tbl_keys ob_id (db_outbox ?d)"
    if "j < length obs" for j
  proof -
    have "p_ids P (n + 1 + j) \<noteq> p_ids P n"
      using inj_onD [OF Cons.prems(2), of "n + 1 + j" n] that by auto
    then show ?thesis
      using Cons.prems(1) that row(1) by (auto simp: d1(5) tbl_keys_def dest!: spec [of _ "Suc j"])
  qed
  have "\<exists>d' rows. detach_orphans P obs (n + 1) (c + 1) ?d = Inr (c + 1 + int (length obs), n + 1 + length obs, d')
    \<and> db_outbox d' = db_outbox ?d @ rows \<and> map ob_id rows = map (p_ids P) [n + 1..<n + 1 + length obs]
    \<and> (\<forall>r \<in> set rows. pending r \<and> ob_event_type r = object_delete_requested)"
    by (rule Cons.IH) (use new Cons.prems d1 ready_orphan_same [OF same] in \<open>auto simp: inj_on_def\<close>)
  then obtain d' rows where "detach_orphans P obs (n + 1) (c + 1) ?d = Inr (c + 1 + int (length obs), n + 1 + length obs, d')"
    "db_outbox d' = db_outbox ?d @ rows" "map ob_id rows = map (p_ids P) [n + 1..<n + 1 + length obs]"
    "\<forall>r \<in> set rows. pending r \<and> ob_event_type r = object_delete_requested" by blast
  moreover have "[n..<n + length (ob # obs)] = n # [n + 1..<n + 1 + length obs]"
    by (simp add: upt_conv_Cons del: upt_Suc)
  ultimately show ?case using d1(1,5) add row
    by (intro exI [of _ d'] exI [of _ "row # rows"]) (simp add: rbind_def algebra_simps del: upt_Suc)
qed simp

lemma to_storage_objects_succeeds:
  assumes "unicode_laws U" and "\<forall>ob \<in> set obs. object_check ob \<and> o_storage_key ob \<noteq> []"
  shows "to_storage_objects U obs = Inr obs"
  using assms(2)
proof (induction obs)
  case (Cons ob obs)
  then have "valid_sha256 (o_checksum ob)" "0 \<le> o_size ob" "o_storage_key ob \<noteq> []"
    by (simp_all add: object_check_def)
  then have "to_storage_object U ob = Inr ob"
    using unicode_laws.casefold_hex [OF assms(1), of "o_checksum ob"]
    by (simp add: to_storage_object_def storage_object_post_init_def sha256_create_def valid_sha256_def rbind_def require_def)
  with Cons show ?case by (simp add: rbind_def)
qed simp

text \<open>The batch of a sweep.\<close>

definition swept :: "nat \<Rightarrow> db \<Rightarrow> storage_object list" where
  "swept b d = take b (sort_key (\<lambda>ob. (o_created ob, o_id ob)) (orphans d))"

lemma claim_orphans_succeeds:
  assumes "unicode_laws U" and "objects_ok d"
  shows "claim_orphan_storage_objects U d b = Inr (swept b d, b < length (orphans d))"
proof -
  have "(\<lambda>ob. o_status ob = ObjReady \<and> orphan_condition d (o_id ob)) = ready_orphan d"
    by (simp add: ready_orphan_def fun_eq_iff)
  moreover have "to_storage_objects U (swept b d) = Inr (swept b d)"
    using assms(2) by (intro to_storage_objects_succeeds [OF assms(1)])
      (auto simp: swept_def orphans_def objects_ok_def dest!: in_set_takeD)
  ultimately show ?thesis
    by (simp add: claim_orphan_storage_objects_def Let_def swept_def orphans_def rbind_def min_def)
qed

lemma swept_orphans:
  assumes "objects_ok d"
  shows "distinct (swept b d)" "set (swept b d) \<subseteq> set (db_objects d)" "\<forall>ob \<in> set (swept b d). ready_orphan d ob"
    and "length (swept b d) = min b (length (orphans d))" "set (swept b d) \<subseteq> set (orphans d)"
proof -
  have "distinct (db_objects d)" using assms by (simp add: objects_ok_def distinct_map)
  then show "distinct (swept b d)" by (simp add: swept_def orphans_def)
  show "set (swept b d) \<subseteq> set (db_objects d)" "\<forall>ob \<in> set (swept b d). ready_orphan d ob" "set (swept b d) \<subseteq> set (orphans d)"
    by (auto simp: swept_def orphans_def dest!: in_set_takeD)
  show "length (swept b d) = min b (length (orphans d))" by (simp add: swept_def min_def)
qed

text \<open>Identifiers from position \<open>n\<close> to \<open>N\<close> are valid, different and not used in the outbox.\<close>

definition id_supply :: "ports \<Rightarrow> nat \<Rightarrow> nat \<Rightarrow> db \<Rightarrow> bool" where
  "id_supply P n N d \<longleftrightarrow> n + length (orphans d) \<le> N \<and> inj_on (p_ids P) {..<N}
     \<and> (\<forall>j. n \<le> j \<and> j < N \<longrightarrow> uuid7_check (p_ids P j) \<and> p_ids P j \<notin> tbl_keys ob_id (db_outbox d))"

lemma waiting_append:
  assumes "db_outbox d' = db_outbox d @ rows" and "\<forall>r \<in> set rows. pending r \<and> ob_event_type r = object_delete_requested"
  shows "waiting d' = waiting d @ rows"
  using assms by (simp add: waiting_def)

text \<open>What detaching the batch leaves behind.\<close>

lemma detach_batch:
  assumes ok: "worker_ok d s" and sup: "id_supply P n N d"
  shows "\<exists>d1 rows. detach_orphans P (swept b d) n 0 d = Inr (int (length (swept b d)), n + length (swept b d), d1)
    \<and> waiting d1 = waiting d @ rows \<and> length rows = length (swept b d)
    \<and> length (orphans d1) + length (swept b d) = length (orphans d)
    \<and> tbl_keys ob_id (db_outbox d1) = tbl_keys ob_id (db_outbox d) \<union> p_ids P ` {n..<n + length (swept b d)}
    \<and> outbox_wf d1 \<and> set (db_objects d1) \<subseteq> set (db_objects d) \<and> same_references d d1
    \<and> live_keys d \<subseteq> live_keys d1 \<union> pending_deletes d1"
proof -
  have objs: "objects_ok d" using ok storage_okD(10) by (simp add: worker_ok_def store_ok_def)
  then have ids: "distinct (map o_id (db_objects d))" by (simp add: objects_ok_def)
  note S = swept_orphans [OF objs, of b]
  have room: "n + length (swept b d) \<le> N" using sup S(4) by (auto simp: id_supply_def min_def)
  have "\<forall>j < length (swept b d). uuid7_check (p_ids P (n + j)) \<and> p_ids P (n + j) \<notin> tbl_keys ob_id (db_outbox d)"
    using sup room by (auto simp: id_supply_def)
  moreover have "inj_on (p_ids P) {n..<n + length (swept b d)}"
    using sup room by (auto simp: id_supply_def intro: inj_on_subset)
  ultimately obtain d1 rows where
    run: "detach_orphans P (swept b d) n 0 d = Inr (0 + int (length (swept b d)), n + length (swept b d), d1)"
    and rows: "db_outbox d1 = db_outbox d @ rows" "map ob_id rows = map (p_ids P) [n..<n + length (swept b d)]"
      "\<forall>r \<in> set rows. pending r \<and> ob_event_type r = object_delete_requested"
    using detach_orphans_succeeds [OF _ _ S(1,2,3) ids] by metis
  from detach_orphans_all [OF run S(1,2,3) ids]
  have D: "set (db_objects d1) = set (db_objects d) - set (swept b d)" "same_references d d1"
    "pending_deletes d1 = pending_deletes d \<union> o_storage_key ` set (swept b d)" by auto
  have keys: "live_keys d \<subseteq> live_keys d1 \<union> pending_deletes d1"
    by (auto simp: live_keys_def tbl_keys_def D(1,3))
  have "store_ok object_content is_object_key d1 s"
    using detach_orphans_keeps [OF _ _ ids S(2) run, of object_content is_object_key s] ok by (simp add: worker_ok_def)
  then have objs1: "objects_ok d1" using storage_okD(10) by (simp add: store_ok_def)
  have "distinct (orphans d)" "distinct (orphans d1)"
    using objs objs1 by (simp_all add: orphans_def objects_ok_def distinct_map)
  moreover have "set (orphans d1) = set (orphans d) - set (swept b d)"
    using ready_orphan_same [OF D(2)] by (auto simp: orphans_def D(1))
  ultimately have "length (orphans d1) = length (orphans d) - length (swept b d)"
    using S(1,5) by (metis List.finite_set card_Diff_subset distinct_card)
  then have "length (orphans d1) + length (swept b d) = length (orphans d)" using S(4) by simp
  moreover have "length rows = length (swept b d)" using arg_cong [OF rows(2), of length] by simp
  moreover have "tbl_keys ob_id (db_outbox d1) = tbl_keys ob_id (db_outbox d) \<union> p_ids P ` {n..<n + length (swept b d)}"
    using arg_cong [OF rows(2), of set] by (simp add: rows(1) tbl_keys_def image_Un)
  moreover have "outbox_wf d1" using outbox_wf_detach [OF run] ok by (simp add: worker_ok_def)
  ultimately show ?thesis using run waiting_append [OF rows(1,3)] keys D(1,2) by auto
qed

lemma sweep_message:
  assumes ok: "worker_ok d s" and m: "m \<in> set (waiting d)" "ob_event_type m = orphan_sweep_requested"
    and U: "unicode_laws (p_unicode P)" and b: "1 \<le> b" and sup: "id_supply P n N d"
  shows "\<exists>out n' d'. process_message delete_object P {} m b n d s = (out, n', d', s) \<and> eo_claimed out \<and> \<not> eo_failed out
    \<and> progresses (d, s) (d', s) \<and> backlog d' < backlog d \<and> n \<le> n' \<and> n' + length (orphans d') = n + length (orphans d)
    \<and> tbl_keys ob_id (db_outbox d') = tbl_keys ob_id (db_outbox d) \<union> p_ids P ` {n..<n'}"
proof -
  have wf: "outbox_wf d" and objs: "objects_ok d"
    using ok storage_okD(10) by (simp_all add: worker_ok_def store_ok_def)
  from detach_batch [OF ok sup, of b] obtain d1 rows where
    det: "detach_orphans P (swept b d) n 0 d = Inr (int (length (swept b d)), n + length (swept b d), d1)"
    and w1: "waiting d1 = waiting d @ rows" "length rows = length (swept b d)"
    and o1: "length (orphans d1) + length (swept b d) = length (orphans d)"
    and k1: "tbl_keys ob_id (db_outbox d1) = tbl_keys ob_id (db_outbox d) \<union> p_ids P ` {n..<n + length (swept b d)}"
    and wf1: "outbox_wf d1" and d1: "set (db_objects d1) \<subseteq> set (db_objects d)" "same_references d d1"
      "live_keys d \<subseteq> live_keys d1 \<union> pending_deletes d1" by blast
  have m1: "m \<in> set (waiting d1)" using m(1) by (simp add: w1)
  obtain d2 where mp: "mark_processed (ob_id m) (p_now P) d1 = (True, d2)"
    using waiting_mark(1) [OF wf1 m1, of "p_now P"] by (cases "mark_processed (ob_id m) (p_now P) d1") simp
  note mark = waiting_mark [OF wf1 m1, of "p_now P", unfolded mp snd_conv]
  define more where "more = (b < length (orphans d))"
  define d' where "d' = (if more then d1 else d2)"
  define out where "out = unclaimed\<lparr>eo_claimed := True, eo_processed := \<not> more, eo_deferred := more,
    eo_metadata := int (length (swept b d))\<rparr>"
  have "process_orphan_sweep P m b n d = Inr (out, n + length (swept b d), d')"
    by (auto simp: process_orphan_sweep_def claim_orphans_succeeds [OF U objs] det mp rbind_def require_def
        out_def d'_def more_def unclaimed_def)
  then have run: "process_message delete_object P {} m b n d s = (out, n + length (swept b d), d', s)"
    by (simp add: process_message_def claim_next [OF wf m(1)] process_leased_def m(2))
  have size: "length (swept b d) = min b (length (orphans d))" by (rule swept_orphans(4) [OF objs])
  have d2: "db_objects d2 = db_objects d1" "db_versions d2 = db_versions d1" "db_thumbnails d2 = db_thumbnails d1"
    "db_previews d2 = db_previews d1"
    using mark_processed_frame(1-4) [of "ob_id m" "p_now P" d1] by (simp_all only: mp snd_conv)
  have same: "orphans d2 = orphans d1" "tbl_keys ob_id (db_outbox d2) = tbl_keys ob_id (db_outbox d1)"
    using orphans_mark [of "ob_id m" "p_now P" d1] mark_processed_frame(5) [of "ob_id m" "p_now P" d1] by (simp_all only: mp snd_conv)
  have orph: "orphans d' = orphans d1" by (simp add: d'_def same)
  have pd: "pending_deletes d \<subseteq> pending_deletes d'"
    using m(2) unfolding d'_def pending_deletes_waiting by (cases more) (fastforce simp: mark(3) w1(1))+
  have pd1: "pending_deletes d' = pending_deletes d1"
    using m(2) unfolding d'_def pending_deletes_waiting by (cases more) (fastforce simp: mark(3) w1(1))+
  have prog: "progresses (d, s) (d', s)"
    unfolding progresses_def fst_conv snd_conv
  proof (intro conjI)
    show "worker_ok d' s" by (rule message_worker_ok [OF ok run])
    show "length (orphans d') \<le> length (orphans d)" using o1 orph by simp
    show "sweep_waiting d \<longrightarrow> sweep_waiting d' \<or> orphans d' = []"
    proof (cases more)
      case True
      then show ?thesis using m1 m(2) by (auto simp: sweep_waiting_def d'_def)
    next
      case False
      then have "length (orphans d1) = 0" using size o1 by (auto simp: more_def min_def split: if_splits)
      then show ?thesis by (simp add: orph)
    qed
    show "\<forall>k \<in> live_keys d. k \<in> live_keys d' \<union> pending_deletes d' \<or> object_content s k = None"
      using d1(3) unfolding pd1 by (auto simp: d'_def live_keys_def d2)
  qed (use pd d1(1,2) in \<open>auto simp: d'_def d2 same_references_def\<close>)
  have "backlog d' < backlog d"
  proof (cases more)
    case True
    then have "length (swept b d) = b" using size by (simp add: more_def)
    with True o1 w1 b show ?thesis by (simp add: backlog_def d'_def)
  next
    case False
    with o1 w1 mark(2) show ?thesis by (simp add: backlog_def d'_def same)
  qed
  moreover have "tbl_keys ob_id (db_outbox d') = tbl_keys ob_id (db_outbox d1)" by (simp add: d'_def same)
  ultimately show ?thesis using run prog o1 k1 by (auto simp: orph out_def unclaimed_def)
qed

section \<open>Rounds\<close>

lemma next_message:
  assumes ok: "worker_ok d s" and m: "next_pending_message d = Some m"
    and U: "unicode_laws (p_unicode P)" and b: "1 \<le> b" and sup: "id_supply P n N d"
  shows "\<exists>out n' d' s'. process_message delete_object P {} m b n d s = (out, n', d', s') \<and> eo_claimed out \<and> \<not> eo_failed out
    \<and> progresses (d, s) (d', s') \<and> backlog d' < backlog d \<and> id_supply P n' N d' \<and> n \<le> n'
    \<and> tbl_keys ob_id (db_outbox d') = tbl_keys ob_id (db_outbox d) \<union> p_ids P ` {n..<n'}"
proof -
  have w: "m \<in> set (waiting d)" by (rule next_pending_message_waiting(2) [OF m])
  then consider "ob_event_type m = object_delete_requested" | "ob_event_type m = orphan_sweep_requested"
    by (auto simp: waiting_def)
  then show ?thesis
  proof cases
    case 1
    from delete_message [OF ok w 1, of P b n] sup show ?thesis by (fastforce simp: id_supply_def)
  next
    case 2
    from sweep_message [OF ok w 2 U b sup] obtain out n' d' where
      run: "process_message delete_object P {} m b n d s = (out, n', d', s)" "eo_claimed out" "\<not> eo_failed out"
      and prog: "progresses (d, s) (d', s)" "backlog d' < backlog d" "n \<le> n'"
      and n': "n' + length (orphans d') = n + length (orphans d)"
      and keys: "tbl_keys ob_id (db_outbox d') = tbl_keys ob_id (db_outbox d) \<union> p_ids P ` {n..<n'}" by blast
    have "p_ids P j \<notin> p_ids P ` {n..<n'}" if "n' \<le> j" "j < N" for j
      using sup that n' by (auto simp: id_supply_def dest: inj_onD)
    then have "id_supply P n' N d'" using sup n' prog(3) by (auto simp: id_supply_def keys)
    with run prog keys show ?thesis by blast
  qed
qed

text \<open>One round: it drains what its batch allows, and what it starts it never fails.\<close>

lemma cycle_progress:
  assumes "worker_ok d s" and "unicode_laws (p_unicode P)" and "1 \<le> b" and "id_supply P n N d"
    and "outbox_cycle delete_object P {} b k n r d s = (r', n', d', s')"
  shows "progresses (d, s) (d', s') \<and> pr_failed r' = pr_failed r
    \<and> (waiting d' = [] \<or> backlog d' + k \<le> backlog d)
    \<and> tbl_keys ob_id (db_outbox d') \<subseteq> tbl_keys ob_id (db_outbox d) \<union> p_ids P ` {..<N}"
  using assms(1,4,5)
proof (induction k arbitrary: n r d s)
  case 0
  then show ?case by (simp add: progresses_refl)
next
  case (Suc k)
  show ?case
  proof (cases "next_pending_message d")
    case None
    then show ?thesis
      using Suc.prems next_pending_message_waiting(1) [of d] by (auto simp: progresses_refl)
  next
    case (Some m)
    from next_message [OF Suc.prems(1) Some assms(2,3) Suc.prems(2)] obtain out n1 d1 s1 where
      run: "process_message delete_object P {} m b n d s = (out, n1, d1, s1)" "eo_claimed out" "\<not> eo_failed out"
      and one: "progresses (d, s) (d1, s1)" "backlog d1 < backlog d" "id_supply P n1 N d1"
        "tbl_keys ob_id (db_outbox d1) = tbl_keys ob_id (db_outbox d) \<union> p_ids P ` {n..<n1}" by blast
    have rest: "outbox_cycle delete_object P {} b k n1 (add_outcome out r) d1 s1 = (r', n', d', s')"
      using Suc.prems(3) Some run by simp
    have "worker_ok d1 s1" using one(1) by (simp add: progresses_def)
    note IH = Suc.IH [OF this one(3) rest]
    have "n1 \<le> N" using one(3) by (simp add: id_supply_def)
    then have "p_ids P ` {n..<n1} \<subseteq> p_ids P ` {..<N}" by (intro image_mono) auto
    moreover have "progresses (d, s) (d', s')" using progresses_trans [of "(d, s)" "(d1, s1)"] Suc.prems(1) one(1) IH by simp
    moreover have "tbl_keys ob_id (db_outbox d') \<subseteq> tbl_keys ob_id (db_outbox d) \<union> p_ids P ` {..<N}"
      using IH one(4) calculation(1) by blast
    ultimately show ?thesis using IH one(2) run(3) by (auto simp: add_outcome_def)
  qed
qed

text \<open>
  Rounds in which no other transaction holds a row and the identifier generator hands out valid
  identifiers that are new: \<open>N\<close> of them are enough for one round.
\<close>

fun fresh_rounds :: "nat \<Rightarrow> uuid set \<Rightarrow> (ports \<times> uuid set) list \<Rightarrow> bool" where
  "fresh_rounds N used [] \<longleftrightarrow> True"
| "fresh_rounds N used ((P, locked) # rounds) \<longleftrightarrow>
     locked = {} \<and> unicode_laws (p_unicode P) \<and> inj_on (p_ids P) {..<N}
     \<and> (\<forall>j < N. uuid7_check (p_ids P j) \<and> p_ids P j \<notin> used) \<and> fresh_rounds N (used \<union> p_ids P ` {..<N}) rounds"

definition no_failure :: "json_object \<Rightarrow> bool" where
  "no_failure line \<longleftrightarrow> map_of line ''events_failed'' = Some (JInt 0)"

lemma idle_round: "waiting d = [] \<Longrightarrow> outbox_cycle remove P locked b k n r d s = (r, n, d, s)"
  by (cases k) (simp_all add: next_pending_message_waiting(1) [symmetric])

lemma worker_run_progress:
  assumes "worker_ok d s" and "1 \<le> pc_event_batch c" "1 \<le> pc_orphan_batch c"
    and "fresh_rounds N used rounds" and "tbl_keys ob_id (db_outbox d) \<subseteq> used" and "length (orphans d) \<le> N"
  shows "\<exists>lines d' s'. worker_run False c rounds d s = (Polling, lines, d', s')
    \<and> progresses (d, s) (d', s') \<and> (waiting d' = [] \<or> backlog d' + length rounds \<le> backlog d)
    \<and> (waiting d = [] \<longrightarrow> d' = d) \<and> (\<forall>line \<in> set lines. no_failure line)"
  using assms(1,4,5,6)
proof (induction rounds arbitrary: used d s)
  case Nil
  then show ?case by (simp add: progresses_refl)
next
  case (Cons x rounds)
  obtain P where x: "x = (P, {})" and U: "unicode_laws (p_unicode P)"
    using Cons.prems(2) by (cases x) auto
  obtain r n d1 s1 where run: "process_storage_outbox delete_object P {} c d s = (r, n, d1, s1)"
    by (metis prod_cases4)
  note cycle = run [unfolded process_storage_outbox_def]
  have "id_supply P 0 N d" using Cons.prems(2,3,4) by (auto simp: id_supply_def x)
  note one = cycle_progress [OF Cons.prems(1) U assms(3) this cycle]
  have ok1: "worker_ok d1 s1" and less: "length (orphans d1) \<le> length (orphans d)"
    using one by (simp_all add: progresses_def)
  have "fresh_rounds N (used \<union> p_ids P ` {..<N}) rounds" using Cons.prems(2) by (simp add: x)
  moreover have "tbl_keys ob_id (db_outbox d1) \<subseteq> used \<union> p_ids P ` {..<N}" using one Cons.prems(3) by blast
  moreover have "length (orphans d1) \<le> N" using less Cons.prems(4) by simp
  ultimately obtain lines d' s' where rest: "worker_run False c rounds d1 s1 = (Polling, lines, d', s')"
    "progresses (d1, s1) (d', s')" "waiting d' = [] \<or> backlog d' + length rounds \<le> backlog d1"
    "waiting d1 = [] \<longrightarrow> d' = d1" "\<forall>line \<in> set lines. no_failure line"
    using Cons.IH [OF ok1] by blast
  have "worker_run False c (x # rounds) d s =
      (Polling, (if pr_seen r \<noteq> 0 then [result_payload r] else []) @ lines, d', s')"
    by (simp add: x run rest(1))
  moreover have "no_failure (result_payload r)" using one by (simp add: no_failure_def result_payload_def process_zero_def)
  moreover have "waiting d = [] \<longrightarrow> d1 = d" using cycle by (auto simp: idle_round)
  moreover have "progresses (d, s) (d', s')" using progresses_trans [of "(d, s)" "(d1, s1)"] Cons.prems(1) one rest(2) by simp
  moreover have "waiting d' = [] \<or> backlog d' + length (x # rounds) \<le> backlog d"
    using one rest(3,4) assms(2) by (cases "waiting d1 = []") auto
  ultimately show ?case using rest(4,5) by (auto split: if_splits)
qed

text \<open>
  C11: the worker reclaims the space. Start it on any state the drive can reach, with a command line and
  settings that are accepted and identifiers that are new, and let it run for as many rounds as the
  backlog counts: two for each orphaned object and one for each waiting event. Then no event has failed
  and none is waiting; every file whose deletion had been requested is gone from the store; and if a
  sweep had been requested, every object that nothing referred to is gone from the database and
  its file from the store.
\<close>

theorem worker_reclaims_the_space:
  assumes "drive_reachable sha (d, s)"
    and "parse_worker_args a = Some w" and "\<not> wo_once w" and "load_settings U c = Inr c'"
    and "fresh_rounds (length (orphans d)) (tbl_keys ob_id (db_outbox d)) rounds"
    and "backlog d \<le> length rounds"
  shows "\<exists>lines d' s'. worker_main U c a rounds d s = (Polling, lines, d', s')
    \<and> waiting d' = [] \<and> (\<forall>line \<in> set lines. no_failure line)
    \<and> (\<forall>k \<in> pending_deletes d. object_content s' k = None)
    \<and> (sweep_waiting d \<longrightarrow> (\<forall>ob \<in> set (db_objects d). ready_orphan d ob \<longrightarrow>
         ob \<notin> set (db_objects d') \<and> object_content s' (o_storage_key ob) = None))"
proof -
  have ok: "worker_ok d s" using reachable_worker_ok [OF assms(1)] by simp
  from worker_command_accepted [OF assms(2,4)] obtain command where
    command: "worker_command c' w = Inr command" "1 \<le> pc_event_batch command" "1 \<le> pc_orphan_batch command" by blast
  from worker_run_progress [OF ok command(2,3) assms(5)] obtain lines d' s' where
    run: "worker_run False command rounds d s = (Polling, lines, d', s')" and prog: "progresses (d, s) (d', s')"
    and left: "waiting d' = [] \<or> backlog d' + length rounds \<le> backlog d"
    and lines: "\<forall>line \<in> set lines. no_failure line" by auto
  have main: "worker_main U c a rounds d s = (Polling, lines, d', s')"
    using assms(2,3,4) command(1) run by (simp add: worker_main_def rbind_def)
  have idle: "waiting d' = []"
  proof (cases "waiting d' = []")
    case False
    with left assms(6) have "backlog d' = 0" by simp
    then show ?thesis by (simp add: backlog_def)
  qed
  then have none: "pending_deletes d' = {}" "\<not> sweep_waiting d'"
    by (simp_all add: pending_deletes_waiting sweep_waiting_def)
  have gone: "ob \<notin> set (db_objects d') \<and> object_content s' (o_storage_key ob) = None"
    if sweep: "sweep_waiting d" and ob: "ob \<in> set (db_objects d)" "ready_orphan d ob" for ob
  proof -
    have "orphans d' = []" using prog none(2) sweep by (simp add: progresses_def)
    then have removed: "ob \<notin> set (db_objects d')"
      using ob(2) ready_orphan_same [of d d' ob] prog by (auto simp: orphans_def filter_empty_conv progresses_def)
    have keys: "distinct (map o_storage_key (db_objects d))"
      using ok storage_okD(10) by (auto simp: worker_ok_def store_ok_def objects_ok_def)
    have "x = ob" if "x \<in> set (db_objects d')" "o_storage_key x = o_storage_key ob" for x
      using distinct_key_inject [OF keys, of x ob] that ob(1) prog by (auto simp: progresses_def)
    then have "o_storage_key ob \<notin> live_keys d'" using removed by (auto simp: live_keys_def tbl_keys_def)
    moreover have "o_storage_key ob \<in> live_keys d" using ob(1) by (auto simp: live_keys_def tbl_keys_def)
    ultimately show ?thesis using prog none(1) removed by (auto simp: progresses_def)
  qed
  have "\<forall>k \<in> pending_deletes d. object_content s' k = None" using prog none(1) by (auto simp: progresses_def)
  with main idle lines gone show ?thesis by blast
qed

definition plain_worker :: worker_args where
  "plain_worker = \<lparr>wa_once = False, wa_poll = None, wa_events = None, wa_orphans = None\<rparr>"

definition worker_rounds :: "(ports \<times> uuid set) list" where
  "worker_rounds = [(sample_ports 8, {}), (sample_ports 9, {}), (sample_ports 10, {})]"

lemma sample_backlog: "waiting db7 = [sweep_event]" "orphans db7 = [sample_object]"
  by (simp_all add: waiting_def orphans_def ready_orphan_def orphan_condition_def db7_def db1_def empty_db_def
      sweep_event_def pending_def sample_object_def completed_object_def)

theorem worker_reclaims_the_space_witness:
  "\<exists>lines d' s'. worker_main ascii_unicode sample_settings plain_worker worker_rounds db7 fs5 = (Polling, lines, d', s')
    \<and> sample_object \<notin> set (db_objects d') \<and> object_content s' (o_storage_key sample_object) = None"
proof -
  have args: "parse_worker_args plain_worker = Some \<lparr>wo_once = False, wo_poll = None, wo_events = None, wo_orphans = None\<rparr>"
    by (simp add: plain_worker_def parse_worker_args_def convert_argument_def above_def)
  have "length (orphans db7) = 1" by (simp add: sample_backlog(2))
  moreover have "tbl_keys ob_id (db_outbox db7) = {sample_id 70}" by (simp add: db7_def sweep_event_def tbl_keys_def)
  ultimately have fresh: "fresh_rounds (length (orphans db7)) (tbl_keys ob_id (db_outbox db7)) worker_rounds"
    using ascii_text.unicode_laws_axioms by (simp add: worker_rounds_def sample_ports_def lessThan_Suc)
  have small: "backlog db7 \<le> length worker_rounds" by (simp add: backlog_def sample_backlog worker_rounds_def)
  have sweep: "sweep_waiting db7" by (simp add: sweep_waiting_def sample_backlog(1)) (simp add: sweep_event_def)
  have "sample_object \<in> set (orphans db7)" by (simp add: sample_backlog(2))
  then have orphan: "sample_object \<in> set (db_objects db7)" "ready_orphan db7 sample_object"
    unfolding orphans_def by simp_all
  from worker_reclaims_the_space [OF sample_reachable(5) args _ sample_settings_load fresh small] sweep orphan
  show ?thesis by auto
qed

end
