(* ===== verification/Cursor_Properties.thy ===== *)
theory Cursor_Properties
  imports Cache_Properties Delivery_Properties
begin

text \<open>
  Paging as a client does it: the text of the next cursor is sent back until a page has none.
\<close>



section \<open>Following the texts\<close>

fun follow_pages :: "(string option \<Rightarrow> ('a list \<times> string option) result) \<Rightarrow> nat \<Rightarrow> string option \<Rightarrow> 'a list list result" where
  "follow_pages fetch 0 v = Inr []"
| "follow_pages fetch (Suc k) v =
     rbind (fetch v) (\<lambda>(items, next_cursor).
     (case next_cursor of
        None \<Rightarrow> Inr [items]
      | Some t \<Rightarrow> rbind (follow_pages fetch k (Some t)) (\<lambda>pages. Inr (items # pages))))"

text \<open>
  A row that the listing can show: it is an entity, its name is one that the program writes, and its
  sort key and identifier can be sent.
\<close>

definition listable :: "unicode \<Rightarrow> sort_field \<Rightarrow> listed \<Rightarrow> bool" where
  "listable U f x \<longleftrightarrow>
     (\<exists>e. storage_entry_from_models U (fst x) (snd x) = Inr e)
     \<and> entry_name_create U (r_name (fst x)) = Inr \<lparr>en_value = r_name (fst x), en_normalized = r_normalized (fst x)\<rparr>
     \<and> (r_type (fst x) = FolderType \<longrightarrow> snd x = None)
     \<and> sendable_key (list_sort_expression f x) \<and> r_id (fst x) < 2 ^ 128"

definition listed_dto :: "unicode \<Rightarrow> db \<Rightarrow> uuid \<Rightarrow> listed \<Rightarrow> storage_entry_dto" where
  "listed_dto U d owner x =
     (case storage_entry_from_models U (fst x) (snd x) of
        Inr e \<Rightarrow> entry_to_dto e (list_ex (favorite_is owner (r_id (fst x))) (db_favorites d)))"

lemma entry_of_row:
  assumes "storage_entry_from_models U r fm = Inr e"
  shows "e_id e = r_id r" "e_name e = r_name r" "e_updated e = r_updated r"
    and "e_kind e = Folder \<and> r_type r = FolderType \<or> (\<exists>m. e_kind e = File (m_data m) \<and> r_type r = FileType \<and> fm = Some m)"
  using assms by (auto simp: storage_entry_from_models_def result_simps split: entry_type.splits option.splits)

lemma listed_dto_cursor:
  assumes "listable U f x"
  shows "entry_sort_value U (listed_dto U d owner x) f = Inr (list_sort_expression f x)"
    and "de_id (listed_dto U d owner x) = r_id (fst x)"
proof -
  from assms obtain e where e: "storage_entry_from_models U (fst x) (snd x) = Inr e" by (auto simp: listable_def)
  note row = entry_of_row [OF e]
  show "de_id (listed_dto U d owner x) = r_id (fst x)"
    by (simp add: listed_dto_def e entry_to_dto_def row(1) split: entry_kind.split)
  show "entry_sort_value U (listed_dto U d owner x) f = Inr (list_sort_expression f x)"
    using row assms
    by (cases f)
      (auto simp: listed_dto_def e entry_to_dto_def entry_sort_value_def list_sort_expression_def listable_def split: entry_kind.split)
qed

lemma collect_map: "\<forall>x \<in> set xs. f x = Inr (g x) \<Longrightarrow> collect f xs = Inr (map g xs)"
  by (induction xs) simp_all

lemma set_keyset_page: "keyset_page dir key n cursor rows = (page, more_rows) \<Longrightarrow> set page \<subseteq> set rows"
  by (auto simp: keyset_page_def cut_page_eq order_rows_def split: option.splits sort_direction.splits dest!: in_set_takeD)

lemma set_fetch_children: "fetch_children C (d, q) n cursor = (rows, more_rows) \<Longrightarrow> set rows \<subseteq> set (child_rows d q)"
  unfolding fetch_children_def prod.case by (rule set_keyset_page)

lemma favorite_entry_ids_iff:
  "i \<in> set ids \<Longrightarrow> i \<in> favorite_entry_ids d owner ids \<longleftrightarrow> list_ex (favorite_is owner i) (db_favorites d)"
  by (auto simp: favorite_entry_ids_def favorite_is_def list_ex_iff)

text \<open>A page in terms of the rows behind it.\<close>

lemma folder_entries_page_rows:
  assumes "get_folder U d (cq_parent q) False = Inr (Some folder)" and "e_owner folder = cq_owner q"
    and "sendable_filters (cq_filters q)" and "pred_option (\<lambda>c. sendable_key (fst c)) cursor"
    and "\<forall>x \<in> set (child_rows d q). listable U (cq_sort q) x"
    and "fetch_children C (d, q) n cursor = (rows, more_rows)"
  shows "folder_entries_page U C q n cursor d =
    Inr (map (listed_dto U d (cq_owner q)) rows,
      if more_rows \<and> rows \<noteq> [] then Some (listed_cursor (cq_sort q) (last rows)) else None)"
proof -
  have rows: "listable U (cq_sort q) x" if "x \<in> set rows" for x
    using assms(5) set_fetch_children [OF assms(6)] that by blast
  define ent where "ent = (\<lambda>x. THE e. storage_entry_from_models U (fst x) (snd x) = Inr e)"
  have ent: "storage_entry_from_models U (fst x) (snd x) = Inr (ent x)" if "x \<in> set rows" for x
    using rows [OF that] unfolding ent_def listable_def by (metis (mono_tags, lifting) Inr_inject theI)
  have "collect (\<lambda>(r, fm). storage_entry_from_models U r fm) rows = Inr (map ent rows)"
    by (rule collect_map) (use ent in \<open>auto simp: case_prod_unfold\<close>)
  then have "list_children U C d q n cursor = Inr (map ent rows, more_rows)"
    using assms(3,4,6) by (simp add: list_children_def)
  moreover have "map (\<lambda>e. entry_to_dto e (e_id e \<in> favorite_entry_ids d (cq_owner q) (map e_id (map ent rows)))) (map ent rows) =
      map (listed_dto U d (cq_owner q)) rows"
  proof -
    have "entry_to_dto (ent x) (e_id (ent x) \<in> favorite_entry_ids d (cq_owner q) (map e_id (map ent rows))) =
        listed_dto U d (cq_owner q) x" if "x \<in> set rows" for x
      using that entry_of_row(1) [OF ent [OF that]]
      by (subst favorite_entry_ids_iff) (auto simp: listed_dto_def ent intro: rev_image_eqI)
    then show ?thesis by simp
  qed
  moreover have "rows \<noteq> [] \<Longrightarrow> last rows \<in> set rows" by simp
  ultimately show ?thesis
    using assms(1,2) listed_dto_cursor [OF rows [of "last rows"]]
    by (simp add: folder_entries_page_def Let_def last_map listed_cursor_def)
qed

section \<open>All pages\<close>

text \<open>The listing request of a client, and what it takes for granted.\<close>

definition normal_query :: "unicode \<Rightarrow> children_query \<Rightarrow> children_query" where
  "normal_query U q = q\<lparr>cq_filters := normalized_filters U (cq_filters q)\<rparr>"

definition listing_ready :: "unicode \<Rightarrow> http_texts \<Rightarrow> children_query \<Rightarrow> db \<Rightarrow> bool" where
  "listing_ready U T q d \<longleftrightarrow>
     (\<exists>folder. get_folder U d (cq_parent q) False = Inr (Some folder) \<and> e_owner folder = cq_owner q)
     \<and> validate_filters (cq_filters (normal_query U q)) = Inr () \<and> sendable_filters (cq_filters (normal_query U q))
     \<and> distinct (map r_id (db_entries d)) \<and> (\<forall>x \<in> set (child_rows d (normal_query U q)). listable U (cq_sort q) x)
     \<and> cursor_texts T"

lemma normal_query_simps [simp]:
  "cq_owner (normal_query U q) = cq_owner q" "cq_parent (normal_query U q) = cq_parent q"
  "cq_sort (normal_query U q) = cq_sort q" "cq_direction (normal_query U q) = cq_direction q"
  by (simp_all add: normal_query_def)

lemma key_of_listed: "key_of_field f (list_sort_expression f x)"
  by (cases f) (simp_all add: key_of_field_def list_sort_expression_def)

lemma list_folder_entries_rows:
  assumes ready: "listing_ready U T q d" and n: "page_limit_ok n"
    and c: "c = None \<or> (\<exists>x \<in> set (child_rows d (normal_query U q)). c = Some (listed_cursor (cq_sort q) x))"
    and rows: "fetch_children C (d, normal_query U q) (nat n) c = (rows, more_rows)"
  shows "list_folder_entries U T C q n (map_option (encode_cursor T (cq_sort q) (cq_direction q)) c) d =
    Inr (map (listed_dto U d (cq_owner q)) rows, map_option (encode_cursor T (cq_sort q) (cq_direction q))
      (if more_rows \<and> rows \<noteq> [] then Some (listed_cursor (cq_sort q) (last rows)) else None))"
proof -
  have listable: "listable U (cq_sort q) x" if "x \<in> set (child_rows d (normal_query U q))" for x
    using ready that by (simp add: listing_ready_def)
  have texts: "cursor_texts T" using ready by (simp add: listing_ready_def)
  have read: "decode_cursor T (map_option (encode_cursor T (cq_sort q) (cq_direction q)) c) (cq_sort q) (cq_direction q) = Inr c"
    and key: "pred_option (\<lambda>c. sendable_key (fst c)) c"
    using c
  proof (atomize (full), elim disjE bexE)
    fix x assume x: "x \<in> set (child_rows d (normal_query U q))" "c = Some (listed_cursor (cq_sort q) x)"
    from listable [OF x(1)] have "sendable_key (list_sort_expression (cq_sort q) x)" "r_id (fst x) < 2 ^ 128"
      by (simp_all add: listable_def)
    with folder_cursor_comes_back [OF texts key_of_listed this] x(2)
    show "decode_cursor T (map_option (encode_cursor T (cq_sort q) (cq_direction q)) c) (cq_sort q) (cq_direction q) = Inr c
      \<and> pred_option (\<lambda>c. sendable_key (fst c)) c"
      by (simp add: listed_cursor_def)
  qed (simp add: decode_cursor_def)
  from ready obtain folder where folder: "get_folder U d (cq_parent (normal_query U q)) False = Inr (Some folder)"
    "e_owner folder = cq_owner (normal_query U q)" by (auto simp: listing_ready_def)
  have "folder_entries_page U C (normal_query U q) (nat n) c d =
    Inr (map (listed_dto U d (cq_owner q)) rows,
      if more_rows \<and> rows \<noteq> [] then Some (listed_cursor (cq_sort q) (last rows)) else None)"
    using folder_entries_page_rows [OF folder _ key _ rows] ready by (simp add: listing_ready_def)
  then show ?thesis
    using n read ready
    by (simp add: list_folder_entries_def Let_def listing_ready_def normal_query_def [symmetric])
qed

lemma follow_pages_rows:
  assumes ready: "listing_ready U T q d" and n: "page_limit_ok n"
    and "c = None \<or> (\<exists>x \<in> set (child_rows d (normal_query U q)). c = Some (listed_cursor (cq_sort q) x))"
  shows "follow_pages (\<lambda>v. list_folder_entries U T C q n v d) k (map_option (encode_cursor T (cq_sort q) (cq_direction q)) c) =
    Inr (map (map (listed_dto U d (cq_owner q)))
      (walk_pages (fetch_children C (d, normal_query U q) (nat n)) (listed_cursor (cq_sort q)) k c))"
  using assms(3)
proof (induction k arbitrary: c)
  case (Suc k)
  obtain rows more_rows where rows: "fetch_children C (d, normal_query U q) (nat n) c = (rows, more_rows)" by fastforce
  note page = list_folder_entries_rows [OF ready n Suc.prems rows]
  show ?case
  proof (cases "more_rows \<and> rows \<noteq> []")
    case True
    then have "last rows \<in> set (child_rows d (normal_query U q))"
      using set_fetch_children [OF rows] last_in_set by blast
    then have "\<exists>x \<in> set (child_rows d (normal_query U q)).
        Some (listed_cursor (cq_sort q) (last rows)) = Some (listed_cursor (cq_sort q) x)" by blast
    from Suc.IH [OF disjI2 [OF this]] page True rows show ?thesis by simp
  next
    case False
    with page rows show ?thesis by auto
  qed
qed simp

text \<open>
  C31: paging by cursor texts shows the folder once. A client that asks for the first page and then sends
  each next cursor back until a page has none gets, page after page, exactly the entries of the
  ordered listing, each once and with its favourite mark; as many requests as the listing has full
  pages, and one more, are enough.
\<close>

theorem folder_walk_is_the_listing:
  assumes "listing_ready U T q d" and "page_limit_ok n"
    and "length (child_rows d (normal_query U q)) \<le> k * nat n"
  shows "\<exists>pages. follow_pages (\<lambda>v. list_folder_entries U T C q n v d) (Suc k) None = Inr pages
    \<and> concat pages = map (listed_dto U d (cq_owner q)) (children_listing C (d, normal_query U q))"
proof -
  let ?pages = "walk_pages (fetch_children C (d, normal_query U q) (nat n)) (listed_cursor (cq_sort q)) (Suc k) None"
  have "0 < nat n" using assms(2) by (simp add: page_limit_ok_def)
  moreover have "distinct (map r_id (db_entries d))" using assms(1) by (simp add: listing_ready_def)
  moreover have "length (children_listing C (d, normal_query U q)) \<le> k * nat n"
    using assms(3) by (simp add: children_listing_def)
  ultimately have "concat ?pages = children_listing C (d, normal_query U q)"
    using children_pages.walk_all [of d "nat n" C "normal_query U q" k] by simp
  then have "concat (map (map (listed_dto U d (cq_owner q))) ?pages) =
      map (listed_dto U d (cq_owner q)) (children_listing C (d, normal_query U q))"
    by (simp only: map_concat [symmetric])
  moreover have "follow_pages (\<lambda>v. list_folder_entries U T C q n v d) (Suc k) None =
      Inr (map (map (listed_dto U d (cq_owner q))) ?pages)"
    using follow_pages_rows [OF assms(1,2), of None C "Suc k"] by simp
  ultimately show ?thesis by blast
qed

section \<open>The length of a cursor\<close>

definition escaped_length :: "string \<Rightarrow> nat" where
  "escaped_length s = length (concat (map json_char s))"

lemma length_json_text: "length (json_text s) = escaped_length s + 2"
  by (simp add: json_text_def escaped_length_def dquote_def)

lemma json_char_plain: "c = CHR ''-'' \<or> c \<in> set hex_digits \<Longrightarrow> json_char c = [c]"
  by (auto simp: json_char_def hex_digits_def char_code_def)

lemma escaped_uuid [simp]: "escaped_length (uuid_str u) = 36"
proof -
  have plain: "map json_char (uuid_str u) = map (\<lambda>c. [c]) (uuid_str u)"
    using set_uuid_str json_char_plain by (intro map_cong refl) blast
  show ?thesis unfolding escaped_length_def plain by (simp add: concat_map_singleton)
qed

lemma length_name_cursor:
  "length (encode_cursor T SortName dir (TextKey s, i)) =
     (4 * (92 + (if dir = Desc then 1 else 0) + escaped_length s) + 2) div 3"
proof -
  have words: "escaped_length ''direction'' = 9" "escaped_length ''id'' = 2" "escaped_length ''key'' = 3"
    "escaped_length ''sort'' = 4" "escaped_length ''v'' = 1" "escaped_length ''name'' = 4"
    "escaped_length (direction_text dir) = (if dir = Desc then 4 else 3)"
    by (cases dir; simp add: escaped_length_def json_char_def char_code_def direction_text_def)+
  show ?thesis
    unfolding encode_cursor_def length_urlsafe_base64
    by (simp add: json_dumps_def json_field_def length_json_text words sort_field_text_def)
qed


lemma escaped_length_lower: "6 * length (filter (\<lambda>c. 127 \<le> char_code c) s) \<le> escaped_length s"
proof (induction s)
  case (Cons c s)
  have "length (json_char c) = 6" if "127 \<le> char_code c"
    using that char_code_less [of c] by (auto simp: json_char_def Let_def hex4_small char_code_def)
  with Cons show ?case by (simp add: escaped_length_def)
qed (simp add: escaped_length_def)

text \<open>A folder with two names, the first of them long.\<close>

definition long_name :: string where
  "long_name = CHR 0xE9 # replicate 254 (CHR 0xE9)"

definition long_db :: db where
  "long_db = db2\<lparr>db_entries := [folder_row 11 None ''Drive'' ''drive'' 1, folder_row 20 (Some 11) long_name long_name 2,
     folder_row 30 (Some 11) ''Zz'' ''zz'' 3]\<rparr>"

definition long_query :: children_query where
  "long_query = sample_query\<lparr>cq_parent := sample_id 11, cq_direction := Desc\<rparr>"

lemma long_name_created: "entry_name_create ascii_unicode long_name = Inr \<lparr>en_value = long_name, en_normalized = long_name\<rparr>"
proof -
  have "py_strip (u_is_space ascii_unicode) long_name = long_name"
    by (rule py_strip_fixed) (simp add: long_name_def ascii_unicode_def last_replicate)
  moreover have "ascii_lower (CHR 0xE9) = CHR 0xE9" by (simp add: ascii_lower_def)
  ultimately show ?thesis
    by (simp add: entry_name_create_def ascii_unicode_def long_name_def list_ex_iff Let_def)
qed

lemma short_name_created: "entry_name_create ascii_unicode ''Zz'' = Inr \<lparr>en_value = ''Zz'', en_normalized = ''zz''\<rparr>"
  by code_simp

lemma long_rows: "child_rows long_db (normal_query ascii_unicode long_query) =
    [(folder_row 20 (Some 11) long_name long_name 2, None), (folder_row 30 (Some 11) ''Zz'' ''zz'' 3, None)]"
  by (simp add: child_rows_def long_db_def long_query_def sample_query_def normal_query_def normalized_filters_def
      row_matches_def db2_def db1_def empty_db_def folder_row_def tbl_find_def)

lemma long_ready: "listing_ready ascii_unicode sample_texts long_query long_db"
proof -
  have "CHR 0x00 \<notin> set long_name" by (simp add: long_name_def)
  then have rows: "\<forall>x \<in> set (child_rows long_db (normal_query ascii_unicode long_query)). listable ascii_unicode SortName x"
    unfolding long_rows
    by (simp add: listable_def folder_row_def storage_entry_from_models_def long_name_created short_name_created
        list_sort_expression_def sendable_text_def sample_id_def)
  have "cq_sort long_query = SortName" by (simp add: long_query_def sample_query_def)
  with rows show ?thesis
    by (simp add: listing_ready_def sample_cursor_texts)
      (simp add: long_query_def sample_query_def normal_query_def normalized_filters_def validate_filters_def both_def
        sendable_filters_def long_db_def db2_def run_defs)
qed

lemma long_order: "children_listing (map of_char) (long_db, normal_query ascii_unicode long_query) =
    [(folder_row 20 (Some 11) long_name long_name 2, None), (folder_row 30 (Some 11) ''Zz'' ''zz'' 3, None)]"
proof -
  have "cq_direction long_query = Desc" "cq_sort long_query = SortName"
    by (simp_all add: long_query_def sample_query_def)
  moreover have "\<not> (map of_char long_name :: int list) \<le> map of_char ''zz''"
    by (simp add: long_name_def not_le)
  ultimately show ?thesis
    by (simp add: children_listing_def long_rows order_rows_def cursor_rank_def listed_cursor_def list_sort_expression_def
        folder_row_def less_eq_prod_def)
qed

lemma long_first_page: "fetch_children (map of_char) (long_db, normal_query ascii_unicode long_query) 1 None =
    ([(folder_row 20 (Some 11) long_name long_name 2, None)], True)"
  using children_pages.first_page [of long_db 1 "map of_char" "normal_query ascii_unicode long_query"] long_ready
  by (simp add: long_order listing_ready_def)

theorem folder_walk_is_the_listing_witness:
  "\<exists>pages. follow_pages (\<lambda>v. list_folder_entries ascii_unicode sample_texts (map of_char) long_query 1 v long_db) (Suc 2) None = Inr pages
    \<and> map de_name (concat pages) = [long_name, ''Zz'']"
proof -
  have "page_limit_ok 1" by (simp add: page_limit_ok_def)
  moreover have "length (child_rows long_db (normal_query ascii_unicode long_query)) \<le> 2 * nat 1" by (simp add: long_rows)
  ultimately have "\<exists>pages. follow_pages (\<lambda>v. list_folder_entries ascii_unicode sample_texts (map of_char) long_query 1 v long_db)
      (Suc 2) None = Inr pages
    \<and> concat pages = map (listed_dto ascii_unicode long_db (cq_owner long_query))
        (children_listing (map of_char) (long_db, normal_query ascii_unicode long_query))"
    by (rule folder_walk_is_the_listing [OF long_ready])
  then show ?thesis
    unfolding long_order
    by (auto simp: listed_dto_def folder_row_def storage_entry_from_models_def entry_to_dto_def)
qed


end
