(* ===== verification/Interruptions.thy ===== *)
theory Interruptions
  imports Drive_Properties Store_Inventory
begin

text \<open>
  Calls that are not run to their end, and clean-ups that run late. The use cases of uploads
  (\<open>app/application/use_cases/storage/uploads.py\<close>) change the file store inside their transaction and,
  when that fails, take the change back after it: the row lock is free by then, so other calls come in
  between, and a process that dies leaves the clean-up undone. The theory splits these calls into
  their halves and shows that no file loses its bytes.
\<close>

section \<open>Clean-ups\<close>

text \<open>What an \<open>except\<close> branch, or the last line of \<open>CancelUploadUseCase\<close>, still has to do.\<close>

datatype cleanup = CutBack uuid nat | Discard uuid | Unpublish uuid

fun run_cleanup :: "instant \<Rightarrow> cleanup \<Rightarrow> fs \<Rightarrow> fs" where
  "run_cleanup now (CutBack u off) s = snd (truncate_upload now u off s)"
| "run_cleanup now (Discard u) s = snd (discard_upload u s)"
| "run_cleanup now (Unpublish u) s = snd (delete_object (object_key u) s)"

definition withdrawn :: "cleanup list \<Rightarrow> uuid set" where
  "withdrawn cs = {u. Unpublish u \<in> set cs}"

definition new_uploads :: "db \<Rightarrow> db \<Rightarrow> uuid set" where
  "new_uploads d d' = us_id ` set (db_uploads d') - us_id ` set (db_uploads d)"

section \<open>Steps\<close>

text \<open>
  A whole call; the first half of a call that fails after it touched the store (or of a cancellation), with
  the clean-up it leaves; a clean-up, at any later time; a clean-up that is never run; and the
  worker that dies between the deletion of an object and the acknowledgement. New uploads have
  identifiers that no clean-up names.
\<close>

type_synonym part_state = "db \<times> fs \<times> cleanup list"

inductive part_step :: "(bytes \<Rightarrow> string) \<Rightarrow> part_state \<Rightarrow> part_state \<Rightarrow> bool" for sha where
  Whole: "drive_step sha (d, s) (d', s') \<Longrightarrow> new_uploads d d' \<inter> withdrawn cs = {} \<Longrightarrow>
     part_step sha (d, s, cs) (d', s', cs)"
| StartHalf: "start_checks P policy su d = Inr x \<Longrightarrow> p_ids P 0 < 2 ^ 128 \<Longrightarrow> p_ids P 0 \<notin> withdrawn cs \<Longrightarrow>
     part_step sha (d, s, cs) (d, snd (create_upload (p_now P) (p_ids P 0) s), Discard (p_ids P 0) # cs)"
| AppendHalf: "append_checks P au d = Inr u \<Longrightarrow>
     part_step sha (d, s, cs)
       (d, snd (append_chunk (sv_write_buffer (S :: upload_services)) (sv_faults S) (p_now P) (us_id u) (nat (us_uploaded_bytes u)) b s),
        CutBack (us_id u) (nat (us_uploaded_bytes u)) # cs)"
| CompleteHalf: "sv_sha256 S = sha \<Longrightarrow> 0 < sv_block_size S \<Longrightarrow> complete_checks P S policy ou d s = Inr i \<Longrightarrow>
     publish_upload (us_id (in_upload i)) (in_size i) s = (Inr stored, s') \<Longrightarrow>
     part_step sha (d, s, cs) (d, s', Unpublish (us_id (in_upload i)) # cs)"
| CancelHalf: "cancel_tx P ou d = Inr (u, d') \<Longrightarrow> part_step sha (d, s, cs) (d', s, Discard (us_id u) # cs)"
| DeleteHalf: "k \<in> pending_deletes d \<Longrightarrow> part_step sha (d, s, cs) (d, snd (delete_object k s), cs)"
| Late: "c \<in> set cs \<Longrightarrow> part_step sha (d, s, cs) (d, run_cleanup now c s, remove1 c cs)"
| Lost: "c \<in> set cs \<Longrightarrow> part_step sha (d, s, cs) (d, s, remove1 c cs)"

inductive part_reachable :: "(bytes \<Rightarrow> string) \<Rightarrow> part_state \<Rightarrow> bool" for sha where
  Fresh: "part_reachable sha (empty_db, \<lparr>fs_nodes = [], fs_dir_size = n\<rparr>, [])"
| Next: "part_reachable sha x \<Longrightarrow> part_step sha x y \<Longrightarrow> part_reachable sha y"

section \<open>Withdrawn uploads do not come back\<close>

text \<open>
  An upload whose object will be deleted has no staging file any more and no row names its object; so
  it stays, because only a new upload gets a staging file and only a staged file is published.
\<close>

definition gone :: "db \<Rightarrow> fs \<Rightarrow> uuid \<Rightarrow> bool" where
  "gone d s u \<longleftrightarrow> u < 2 ^ 128 \<and> object_key u \<notin> live_keys d \<and> fs_file s (staging_path u) = None"

definition no_new_file :: "path \<Rightarrow> fs \<Rightarrow> fs \<Rightarrow> bool" where
  "no_new_file p s s' \<longleftrightarrow> (fs_file s p = None \<longrightarrow> fs_file s' p = None)"

lemma no_new_file_removal:
  "no_new_file p s (snd (discard_upload u s))" "no_new_file p s (snd (delete_object k s))"
  "no_new_file p s (snd (truncate_upload now u off s))"
  by (auto simp: no_new_file_def discard_upload_def delete_object_def unlink_missing_ok_def truncate_upload_def Let_def
      split: sum.split option.split)

lemma no_new_file_cleanup: "no_new_file p s (run_cleanup now c s)"
  by (cases c) (simp_all add: no_new_file_removal)

lemma no_new_file_append: "no_new_file p s (snd (append_chunk wb F now u off b s))"
  by (auto simp: no_new_file_def append_chunk_def Let_def split: option.split prod.split)

lemma no_new_file_create:
  assumes "u < 2 ^ 128" and "w < 2 ^ 128" and "u \<noteq> w"
  shows "no_new_file (staging_path u) s (snd (create_upload now w s))"
proof -
  have "staging_path u \<noteq> staging_path w" using staging_path_inject [OF assms(1,2)] assms(3) by auto
  then show ?thesis by (auto simp: no_new_file_def create_upload_def mkdirs_file split: sum.split)
qed

lemma no_new_file_publish:
  assumes "publish_upload u n s = (r, s')" and "fs_file s (staging_path u) = Some c"
  shows "no_new_file (staging_path w) s s'"
proof (cases r)
  case (Inl e)
  then have "fs_file s' q = fs_file s q" for q
    using assms(1)
    by (auto simp: publish_upload_def Let_def dest: mkdirs_file split: sum.splits option.splits if_splits)
  then show ?thesis by (simp add: no_new_file_def)
next
  case (Inr stored)
  note P = publish_upload_success [OF assms(1) [unfolded Inr] assms(2)]
  show ?thesis
    using P(6) P(7) [of "staging_path w"] staging_not_object [of u w]
    by (cases "staging_path w = staging_path u") (auto simp: no_new_file_def)
qed

lemma no_new_file_trans: "no_new_file p a b \<Longrightarrow> no_new_file p b c \<Longrightarrow> no_new_file p a c"
  by (simp add: no_new_file_def)

lemma start_no_new_file:
  assumes "start_upload P policy c d s = (r, d', s')" and "p_ids P 0 < 2 ^ 128" and "u < 2 ^ 128"
    and "u \<notin> new_uploads d d'"
  shows "no_new_file (staging_path u) s s'"
proof (cases "start_checks P policy c d")
  case (Inr x)
  obtain q s1 where cr: "create_upload (p_now P) (p_ids P 0) s = (q, s1)" by fastforce
  show ?thesis
  proof (cases "u = p_ids P 0")
    case False
    have "no_new_file (staging_path u) s s1"
      using no_new_file_create [OF assms(3,2) False, of s "p_now P"] by (simp add: cr)
    moreover have "s' = s1 \<or> s' = snd (discard_upload (p_ids P 0) s1)"
      using assms(1) Inr cr by (auto simp: start_upload_def Let_def split: sum.splits prod.splits)
    ultimately show ?thesis using no_new_file_trans no_new_file_removal(1) by metis
  next
    case True
    have "s' = snd (discard_upload u s1)"
      using assms(1,4) Inr cr True
      by (auto simp: start_upload_def insert_upload_def new_upload_def new_uploads_def tbl_keys_def Let_def
          split: sum.splits prod.splits if_splits)
    then show ?thesis
      by (auto simp: no_new_file_def discard_upload_def unlink_missing_ok_def is_dir_def fs_file_def staging_path_def
          split: option.split)
  qed
qed (use assms in \<open>simp add: start_upload_def no_new_file_def\<close>)

lemma append_no_new_file:
  assumes "append_upload P S policy c d s = (r, d', s')"
  shows "no_new_file p s s'"
proof (cases "append_checks P c d")
  case (Inr u)
  obtain stream sz where bs: "bounded_stream (up_maximum_chunk_size policy)
    (us_expected_size u - us_uploaded_bytes u) (au_body c) = (stream, sz)" by fastforce
  obtain q s1 where app: "append_chunk (sv_write_buffer S) (sv_faults S) (p_now P) (us_id u)
    (nat (us_uploaded_bytes u)) stream s = (q, s1)" by fastforce
  have "no_new_file p s s1" using no_new_file_append by (metis app snd_conv)
  moreover from assms Inr bs app have
    "s' = s1 \<or> s' = snd (truncate_upload (p_now P) (us_id u) (nat (us_uploaded_bytes u)) s1)"
    by (auto simp: append_upload_def split: sum.splits prod.splits)
  ultimately show ?thesis using no_new_file_trans no_new_file_removal(3) by metis
qed (use assms in \<open>simp add: append_upload_def no_new_file_def\<close>)

lemma complete_no_new_file:
  assumes "drive_ok sha d s" and "0 < sv_block_size S" and "complete_upload P S policy c d s = (r, d', s')"
  shows "no_new_file (staging_path u) s s'"
    and "live_keys d' \<subseteq> live_keys d \<union> {object_key w | w. w < 2 ^ 128 \<and> fs_file s (staging_path w) \<noteq> None}"
proof -
  have ok: "system_ok sha d s" "storage_ok d" using assms(1) by (simp_all add: drive_ok_def system_ok_def store_ok_def)
  have "no_new_file (staging_path u) s s' \<and>
    live_keys d' \<subseteq> live_keys d \<union> {object_key w | w. w < 2 ^ 128 \<and> fs_file s (staging_path w) \<noteq> None}"
  proof (cases "complete_checks P S policy c d s")
    case (Inr i)
    note comp = completing [OF ok(1) assms(2) Inr]
    obtain bytes where content: "fs_file s (staging_path (us_id (in_upload i))) = Some bytes" using comp(6) by blast
    obtain q s1 where pub: "publish_upload (us_id (in_upload i)) (in_size i) s = (q, s1)" by fastforce
    have one: "no_new_file (staging_path u) s s1" by (rule no_new_file_publish [OF pub content])
    have "s' = s1 \<or> (\<exists>k. s' = snd (delete_object k s1))"
      using assms(3) Inr pub by (auto simp: complete_upload_def split: sum.splits prod.splits) (metis snd_conv)+
    with one have staged: "no_new_file (staging_path u) s s'" using no_new_file_trans no_new_file_removal(2) by metis
    show ?thesis
    proof (cases "d' = d")
      case False
      with assms(3) Inr pub obtain stored where st: "q = Inr stored" "record_completion P i stored d = Inr d'"
        by (auto simp: complete_upload_def split: sum.splits prod.splits)
      obtain fo where fo: "active_folder_row (db_entries d) (us_owner (in_upload i)) (us_parent (in_upload i)) fo"
        using complete_checks_D(6) [OF Inr] by blast
      have "so_key stored = object_key (us_id (in_upload i))"
        by (rule publish_upload_success(1) [OF pub [unfolded st(1)] content])
      then have "live_keys d' = insert (object_key (us_id (in_upload i))) (live_keys d)"
        by (simp add: live_keys_def record_completion_frame(1) [OF st(2) ok(2) fo] tbl_keys_def completed_object_def)
      with staged content comp(2) show ?thesis by auto
    qed (use staged in simp)
  qed (use assms(3) in \<open>simp add: complete_upload_def no_new_file_def\<close>)
  then show "no_new_file (staging_path u) s s'"
    "live_keys d' \<subseteq> live_keys d \<union> {object_key w | w. w < 2 ^ 128 \<and> fs_file s (staging_path w) \<noteq> None}" by auto
qed

lemma new_uploads_same [simp]: "new_uploads d d = {}"
  by (simp add: new_uploads_def)

lemma bootstrap_objects: "db_objects (snd (bootstrap_admin A ap cr d)) = db_objects d"
  by (auto simp: bootstrap_admin_def run_tx_def elim!: bootstrap_tx_D split: sum.split)

lemma gone_whole:
  assumes step: "drive_step sha (d, s) (d', s')" and ok: "drive_ok sha d s" and u: "gone d s u"
    and new: "u \<notin> new_uploads d d'"
  shows "gone d' s' u"
proof -
  have bound: "u < 2 ^ 128" "object_key u \<notin> live_keys d" "fs_file s (staging_path u) = None"
    using u by (simp_all add: gone_def)
  have st: "storage_ok d" "system_ok sha d s" using ok by (simp_all add: drive_ok_def system_ok_def store_ok_def)
  have "object_key u \<notin> live_keys d' \<and> no_new_file (staging_path u) s s'"
    using step
  proof (cases rule: drive_step.cases)
    case (Bootstrap A ap cr)
    then show ?thesis using bound by (simp add: live_keys_def bootstrap_objects no_new_file_def)
  next
    case (Account A ap ac)
    then show ?thesis
      using bound exec_account_frame [of A ap ac d] by (simp add: live_keys_def storage_part_def no_new_file_def)
  next
    case (Favourites P fc)
    then show ?thesis
      using bound exec_activity_frame [of P fc d] by (simp add: live_keys_def storage_part_def no_new_file_def)
  next
    case (Tree P tc)
    then show ?thesis
      using bound exec_tree_keeps [OF st(1), of P tc] by (simp add: live_keys_def keeps_objects_def no_new_file_def)
  next
    case (Start P policy su r1)
    have "db_objects d' = db_objects d"
      using Start(3) by (auto simp: start_upload_def insert_upload_def Let_def split: sum.splits prod.splits if_splits)
    with bound start_no_new_file [OF Start(3,1) bound(1) new] show ?thesis by (simp add: live_keys_def)
  next
    case (Append P S policy au r2)
    have "db_objects d' = db_objects d"
      using Append
      by (auto simp: append_upload_def record_chunk_def save_upload_session_def Let_def result_simps
          split: sum.splits prod.splits if_splits)
    with bound append_no_new_file [OF Append] show ?thesis by (simp add: live_keys_def)
  next
    case (Complete S P policy ou r3)
    note C = complete_no_new_file [OF ok Complete(2,3)]
    have "object_key u \<noteq> object_key w" if "w < 2 ^ 128" "fs_file s (staging_path w) \<noteq> None" for w
      using that bound object_key_inject [OF bound(1) that(1)] by auto
    with C bound show ?thesis by blast
  next
    case (Cancel P ou r4)
    have "db_objects d' = db_objects d"
      using Cancel
      by (auto simp: cancel_upload_def cancel_tx_def save_upload_session_def Let_def result_simps
          split: sum.splits prod.splits if_splits)
    moreover have "s' = s \<or> (\<exists>w. s' = snd (discard_upload w s))"
      using Cancel by (auto simp: cancel_upload_def split: sum.splits prod.splits) (metis snd_conv)+
    then have "no_new_file (staging_path u) s s'" by (auto simp: no_new_file_removal) (simp add: no_new_file_def)
    ultimately show ?thesis using bound by (simp add: live_keys_def)
  next
    case (Cleanup P locked pc r5 n)
    have "set (db_objects d') \<subseteq> set (db_objects d)"
      using system_ok_cleanup(3) [OF st(2) Cleanup] by (simp add: only_detaches_def)
    then have "live_keys d' \<subseteq> live_keys d" by (auto simp: live_keys_def tbl_keys_def)
    moreover have "fs_file (snd (snd (snd (process_storage_outbox delete_object P locked pc d s)))) (staging_path u) = None"
      unfolding process_storage_outbox_def
      by (rule outbox_cycle_store [where I = "\<lambda>s. fs_file s (staging_path u) = None"])
        (use no_new_file_removal(2) bound(3) in \<open>auto simp: no_new_file_def\<close>)
    ultimately show ?thesis using bound Cleanup by (auto simp: no_new_file_def)
  qed
  with bound show ?thesis by (simp add: gone_def no_new_file_def)
qed

section \<open>The invariant\<close>

definition part_ok :: "(bytes \<Rightarrow> string) \<Rightarrow> part_state \<Rightarrow> bool" where
  "part_ok sha x \<longleftrightarrow> (case x of (d, s, cs) \<Rightarrow> drive_ok sha d s \<and> (\<forall>u \<in> withdrawn cs. gone d s u))"

lemma withdrawn_simps [simp]:
  "withdrawn [] = {}" "withdrawn (CutBack u n # cs) = withdrawn cs" "withdrawn (Discard u # cs) = withdrawn cs"
  "withdrawn (Unpublish u # cs) = insert u (withdrawn cs)"
  by (auto simp: withdrawn_def)

lemma withdrawn_remove1: "withdrawn (remove1 c cs) \<subseteq> withdrawn cs"
  using set_remove1_subset [of c cs] by (auto simp: withdrawn_def)

text \<open>A change of the store that leaves the bytes of the live objects alone.\<close>

lemma drive_ok_store:
  assumes "drive_ok sha d s" and "\<And>k. k \<in> live_keys d \<Longrightarrow> object_content s' k = object_content s k"
  shows "drive_ok sha d s'"
proof -
  have ok: "system_ok sha d s" "described d" using assms(1) by (simp_all add: drive_ok_def)
  have "system_ok sha d s'"
    by (rule system_ok_same_live [OF ok(1)])
      (use ok assms(2) in \<open>simp_all add: system_ok_def store_ok_def\<close>)
  with ok(2) show ?thesis by (simp add: drive_ok_def)
qed

lemma live_valid: "drive_ok sha d s \<Longrightarrow> k \<in> live_keys d \<Longrightarrow> is_object_key k"
  by (auto simp: drive_ok_def system_ok_def store_ok_def bytes_ok_def)

lemma same_objects_live:
  "drive_ok sha d s \<Longrightarrow> same_objects s s' \<Longrightarrow> k \<in> live_keys d \<Longrightarrow> object_content s' k = object_content s k"
  using live_valid by (auto simp: same_objects_def)

lemma delete_live:
  assumes "drive_ok sha d s" and "is_object_key j" and "j \<notin> live_keys d" and "k \<in> live_keys d"
  shows "object_content (snd (delete_object j s)) k = object_content s k"
  using local_store.remove_other [OF assms(2) live_valid [OF assms(1,4)]] assms(3,4) by metis

lemma cleanup_live:
  assumes "part_ok sha (d, s, cs)" and "c \<in> set cs" and "k \<in> live_keys d"
  shows "object_content (run_cleanup now c s) k = object_content s k"
proof (cases c)
  case (Unpublish u)
  with assms(1,2) have "gone d s u" by (auto simp: part_ok_def withdrawn_def)
  then have "is_object_key (object_key u)" "object_key u \<notin> live_keys d"
    by (auto simp: gone_def is_object_key_def)
  with assms(1,3) Unpublish show ?thesis by (auto simp: part_ok_def intro: delete_live)
qed (use assms same_objects_truncate same_objects_discard in \<open>auto simp: part_ok_def intro: same_objects_live\<close>)

text \<open>A cancellation whose discard is still to come is a cancellation as far as the database goes.\<close>

lemma cancel_half_ok:
  assumes "drive_ok sha d s" and "cancel_tx P ou d = Inr (u, d')"
  shows "drive_ok sha d' s" and "live_keys d' = live_keys d"
proof -
  obtain r s' where run: "cancel_upload P ou d s = (r, d', s')"
    using assms(2) by (cases "discard_upload (us_id u) s"; cases "fst (discard_upload (us_id u) s)")
      (auto simp: cancel_upload_def)
  have ok: "drive_ok sha d' s'" using drive_step_ok [OF Cancel [OF run]] assms(1) by simp
  have "db_objects d' = db_objects d"
    using assms(2) by (auto simp: cancel_tx_def save_upload_session_def Let_def result_simps split: if_splits)
  then show lk: "live_keys d' = live_keys d" by (simp add: live_keys_def)
  have "object_content s k = object_content s' k" if "k \<in> live_keys d'" for k
    using same_objects_live [OF assms(1) cancel_same_objects [OF run]] that lk by simp
  with ok show "drive_ok sha d' s" by (rule drive_ok_store)
qed

text \<open>The bytes of a live object are the same before and after every step.\<close>

lemma part_step_content:
  assumes "part_step sha (d, s, cs) (d', s', cs')" and "part_ok sha (d, s, cs)"
    and "k \<in> live_keys d" and "k \<in> live_keys d'"
  shows "object_content s' k = object_content s k"
proof -
  have ok: "drive_ok sha d s" and sys: "system_ok sha d s" using assms(2) by (simp_all add: part_ok_def drive_ok_def)
  from assms(1) show ?thesis
  proof (cases rule: part_step.cases)
    case Whole
    from drive_step_content [OF Whole(2) ok assms(3,4)] show ?thesis .
  next
    case (StartHalf P policy su x)
    with same_objects_live [OF ok same_objects_create assms(3)] show ?thesis by simp
  next
    case (AppendHalf P au u S b)
    with same_objects_live [OF ok same_objects_append assms(3)] show ?thesis by simp
  next
    case (CompleteHalf S P policy ou i stored)
    from unpublished_content(1) [OF sys CompleteHalf(4,5,6) assms(3) live_valid [OF ok assms(3)]] show ?thesis .
  next
    case (DeleteHalf j)
    then have "is_object_key j" "j \<notin> live_keys d" using sys by (auto simp: system_ok_def store_ok_def bytes_ok_def)
    from delete_live [OF ok this assms(3)] DeleteHalf show ?thesis by simp
  next
    case (Late c now)
    with cleanup_live [OF assms(2) Late(4) assms(3)] show ?thesis by simp
  qed simp_all
qed

lemma gone_store: "gone d s u \<Longrightarrow> no_new_file (staging_path u) s s' \<Longrightarrow> gone d s' u"
  by (simp add: gone_def no_new_file_def)

lemma part_step_ok:
  assumes "part_step sha x y" and "part_ok sha x"
  shows "part_ok sha y"
  using assms
proof (induction rule: part_step.induct)
  case (Whole d s d' s' cs)
  then have "drive_ok sha d s" by (simp add: part_ok_def)
  with drive_step_ok [OF Whole(1)] Whole(2,3) gone_whole [OF Whole(1)] show ?case by (auto simp: part_ok_def)
next
  case (StartHalf P policy su d x cs s)
  have "gone d (snd (create_upload (p_now P) (p_ids P 0) s)) u" if "u \<in> withdrawn cs" for u
  proof -
    have u: "gone d s u" using StartHalf(4) that by (simp add: part_ok_def)
    then have "u < 2 ^ 128" by (simp add: gone_def)
    with StartHalf(2,3) that have "no_new_file (staging_path u) s (snd (create_upload (p_now P) (p_ids P 0) s))"
      by (intro no_new_file_create) auto
    with u show ?thesis by (rule gone_store)
  qed
  moreover have "drive_ok sha d (snd (create_upload (p_now P) (p_ids P 0) s))"
    using StartHalf(4) same_objects_live [OF _ same_objects_create] by (auto simp: part_ok_def intro: drive_ok_store)
  ultimately show ?case by (simp add: part_ok_def)
next
  case (AppendHalf P au d u s cs S b)
  then show ?case
    using same_objects_live [OF _ same_objects_append] no_new_file_append
    by (auto simp: part_ok_def intro: drive_ok_store gone_store)
next
  case (CompleteHalf S P policy ou d s i stored s' cs)
  let ?u = "us_id (in_upload i)"
  have ok: "drive_ok sha d s" "system_ok sha d s" using CompleteHalf(5) by (simp_all add: part_ok_def drive_ok_def)
  note comp = completing [OF ok(2) CompleteHalf(2,3)]
  obtain bytes where content: "fs_file s (staging_path ?u) = Some bytes" using comp(6) by blast
  have "gone d s' ?u"
    using publish_upload_success(6) [OF CompleteHalf(4) content] comp(2,3) by (simp add: gone_def)
  moreover have "drive_ok sha d s'"
    using unpublished_content(1) [OF ok(2) CompleteHalf(2,3,4)] live_valid [OF ok(1)] ok(1) by (auto intro: drive_ok_store)
  ultimately show ?case
    using CompleteHalf(5) no_new_file_publish [OF CompleteHalf(4) content] by (auto simp: part_ok_def intro: gone_store)
next
  case (CancelHalf P ou d u d' s cs)
  then show ?case using cancel_half_ok [OF _ CancelHalf(1), of sha s] by (auto simp: part_ok_def gone_def)
next
  case (DeleteHalf k d s cs)
  then have ok: "drive_ok sha d s" by (simp add: part_ok_def)
  then have "is_object_key k" "k \<notin> live_keys d"
    using DeleteHalf(1) by (auto simp: drive_ok_def system_ok_def store_ok_def bytes_ok_def)
  with DeleteHalf ok show ?case
    using delete_live [OF ok] no_new_file_removal(2) by (auto simp: part_ok_def intro: drive_ok_store gone_store)
next
  case (Late c cs d s now)
  have "drive_ok sha d (run_cleanup now c s)"
    using Late(2) cleanup_live [OF Late(2,1)] by (auto simp: part_ok_def intro: drive_ok_store)
  moreover have "gone d (run_cleanup now c s) u" if "u \<in> withdrawn (remove1 c cs)" for u
    using Late(2) that withdrawn_remove1 [of c cs] by (intro gone_store [OF _ no_new_file_cleanup]) (auto simp: part_ok_def)
  ultimately show ?case by (simp add: part_ok_def)
next
  case (Lost c cs d s)
  then show ?case using withdrawn_remove1 [of c cs] by (auto simp: part_ok_def)
qed

lemma part_reachable_ok: "part_reachable sha x \<Longrightarrow> part_ok sha x"
proof (induction rule: part_reachable.induct)
  case (Fresh n)
  show ?case by (simp add: part_ok_def drive_ok_empty)
qed (rule part_step_ok)


text \<open>Whole calls are steps here too.\<close>

lemma reachable_by_parts: "drive_reachable sha x \<Longrightarrow> part_reachable sha (fst x, snd x, [])"
proof (induction rule: drive_reachable.induct)
  case (Installed n)
  show ?case by (simp add: Fresh)
next
  case (Step x y)
  from Next [OF Step(3) Whole] Step(2) show ?case by simp
qed

text \<open>On the sample drive a second upload is begun and fails; its staging file is discarded later, or never.\<close>

definition second_start :: start_cmd where
  "second_start = sample_start\<lparr>su_parent := sample_id 11\<rparr>"

lemma second_start_checks: "\<exists>x. start_checks (sample_ports 8) sample_upload_policy second_start db5 = Inr x"
  by (simp add: second_start_def db1_def db2_def db5_def run_defs)

lemma second_start_half:
  "part_step sample_sha (db5, fs5, []) (db5, snd (create_upload 8 (sample_id 80) fs5), [Discard (sample_id 80)])"
proof -
  obtain x where "start_checks (sample_ports 8) sample_upload_policy second_start db5 = Inr x"
    using second_start_checks by blast
  from StartHalf [OF this, of "[]" sample_sha fs5] show ?thesis
    by (simp add: sample_ports_def) (simp add: sample_id_def)
qed


end
