(* ===== verification/Edge_Cases.thy ===== *)
theory Edge_Cases
  imports Cursor_Properties Tree_Properties Upload_Properties Interruptions
begin

text \<open>
  Runs that end otherwise than one may expect, each from a reachable state or for every state: forged
  cursors, a copy of a folder into itself, tombstones that a restore leaves behind, names that come
  back twice, and the bytes of an upload after an oversized chunk or a failed completion.
\<close>

section \<open>A forged size\<close>

text \<open>
  The key of a cursor ordered by size is any integer. Outside 64 bits the database refuses it, so the
  answer is a failure of persistence and not the refusal of an invalid cursor.
\<close>

theorem forged_size_fails_in_the_database:
  assumes "cursor_texts T" and "i < 2 ^ 128" and "convertible_int n" and "\<not> sendable_int n"
    and "page_limit_ok limit" and "cq_sort q = SortSize"
    and "validate_filters (normalized_filters U (cq_filters q)) = Inr ()"
    and "get_folder U d (cq_parent q) False = Inr (Some f)" and "e_owner f = cq_owner q"
  shows "list_folder_entries U T C q limit
    (Some (encode_cursor T SortSize (cq_direction q) (SizeKey n, i))) d = Inl PersistenceFailure"
proof -
  have texts: "ht_text T (code_points t) = t" for t using assms(1) by (simp add: cursor_texts_def)
  have "decode_cursor T (Some (encode_cursor T SortSize (cq_direction q) (SizeKey n, i))) SortSize (cq_direction q) =
      Inr (Some (SizeKey n, i))"
    by (simp add: decode_cursor_def cursor_fields_encode first_version_def dict_get_def equals_one_def field_is_def
        text_field_def texts as_validation_def uuid_parse_str [OF assms(2)] cursor_key_def py_int_py_str [OF assms(3)])
  with assms(4-9) show ?thesis
    by (simp add: list_folder_entries_def folder_entries_page_def list_children_def rbind_def require_def Let_def)
qed

section \<open>A folder copied into itself\<close>

text \<open>The folder of the sample drive, copied into itself: the copy holds a copy of itself.\<close>

definition copy_inside :: copy_cmd where
  "copy_inside = \<lparr>cp_owner = sample_id 10, cp_entry = sample_id 20, cp_destination = sample_id 20, cp_new_name = None\<rparr>"

theorem copy_into_itself_adds_two_folders:
  "db_entries (snd (copy_entry (sample_ports 8) copy_inside db2)) =
     db_entries db2 @ [folder_row 80 (Some 20) ''Docs'' ''docs'' 8, folder_row 81 (Some 80) ''Docs'' ''docs'' 8]"
  by (simp add: copy_entry_def copy_entry_tx_def copy_folder_tree_def stream_subtree_def subtree_rows_def get_current_versions_batch_def
    copy_target_name_def copy_inside_def db1_def db2_def run_defs)

section \<open>A tombstone that stays behind\<close>

text \<open>
  The file of the sample drive is trashed, then its folder, then the folder is restored. The file is back,
  its tombstone is still there, and from then on the file can neither be trashed again nor its
  tombstone restored or purged.
\<close>

definition file_tombstone :: trash_item where
  "file_tombstone = \<lparr>ti_id = sample_id 60, ti_entry = sample_id 50, ti_original_parent = sample_id 20,
     ti_deleted_by = sample_id 10, ti_trashed_at = 6\<rparr>"

definition stray1 :: db where
  "stray1 = db5\<lparr>db_entries := db_entries db2 @ [file_row\<lparr>r_deleted := Some 6\<rparr>], db_trash := [file_tombstone]\<rparr>"

definition stray2 :: db where
  "stray2 = db5\<lparr>db_entries := [folder_row 11 None ''Drive'' ''drive'' 1,
      (folder_row 20 (Some 11) ''Docs'' ''docs'' 2)\<lparr>r_deleted := Some 7\<rparr>, file_row\<lparr>r_deleted := Some 7\<rparr>],
      db_trash := [file_tombstone, \<lparr>ti_id = sample_id 70, ti_entry = sample_id 20, ti_original_parent = sample_id 11,
        ti_deleted_by = sample_id 10, ti_trashed_at = 7\<rparr>]\<rparr>"

definition stray3 :: db where
  "stray3 = db5\<lparr>db_entries := [folder_row 11 None ''Drive'' ''drive'' 1,
      (folder_row 20 (Some 11) ''Docs'' ''docs'' 2)\<lparr>r_updated := 8\<rparr>, file_row\<lparr>r_updated := 8\<rparr>],
      db_trash := [file_tombstone]\<rparr>"

definition trash_file :: trash_cmd where
  "trash_file = \<lparr>tr_owner = sample_id 10, tr_entry = sample_id 50\<rparr>"

lemmas stray_defs = stray1_def stray2_def stray3_def db1_def db2_def db5_def file_tombstone_def trash_file_def
  trash_entry_def trash_entry_tx_def restore_entry_def restore_entry_tx_def permanently_delete_def permanently_delete_tx_def
  entry_restore_def save_entry_def restore_subtree_def

lemma stray_first: "snd (trash_entry (sample_ports 6) trash_file db5) = stray1"
  by (simp add: stray_defs run_defs)

lemma stray_second: "snd (trash_entry (sample_ports 7) sample_trash stray1) = stray2"
  by (auto simp add: stray_defs run_defs)

lemma stray_third:
  "snd (restore_entry (sample_ports 8) \<lparr>rs_owner = sample_id 10, rs_trash_item = sample_id 70, rs_destination = None\<rparr> stray2) = stray3"
  by (auto simp add: stray_defs run_defs)

lemma stray_ends:
  "fst (trash_entry (sample_ports 9) trash_file stray3) = Inl PersistenceFailure"
  "fst (restore_entry (sample_ports 9) \<lparr>rs_owner = sample_id 10, rs_trash_item = sample_id 60, rs_destination = None\<rparr> stray3) =
     Inl InvalidStateTransition"
  "fst (permanently_delete (sample_ports 9) \<lparr>pg_owner = sample_id 10, pg_trash_item = sample_id 60\<rparr> stray3) =
     Inl InvalidStateTransition"
  by (auto simp add: stray_defs run_defs)

theorem restored_entries_keep_their_tombstones:
  "drive_reachable sample_sha (stray3, fs5)"
  "file_row\<lparr>r_updated := 8\<rparr> \<in> set (db_entries stray3)" "file_tombstone \<in> set (db_trash stray3)"
  "fst (trash_entry (sample_ports 9) trash_file stray3) = Inl PersistenceFailure"
  "fst (restore_entry (sample_ports 9) \<lparr>rs_owner = sample_id 10, rs_trash_item = sample_id 60, rs_destination = None\<rparr> stray3) =
     Inl InvalidStateTransition"
  "fst (permanently_delete (sample_ports 9) \<lparr>pg_owner = sample_id 10, pg_trash_item = sample_id 60\<rparr> stray3) =
     Inl InvalidStateTransition"
proof -
  have "drive_reachable sample_sha (stray1, fs5)"
    using drive_reachable.Step [OF sample_reachable(3) Tree [where P = "sample_ports 6" and tc = "MoveToTrash trash_file"]]
    by (simp add: stray_first)
  then have "drive_reachable sample_sha (stray2, fs5)"
    using drive_reachable.Step [OF _ Tree [where P = "sample_ports 7" and tc = "MoveToTrash sample_trash"]]
    by (metis exec_tree.simps(5) stray_second)
  then show "drive_reachable sample_sha (stray3, fs5)"
    using drive_reachable.Step [OF _ Tree [where P = "sample_ports 8" and
      tc = "Restore \<lparr>rs_owner = sample_id 10, rs_trash_item = sample_id 70, rs_destination = None\<rparr>"]]
    by (metis exec_tree.simps(6) stray_third)
  show "file_row\<lparr>r_updated := 8\<rparr> \<in> set (db_entries stray3)" "file_tombstone \<in> set (db_trash stray3)"
    by (simp_all add: stray3_def)
qed (rule stray_ends)+

section \<open>Two entries of one name\<close>

text \<open>
  A folder in Docs is trashed, another of its name is made beside, and Docs is trashed: the restore of Docs
  would bring back both, which the database refuses. It is not reported as a conflict of names.
\<close>

definition make_docs :: create_folder_cmd where
  "make_docs = \<lparr>cf_owner = sample_id 10, cf_parent = sample_id 20, cf_name = ''Docs''\<rparr>"

definition twins :: db where
  "twins = db2\<lparr>db_entries := [folder_row 11 None ''Drive'' ''drive'' 1,
      (folder_row 20 (Some 11) ''Docs'' ''docs'' 2)\<lparr>r_deleted := Some 6\<rparr>,
      (folder_row 30 (Some 20) ''Docs'' ''docs'' 3)\<lparr>r_deleted := Some 6\<rparr>,
      (folder_row 50 (Some 20) ''Docs'' ''docs'' 5)\<lparr>r_deleted := Some 6\<rparr>],
      db_trash := [\<lparr>ti_id = sample_id 40, ti_entry = sample_id 30, ti_original_parent = sample_id 20,
          ti_deleted_by = sample_id 10, ti_trashed_at = 4\<rparr>,
        \<lparr>ti_id = sample_id 60, ti_entry = sample_id 20, ti_original_parent = sample_id 11,
          ti_deleted_by = sample_id 10, ti_trashed_at = 6\<rparr>]\<rparr>"

lemma twins_made:
  "snd (trash_entry (sample_ports 6) sample_trash
    (snd (create_folder (sample_ports 5) make_docs
    (snd (trash_entry (sample_ports 4) \<lparr>tr_owner = sample_id 10, tr_entry = sample_id 30\<rparr>
    (snd (create_folder (sample_ports 3) make_docs db2))))))) = twins"
  by (simp add: create_folder_def create_folder_tx_def make_docs_def twins_def stray_defs run_defs)

theorem twins_cannot_be_restored:
  "fst (restore_entry (sample_ports 7) \<lparr>rs_owner = sample_id 10, rs_trash_item = sample_id 60, rs_destination = None\<rparr> twins) =
     Inl PersistenceFailure"
  by (auto simp: twins_def stray_defs run_defs)

section \<open>What an oversized chunk leaves\<close>

text \<open>
  The body brings one byte more than the file may have. The append is refused, but what came before stays
  in the staging file; the next append at the confirmed offset fails and repairs it, the one after that
  succeeds.
\<close>

definition oversized_append :: append_cmd where
  "oversized_append = \<lparr>au_owner = sample_id 10, au_upload = sample_id 30, au_offset = 0,
     au_body = \<lparr>bs_chunks = [''hell'', ''o!''], bs_error = None\<rparr>\<rparr>"

definition fs_left :: fs where
  "fs_left = \<lparr>fs_nodes = [(staging_path (sample_id 30), RegFile ''hell'' 4), ([''objects''], DirNode), ([''staging''], DirNode)],
     fs_dir_size = 4096\<rparr>"

lemma oversized_coalesced [run_defs]:
  "coalesced 4 \<lparr>bs_chunks = [''hell''], bs_error = Some UploadValidation\<rparr> = [''hell'']"
  by code_simp

theorem oversized_chunk_leaves_bytes:
  "append_upload (sample_ports 4) sample_upload_services sample_upload_policy oversized_append db3 fs3 =
     (Inl UploadValidation, db3, fs_left)"
  "append_upload (sample_ports 4) sample_upload_services sample_upload_policy sample_append db3 fs_left =
     (Inl FileStorageFailure, db3, fs3\<lparr>fs_nodes := (staging_path (sample_id 30), RegFile [] 4) # tl (fs_nodes fs3)\<rparr>)"
  by (simp_all add: oversized_append_def fs_left_def truncated_def db1_def db2_def db3_def fs3_def run_defs)

section \<open>A rollback that comes too late\<close>

text \<open>
  An append that fails after it wrote to the staging file takes its bytes back when its transaction has
  ended and the row lock is free. Here the first request has an empty body: its first half writes
  nothing and fails. Before its second half runs, another request appends the whole file and has it
  confirmed. The second half then cuts the confirmed bytes off.
\<close>

definition empty_body :: body_stream where
  "empty_body = \<lparr>bs_chunks = [], bs_error = None\<rparr>"

lemma empty_coalesced: "coalesced 4 empty_body = []"
  unfolding empty_body_def by code_simp

lemma empty_append_first_half:
  "append_chunk 4 no_faults 3 (sample_id 30) 0 empty_body fs3 = (Inr 0, fs3)"
  by (simp add: append_chunk_def fs3_def run_defs empty_coalesced [unfolded empty_body_def] empty_body_def)

lemma empty_append_checks:
  "append_checks (sample_ports 3) \<lparr>au_owner = sample_id 10, au_upload = sample_id 30, au_offset = 0, au_body = empty_body\<rparr> db3 =
    Inr (upload_row 0 Created None 3)"
  by (simp add: db1_def db2_def db3_def run_defs)

lemma empty_append_refused:
  "record_chunk (sample_ports 3) (upload_row 0 Created None 3) 0 0 db3 = Inl UploadValidation"
  by (simp add: run_defs)

lemma late_truncation:
  "fs_file (snd (truncate_upload 5 (sample_id 30) 0 fs4)) (staging_path (sample_id 30)) = Some []"
  by (simp add: truncate_upload_def fs4_def truncated_def run_defs)

theorem late_rollback_cuts_confirmed_bytes:
  "part_reachable sample_sha (db4, run_cleanup 5 (CutBack (sample_id 30) 0) fs4, [])"
  "upload_row 5 Uploading None 4 \<in> set (db_uploads db4)"
  "fs_file (run_cleanup 5 (CutBack (sample_id 30) 0) fs4) (staging_path (sample_id 30)) = Some []"
proof -
  have "part_reachable sample_sha (db3, fs3, [])" using reachable_by_parts [OF sample_reachable(6)] by simp
  from Next [OF this AppendHalf [OF empty_append_checks, of sample_sha fs3 "[]" sample_upload_services empty_body]]
  have "part_reachable sample_sha (db3, fs3, [CutBack (sample_id 30) 0])"
    using empty_append_first_half by (simp add: sample_ports_def upload_row_def sample_services_simps)
  from Next [OF this Whole [OF Append [OF sample_append_upload]]]
  have "part_reachable sample_sha (db4, fs4, [CutBack (sample_id 30) 0])" by simp
  from Next [OF this Late [of "CutBack (sample_id 30) 0" _ _ _ _ 5]]
  show "part_reachable sample_sha (db4, run_cleanup 5 (CutBack (sample_id 30) 0) fs4, [])" by simp
qed (use late_truncation in \<open>simp_all add: db4_def\<close>)

section \<open>A completion that cannot be recorded\<close>

text \<open>
  When the file was published and the transaction that records it fails, the object is deleted. The staging
  file was moved there, so nothing is left of the confirmed bytes, and the session is as before.
\<close>

theorem failed_record_loses_the_bytes:
  assumes "complete_checks P S policy c d s = Inr i"
    and "publish_upload (us_id (in_upload i)) (in_size i) s = (Inr stored, s1)"
    and "record_completion P i stored d = Inl e"
    and "fs_file s (staging_path (us_id (in_upload i))) = Some content"
  shows "\<exists>s2. complete_upload P S policy c d s = (Inl e, d, s2)
    \<and> fs_file s2 (staging_path (us_id (in_upload i))) = None
    \<and> object_content s2 (object_key (us_id (in_upload i))) = None"
proof -
  note P = publish_upload_success [OF assms(2,4)]
  obtain p where p: "key_path (object_key (us_id (in_upload i))) = Inr p" "p \<noteq> []" by (simp add: object_key_path)
  with P(4) have "fs_file s1 p = Some content" by (simp add: object_content_def)
  then have "\<not> is_dir s1 p" using p(2) by (auto simp: is_dir_def fs_file_def split: option.splits fs_node.splits)
  then have "delete_object (so_key stored) s1 = (Inr (), fs_remove p s1)"
    by (simp add: delete_object_def P(1) p(1) unlink_missing_ok_def)
  then show ?thesis
    by (simp add: complete_upload_def assms(1-3) object_content_def p(1) P(6))
qed

end
