(* ===== verification/Spec2Isabelle.thy ===== *)
theory Spec2Isabelle
  imports Drive_Properties Tree_Properties Upload_Properties Outbox_Properties Auth_Properties
    Delivery_Properties Listing Uuid7 Unit_Of_Work Http_Errors Api_Properties Cache_Properties Settings
    Migration_Properties Root_Provisioning Preflight Worker_Progress Cursor_Properties Edge_Cases
begin

text \<open>
  DriveMPVD is a private file drive: a FastAPI service over PostgreSQL for the metadata and over a local
  directory for the bytes. This development models its backend (\<open>src/backend/app\<close>) by functions on
  explicit states and proves what the service promises.

  \<^bold>\<open>How the parts interact.\<close> A use case runs in one unit of work: it reads and writes the database
  through repositories, commits at its end, and rolls back on any error. So a use case is a function
  from the database to a result and the next database; the uploads, the downloads and the deletion
  worker also transform the file store. The parts meet in two places. An upload that completes
  publishes its staged file as an object and records the object, the file entry, its metadata and
  its first version. A purge only deletes rows and leaves a message in the outbox; the worker
  later detaches objects nothing refers to, and only then deletes their bytes.

  \<^bold>\<open>States.\<close> \<open>Database.thy\<close>: the tables as lists of records, one record per table row
  (\<open>infrastructure/persistence/models/*\<close>), with the CHECK, UNIQUE and FOREIGN KEY constraints
  as the conditions of every write; a write that breaks one is the error \<open>PersistenceFailure\<close>.
  \<open>File_Store.thy\<close>: the storage root as a map from paths to files and directories. Errors are the
  datatype \<open>error\<close> of \<open>Prelude.thy\<close>, results are \<open>error + 'a\<close>. Clocks, identifiers, Unicode tables,
  SHA-256, Argon2, the JWT library, the MIME table of the platform, the collation and write faults
  of the file system are parameters (records of functions, one per port of the code).

  \<^bold>\<open>Theories and sources.\<close>
  \<^item> \<open>Prelude\<close>: identifiers and their text, errors, results, Python string functions, tables.
  \<^item> \<open>Storage_Domain\<close>, \<open>Auth_Domain\<close>: \<open>domain/storage\<close>, \<open>domain/auth\<close>: value objects, entities and
    their transitions; \<open>unicode_laws\<close> names what the code takes for granted of Unicode.
  \<^item> \<open>Database\<close>, \<open>Entry_Tree\<close>, \<open>Storage_Repository\<close>, \<open>Outbox_Repository\<close>, \<open>Auth_Repository\<close>,
    \<open>Activity\<close>, \<open>Listing\<close>: \<open>infrastructure/persistence\<close>; the recursive SQL queries are rounds with
    fuel, the paged queries instances of the locale \<open>paged_query\<close> of \<open>Paging\<close>.
  \<^item> \<open>Unit_Of_Work\<close>: \<open>infrastructure/persistence/unit_of_work.py\<close>, with the driver failures.
  \<^item> \<open>Storage_Actions\<close>, \<open>Storage_Outbox\<close>, \<open>Uploads\<close>, \<open>Downloads\<close>: \<open>application/use_cases/storage\<close> and
    \<open>presentation/file_delivery.py\<close>; \<open>Byte_Ranges\<close> and \<open>Header_Text\<close> hold the parsing of headers,
    \<open>Mime_Detection\<close> \<open>infrastructure/storage/mime.py\<close>.
  \<^item> \<open>File_Store\<close>: \<open>infrastructure/storage/local.py\<close>; the locale \<open>object_store\<close> is the contract the
    worker relies on, interpreted on the model of the local store. \<open>Store_Inventory\<close>: its two
    inventory listings, which walk the directories.
  \<^item> \<open>Tokens\<close>, \<open>Auth_Use_Cases\<close>: \<open>infrastructure/security\<close>, \<open>application/use_cases/auth\<close>.
  \<^item> \<open>Uuid7\<close>: the identifier generator; \<open>Http_Errors\<close>: \<open>presentation/errors/handlers.py\<close>.
  \<^item> \<open>Uuid_Text\<close>, \<open>Json_Text\<close>: what the code uses of the standard library for identifiers and cursors: reading
    UUIDs, JSON, base64 and the text encodings that JSON allows; \<open>Cursor_Text\<close>: the cursor texts and the
    listing use cases of \<open>application/use_cases/storage/queries.py\<close> and \<open>.../activity.py\<close>.
  \<^item> \<open>Http_Requests\<close>, \<open>Http_Cache\<close>, \<open>Api_Schemas\<close>, \<open>Api_Routes\<close>: the HTTP interface (\<open>presentation/middleware\<close>,
    \<open>presentation/auth.py\<close>, \<open>presentation/http_cache.py\<close>, \<open>presentation/schemas\<close>, \<open>presentation/api\<close>):
    credentials and CSRF condition, validation of requests, every route, headers and bodies of
    responses. \<open>handle_request\<close> takes one request through the middlewares, its route and the error
    handlers, on the same database and file store as the use cases.
  \<^item> \<open>Settings\<close>: \<open>infrastructure/config/settings.py\<close> and the policies derived from the settings;
    \<open>Preflight\<close>: \<open>docker/preflight.py\<close>, the checks of a production environment file.
  \<^item> \<open>Schema_Language\<close>, \<open>Migrations\<close>, \<open>Schema_Models\<close>: \<open>alembic/versions\<close> and the declarations in
    \<open>infrastructure/persistence/models\<close> as values, with the statements of the migrations as
    operations on a schema that can fail; \<open>Root_Provisioning\<close>: the migration that writes rows.
  \<^item> \<open>Command_Line\<close>: \<open>infrastructure/cli\<close>, the two administrator commands and the outbox worker from its
    arguments to its polling loop, one pair of ports per round.

  \<^bold>\<open>Groups of lemmas.\<close>
  \<^item> \<open>Storage_Invariant\<close>: \<open>storage_ok\<close> (constraints, well-formed tree, files with metadata and current
    version, tombstones that cover every deleted entry) and that each write keeps it;
    \<open>Tree_Commands\<close>: that each command of the tree does.
  \<^item> \<open>Upload_Safety\<close>, \<open>Content_Description\<close>, \<open>System_Invariant\<close>, \<open>Account_Frames\<close>: each use case keeps the
    invariant of rows and bytes together: every object has bytes under its key, of the recorded
    length and digest, pending deletions name no live key, no upload reuses one.
  \<^item> \<open>System\<close>: all calls as the step relation \<open>drive_step\<close> on a database and a file store, \<open>drive_reachable\<close>
    from an empty installation, and the invariant of the reachable states by rule induction. The
    relation interleaves whole calls, as the serializing row locks of the code allow; what the code does
    after its lock is free is split off in \<open>Interruptions\<close>.
  \<^item> \<open>Samples\<close>: a concrete run from the empty installation over a folder, an upload, the trash and a purge;
    the witnesses of the properties use its states.
  \<^item> \<open>Drive_Properties\<close>, \<open>Tree_Properties\<close>, \<open>Upload_Properties\<close>, \<open>Outbox_Properties\<close>, \<open>Auth_Properties\<close>,
    \<open>Delivery_Properties\<close>: the properties, with those stated beside their component in
    \<open>Auth_Domain\<close>, \<open>Downloads\<close>, \<open>Uuid7\<close>, \<open>Unit_Of_Work\<close>, \<open>Http_Errors\<close>, \<open>Settings\<close>, \<open>Preflight\<close> and
    \<open>Root_Provisioning\<close>.
  \<^item> \<open>Api_Properties\<close>: requests are steps of the drive, so its invariant holds behind the interface;
    who may change what; the cookies of a login come back as credentials. \<open>Cache_Properties\<close>: when a
    listing is answered with 304, and what its tag does not see. \<open>Cursor_Properties\<close>: cursors come back,
    following them is the whole listing, and when a name is too long for that. \<open>Api_Samples\<close>: the sample drive
    behind its interface, for the witnesses.
  \<^item> \<open>Store_Inventory\<close> also proves the shape of a reachable store (\<open>neat\<close>): files stand where objects and
    staged uploads stand, so the inventories are complete. \<open>Worker_Progress\<close>: what a run of the worker
    leaves to do, and that rounds bring it to nothing.
  \<^item> \<open>Interruptions\<close>: upload calls split into their halves, with clean-ups that run late or never, as
    the relation \<open>part_step\<close>; the invariant of rows and bytes holds there too.
  \<^item> \<open>Edge_Cases\<close>: runs with an unexpected end, such as a copy of a folder into itself, tombstones left by a
    restore and what an oversized chunk leaves behind.
  \<^item> \<open>Migration_Properties\<close>: the upgrades build the schema of the models, the downgrades undo them; both
    by evaluating the scripts.

  \<^bold>\<open>Fuel.\<close> The recursive queries run for one round more than there are entries; on an acyclic table
  that is enough, because each round climbs down one level (\<open>subtree_cte_terminates\<close>), and the
  invariant keeps the table acyclic (\<open>tree_queries_end\<close>). Running out of fuel stands for a query that does
  not end and is an error. The walk over pages has the number of pages as fuel; \<open>walk_all\<close> says how
  many suffice. The deletion cycle recurses on the number of events it may still take, as the
  loop of the code does. The polling loop of the worker never returns; its model runs a given list of
  rounds, and \<open>backlog\<close> says after how many of them nothing is left to do. The walk over a directory
  ends because each visited directory is replaced by deeper ones. The JSON reader gets twice the length
  of the text as fuel; \<open>json_fuel\<close> says that more changes nothing.

  \<^bold>\<open>Not modelled.\<close> Locking (\<open>FOR UPDATE\<close>, \<open>SKIP LOCKED\<close>) and the interleaving of two open transactions;
  leases and heartbeats of the worker; metrics and logs; the framework's own parsing
  of requests, the OpenAPI document; construction of objects, the
  database engine and the environment in which migrations run; the frontend, the shell scripts of the
  deployment and the benchmarks. Text is a list of 8-bit characters; lengths are lengths of these
  lists. SQL expressions in the schema (conditions, defaults) are texts.
\<close>

end
